(* ===== verification/Prelude.thy ===== *)
theory Prelude
  imports Main "HOL-Library.AList" "HOL-Library.Multiset" "HOL-Library.List_Lexorder"
begin

text \<open>
  Shared vocabulary of the development: the error values Python code can raise, the result
  type of fallible code with its two combinators, loops that stop at the first error, and
  insertion-ordered dictionaries. Every component theory builds on it.
\<close>

section \<open>Named collections\<close>

named_theorems res_simps \<open>how the combinators of fallible code compute\<close>
named_theorems dict_simps \<open>reads after writes on dictionaries\<close>

section \<open>Errors and results\<close>

text \<open>
  The exceptions the modelled code raises. The string is the fixed part of the message, which
  identifies the \<open>raise\<close> statement; interpolated values are left out.
  \<open>ValueError\<close>, \<open>TypeError\<close>, \<open>KeyError\<close>, \<open>OverflowError\<close>, \<open>OSError\<close>, \<open>RecursionError\<close>, \<open>EOFError\<close>,
  \<open>AssertionError\<close>, \<open>IndexError\<close> and \<open>RuntimeError\<close> are Python's and \<open>StructError\<close> is \<open>struct.error\<close>; the others
  are the classes the package declares.
\<close>

datatype pyerr =
    ValueError string
  | TypeError string
  | KeyError string
  | OverflowError
  | OSError string
  | RecursionError
  | EOFError
  | O2PolicyDeniedError string
  | O2PolicyInvalidError string
  | O2PolicyConflictError string
  | O2LoginGrantError string
  | BrokerProtocolError string
  | AssertionError
  | IndexError
  | RuntimeError string
  | SubmissionUncertain string
  | SubmissionRejected string
  | DuplicateSubmissionError string
  | StructError

type_synonym 'a res = "pyerr + 'a"

definition bind :: "'a res \<Rightarrow> ('a \<Rightarrow> 'b res) \<Rightarrow> 'b res" where
  "bind m f = (case m of Inl e \<Rightarrow> Inl e | Inr x \<Rightarrow> f x)"

definition ensure :: "bool \<Rightarrow> pyerr \<Rightarrow> unit res" where
  "ensure b e = (if b then Inr () else Inl e)"

fun mapR :: "('a \<Rightarrow> 'b res) \<Rightarrow> 'a list \<Rightarrow> 'b list res" where
  "mapR f [] = Inr []"
| "mapR f (x # xs) = bind (f x) (\<lambda>y. bind (mapR f xs) (\<lambda>ys. Inr (y # ys)))"

fun forR :: "('a \<Rightarrow> unit res) \<Rightarrow> 'a list \<Rightarrow> unit res" where
  "forR f [] = Inr ()"
| "forR f (x # xs) = bind (f x) (\<lambda>_. forR f xs)"

text \<open>A loop that threads a state and stops at the first error.\<close>

fun foldR :: "('a \<Rightarrow> 's \<Rightarrow> 's res) \<Rightarrow> 'a list \<Rightarrow> 's \<Rightarrow> 's res" where
  "foldR f [] s = Inr s"
| "foldR f (x # xs) s = bind (f x s) (\<lambda>s'. foldR f xs s')"

definition optR :: "('a \<Rightarrow> unit res) \<Rightarrow> 'a option \<Rightarrow> unit res" where
  "optR f v = (case v of None \<Rightarrow> Inr () | Some x \<Rightarrow> f x)"

lemma bind_Inl [simp, res_simps]: "bind (Inl e) f = Inl e"
  by (simp add: bind_def)

lemma bind_Inr [simp, res_simps]: "bind (Inr x) f = f x"
  by (simp add: bind_def)

lemma bind_eq_Inr [simp, res_simps]:
  "bind m f = Inr y \<longleftrightarrow> (\<exists>x. m = Inr x \<and> f x = Inr y)"
  by (cases m) auto

lemma bind_eq_Inl [res_simps]:
  "bind m f = Inl e \<longleftrightarrow> m = Inl e \<or> (\<exists>x. m = Inr x \<and> f x = Inl e)"
  by (cases m) auto

lemma ensure_True [simp, res_simps]: "ensure True e = Inr ()"
  by (simp add: ensure_def)

lemma ensure_False [simp, res_simps]: "ensure False e = Inl e"
  by (simp add: ensure_def)

lemma ensure_eq_Inr [simp, res_simps]: "ensure b e = Inr u \<longleftrightarrow> b"
  by (simp add: ensure_def)

lemma ensure_eq_Inl [simp, res_simps]: "ensure b e = Inl e' \<longleftrightarrow> \<not> b \<and> e' = e"
  by (auto simp: ensure_def)

lemma ensure_bind_Inr [simp, res_simps]:
  "bind (ensure b e) f = Inr y \<longleftrightarrow> b \<and> f () = Inr y"
  by (auto simp: ensure_def)

lemma mapR_eq_Inr: "mapR f xs = Inr ys \<longleftrightarrow> list_all2 (\<lambda>x y. f x = Inr y) xs ys"
  by (induction xs arbitrary: ys) (auto simp: list_all2_Cons1)

lemma mapR_source: "mapR f xs = Inr ys \<Longrightarrow> y \<in> set ys \<Longrightarrow> \<exists>x \<in> set xs. f x = Inr y"
  by (induction xs arbitrary: ys) auto

lemma mapR_target: "mapR f xs = Inr ys \<Longrightarrow> x \<in> set xs \<Longrightarrow> \<exists>y \<in> set ys. f x = Inr y"
  by (induction xs arbitrary: ys) auto

lemma mapR_map_Inr: "(\<And>x. x \<in> set xs \<Longrightarrow> f (g x) = Inr (h x)) \<Longrightarrow> mapR f (map g xs) = Inr (map h xs)"
  by (induction xs) auto

text \<open>Congruence: only the calls that are made matter.\<close>

lemma bind_cong: "m = m' \<Longrightarrow> (\<And>x. m' = Inr x \<Longrightarrow> f x = g x) \<Longrightarrow> bind m f = bind m' g"
  by (cases m') auto

lemma mapR_cong: "(\<And>x. x \<in> set xs \<Longrightarrow> f x = g x) \<Longrightarrow> mapR f xs = mapR g xs"
  by (induction xs) auto

lemma forR_cong: "(\<And>x. x \<in> set xs \<Longrightarrow> f x = g x) \<Longrightarrow> forR f xs = forR g xs"
  by (induction xs) auto

lemma forR_eq_Inr [simp]: "forR f xs = Inr u \<longleftrightarrow> (\<forall>x \<in> set xs. f x = Inr ())"
  by (induction xs) auto

text \<open>A property of the value of an optional field, if it is there.\<close>

definition opt_ok :: "('a \<Rightarrow> bool) \<Rightarrow> 'a option \<Rightarrow> bool" where
  "opt_ok P v \<longleftrightarrow> (case v of None \<Rightarrow> True | Some s \<Rightarrow> P s)"

lemma opt_ok_simps [simp]: "opt_ok P None" "opt_ok P (Some s) = P s"
  by (simp_all add: opt_ok_def)

lemma opt_ok_mono: "opt_ok P v \<Longrightarrow> (\<And>s. P s \<Longrightarrow> Q s) \<Longrightarrow> opt_ok Q v"
  by (cases v) auto

lemma optR_eq_Inr [simp]: "optR f v = Inr u \<longleftrightarrow> opt_ok (\<lambda>s. f s = Inr ()) v"
  by (cases v) (auto simp: optR_def)

lemma not_Inr_unit [simp]: "(\<forall>u. m \<noteq> Inr (u :: unit)) \<longleftrightarrow> (\<exists>e. m = Inl e)"
  by (cases m) auto

section \<open>Dictionaries\<close>

text \<open>
  A Python dictionary is an association list in insertion order with distinct keys:
  assignment to a present key replaces its value in place, to an absent key appends.
\<close>

type_synonym ('k, 'v) dict = "('k \<times> 'v) list"

definition dget :: "('k, 'v) dict \<Rightarrow> 'k \<Rightarrow> 'v option" where
  "dget d k = map_of d k"

definition dset :: "'k \<Rightarrow> 'v \<Rightarrow> ('k, 'v) dict \<Rightarrow> ('k, 'v) dict" where
  "dset k v d = AList.update k v d"

definition dkeys :: "('k, 'v) dict \<Rightarrow> 'k set" where
  "dkeys d = fst ` set d"

definition dict_ok :: "('k, 'v) dict \<Rightarrow> bool" where
  "dict_ok d \<longleftrightarrow> distinct (map fst d)"

lemma dget_Nil [simp, dict_simps]: "dget [] k = None"
  by (simp add: dget_def)

lemma dget_Cons [simp, dict_simps]: "dget ((k', v) # d) k = (if k' = k then Some v else dget d k)"
  by (simp add: dget_def)

lemma dget_append [simp, dict_simps]:
  "dget (d @ d') k = (case dget d k of None \<Rightarrow> dget d' k | Some v \<Rightarrow> Some v)"
  by (simp add: dget_def map_add_def split: option.splits)

lemma dget_dset [simp, dict_simps]: "dget (dset k v d) k' = (if k' = k then Some v else dget d k')"
  by (simp add: dget_def dset_def update_conv)

lemma dkeys_dset [simp, dict_simps]: "dkeys (dset k v d) = insert k (dkeys d)"
  by (simp add: dkeys_def dset_def dom_update)

lemma dict_ok_dset [simp, intro]: "dict_ok d \<Longrightarrow> dict_ok (dset k v d)"
  by (simp add: dict_ok_def dset_def distinct_update)

lemma dget_None_iff: "dget d k = None \<longleftrightarrow> k \<notin> dkeys d"
  by (simp add: dget_def dkeys_def map_of_eq_None_iff)

lemma dkeys_simps [simp, dict_simps]: "dkeys [] = {}" "dkeys ((k, v) # d) = insert k (dkeys d)"
  "dkeys (d @ d') = dkeys d \<union> dkeys d'"
  by (auto simp: dkeys_def)

section \<open>Bounded and duplicate-free lists\<close>

text \<open>\<open>del xs[:-n]\<close>: keep the last \<open>n\<close> entries.\<close>

definition keep_last :: "nat \<Rightarrow> 'a list \<Rightarrow> 'a list" where
  "keep_last n xs = drop (length xs - n) xs"

lemma length_keep_last: "length (keep_last n xs) = min n (length xs)"
  by (simp add: keep_last_def)

lemma keep_last_snoc: "0 < n \<Longrightarrow> \<exists>ys. keep_last n (xs @ [x]) = ys @ [x]"
  by (auto simp: keep_last_def)

text \<open>\<open>len(set(xs)) != len(xs)\<close> holds exactly when a value repeats.\<close>

lemma card_set_distinct: "card (set xs) = length xs \<longleftrightarrow> distinct xs"
  by (metis card_distinct distinct_card)

lemma sort_key_perm_unique:
  "mset xs = mset ys \<Longrightarrow> inj_on f (set xs) \<Longrightarrow> sort_key f xs = sort_key f ys"
  by (rule sort_key_inj_key_eq) auto

lemma sort_key_map: "sort_key g (map h xs) = map h (sort_key (\<lambda>x. g (h x)) xs)"
proof -
  have ins: "insort_key g (h x) (map h ys) = map h (insort_key (\<lambda>x. g (h x)) x ys)" for x ys
    by (induction ys) auto
  show ?thesis by (induction xs) (simp_all add: ins)
qed

end
