(* ===== verification/Py_Text.thy ===== *)
theory Py_Text
  imports Prelude "HOL-Library.Char_ord"
begin

text \<open>
  Python text as the code sees it: a string is a sequence of Unicode code points, which may
  include unpaired surrogates. The theory holds the string operations the package uses
  (\<open>split\<close>, \<open>join\<close>, \<open>strip\<close>, \<open>isdigit\<close>, \<open>int\<close>, formatting of integers), the character
  classes of its regular expressions, and the \<open>posixpath\<close> functions of the standard library.
\<close>

section \<open>Strings\<close>

type_synonym ustr = "nat list"

definition lit :: "string \<Rightarrow> ustr" where
  "lit s = map of_char s"

lemma lit_eq_iff [simp]: "lit s = lit t \<longleftrightarrow> s = t"
proof -
  have "inj (of_char :: char \<Rightarrow> nat)" by (simp add: inj_on_def)
  then show ?thesis unfolding lit_def by (simp add: inj_map_eq_map)
qed

lemma lit_eq_Nil [simp]: "lit s = [] \<longleftrightarrow> s = []" "[] = lit s \<longleftrightarrow> s = []"
  by (auto simp: lit_def)

lemma lit_append: "lit (s @ t) = lit s @ lit t"
  by (simp add: lit_def)

lemma length_lit [simp]: "length (lit s) = length s"
  by (simp add: lit_def)

definition ch :: "char \<Rightarrow> nat" where
  "ch c = of_char c"

lemma ch_eq_iff [simp]: "ch c = ch d \<longleftrightarrow> c = d"
  by (simp add: ch_def)

lemma lit_Cons: "lit (c # s) = ch c # lit s"
  by (simp add: lit_def ch_def)

definition startswith :: "ustr \<Rightarrow> ustr \<Rightarrow> bool" where
  "startswith s p \<longleftrightarrow> take (length p) s = p"

lemma startswith_iff: "startswith s p \<longleftrightarrow> (\<exists>t. s = p @ t)"
  by (metis append_eq_conv_conj append_take_drop_id startswith_def)

text \<open>\<open>s.split(c)\<close> for a one-character separator, and \<open>c.join(xs)\<close>.\<close>

fun split_on :: "'a \<Rightarrow> 'a list \<Rightarrow> 'a list list" where
  "split_on c [] = [[]]"
| "split_on c (x # xs) =
     (if x = c then [] # split_on c xs
      else (case split_on c xs of [] \<Rightarrow> [[x]] | y # ys \<Rightarrow> (x # y) # ys))"

fun join :: "'a list \<Rightarrow> 'a list list \<Rightarrow> 'a list" where
  "join sep [] = []"
| "join sep [x] = x"
| "join sep (x # y # xs) = x @ sep @ join sep (y # xs)"

lemma split_on_ne [simp]: "split_on c xs \<noteq> []"
  by (cases xs) (auto split: list.splits)

lemma join_split_on: "join [c] (split_on c xs) = xs"
proof (induction xs)
  case (Cons x xs)
  obtain y ys where "split_on c xs = y # ys" by (cases "split_on c xs") auto
  with Cons show ?case by (cases ys) auto
qed simp

lemma split_on_no_sep: "c \<notin> set xs \<Longrightarrow> split_on c xs = [xs]"
  by (induction xs) auto

lemma split_on_append: "c \<notin> set xs \<Longrightarrow> split_on c (xs @ c # ys) = xs # split_on c ys"
  by (induction xs) auto

lemma split_on_parts: "p \<in> set (split_on c xs) \<Longrightarrow> c \<notin> set p"
  by (induction xs arbitrary: p) (auto split: list.splits if_splits)

lemma split_on_join:
  "xs \<noteq> [] \<Longrightarrow> \<forall>x \<in> set xs. c \<notin> set x \<Longrightarrow> split_on c (join [c] xs) = xs"
  by (induction "[c]" xs rule: join.induct) (auto simp: split_on_no_sep split_on_append)

lemma split_on_inj: "split_on c xs = split_on c ys \<Longrightarrow> xs = ys"
  by (metis join_split_on)

text \<open>\<open>s.split(c, 1)\<close>: the part before the first separator, and the rest if there is one.\<close>

definition before_first :: "'a \<Rightarrow> 'a list \<Rightarrow> 'a list" where
  "before_first c xs = takeWhile (\<lambda>x. x \<noteq> c) xs"

definition after_last :: "'a \<Rightarrow> 'a list \<Rightarrow> 'a list" where
  "after_last c xs = rev (takeWhile (\<lambda>x. x \<noteq> c) (rev xs))"

section \<open>Whitespace, digits and numbers\<close>

text \<open>The code points \<open>str.isspace\<close> accepts.\<close>

definition is_space :: "nat \<Rightarrow> bool" where
  "is_space c \<longleftrightarrow> c \<in> set
    [9, 10, 11, 12, 13, 28, 29, 30, 31, 32, 133, 160, 5760, 8192, 8193, 8194, 8195, 8196, 8197,
     8198, 8199, 8200, 8201, 8202, 8232, 8233, 8239, 8287, 12288]"

text \<open>\<open>s.strip()\<close> and \<open>s.split()\<close> without a separator.\<close>

definition strip_by :: "('a \<Rightarrow> bool) \<Rightarrow> 'a list \<Rightarrow> 'a list" where
  "strip_by P s = rev (dropWhile P (rev (dropWhile P s)))"

definition strip :: "ustr \<Rightarrow> ustr" where
  "strip s = strip_by is_space s"

text \<open>\<open>s.rstrip()\<close>.\<close>

definition rstrip :: "ustr \<Rightarrow> ustr" where
  "rstrip s = rev (dropWhile is_space (rev s))"

fun words_by :: "('a \<Rightarrow> bool) \<Rightarrow> 'a list \<Rightarrow> 'a list \<Rightarrow> 'a list list" where
  "words_by P acc [] = (if acc = [] then [] else [rev acc])"
| "words_by P acc (x # xs) =
     (if P x then (if acc = [] then words_by P [] xs else rev acc # words_by P [] xs)
      else words_by P (x # acc) xs)"

definition split_ws :: "ustr \<Rightarrow> ustr list" where
  "split_ws s = words_by is_space [] s"

text \<open>
  Unicode decimal digits (category Nd) come in blocks of ten; the table lists the code point
  of each zero. The digit class of regular expressions and \<open>int()\<close> accept exactly these.
  \<open>str.isdigit\<close> also accepts the digits that have no decimal value, such as superscripts.
\<close>

definition nd_zeros :: "nat list" where
  "nd_zeros =
    [48, 1632, 1776, 1984, 2406, 2534, 2662, 2790, 2918, 3046, 3174, 3302, 3430, 3558, 3664,
     3792, 3872, 4160, 4240, 6112, 6160, 6470, 6608, 6784, 6800, 6992, 7088, 7232, 7248, 42528,
     43216, 43264, 43472, 43504, 43600, 44016, 65296, 66720, 68912, 69734, 69872, 69942, 70096,
     70384, 70736, 70864, 71248, 71360, 71472, 71904, 72016, 72784, 73040, 73120, 92768, 92864,
     93008, 120782, 120792, 120802, 120812, 120822, 123200, 123632, 125264, 130032]"

definition is_nd :: "nat \<Rightarrow> bool" where
  "is_nd c \<longleftrightarrow> (\<exists>z \<in> set nd_zeros. z \<le> c \<and> c < z + 10)"

definition other_digits :: "(nat \<times> nat) list" where
  "other_digits =
    [(178, 179), (185, 185), (4969, 4977), (6618, 6618), (8304, 8304), (8308, 8313),
     (8320, 8329), (9312, 9320), (9332, 9340), (9352, 9360), (9450, 9450), (9461, 9469),
     (9471, 9471), (10102, 10110), (10112, 10120), (10122, 10130), (68160, 68163),
     (69216, 69224), (69714, 69722), (127232, 127242)]"

definition is_digit :: "nat \<Rightarrow> bool" where
  "is_digit c \<longleftrightarrow> is_nd c \<or> (\<exists>(a, b) \<in> set other_digits. a \<le> c \<and> c \<le> b)"

definition isdigit :: "ustr \<Rightarrow> bool" where
  "isdigit s \<longleftrightarrow> s \<noteq> [] \<and> list_all is_digit s"

definition nd_value :: "nat \<Rightarrow> nat" where
  "nd_value c = (case filter (\<lambda>z. z \<le> c \<and> c < z + 10) nd_zeros of [] \<Rightarrow> 0 | z # _ \<Rightarrow> c - z)"

definition nat_of_digits :: "ustr \<Rightarrow> nat" where
  "nat_of_digits s = foldl (\<lambda>n c. 10 * n + nd_value c) 0 s"

text \<open>\<open>int(s)\<close> on a non-empty string of digits: a digit without a decimal value is refused.\<close>

definition int_of_digits :: "ustr \<Rightarrow> nat res" where
  "int_of_digits s =
     (if s \<noteq> [] \<and> list_all is_nd s then Inr (nat_of_digits s)
      else Inl (ValueError ''invalid literal for int() with base 10''))"

text \<open>\<open>str(n)\<close> and \<open>f"{n:03d}"\<close> for a non-negative integer.\<close>

fun dec_digits :: "nat \<Rightarrow> ustr" where
  "dec_digits n = (if n < 10 then [48 + n] else dec_digits (n div 10) @ [48 + n mod 10])"

declare dec_digits.simps [simp del]

definition zpad :: "nat \<Rightarrow> ustr \<Rightarrow> ustr" where
  "zpad w s = replicate (w - length s) 48 @ s"

definition fmt03 :: "nat \<Rightarrow> ustr" where
  "fmt03 n = zpad 3 (dec_digits n)"

definition str_int :: "int \<Rightarrow> ustr" where
  "str_int i = (if i < 0 then 45 # dec_digits (nat (- i)) else dec_digits (nat i))"

lemma is_nd_ascii: "48 \<le> c \<Longrightarrow> c < 58 \<Longrightarrow> is_nd c"
  by (auto simp: is_nd_def nd_zeros_def)

lemma nd_value_ascii: "48 \<le> c \<Longrightarrow> c < 58 \<Longrightarrow> nd_value c = c - 48"
  by (simp add: nd_value_def nd_zeros_def)

lemma is_nd_small: "c < 1632 \<Longrightarrow> is_nd c \<longleftrightarrow> 48 \<le> c \<and> c < 58"
  by (auto simp: is_nd_def nd_zeros_def)

lemma dec_digits_range: "c \<in> set (dec_digits n) \<Longrightarrow> 48 \<le> c \<and> c < 58"
proof (induction n rule: dec_digits.induct)
  case (1 n)
  then show ?case by (cases "n < 10") (auto simp: dec_digits.simps [of n])
qed

lemma dec_digits_ne [simp]: "dec_digits n \<noteq> []"
  by (subst dec_digits.simps) simp

lemma nat_of_digits_append: "nat_of_digits (s @ [c]) = 10 * nat_of_digits s + nd_value c"
  by (simp add: nat_of_digits_def)

lemma nat_of_dec_digits [simp]: "nat_of_digits (dec_digits n) = n"
proof (induction n rule: dec_digits.induct)
  case (1 n)
  show ?case
  proof (cases "n < 10")
    case True
    then show ?thesis
      by (simp add: dec_digits.simps [of n] nat_of_digits_def nd_value_ascii)
  next
    case False
    with 1 show ?thesis
      by (simp add: dec_digits.simps [of n] nat_of_digits_append nd_value_ascii)
  qed
qed

lemma dec_digits_inj [simp]: "dec_digits m = dec_digits n \<longleftrightarrow> m = n"
  by (metis nat_of_dec_digits)

lemma nat_of_digits_zeros: "nat_of_digits (replicate k 48 @ s) = nat_of_digits s"
proof (induction k)
  case (Suc k)
  then show ?case by (simp add: nat_of_digits_def nd_value_ascii)
qed simp

lemma nat_of_fmt03 [simp]: "nat_of_digits (fmt03 n) = n"
  by (simp add: fmt03_def zpad_def nat_of_digits_zeros)

lemma fmt03_inj [simp]: "fmt03 m = fmt03 n \<longleftrightarrow> m = n"
  by (metis nat_of_fmt03)

lemma fmt03_range: "c \<in> set (fmt03 n) \<Longrightarrow> 48 \<le> c \<and> c < 58"
  by (auto simp: fmt03_def zpad_def dest: dec_digits_range)

lemma length_dec_digits: "n < 10 ^ k \<Longrightarrow> 0 < k \<Longrightarrow> length (dec_digits n) \<le> k"
proof (induction n arbitrary: k rule: dec_digits.induct)
  case (1 n)
  show ?case
  proof (cases "n < 10")
    case True
    with 1 show ?thesis by (simp add: dec_digits.simps [of n])
  next
    case False
    then obtain j where k: "k = Suc j" "0 < j" using "1.prems"
      by (cases k; cases "k - 1") auto
    then have "n div 10 < 10 ^ j" using "1.prems" by (simp add: less_mult_imp_div_less mult.commute)
    with 1 False k show ?thesis by (simp add: dec_digits.simps [of n])
  qed
qed

lemma length_fmt03: "n \<le> 999 \<Longrightarrow> length (fmt03 n) = 3"
  using length_dec_digits [of n 3] by (simp add: fmt03_def zpad_def)

end
