(* ===== verification/Json.thy ===== *)
theory Json
  imports Complex_Main Py_Text
begin

text \<open>
  Decoded JSON values as Python holds them, the dynamic type tests the code applies to them,
  and the strict control-record helpers of \<open>runorg/strict_json.py\<close>. Finite floats are exact
  rationals: rounding of float arithmetic is not modelled.
\<close>

section \<open>Values\<close>

datatype pyfloat = Fin rat | PosInf | NegInf | NaN

datatype json =
    JNull
  | JBool bool
  | JInt int
  | JFloat pyfloat
  | JStr ustr
  | JArr "json list"
  | JObj "(ustr \<times> json) list"

type_synonym jdict = "(ustr, json) dict"

text \<open>\<open>bool(v)\<close>.\<close>

fun truthy :: "json \<Rightarrow> bool" where
  "truthy JNull = False"
| "truthy (JBool b) = b"
| "truthy (JInt i) = (i \<noteq> 0)"
| "truthy (JFloat f) = (f \<noteq> Fin 0)"
| "truthy (JStr s) = (s \<noteq> [])"
| "truthy (JArr xs) = (xs \<noteq> [])"
| "truthy (JObj d) = (d \<noteq> [])"

text \<open>\<open>d.get(k)\<close> and \<open>d.get(k, default)\<close>; a missing key reads as \<open>None\<close>, as JSON \<open>null\<close> does.\<close>

definition jget :: "jdict \<Rightarrow> string \<Rightarrow> json" where
  "jget d k = (case dget d (lit k) of None \<Rightarrow> JNull | Some v \<Rightarrow> v)"

definition jget_or :: "jdict \<Rightarrow> string \<Rightarrow> json \<Rightarrow> json" where
  "jget_or d k v0 = (case dget d (lit k) of None \<Rightarrow> v0 | Some v \<Rightarrow> v)"

definition jset :: "string \<Rightarrow> json \<Rightarrow> jdict \<Rightarrow> jdict" where
  "jset k v d = dset (lit k) v d"

lemma jget_jset [simp, dict_simps]: "jget (jset k v d) k' = (if k' = k then v else jget d k')"
  by (simp add: jget_def jset_def)

lemma jget_or_jset [simp, dict_simps]:
  "jget_or (jset k v d) k' v0 = (if k' = k then v else jget_or d k' v0)"
  by (simp add: jget_or_def jset_def)

lemma jget_Nil [simp]: "jget [] k = JNull"
  by (simp add: jget_def)

lemma jget_Cons [simp]: "jget ((k', v) # d) k = (if k' = lit k then v else jget d k)"
  by (simp add: jget_def)

lemma jget_or_Nil [simp]: "jget_or [] k v = v"
  by (simp add: jget_or_def)

lemma jget_or_Cons [simp]: "jget_or ((k', v) # d) k v0 = (if k' = lit k then v else jget_or d k v0)"
  by (simp add: jget_or_def)

lemma jget_or_eq: "jget_or d k v0 = (if lit k \<in> dkeys d then jget d k else v0)"
  using dget_None_iff [of d "lit k"] by (cases "dget d (lit k)") (auto simp: jget_or_def jget_def)

section \<open>Dynamic types\<close>

fun is_str :: "json \<Rightarrow> bool" where
  "is_str (JStr s) = True" | "is_str _ = False"

text \<open>\<open>isinstance(v, str) and v\<close>: a non-empty string.\<close>

fun is_nonempty_str :: "json \<Rightarrow> bool" where
  "is_nonempty_str (JStr s) = (s \<noteq> [])" | "is_nonempty_str _ = False"

fun is_bool :: "json \<Rightarrow> bool" where
  "is_bool (JBool b) = True" | "is_bool _ = False"

text \<open>\<open>type(v) is int\<close>, which excludes booleans.\<close>

fun is_int :: "json \<Rightarrow> bool" where
  "is_int (JInt i) = True" | "is_int _ = False"

text \<open>\<open>type(v) in {int, float}\<close>.\<close>

fun is_number :: "json \<Rightarrow> bool" where
  "is_number (JInt i) = True" | "is_number (JFloat f) = True" | "is_number _ = False"

fun is_list :: "json \<Rightarrow> bool" where
  "is_list (JArr xs) = True" | "is_list _ = False"

fun is_dict :: "json \<Rightarrow> bool" where
  "is_dict (JObj d) = True" | "is_dict _ = False"

fun str_of :: "json \<Rightarrow> ustr" where
  "str_of (JStr s) = s" | "str_of _ = []"

fun bool_of :: "json \<Rightarrow> bool" where
  "bool_of (JBool b) = b" | "bool_of _ = False"

fun int_of :: "json \<Rightarrow> int" where
  "int_of (JInt i) = i" | "int_of _ = 0"

fun list_of :: "json \<Rightarrow> json list" where
  "list_of (JArr xs) = xs" | "list_of _ = []"

fun dict_of :: "json \<Rightarrow> jdict" where
  "dict_of (JObj d) = d" | "dict_of _ = []"

text \<open>The exact numeric value, for Python's mixed comparison of ints, floats and booleans.\<close>

fun num_of :: "json \<Rightarrow> rat option" where
  "num_of (JBool b) = Some (if b then 1 else 0)"
| "num_of (JInt i) = Some (of_int i)"
| "num_of (JFloat (Fin r)) = Some r"
| "num_of _ = None"

definition num_val :: "json \<Rightarrow> rat" where
  "num_val v = (case num_of v of None \<Rightarrow> 0 | Some r \<Rightarrow> r)"

text \<open>
  \<open>math.isfinite(v)\<close> on an int or float. An int of at least \<open>2^1024 - 2^970\<close> in absolute value
  has no float, and the conversion raises.
\<close>

definition float_limit :: int where
  "float_limit = 2 ^ 1024 - 2 ^ 970"

fun isfinite :: "json \<Rightarrow> bool res" where
  "isfinite (JInt i) = (if \<bar>i\<bar> < float_limit then Inr True else Inl OverflowError)"
| "isfinite (JFloat (Fin r)) = Inr True"
| "isfinite _ = Inr False"

text \<open>\<open>v in {"a", "b"}\<close> for a set of strings: hashing a list or an object raises.\<close>

fun in_str_set :: "json \<Rightarrow> string list \<Rightarrow> bool res" where
  "in_str_set (JArr xs) ks = Inl (TypeError ''unhashable type: list'')"
| "in_str_set (JObj d) ks = Inl (TypeError ''unhashable type: dict'')"
| "in_str_set (JStr s) ks = Inr (s \<in> lit ` set ks)"
| "in_str_set _ ks = Inr False"

lemma is_nonempty_strE: "is_nonempty_str v \<Longrightarrow> (\<And>s. v = JStr s \<Longrightarrow> s \<noteq> [] \<Longrightarrow> P) \<Longrightarrow> P"
  by (cases v) auto

lemma in_str_set_True: "in_str_set v ks = Inr True \<longleftrightarrow> (\<exists>k \<in> set ks. v = JStr (lit k))"
  by (cases v) auto

lemma is_intE: "is_int v \<Longrightarrow> (\<And>i. v = JInt i \<Longrightarrow> P) \<Longrightarrow> P"
  by (cases v) auto

lemma is_boolE: "is_bool v \<Longrightarrow> (\<And>b. v = JBool b \<Longrightarrow> P) \<Longrightarrow> P"
  by (cases v) auto

lemma is_dictE: "is_dict v \<Longrightarrow> (\<And>d. v = JObj d \<Longrightarrow> P) \<Longrightarrow> P"
  by (cases v) auto

lemma is_listE: "is_list v \<Longrightarrow> (\<And>d. v = JArr d \<Longrightarrow> P) \<Longrightarrow> P"
  by (cases v) auto

lemma is_dict_iff: "is_dict v \<longleftrightarrow> (\<exists>d. v = JObj d)"
  by (cases v) auto

lemma num_val_simps [simp]:
  "num_val (JInt i) = of_int i" "num_val (JFloat (Fin r)) = r"
  by (simp_all add: num_val_def)

section \<open>Strict control-record helpers (strict_json.py)\<close>

text \<open>Building an object from decoded members, refusing a repeated name.\<close>

fun object_without_duplicates_aux :: "jdict \<Rightarrow> (ustr \<times> json) list \<Rightarrow> jdict res" where
  "object_without_duplicates_aux acc [] = Inr acc"
| "object_without_duplicates_aux acc ((k, v) # ps) =
     (if k \<in> dkeys acc then Inl (ValueError ''duplicate key in JSON object'')
      else object_without_duplicates_aux (dset k v acc) ps)"

definition object_without_duplicates :: "(ustr \<times> json) list \<Rightarrow> jdict res" where
  "object_without_duplicates ps = object_without_duplicates_aux [] ps"

definition exact_object :: "json \<Rightarrow> string set \<Rightarrow> string \<Rightarrow> jdict res" where
  "exact_object v fields label =
     (case v of JObj d \<Rightarrow>
        (if dkeys d = lit ` fields then Inr d else Inl (ValueError (label @ '' has unsupported fields'')))
      | _ \<Rightarrow> Inl (ValueError (label @ '' has unsupported fields'')))"

definition exact_str :: "json \<Rightarrow> string \<Rightarrow> ustr res" where
  "exact_str v label = (case v of JStr s \<Rightarrow> Inr s | _ \<Rightarrow> Inl (ValueError (label @ '' must be a string'')))"

definition exact_int :: "json \<Rightarrow> string \<Rightarrow> int res" where
  "exact_int v label = (case v of JInt i \<Rightarrow> Inr i | _ \<Rightarrow> Inl (ValueError (label @ '' must be an integer'')))"

definition exact_bool :: "json \<Rightarrow> string \<Rightarrow> bool res" where
  "exact_bool v label = (case v of JBool b \<Rightarrow> Inr b | _ \<Rightarrow> Inl (ValueError (label @ '' must be a boolean'')))"

definition exact_list :: "json \<Rightarrow> string \<Rightarrow> json list res" where
  "exact_list v label = (case v of JArr xs \<Rightarrow> Inr xs | _ \<Rightarrow> Inl (ValueError (label @ '' must be an array'')))"

lemma exact_simps [simp]:
  "exact_str (JStr s) l = Inr s" "exact_int (JInt i) l = Inr i"
  "exact_bool (JBool b) l = Inr b" "exact_list (JArr xs) l = Inr xs"
  by (simp_all add: exact_str_def exact_int_def exact_bool_def exact_list_def)

lemma exact_eq_Inr [simp]:
  "exact_str v l = Inr s \<longleftrightarrow> v = JStr s"
  "exact_int v l = Inr i \<longleftrightarrow> v = JInt i"
  "exact_bool v l = Inr b \<longleftrightarrow> v = JBool b"
  "exact_list v l = Inr xs \<longleftrightarrow> v = JArr xs"
  by (auto simp: exact_str_def exact_int_def exact_bool_def exact_list_def split: json.splits)

lemma exact_object_eq_Inr [simp]:
  "exact_object v fs l = Inr d \<longleftrightarrow> v = JObj d \<and> dkeys d = lit ` fs"
  by (auto simp: exact_object_def split: json.splits)

lemma object_without_duplicates_aux:
  "dict_ok acc \<Longrightarrow> object_without_duplicates_aux acc ps =
     (if distinct (map fst ps) \<and> dkeys acc \<inter> dkeys ps = {} then Inr (acc @ ps)
      else Inl (ValueError ''duplicate key in JSON object''))"
proof (induction acc ps rule: object_without_duplicates_aux.induct)
  case (2 acc k v ps)
  have app: "k \<notin> dkeys acc \<Longrightarrow> dset k v acc = acc @ [(k, v)]"
    by (induction acc) (auto simp: dset_def)
  have dk: "k \<in> dkeys ps \<longleftrightarrow> k \<in> fst ` set ps" by (simp add: dkeys_def)
  show ?case
  proof (cases "k \<in> dkeys acc")
    case False
    then have "dict_ok (dset k v acc)" using 2 by auto
    with 2 False app dk show ?thesis by auto
  qed auto
qed simp

text \<open>
  The member list of a decoded object is accepted exactly when no name repeats, and the object
  then holds exactly the members in their order.
\<close>

lemma object_without_duplicates:
  "object_without_duplicates ps =
     (if distinct (map fst ps) then Inr ps else Inl (ValueError ''duplicate key in JSON object''))"
  using object_without_duplicates_aux [of "[]" ps]
  by (simp add: object_without_duplicates_def dict_ok_def)

end
