(* ===== verification/Policy.thy ===== *)
theory Policy
  imports Json
begin

text \<open>
  The workstation-wide policy store of \<open>policy.py\<close>: the durable JSON record, its validation,
  the filesystem checks around it, and every public operation of \<open>O2PolicyStore\<close> as a function
  on the state of the policy directory. An operation runs under the store's mutex, so it is one
  atomic step; concurrent processes interleave whole operations.

  The clock is read several times during one operation. A call site's reading is \<open>clk n\<close>, where
  \<open>n\<close> numbers the call sites of the operation in program order.
\<close>

section \<open>Constants\<close>

definition SCHEMA_VERSION :: int where "SCHEMA_VERSION = 1"
definition DEFAULT_GRANT_TTL_SECONDS :: rat where "DEFAULT_GRANT_TTL_SECONDS = 300"
definition DEFAULT_LOGIN_COOLDOWN_SECONDS :: rat where "DEFAULT_LOGIN_COOLDOWN_SECONDS = 300"
definition MAX_EVENTS :: nat where "MAX_EVENTS = 64"

lemmas policy_consts = SCHEMA_VERSION_def DEFAULT_GRANT_TTL_SECONDS_def
  DEFAULT_LOGIN_COOLDOWN_SECONDS_def MAX_EVENTS_def

abbreviation MODES :: "string list" where "MODES \<equiv> [''disabled'', ''reuse_only'']"
abbreviation TARGETS :: "string list" where "TARGETS \<equiv> [''login'', ''transfer'']"
abbreviation METHODS :: "string list" where
  "METHODS \<equiv> [''explicit_user_approval'', ''standing_on_vpn'']"
abbreviation OUTCOMES :: "string list" where
  "OUTCOMES \<equiv> [''active'', ''success'', ''failed'', ''timed_out'', ''error'', ''stale'']"

section \<open>Login grants\<close>

record login_grant =
  g_id :: ustr
  g_client_id :: ustr
  g_target :: ustr
  g_allow_offvpn :: bool
  g_created_at :: rat
  g_expires_at :: rat
  g_remaining_attempts :: int
  g_approval_reference :: ustr
  g_authorization_method :: ustr

text \<open>A timestamp field: of type int or float and finite, otherwise the given error.\<close>

definition require_timestamp :: "json \<Rightarrow> pyerr \<Rightarrow> unit res" where
  "require_timestamp v e =
     bind (ensure (is_number v) e) (\<lambda>_. bind (isfinite v) (\<lambda>fin. ensure fin e))"

text \<open>Membership in a fixed set of strings, with the error raised outside it.\<close>

definition require_in :: "json \<Rightarrow> string list \<Rightarrow> pyerr \<Rightarrow> unit res" where
  "require_in v ks e = bind (in_str_set v ks) (\<lambda>ok. ensure ok e)"

text \<open>A nullable object field, checked by \<open>f\<close> when present.\<close>

definition when_present :: "json \<Rightarrow> pyerr \<Rightarrow> (jdict \<Rightarrow> unit res) \<Rightarrow> unit res" where
  "when_present v e f =
     (if v = JNull then Inr () else bind (ensure (is_dict v) e) (\<lambda>_. f (dict_of v)))"

text \<open>\<open>LoginGrant.from_dict\<close>; \<open>now\<close> is \<open>None\<close> where the caller omits the clock.\<close>

definition grant_from_dict :: "jdict \<Rightarrow> rat option \<Rightarrow> login_grant res" where
  "grant_from_dict p now =
     bind (ensure (list_all (\<lambda>k. is_nonempty_str (jget p k))
                     [''id'', ''client_id'', ''target'', ''approval_reference''])
             (O2PolicyInvalidError ''login_grant is missing a required non-empty string field'')) (\<lambda>_.
     bind (require_in (jget p ''target'') TARGETS (O2PolicyInvalidError ''login_grant.target'')) (\<lambda>_.
     bind (require_in (jget_or p ''authorization_method'' (JStr (lit ''explicit_user_approval''))) METHODS
             (O2PolicyInvalidError ''login_grant.authorization_method is unsupported'')) (\<lambda>_.
     bind (ensure (is_bool (jget p ''allow_offvpn'')) (O2PolicyInvalidError ''login_grant.allow_offvpn must be a boolean'')) (\<lambda>_.
     bind (ensure (is_int (jget p ''remaining_attempts'') \<and> int_of (jget p ''remaining_attempts'') \<in> {0, 1})
             (O2PolicyInvalidError ''login_grant.remaining_attempts must be zero or one'')) (\<lambda>_.
     bind (require_timestamp (jget p ''created_at'') (O2PolicyInvalidError ''login_grant.created_at must be a timestamp'')) (\<lambda>_.
     bind (require_timestamp (jget p ''expires_at'') (O2PolicyInvalidError ''login_grant.expires_at must be a timestamp'')) (\<lambda>_.
     bind (ensure (num_val (jget p ''created_at'') < num_val (jget p ''expires_at''))
             (O2PolicyInvalidError ''login_grant.expires_at must be later than created_at'')) (\<lambda>_.
     bind (ensure (num_val (jget p ''expires_at'') - num_val (jget p ''created_at'') \<le> DEFAULT_GRANT_TTL_SECONDS)
             (O2PolicyInvalidError ''login_grant lifetime exceeds the maximum authorization TTL'')) (\<lambda>_.
     bind (ensure (case now of None \<Rightarrow> True | Some t \<Rightarrow> num_val (jget p ''created_at'') \<le> t)
             (O2PolicyInvalidError ''login_grant.created_at cannot be later than the current policy clock'')) (\<lambda>_.
     Inr \<lparr>g_id = str_of (jget p ''id''),
          g_client_id = str_of (jget p ''client_id''),
          g_target = str_of (jget p ''target''),
          g_allow_offvpn = bool_of (jget p ''allow_offvpn''),
          g_created_at = num_val (jget p ''created_at''),
          g_expires_at = num_val (jget p ''expires_at''),
          g_remaining_attempts = int_of (jget p ''remaining_attempts''),
          g_approval_reference = str_of (jget p ''approval_reference''),
          g_authorization_method =
            str_of (jget_or p ''authorization_method'' (JStr (lit ''explicit_user_approval'')))\<rparr>))))))))))"

text \<open>\<open>O2PolicyStore._grant_dict\<close>.\<close>

definition grant_dict :: "login_grant \<Rightarrow> jdict" where
  "grant_dict g =
     [(lit ''id'', JStr (g_id g)),
      (lit ''client_id'', JStr (g_client_id g)),
      (lit ''target'', JStr (g_target g)),
      (lit ''allow_offvpn'', JBool (g_allow_offvpn g)),
      (lit ''authorization_method'', JStr (g_authorization_method g)),
      (lit ''approval_reference'', JStr (g_approval_reference g)),
      (lit ''created_at'', JFloat (Fin (g_created_at g))),
      (lit ''expires_at'', JFloat (Fin (g_expires_at g))),
      (lit ''remaining_attempts'', JInt (g_remaining_attempts g))]"

section \<open>Attempt receipts\<close>

text \<open>\<open>O2PolicyStore._validate_login_attempt\<close>.\<close>

definition validate_login_attempt :: "jdict \<Rightarrow> unit res" where
  "validate_login_attempt a =
     bind (ensure (list_all (\<lambda>k. is_nonempty_str (jget a k))
                     [''grant_id'', ''client_id'', ''target'', ''outcome''])
             (O2PolicyInvalidError ''login_attempt is missing a required non-empty string field'')) (\<lambda>_.
     bind (require_in (jget a ''target'') TARGETS (O2PolicyInvalidError ''login_attempt.target'')) (\<lambda>_.
     bind (require_in (jget a ''outcome'') OUTCOMES (O2PolicyInvalidError ''login_attempt.outcome is unsupported'')) (\<lambda>_.
     bind (ensure (is_bool (jget a ''allow_offvpn''))
             (O2PolicyInvalidError ''login_attempt.allow_offvpn must be a boolean'')) (\<lambda>_.
     bind (require_in (jget_or a ''authorization_method'' (JStr (lit ''explicit_user_approval''))) METHODS
             (O2PolicyInvalidError ''login_attempt.authorization_method is unsupported'')) (\<lambda>_.
     bind (ensure (\<not> (jget_or a ''authorization_method'' (JStr (lit ''explicit_user_approval''))
                          = JStr (lit ''standing_on_vpn'') \<and> bool_of (jget a ''allow_offvpn'')))
             (O2PolicyInvalidError ''a standing_on_vpn login_attempt cannot allow off-VPN login'')) (\<lambda>_.
     bind (ensure (jget a ''launcher_pid'' = JNull
                   \<or> (is_int (jget a ''launcher_pid'') \<and> 0 < int_of (jget a ''launcher_pid'')))
             (O2PolicyInvalidError ''login_attempt.launcher_pid'')) (\<lambda>_.
     bind (require_timestamp (jget a ''started_at'')
             (O2PolicyInvalidError ''login_attempt.started_at must be a finite timestamp'')) (\<lambda>_.
     bind (require_timestamp (jget a ''blocked_until'')
             (O2PolicyInvalidError ''login_attempt.blocked_until must be a finite timestamp'')) (\<lambda>_.
     bind (if jget a ''outcome'' = JStr (lit ''active'')
           then ensure (jget a ''finished_at'' = JNull \<and> jget a ''returncode'' = JNull)
                  (O2PolicyInvalidError ''an active login_attempt cannot be finished'')
           else bind (require_timestamp (jget a ''finished_at'')
                        (O2PolicyInvalidError ''a terminal login_attempt requires a finite finished_at'')) (\<lambda>_.
                ensure (num_val (jget a ''started_at'') \<le> num_val (jget a ''finished_at''))
                  (O2PolicyInvalidError ''login_attempt.finished_at cannot precede started_at''))) (\<lambda>_.
     bind (ensure (jget a ''returncode'' = JNull \<or> is_int (jget a ''returncode''))
             (O2PolicyInvalidError ''login_attempt.returncode must be null or an integer'')) (\<lambda>_.
     if jget a ''outcome'' = JStr (lit ''success'')
     then ensure (jget a ''returncode'' = JInt 0
                  \<and> num_val (jget a ''blocked_until'') = num_val (jget a ''finished_at''))
            (O2PolicyInvalidError ''a successful login_attempt must have returncode 0 and clear its cooldown'')
     else ensure (num_val (jget a ''started_at'') + DEFAULT_LOGIN_COOLDOWN_SECONDS
                  \<le> num_val (jget a ''blocked_until''))
            (O2PolicyInvalidError ''a non-success login_attempt must preserve the full retry cooldown''))))))))))))"

section \<open>The durable record\<close>

text \<open>
  \<open>uuid.UUID(s)\<close>: the library drops \<open>urn:\<close> and \<open>uuid:\<close>, outer braces and all hyphens, and
  then wants 32 characters that \<open>int(_, 16)\<close> reads. That function skips blanks on both sides and
  allows a plus sign, a \<open>0x\<close> prefix, single underscores between digits, and every Unicode
  decimal digit; the separators 28 to 31 are no blanks to it.
\<close>

fun replace_all :: "ustr \<Rightarrow> ustr \<Rightarrow> ustr" where
  "replace_all pat [] = []"
| "replace_all pat (c # s) =
     (if pat \<noteq> [] \<and> take (length pat) (c # s) = pat then replace_all pat (drop (length pat - 1) s)
      else c # replace_all pat s)"

definition is_hex :: "nat \<Rightarrow> bool" where
  "is_hex c \<longleftrightarrow> 48 \<le> c \<and> c \<le> 57 \<or> 65 \<le> c \<and> c \<le> 70 \<or> 97 \<le> c \<and> c \<le> 102"

fun hex_run :: "bool \<Rightarrow> ustr \<Rightarrow> bool" where
  "hex_run after_digit [] = after_digit"
| "hex_run after_digit (c # s) =
     (if c = 95 then after_digit \<and> hex_run False s else (is_hex c \<or> is_nd c) \<and> hex_run True s)"

definition int16_ok :: "ustr \<Rightarrow> bool" where
  "int16_ok s =
     (let s = strip_by (\<lambda>c. is_space c \<and> \<not> (28 \<le> c \<and> c \<le> 31)) s;
          s = (if take 1 s = lit ''+'' then drop 1 s else s);
          s = (if take 2 s \<in> {lit ''0x'', lit ''0X''}
               then (if take 1 (drop 2 s) = lit ''_'' then drop 3 s else drop 2 s)
               else s)
      in hex_run False s)"

definition uuid_ok :: "ustr \<Rightarrow> bool" where
  "uuid_ok s =
     (let h = replace_all (lit ''uuid:'') (replace_all (lit ''urn:'') s);
          h = filter (\<lambda>c. c \<noteq> 45) (strip_by (\<lambda>c. c = 123 \<or> c = 125) h)
      in length h = 32 \<and> int16_ok h)"

text \<open>\<open>O2PolicyStore._validate_state\<close> with the clock reading \<open>now\<close>.\<close>

definition validate_state :: "rat \<Rightarrow> json \<Rightarrow> jdict res" where
  "validate_state now payload =
     bind (ensure (is_dict payload) (O2PolicyInvalidError ''O2 policy root must be a JSON object'')) (\<lambda>_.
     let p = dict_of payload in
     bind (ensure (num_of (jget p ''schema_version'') = Some (of_int SCHEMA_VERSION))
             (O2PolicyInvalidError ''Unsupported O2 policy schema'')) (\<lambda>_.
     bind (ensure (is_int (jget p ''revision'') \<and> 0 \<le> int_of (jget p ''revision''))
             (O2PolicyInvalidError ''O2 policy revision must be a non-negative integer'')) (\<lambda>_.
     bind (ensure (is_nonempty_str (jget p ''generation''))
             (O2PolicyInvalidError ''O2 policy generation must be a non-empty UUID'')) (\<lambda>_.
     bind (ensure (uuid_ok (str_of (jget p ''generation'')))
             (O2PolicyInvalidError ''O2 policy generation must be a valid UUID'')) (\<lambda>_.
     bind (require_in (jget p ''mode'') MODES (O2PolicyInvalidError ''O2 policy mode'')) (\<lambda>_.
     bind (when_present (jget p ''login_grant'') (O2PolicyInvalidError ''login_grant must be null or an object'')
             (\<lambda>g. bind (grant_from_dict g (Some now)) (\<lambda>_. Inr ()))) (\<lambda>_.
     bind (when_present (jget p ''login_attempt'') (O2PolicyInvalidError ''login_attempt must be null or an object'')
             validate_login_attempt) (\<lambda>_.
     bind (ensure (is_list (jget_or p ''events'' (JArr [])))
             (O2PolicyInvalidError ''events must be an array'')) (\<lambda>_.
     Inr p)))))))))"

section \<open>What the validators accept\<close>

text \<open>
  The accepted records, stated as predicates. Each validator is shown to return a value exactly
  on them, so that proofs about operations argue over these conditions.
\<close>

fun ts_ok :: "json \<Rightarrow> bool" where
  "ts_ok (JInt i) = (\<bar>i\<bar> < float_limit)"
| "ts_ok (JFloat (Fin r)) = True"
| "ts_ok _ = False"

definition one_of :: "json \<Rightarrow> string list \<Rightarrow> bool" where
  "one_of v ks \<longleftrightarrow> (\<exists>k \<in> set ks. v = JStr (lit k))"

definition method_of :: "jdict \<Rightarrow> json" where
  "method_of p = jget_or p ''authorization_method'' (JStr (lit ''explicit_user_approval''))"

definition grant_ok :: "rat option \<Rightarrow> jdict \<Rightarrow> bool" where
  "grant_ok now p \<longleftrightarrow>
     list_all (\<lambda>k. is_nonempty_str (jget p k)) [''id'', ''client_id'', ''target'', ''approval_reference'']
     \<and> one_of (jget p ''target'') TARGETS \<and> one_of (method_of p) METHODS
     \<and> is_bool (jget p ''allow_offvpn'')
     \<and> is_int (jget p ''remaining_attempts'') \<and> int_of (jget p ''remaining_attempts'') \<in> {0, 1}
     \<and> ts_ok (jget p ''created_at'') \<and> ts_ok (jget p ''expires_at'')
     \<and> num_val (jget p ''created_at'') < num_val (jget p ''expires_at'')
     \<and> num_val (jget p ''expires_at'') - num_val (jget p ''created_at'') \<le> DEFAULT_GRANT_TTL_SECONDS
     \<and> (\<forall>t. now = Some t \<longrightarrow> num_val (jget p ''created_at'') \<le> t)"

definition grant_of :: "jdict \<Rightarrow> login_grant" where
  "grant_of p =
     \<lparr>g_id = str_of (jget p ''id''), g_client_id = str_of (jget p ''client_id''),
      g_target = str_of (jget p ''target''), g_allow_offvpn = bool_of (jget p ''allow_offvpn''),
      g_created_at = num_val (jget p ''created_at''), g_expires_at = num_val (jget p ''expires_at''),
      g_remaining_attempts = int_of (jget p ''remaining_attempts''),
      g_approval_reference = str_of (jget p ''approval_reference''),
      g_authorization_method = str_of (method_of p)\<rparr>"

definition attempt_ok :: "jdict \<Rightarrow> bool" where
  "attempt_ok a \<longleftrightarrow>
     list_all (\<lambda>k. is_nonempty_str (jget a k)) [''grant_id'', ''client_id'', ''target'', ''outcome'']
     \<and> one_of (jget a ''target'') TARGETS \<and> one_of (jget a ''outcome'') OUTCOMES
     \<and> is_bool (jget a ''allow_offvpn'') \<and> one_of (method_of a) METHODS
     \<and> \<not> (method_of a = JStr (lit ''standing_on_vpn'') \<and> bool_of (jget a ''allow_offvpn''))
     \<and> (jget a ''launcher_pid'' = JNull
         \<or> is_int (jget a ''launcher_pid'') \<and> 0 < int_of (jget a ''launcher_pid''))
     \<and> ts_ok (jget a ''started_at'') \<and> ts_ok (jget a ''blocked_until'')
     \<and> (if jget a ''outcome'' = JStr (lit ''active'')
         then jget a ''finished_at'' = JNull \<and> jget a ''returncode'' = JNull
         else ts_ok (jget a ''finished_at'')
              \<and> num_val (jget a ''started_at'') \<le> num_val (jget a ''finished_at''))
     \<and> (jget a ''returncode'' = JNull \<or> is_int (jget a ''returncode''))
     \<and> (if jget a ''outcome'' = JStr (lit ''success'')
         then jget a ''returncode'' = JInt 0
              \<and> num_val (jget a ''blocked_until'') = num_val (jget a ''finished_at'')
         else num_val (jget a ''started_at'') + DEFAULT_LOGIN_COOLDOWN_SECONDS
              \<le> num_val (jget a ''blocked_until''))"

definition state_ok :: "rat \<Rightarrow> jdict \<Rightarrow> bool" where
  "state_ok now p \<longleftrightarrow>
     num_of (jget p ''schema_version'') = Some (of_int SCHEMA_VERSION)
     \<and> is_int (jget p ''revision'') \<and> 0 \<le> int_of (jget p ''revision'')
     \<and> is_nonempty_str (jget p ''generation'') \<and> uuid_ok (str_of (jget p ''generation''))
     \<and> one_of (jget p ''mode'') MODES
     \<and> (jget p ''login_grant'' = JNull
         \<or> (\<exists>g. jget p ''login_grant'' = JObj g \<and> grant_ok (Some now) g))
     \<and> (jget p ''login_attempt'' = JNull
         \<or> (\<exists>a. jget p ''login_attempt'' = JObj a \<and> attempt_ok a))
     \<and> is_list (jget_or p ''events'' (JArr []))"

lemma require_timestamp_iff [simp]: "require_timestamp v e = Inr u \<longleftrightarrow> ts_ok v"
  by (cases v rule: ts_ok.cases) (auto simp: require_timestamp_def)

lemma require_in_iff [simp]: "require_in v ks e = Inr u \<longleftrightarrow> one_of v ks"
  by (auto simp: require_in_def one_of_def in_str_set_True [symmetric])

lemma when_present_iff [simp]:
  "when_present v e f = Inr u \<longleftrightarrow> v = JNull \<or> (\<exists>d. v = JObj d \<and> f d = Inr ())"
  by (cases v) (auto simp: when_present_def)

lemma case_now_iff:
  "(case now of None \<Rightarrow> True | Some t \<Rightarrow> c \<le> t) \<longleftrightarrow> (\<forall>t. now = Some t \<longrightarrow> c \<le> (t :: rat))"
  by (cases now) auto

lemma ensure_bind_iff: "bind (ensure b e) f = Inr y \<longleftrightarrow> b \<and> f () = Inr y"
  by simp

lemma bind_unit_iff: "bind m f = Inr y \<longleftrightarrow> m = Inr () \<and> f () = Inr y"
  by auto

lemmas validator_iffs = ensure_bind_iff bind_unit_iff require_in_iff require_timestamp_iff
  when_present_iff ensure_eq_Inr

lemma grant_from_dict_iff: "grant_from_dict p now = Inr g \<longleftrightarrow> grant_ok now p \<and> grant_of p = g"
  unfolding grant_from_dict_def grant_ok_def grant_of_def method_of_def
  by (simp only: validator_iffs case_now_iff sum.inject conj_assoc)

lemma validate_login_attempt_iff: "validate_login_attempt a = Inr () \<longleftrightarrow> attempt_ok a"
  unfolding validate_login_attempt_def attempt_ok_def method_of_def
  by (simp only: validator_iffs conj_assoc if_distrib [of "\<lambda>m. m = Inr ()"])

lemma validate_state_iff: "validate_state now j = Inr s \<longleftrightarrow> j = JObj s \<and> state_ok now s"
proof (cases j)
  case (JObj p)
  have g: "bind (grant_from_dict d (Some now)) (\<lambda>_. Inr ()) = Inr () \<longleftrightarrow> grant_ok (Some now) d" for d
    by (auto simp: grant_from_dict_iff)
  have "validate_state now j = Inr s \<longleftrightarrow> state_ok now p \<and> p = s"
    unfolding validate_state_def state_ok_def JObj Let_def dict_of.simps is_dict.simps
    by (simp only: validator_iffs g validate_login_attempt_iff sum.inject conj_assoc simp_thms)
  with JObj show ?thesis by auto
qed (simp_all add: validate_state_def)

end
