(* ===== verification/Policy_Store.thy ===== *)
theory Policy_Store
  imports Policy
begin

text \<open>
  The operations of \<open>O2PolicyStore\<close> on the policy directory. A store is the directory, the
  mutex file and the policy file, each with the metadata the code inspects; the contents of the
  policy file are what \<open>json.loads\<close> makes of them. An operation returns its result together
  with the store it leaves behind, so that an operation that raises after writing is visible.
\<close>

section \<open>Processes, calls and the filesystem\<close>

datatype file_kind = Regular | Directory | Symlink | Special

record fs_meta =
  m_kind :: file_kind
  m_uid :: nat
  m_mode :: nat
  m_mtime :: pyfloat

datatype content = Garbage | Doc json

record store =
  s_dir :: "fs_meta option"
  s_mutex :: "fs_meta option"
  s_file :: "(fs_meta \<times> content) option"

text \<open>The calling process: its uid, client identity and pid, and whether the configured
  directory is the legacy \<open>~/.agent_locks\<close>.\<close>

record proc =
  pr_uid :: nat
  pr_client :: ustr
  pr_pid :: int
  pr_legacy :: bool

text \<open>
  What one call draws from outside: the clock reading at each call site, the values of
  \<open>uuid.uuid4()\<close>, and whether writing the file fails, before or after \<open>os.replace\<close>.
\<close>

datatype write_fault = NoFault | FaultBeforeReplace | FaultAfterReplace

record call =
  c_clk :: "nat \<Rightarrow> rat"
  c_uuid :: "nat \<Rightarrow> ustr"
  c_fault :: write_fault

type_synonym 'a op = "store \<Rightarrow> 'a res \<times> store"

text \<open>\<open>S_IMODE(mode) & 0o077\<close> is non-zero: some group or other permission bit is set.\<close>

definition permissive :: "nat \<Rightarrow> bool" where
  "permissive m \<longleftrightarrow> m mod 64 \<noteq> 0"

definition validate_file_metadata :: "proc \<Rightarrow> fs_meta \<Rightarrow> unit res" where
  "validate_file_metadata pr m =
     bind (ensure (m_kind m = Regular)
             (O2PolicyInvalidError ''O2 policy object must be a regular non-symlink file'')) (\<lambda>_.
     bind (ensure (m_uid m = pr_uid pr) (O2PolicyInvalidError ''O2 policy object is not owned by uid'')) (\<lambda>_.
     ensure (\<not> permissive (m_mode m))
       (O2PolicyInvalidError ''O2 policy object must not be accessible by group or other users'')))"

definition validate_parent_directory :: "proc \<Rightarrow> store \<Rightarrow> unit res" where
  "validate_parent_directory pr st =
     (case s_dir st of
        None \<Rightarrow> Inl (O2PolicyInvalidError ''O2 policy directory does not exist'')
      | Some m \<Rightarrow>
          bind (ensure (m_kind m = Directory)
                  (O2PolicyInvalidError ''O2 policy directory must be a physical directory'')) (\<lambda>_.
          bind (ensure (m_uid m = pr_uid pr)
                  (O2PolicyInvalidError ''O2 policy directory is not owned by uid'')) (\<lambda>_.
          ensure (\<not> permissive (m_mode m))
            (O2PolicyInvalidError ''O2 policy directory must not be accessible by group or other users''))))"

definition private_dir :: "proc \<Rightarrow> fs_meta" where
  "private_dir pr = \<lparr>m_kind = Directory, m_uid = pr_uid pr, m_mode = 448, m_mtime = Fin 0\<rparr>"

definition private_file :: "proc \<Rightarrow> rat \<Rightarrow> fs_meta" where
  "private_file pr t = \<lparr>m_kind = Regular, m_uid = pr_uid pr, m_mode = 384, m_mtime = Fin t\<rparr>"

text \<open>
  \<open>_prepare_policy_directory\<close>: create the directory, or tighten the owned legacy directory.
  \<open>O_DIRECTORY | O_NOFOLLOW\<close> makes opening anything else fail.
\<close>

definition prepare_policy_directory :: "proc \<Rightarrow> unit op" where
  "prepare_policy_directory pr st =
     (case s_dir st of
        None \<Rightarrow> (Inr (), st\<lparr>s_dir := Some (private_dir pr)\<rparr>)
      | Some m \<Rightarrow>
          if m_kind m \<noteq> Directory
            then (Inl (O2PolicyInvalidError ''Cannot prepare O2 policy directory''), st)
          else if m_uid m \<noteq> pr_uid pr
            then (Inl (O2PolicyInvalidError ''O2 policy directory is not owned by uid''), st)
          else if permissive (m_mode m)
            then if pr_legacy pr then (Inr (), st\<lparr>s_dir := Some (m\<lparr>m_mode := 448\<rparr>)\<rparr>)
                 else (Inl (O2PolicyInvalidError ''O2 policy directory is permissive''), st)
          else (Inr (), st))"

text \<open>
  \<open>_locked\<close>: prepare the directory, open or create the mutex file without following links,
  check it and take the lock. Taking the lock is what makes the rest of the operation atomic.
\<close>

definition locked :: "proc \<Rightarrow> 'a op \<Rightarrow> 'a op" where
  "locked pr body st =
     (case prepare_policy_directory pr st of
        (Inl e, st1) \<Rightarrow> (Inl e, st1)
      | (Inr _, st1) \<Rightarrow>
          (case s_mutex st1 of
             None \<Rightarrow> body (st1\<lparr>s_mutex := Some (private_file pr 0)\<rparr>)
           | Some m \<Rightarrow>
               if m_kind m \<in> {Symlink, Directory}
                 then (Inl (O2PolicyInvalidError ''Cannot create O2 policy mutex''), st1)
               else (case validate_file_metadata pr m of
                       Inl e \<Rightarrow> (Inl e, st1)
                     | Inr _ \<Rightarrow> body st1)))"

definition read_valid_state :: "proc \<Rightarrow> rat \<Rightarrow> store \<Rightarrow> jdict res" where
  "read_valid_state pr now st =
     bind (validate_parent_directory pr st) (\<lambda>_.
     case s_file st of
       None \<Rightarrow> Inl (O2PolicyInvalidError ''O2 policy is not initialized'')
     | Some (m, c) \<Rightarrow>
         bind (validate_file_metadata pr m) (\<lambda>_.
         case c of
           Garbage \<Rightarrow> Inl (O2PolicyInvalidError ''Cannot read valid O2 policy JSON'')
         | Doc j \<Rightarrow> validate_state now j))"

section \<open>State-machine helpers\<close>

definition updated_by :: "proc \<Rightarrow> json" where
  "updated_by pr = JObj [(lit ''client_id'', JStr (pr_client pr)), (lit ''pid'', JInt (pr_pid pr))]"

definition initial_state :: "proc \<Rightarrow> rat \<Rightarrow> ustr \<Rightarrow> jdict" where
  "initial_state pr now uuid4 =
     [(lit ''schema_version'', JInt SCHEMA_VERSION),
      (lit ''generation'', JStr uuid4),
      (lit ''revision'', JInt 0),
      (lit ''mode'', JStr (lit ''disabled'')),
      (lit ''updated_at'', JFloat (Fin now)),
      (lit ''updated_by'', updated_by pr),
      (lit ''login_grant'', JNull),
      (lit ''login_attempt'', JNull),
      (lit ''events'', JArr [])]"

definition append_event :: "proc \<Rightarrow> rat \<Rightarrow> string \<Rightarrow> jdict \<Rightarrow> jdict \<Rightarrow> jdict" where
  "append_event pr now ev details state =
     jset ''events''
       (JArr (keep_last MAX_EVENTS
          (list_of (jget_or state ''events'' (JArr []))
           @ [JObj ([(lit ''at'', JFloat (Fin now)), (lit ''event'', JStr (lit ev)),
                     (lit ''client_id'', JStr (pr_client pr))] @ details)])))
       state"

definition clean_reference :: "json \<Rightarrow> string \<Rightarrow> ustr res" where
  "clean_reference v field =
     bind (ensure (is_str v \<and> strip (str_of v) \<noteq> [])
             (O2PolicyInvalidError (field @ '' must be a non-empty string''))) (\<lambda>_.
     let cleaned = join [32] (split_ws (str_of v)) in
     bind (ensure (length cleaned \<le> 240)
             (O2PolicyInvalidError (field @ '' must be at most 240 characters''))) (\<lambda>_.
     Inr cleaned))"

definition require_revision :: "jdict \<Rightarrow> json \<Rightarrow> json \<Rightarrow> unit res" where
  "require_revision state er eg =
     bind (ensure (is_int er \<and> 0 \<le> int_of er)
             (O2PolicyConflictError ''expected_revision must be a non-negative integer'')) (\<lambda>_.
     bind (ensure (is_nonempty_str eg)
             (O2PolicyConflictError ''expected_generation must be a non-empty UUID'')) (\<lambda>_.
     ensure (jget state ''revision'' = er \<and> jget state ''generation'' = eg)
       (O2PolicyConflictError ''O2 policy changed from expected generation/revision'')))"

definition require_matching_grant :: "proc \<Rightarrow> rat \<Rightarrow> jdict \<Rightarrow> ustr \<Rightarrow> ustr \<Rightarrow> login_grant res" where
  "require_matching_grant pr now state gid target =
     bind (ensure (is_dict (jget state ''login_grant''))
             (O2LoginGrantError ''No one-shot O2 login grant is active.'')) (\<lambda>_.
     bind (grant_from_dict (dict_of (jget state ''login_grant'')) None) (\<lambda>g.
     bind (ensure (g_id g = gid) (O2LoginGrantError ''The supplied O2 login grant id does not match'')) (\<lambda>_.
     bind (ensure (g_client_id g = pr_client pr)
             (O2LoginGrantError ''The O2 login grant belongs to a different MCP task/client.'')) (\<lambda>_.
     bind (ensure (g_target g = target) (O2LoginGrantError ''The O2 login grant is scoped to another target'')) (\<lambda>_.
     bind (ensure (g_remaining_attempts g = 1)
             (O2LoginGrantError ''The O2 login grant has already been consumed.'')) (\<lambda>_.
     bind (ensure (now < g_expires_at g) (O2LoginGrantError ''The one-shot O2 login grant has expired'')) (\<lambda>_.
     Inr g)))))))"

definition expire_stale_authorization :: "proc \<Rightarrow> rat \<Rightarrow> rat \<Rightarrow> jdict \<Rightarrow> jdict res" where
  "expire_stale_authorization pr now t state =
     (if \<not> is_dict (jget state ''login_grant'') then Inr state
      else bind (grant_from_dict (dict_of (jget state ''login_grant'')) None) (\<lambda>g.
           if g_expires_at g \<le> now
           then Inr (append_event pr t ''login_grant_expired''
                       [(lit ''grant_id'', JStr (g_id g)), (lit ''target'', JStr (g_target g))]
                       (jset ''login_grant'' JNull state))
           else Inr state))"

text \<open>
  \<open>_write_next_revision\<close>: stamp, replace the file atomically, reread. \<open>tw\<close> is the clock at
  the stamp, \<open>tr\<close> at the reread.
\<close>

definition stamp :: "proc \<Rightarrow> rat \<Rightarrow> jdict \<Rightarrow> jdict" where
  "stamp pr tw state =
     jset ''updated_by'' (updated_by pr)
       (jset ''updated_at'' (JFloat (Fin tw))
         (jset ''revision'' (JInt (int_of (jget_or state ''revision'' (JInt 0)) + 1))
           (jset ''schema_version'' (JInt SCHEMA_VERSION) state)))"

definition write_next_revision :: "proc \<Rightarrow> write_fault \<Rightarrow> rat \<Rightarrow> rat \<Rightarrow> jdict \<Rightarrow> jdict op" where
  "write_next_revision pr fault tw tr state st =
     (let st' = st\<lparr>s_file := Some (private_file pr tw, Doc (JObj (stamp pr tw state)))\<rparr> in
      case fault of
        FaultBeforeReplace \<Rightarrow> (Inl (O2PolicyInvalidError ''Cannot atomically write O2 policy''), st)
      | FaultAfterReplace \<Rightarrow> (Inl (O2PolicyInvalidError ''Cannot atomically write O2 policy''), st')
      | NoFault \<Rightarrow> (read_valid_state pr tr st', st'))"

text \<open>
  \<open>_conservative_repair_state\<close>: unreadable JSON is replaced by a disabled state that keeps a
  cooldown running from the file's modification time.
\<close>

definition repair_started_at :: "pyfloat \<Rightarrow> rat \<Rightarrow> rat" where
  "repair_started_at mtime now = max 0 (min (case mtime of Fin r \<Rightarrow> r | _ \<Rightarrow> now) now)"

definition conservative_repair_state :: "proc \<Rightarrow> call \<Rightarrow> fs_meta \<Rightarrow> jdict" where
  "conservative_repair_state pr c m =
     (let now = c_clk c 1;
          started = repair_started_at (m_mtime m) now;
          repair_id = lit ''repair-'' @ c_uuid c 1
      in append_event pr (c_clk c 3) ''policy_repaired_with_conservative_cooldown''
           [(lit ''repair_id'', JStr repair_id),
            (lit ''source_modified_at'', JFloat (case m_mtime m of Fin r \<Rightarrow> Fin r | _ \<Rightarrow> Fin now))]
           (jset ''login_attempt''
              (JObj [(lit ''grant_id'', JStr repair_id),
                     (lit ''client_id'', JStr (pr_client pr)),
                     (lit ''target'', JStr (lit ''login'')),
                     (lit ''allow_offvpn'', JBool False),
                     (lit ''started_at'', JFloat (Fin started)),
                     (lit ''finished_at'', JFloat (Fin now)),
                     (lit ''outcome'', JStr (lit ''error'')),
                     (lit ''returncode'', JNull),
                     (lit ''blocked_until'', JFloat (Fin (started + DEFAULT_LOGIN_COOLDOWN_SECONDS)))])
              (initial_state pr (c_clk c 2) (c_uuid c 0))))"

text \<open>
  \<open>_read_for_repair_or_initialize\<close>: only \<open>OSError\<close>, \<open>ValueError\<close> and \<open>O2PolicyInvalidError\<close> lead
  to repair; any other exception of the validation escapes.
\<close>

fun repairable :: "pyerr \<Rightarrow> bool" where
  "repairable (ValueError m) = True"
| "repairable (OSError m) = True"
| "repairable (O2PolicyInvalidError m) = True"
| "repairable _ = False"

definition read_for_repair_or_initialize :: "proc \<Rightarrow> call \<Rightarrow> store \<Rightarrow> jdict res" where
  "read_for_repair_or_initialize pr c st =
     bind (validate_parent_directory pr st) (\<lambda>_.
     case s_file st of
       None \<Rightarrow> Inr (initial_state pr (c_clk c 2) (c_uuid c 0))
     | Some (m, cont) \<Rightarrow>
         bind (validate_file_metadata pr m) (\<lambda>_.
         case cont of
           Garbage \<Rightarrow> Inr (conservative_repair_state pr c m)
         | Doc j \<Rightarrow>
             (case validate_state (c_clk c 0) j of
                Inr s \<Rightarrow> Inr s
              | Inl e \<Rightarrow> if repairable e then Inr (conservative_repair_state pr c m) else Inl e)))"

end
