(* ===== verification/Policy_Ops.thy ===== *)
theory Policy_Ops
  imports Policy_Store
begin

text \<open>
  The public operations of \<open>O2PolicyStore\<close>: the read and gate operations, the mutations, and
  the audit trail they leave. A context manager that yields under the mutex
  (\<open>serialize_reuse_launch\<close>, \<open>consume_login_grant_for_launch\<close>,
  \<open>authorize_consumed_broker_launch\<close>) is the operation up to its \<open>yield\<close>: the protected launch
  happens exactly when the result is a value.
\<close>

definition lift :: "'a res \<Rightarrow> ('a \<Rightarrow> 'b op) \<Rightarrow> 'b op" where
  "lift r f st = (case r of Inl e \<Rightarrow> (Inl e, st) | Inr x \<Rightarrow> f x st)"

definition returning :: "'a op \<Rightarrow> 'b \<Rightarrow> 'b op" where
  "returning m x st = (case m st of (Inl e, st') \<Rightarrow> (Inl e, st') | (Inr _, st') \<Rightarrow> (Inr x, st'))"

lemma lift_simps [simp]: "lift (Inl e) f st = (Inl e, st)" "lift (Inr x) f st = f x st"
  by (simp_all add: lift_def)

section \<open>Reads and gates\<close>

record policy_snapshot =
  sn_valid :: bool
  sn_mode :: ustr
  sn_state :: "jdict option"

text \<open>\<open>snapshot\<close> turns \<open>O2PolicyInvalidError\<close> into an invalid, disabled view; other exceptions escape.\<close>

definition snapshot :: "proc \<Rightarrow> rat \<Rightarrow> store \<Rightarrow> policy_snapshot res" where
  "snapshot pr now st =
     (case read_valid_state pr now st of
        Inr s \<Rightarrow> Inr \<lparr>sn_valid = True, sn_mode = str_of (jget s ''mode''), sn_state = Some s\<rparr>
      | Inl (O2PolicyInvalidError m) \<Rightarrow> Inr \<lparr>sn_valid = False, sn_mode = lit ''disabled'', sn_state = None\<rparr>
      | Inl e \<Rightarrow> Inl e)"

definition snapshot_revision :: "policy_snapshot \<Rightarrow> int" where
  "snapshot_revision sn = (case sn_state sn of None \<Rightarrow> 0 | Some s \<Rightarrow> int_of (jget_or s ''revision'' (JInt 0)))"

definition snapshot_generation :: "policy_snapshot \<Rightarrow> ustr option" where
  "snapshot_generation sn =
     (case sn_state sn of None \<Rightarrow> None
      | Some s \<Rightarrow> (case jget s ''generation'' of JStr g \<Rightarrow> Some g | _ \<Rightarrow> None))"

definition reuse_gate :: "jdict \<Rightarrow> string \<Rightarrow> unit res" where
  "reuse_gate state msg = ensure (jget state ''mode'' = JStr (lit ''reuse_only'')) (O2PolicyDeniedError msg)"

definition require_reuse_allowed :: "proc \<Rightarrow> rat \<Rightarrow> store \<Rightarrow> jdict res" where
  "require_reuse_allowed pr now st =
     bind (read_valid_state pr now st) (\<lambda>s.
     bind (reuse_gate s ''Remote O2 operations are disabled'') (\<lambda>_. Inr s))"

definition serialize_reuse_launch :: "proc \<Rightarrow> rat \<Rightarrow> unit op" where
  "serialize_reuse_launch pr now =
     locked pr (\<lambda>st.
       lift (read_valid_state pr now st) (\<lambda>s.
       lift (reuse_gate s ''Remote O2 operations are disabled'') (\<lambda>_ st. (Inr (), st))) st)"

definition preview_login_grant :: "proc \<Rightarrow> call \<Rightarrow> ustr \<Rightarrow> ustr \<Rightarrow> store \<Rightarrow> login_grant res" where
  "preview_login_grant pr c gid target st =
     bind (require_reuse_allowed pr (c_clk c 0) st) (\<lambda>s.
     require_matching_grant pr (c_clk c 1) s gid target)"

text \<open>\<open>authorize_consumed_broker_launch\<close> up to its \<open>yield\<close>.\<close>

definition attempt_matches :: "jdict \<Rightarrow> ustr \<Rightarrow> ustr \<Rightarrow> ustr \<Rightarrow> int \<Rightarrow> bool" where
  "attempt_matches state gid target client lpid =
     (is_dict (jget state ''login_attempt'')
      \<and> (let a = dict_of (jget state ''login_attempt'') in
          jget a ''outcome'' = JStr (lit ''active'')
          \<and> jget a ''grant_id'' = JStr gid
          \<and> jget a ''target'' = JStr target
          \<and> jget a ''client_id'' = JStr client
          \<and> jget a ''launcher_pid'' = JInt lpid))"

definition authorize_consumed_broker_launch :: "proc \<Rightarrow> rat \<Rightarrow> ustr \<Rightarrow> ustr \<Rightarrow> ustr \<Rightarrow> json \<Rightarrow> unit op" where
  "authorize_consumed_broker_launch pr now gid target client lpid =
     lift (ensure (is_int lpid \<and> 0 < int_of lpid)
             (O2LoginGrantError ''broker launcher_pid must be a positive integer'')) (\<lambda>_.
     locked pr (\<lambda>st.
       lift (read_valid_state pr now st) (\<lambda>s.
       lift (reuse_gate s ''O2 became disabled before the authorized broker could spawn SSH.'') (\<lambda>_.
       lift (ensure (attempt_matches s gid target client (int_of lpid))
               (O2LoginGrantError ''The broker launch is not bound to the current active, consumed login attempt.''))
         (\<lambda>_ st. (Inr (), st)))) st))"

section \<open>Mutations\<close>

text \<open>The record \<open>disable\<close> writes, before the revision stamp; the other \<open>_update\<close> functions alike.\<close>

definition disable_update :: "proc \<Rightarrow> call \<Rightarrow> ustr \<Rightarrow> jdict \<Rightarrow> jdict" where
  "disable_update pr c r s =
     append_event pr (c_clk c 4) ''policy_disabled'' [(lit ''reason'', JStr r)]
       (jset ''login_grant'' JNull (jset ''mode'' (JStr (lit ''disabled'')) s))"

definition disable :: "proc \<Rightarrow> call \<Rightarrow> json \<Rightarrow> jdict op" where
  "disable pr c reason =
     lift (clean_reference reason ''reason'') (\<lambda>r.
     locked pr (\<lambda>st.
       lift (read_for_repair_or_initialize pr c st) (\<lambda>s.
       write_next_revision pr (c_fault c) (c_clk c 5) (c_clk c 6) (disable_update pr c r s)) st))"

definition enable_update :: "proc \<Rightarrow> call \<Rightarrow> ustr \<Rightarrow> jdict \<Rightarrow> jdict" where
  "enable_update pr c r s =
     (let s1 = (if is_dict (jget s ''login_grant'')
                then append_event pr (c_clk c 1) ''login_grant_revoked_on_reuse_enable''
                       [(lit ''grant_id'', jget (dict_of (jget s ''login_grant'')) ''id'')] s
                else s)
      in append_event pr (c_clk c 2) ''policy_reuse_enabled'' [(lit ''approval_reference'', JStr r)]
           (jset ''mode'' (JStr (lit ''reuse_only'')) (jset ''login_grant'' JNull s1)))"

definition enable_reuse :: "proc \<Rightarrow> call \<Rightarrow> json \<Rightarrow> json \<Rightarrow> json \<Rightarrow> jdict op" where
  "enable_reuse pr c er eg approval =
     lift (clean_reference approval ''approval_reference'') (\<lambda>r.
     locked pr (\<lambda>st.
       lift (read_valid_state pr (c_clk c 0) st) (\<lambda>s.
       lift (require_revision s er eg) (\<lambda>_.
       write_next_revision pr (c_fault c) (c_clk c 3) (c_clk c 4) (enable_update pr c r s))) st))"

text \<open>The argument checks of \<open>authorize_login\<close>, in the code's order.\<close>

definition authorize_args :: "json \<Rightarrow> json \<Rightarrow> json \<Rightarrow> rat \<Rightarrow> unit res" where
  "authorize_args target offvpn meth ttl =
     bind (require_in target TARGETS (O2LoginGrantError ''target must be exactly login or transfer'')) (\<lambda>_.
     bind (ensure (is_bool offvpn) (O2LoginGrantError ''allow_offvpn must be a boolean'')) (\<lambda>_.
     bind (require_in meth METHODS (O2LoginGrantError ''authorization_method is unsupported'')) (\<lambda>_.
     bind (ensure (\<not> (meth = JStr (lit ''standing_on_vpn'') \<and> bool_of offvpn))
             (O2LoginGrantError ''standing_on_vpn authorization cannot allow off-VPN login'')) (\<lambda>_.
     ensure (0 < ttl \<and> ttl \<le> DEFAULT_GRANT_TTL_SECONDS)
       (O2LoginGrantError ''ttl_seconds must be greater than zero and at most 300'')))))"

text \<open>
  The cooldown check of \<open>authorize_login\<close> and the marking of an abandoned attempt as stale.
\<close>

definition settle_attempt :: "rat \<Rightarrow> jdict \<Rightarrow> jdict res" where
  "settle_attempt now s =
     (if \<not> is_dict (jget s ''login_attempt'') then Inr s
      else let a = dict_of (jget s ''login_attempt'') in
           if now < num_val (jget_or a ''blocked_until'' (JFloat (Fin 0)))
           then Inl (O2LoginGrantError ''A prior O2 login attempt is still active or cooling down'')
           else if jget a ''outcome'' = JStr (lit ''active'')
           then Inr (jset ''login_attempt''
                      (JObj (jset ''finished_at'' (JFloat (Fin now))
                               (jset ''outcome'' (JStr (lit ''stale'')) a))) s)
           else Inr s)"

definition new_grant :: "proc \<Rightarrow> ustr \<Rightarrow> rat \<Rightarrow> json \<Rightarrow> json \<Rightarrow> ustr \<Rightarrow> json \<Rightarrow> rat \<Rightarrow> login_grant" where
  "new_grant pr uuid4 now target offvpn ref meth ttl =
     \<lparr>g_id = uuid4, g_client_id = pr_client pr, g_target = str_of target,
      g_allow_offvpn = bool_of offvpn, g_created_at = now, g_expires_at = now + ttl,
      g_remaining_attempts = 1, g_approval_reference = ref, g_authorization_method = str_of meth\<rparr>"

definition authorize_update :: "proc \<Rightarrow> call \<Rightarrow> login_grant \<Rightarrow> json \<Rightarrow> json \<Rightarrow> json \<Rightarrow> ustr \<Rightarrow> jdict \<Rightarrow> jdict" where
  "authorize_update pr c g target offvpn meth ref s =
     append_event pr (c_clk c 3) ''login_authorized''
       [(lit ''grant_id'', JStr (g_id g)), (lit ''target'', target), (lit ''allow_offvpn'', offvpn),
        (lit ''authorization_method'', meth), (lit ''approval_reference'', JStr ref)]
       (jset ''login_grant'' (JObj (grant_dict g)) s)"

definition authorize_login ::
  "proc \<Rightarrow> call \<Rightarrow> json \<Rightarrow> json \<Rightarrow> json \<Rightarrow> json \<Rightarrow> json \<Rightarrow> json \<Rightarrow> rat \<Rightarrow> login_grant op" where
  "authorize_login pr c er eg target offvpn approval meth ttl =
     lift (authorize_args target offvpn meth ttl) (\<lambda>_.
     lift (clean_reference approval ''approval_reference'') (\<lambda>ref.
     locked pr (\<lambda>st.
       lift (read_valid_state pr (c_clk c 0) st) (\<lambda>s.
       lift (require_revision s er eg) (\<lambda>_.
       lift (reuse_gate s ''Enable reuse_only mode before authorizing a new O2 login.'') (\<lambda>_.
       lift (expire_stale_authorization pr (c_clk c 1) (c_clk c 2) s) (\<lambda>s1.
       lift (ensure (jget s1 ''login_grant'' = JNull)
               (O2LoginGrantError ''Another unexpired workstation-wide login grant already exists.'')) (\<lambda>_.
       lift (settle_attempt (c_clk c 1) s1) (\<lambda>s2.
       let g = new_grant pr (c_uuid c 0) (c_clk c 1) target offvpn ref meth ttl
       in returning
            (write_next_revision pr (c_fault c) (c_clk c 4) (c_clk c 5)
              (authorize_update pr c g target offvpn meth ref s2))
            g)))))) st)))"

text \<open>\<open>_consume_login_grant_locked\<close>, under the mutex of both consuming operations.\<close>

definition attempt_of_grant :: "login_grant \<Rightarrow> int \<Rightarrow> rat \<Rightarrow> jdict" where
  "attempt_of_grant g lpid now =
     [(lit ''grant_id'', JStr (g_id g)),
      (lit ''client_id'', JStr (g_client_id g)),
      (lit ''launcher_pid'', JInt lpid),
      (lit ''target'', JStr (g_target g)),
      (lit ''allow_offvpn'', JBool (g_allow_offvpn g)),
      (lit ''authorization_method'', JStr (g_authorization_method g)),
      (lit ''started_at'', JFloat (Fin now)),
      (lit ''finished_at'', JNull),
      (lit ''outcome'', JStr (lit ''active'')),
      (lit ''returncode'', JNull),
      (lit ''blocked_until'', JFloat (Fin (now + DEFAULT_LOGIN_COOLDOWN_SECONDS)))]"

definition consume_update :: "proc \<Rightarrow> call \<Rightarrow> login_grant \<Rightarrow> ustr \<Rightarrow> int \<Rightarrow> jdict \<Rightarrow> jdict" where
  "consume_update pr c g target lpid s =
     append_event pr (c_clk c 3) ''login_grant_consumed''
       [(lit ''grant_id'', JStr (g_id g)), (lit ''target'', JStr target),
        (lit ''authorization_method'', JStr (g_authorization_method g))]
       (jset ''login_attempt'' (JObj (attempt_of_grant g lpid (c_clk c 2)))
         (jset ''login_grant'' JNull s))"

definition consume_login_grant_locked :: "proc \<Rightarrow> call \<Rightarrow> ustr \<Rightarrow> ustr \<Rightarrow> int \<Rightarrow> login_grant op" where
  "consume_login_grant_locked pr c gid target lpid st =
     lift (read_valid_state pr (c_clk c 0) st) (\<lambda>s.
     lift (reuse_gate s ''O2 became disabled before the login grant could be consumed.'') (\<lambda>_.
     lift (require_matching_grant pr (c_clk c 1) s gid target) (\<lambda>g.
     returning
       (write_next_revision pr (c_fault c) (c_clk c 4) (c_clk c 5)
         (consume_update pr c g target lpid s))
       g))) st"

definition consume_login_grant :: "proc \<Rightarrow> call \<Rightarrow> ustr \<Rightarrow> ustr \<Rightarrow> login_grant op" where
  "consume_login_grant pr c gid target =
     locked pr (consume_login_grant_locked pr c gid target (pr_pid pr))"

definition revoke_update :: "proc \<Rightarrow> call \<Rightarrow> login_grant \<Rightarrow> ustr \<Rightarrow> jdict \<Rightarrow> jdict" where
  "revoke_update pr c g ref s =
     append_event pr (c_clk c 2) ''standing_login_grant_revoked''
       [(lit ''grant_id'', JStr (g_id g)), (lit ''target'', JStr (g_target g)), (lit ''reason'', JStr ref)]
       (jset ''login_grant'' JNull s)"

definition revoke_unused_standing_grant :: "proc \<Rightarrow> call \<Rightarrow> ustr \<Rightarrow> json \<Rightarrow> bool op" where
  "revoke_unused_standing_grant pr c gid reason =
     lift (clean_reference reason ''reason'') (\<lambda>ref.
     locked pr (\<lambda>st.
       lift (read_valid_state pr (c_clk c 0) st) (\<lambda>s st.
       if \<not> is_dict (jget s ''login_grant'') then (Inr False, st)
       else lift (grant_from_dict (dict_of (jget s ''login_grant'')) (Some (c_clk c 1))) (\<lambda>g st.
            if g_id g \<noteq> gid then (Inr False, st)
            else lift (ensure (g_client_id g = pr_client pr)
                         (O2LoginGrantError ''Cannot revoke a standing grant owned by another MCP client.'')) (\<lambda>_.
                 lift (ensure (g_authorization_method g = lit ''standing_on_vpn'')
                         (O2LoginGrantError ''Automatic cleanup cannot revoke an explicit user login grant.'')) (\<lambda>_.
                 returning
                   (write_next_revision pr (c_fault c) (c_clk c 3) (c_clk c 4)
                     (revoke_update pr c g ref s))
                   True)) st) st) st))"

text \<open>\<open>finish_login_attempt\<close>: the new fields of the attempt, and the whole operation.\<close>

definition returncode_json :: "int option \<Rightarrow> json" where
  "returncode_json rc = (case rc of None \<Rightarrow> JNull | Some n \<Rightarrow> JInt n)"

definition finished_attempt :: "jdict \<Rightarrow> ustr \<Rightarrow> int option \<Rightarrow> rat \<Rightarrow> jdict" where
  "finished_attempt a outcome rc t =
     (let a1 = jset ''returncode'' (returncode_json rc)
                 (jset ''outcome'' (JStr outcome) (jset ''finished_at'' (JFloat (Fin t)) a))
      in if outcome = lit ''success'' then jset ''blocked_until'' (JFloat (Fin t)) a1 else a1)"

definition finish_update :: "proc \<Rightarrow> call \<Rightarrow> ustr \<Rightarrow> ustr \<Rightarrow> int option \<Rightarrow> jdict \<Rightarrow> jdict" where
  "finish_update pr c gid outcome rc s =
     (let a = dict_of (jget s ''login_attempt'') in
      append_event pr (c_clk c 2) ''login_attempt_finished''
        [(lit ''grant_id'', JStr gid), (lit ''target'', jget a ''target''),
         (lit ''outcome'', JStr outcome), (lit ''returncode'', returncode_json rc)]
        (jset ''login_attempt'' (JObj (finished_attempt a outcome rc (c_clk c 1))) s))"

definition finish_login_attempt :: "proc \<Rightarrow> call \<Rightarrow> ustr \<Rightarrow> ustr \<Rightarrow> int option \<Rightarrow> unit op" where
  "finish_login_attempt pr c gid outcome rc =
     lift (ensure (outcome \<in> {lit ''success'', lit ''failed'', lit ''timed_out'', lit ''error''})
             (ValueError ''unsupported login outcome'')) (\<lambda>_.
     locked pr (\<lambda>st.
       lift (read_valid_state pr (c_clk c 0) st) (\<lambda>s.
       let a = dict_of (jget s ''login_attempt'') in
       lift (ensure (is_dict (jget s ''login_attempt'') \<and> jget a ''grant_id'' = JStr gid)
               (O2PolicyConflictError ''The active login attempt is no longer present in policy state.'')) (\<lambda>_.
       lift (ensure (jget a ''outcome'' = JStr (lit ''active''))
               (O2PolicyConflictError ''The login attempt is already terminal.'')) (\<lambda>_.
       returning
         (write_next_revision pr (c_fault c) (c_clk c 3) (c_clk c 4)
           (finish_update pr c gid outcome rc s))
         ()))) st))"

section \<open>How each operation changes the policy file\<close>

text \<open>
  Case rules: an operation leaves the policy file alone and raises, or it has read a valid
  record and replaced the file by the record it computed from it.
\<close>

definition meta_ok :: "proc \<Rightarrow> fs_meta \<Rightarrow> bool" where
  "meta_ok pr m \<longleftrightarrow> m_kind m = Regular \<and> m_uid m = pr_uid pr \<and> \<not> permissive (m_mode m)"

definition dir_ok :: "proc \<Rightarrow> store \<Rightarrow> bool" where
  "dir_ok pr st \<longleftrightarrow>
     (\<exists>m. s_dir st = Some m \<and> m_kind m = Directory \<and> m_uid m = pr_uid pr \<and> \<not> permissive (m_mode m))"

definition doc :: "store \<Rightarrow> jdict option" where
  "doc st = (case s_file st of Some (m, Doc (JObj d)) \<Rightarrow> Some d | _ \<Rightarrow> None)"

definition failed :: "'a res \<Rightarrow> bool" where
  "failed r = (case r of Inl e \<Rightarrow> True | Inr x \<Rightarrow> False)"

lemma failed_simps [simp]: "failed (Inl e)" "\<not> failed (Inr x)"
  by (auto simp: failed_def)

lemma validate_file_metadata_iff [simp]: "validate_file_metadata pr m = Inr u \<longleftrightarrow> meta_ok pr m"
  by (simp add: validate_file_metadata_def meta_ok_def)

lemma validate_parent_directory_iff [simp]: "validate_parent_directory pr st = Inr u \<longleftrightarrow> dir_ok pr st"
  by (auto simp: validate_parent_directory_def dir_ok_def split: option.splits)

lemma read_valid_state_iff:
  "read_valid_state pr now st = Inr s \<longleftrightarrow>
     dir_ok pr st \<and> (\<exists>m. s_file st = Some (m, Doc (JObj s)) \<and> meta_ok pr m) \<and> state_ok now s"
  by (auto simp: read_valid_state_def validate_state_iff split: option.splits prod.splits content.splits)

lemma read_valid_doc: "read_valid_state pr now st = Inr s \<Longrightarrow> doc st = Some s \<and> state_ok now s"
  by (auto simp: read_valid_state_iff doc_def)

lemma read_valid_same_file:
  "read_valid_state pr now st1 = Inr s \<Longrightarrow> s_file st1 = s_file st \<Longrightarrow> doc st = Some s \<and> state_ok now s"
  by (auto simp: read_valid_state_iff doc_def)

lemma private_ok [simp]: "meta_ok pr (private_file pr t)" "\<not> permissive 448"
  by (auto simp: meta_ok_def private_file_def permissive_def)

lemma prepare_dir:
  "prepare_policy_directory pr st = (r, st1) \<Longrightarrow>
     s_file st1 = s_file st \<and> (failed r \<or> dir_ok pr st1)"
  by (auto simp: prepare_policy_directory_def dir_ok_def private_dir_def permissive_def
      split: option.splits if_splits)

lemma locked_cases:
  assumes "locked pr body st = (r, st')"
  obtains (refused) "failed r" and "s_file st' = s_file st"
  | (entered) st1 where "s_file st1 = s_file st" and "dir_ok pr st1" and "body st1 = (r, st')"
proof -
  obtain r1 st1 where p: "prepare_policy_directory pr st = (r1, st1)" by fastforce
  note d = prepare_dir [OF p]
  show thesis
  proof (cases r1)
    case (Inl e)
    with assms p d show thesis by (intro refused) (auto simp: locked_def)
  next
    case (Inr u)
    show thesis
    proof (cases "s_mutex st1")
      case None
      let ?st = "st1\<lparr>s_mutex := Some (private_file pr 0)\<rparr>"
      have "dir_ok pr ?st" using d Inr by (auto simp: dir_ok_def)
      moreover have "body ?st = (r, st')" using assms p Inr None by (simp add: locked_def)
      ultimately show thesis using d by (intro entered [of ?st]) auto
    next
      case (Some m)
      with assms p Inr d show thesis
        by (auto simp: locked_def intro: refused entered split: if_splits sum.splits)
    qed
  qed
qed

text \<open>Writing: the file is untouched, or it holds the stamped record.\<close>

lemma write_cases:
  assumes "write_next_revision pr fault tw tr state st = (r, st')"
  obtains (untouched) "failed r" and "st' = st"
  | (replaced) "st' = st\<lparr>s_file := Some (private_file pr tw, Doc (JObj (stamp pr tw state)))\<rparr>"
      and "\<And>s. r = Inr s \<Longrightarrow> s = stamp pr tw state \<and> state_ok tr s"
  using assms
  by (cases fault) (auto simp: write_next_revision_def Let_def read_valid_state_iff)

lemma doc_written [simp]:
  "doc (st\<lparr>s_file := Some (m, Doc (JObj d))\<rparr>) = Some d"
  by (simp add: doc_def)

lemma doc_cong: "s_file st = s_file st' \<Longrightarrow> doc st = doc st'"
  by (simp add: doc_def)

lemma returning_write_cases:
  assumes "returning (write_next_revision pr fault tw tr state) x st = (r, st')"
  obtains (untouched) "failed r" and "st' = st"
  | (replaced) "st' = st\<lparr>s_file := Some (private_file pr tw, Doc (JObj (stamp pr tw state)))\<rparr>"
      and "\<And>y. r = Inr y \<Longrightarrow> y = x"
  using assms
  by (cases "write_next_revision pr fault tw tr state st")
    (auto simp: returning_def elim!: write_cases split: sum.splits)

lemma lift_cases:
  assumes "lift m f st = (r, st')"
  obtains (raised) "failed r" and "st' = st"
  | (passed) x where "m = Inr x" and "f x st = (r, st')"
  using assms by (cases m) auto

text \<open>Reading a record through the bookkeeping every write adds.\<close>

lemma stamp_get [simp]:
  "k \<notin> {''updated_by'', ''updated_at'', ''revision'', ''schema_version''} \<Longrightarrow> jget (stamp pr t s) k = jget s k"
  by (simp add: stamp_def)

lemma stamp_revision: "jget (stamp pr t s) ''revision'' = JInt (int_of (jget_or s ''revision'' (JInt 0)) + 1)"
  by (simp add: stamp_def)

lemma append_event_get [simp]: "k \<noteq> ''events'' \<Longrightarrow> jget (append_event pr t ev ds s) k = jget s k"
  by (simp add: append_event_def)

lemma append_event_get_or [simp]: "k \<noteq> ''events'' \<Longrightarrow> jget_or (append_event pr t ev ds s) k v = jget_or s k v"
  by (simp add: append_event_def)

end
