(* ===== verification/Policy_Trace.thy ===== *)
theory Policy_Trace
  imports Policy_Ops
begin

text \<open>
  Runs of the policy store: any sequence of operations by any processes, each with its own
  clock readings and write faults. The theory gives one case rule per mutation and proves the
  guarantees that hold over whole runs.
\<close>

section \<open>Case rules\<close>

lemmas op_elims = lift_cases locked_cases write_cases returning_write_cases

lemma disable_cases:
  assumes "disable pr c reason st = (r, st')"
  obtains (unchanged) "failed r" and "s_file st' = s_file st"
  | (wrote) st1 s ref where "s_file st1 = s_file st"
      and "read_for_repair_or_initialize pr c st1 = Inr s"
      and "s_file st' = Some (private_file pr (c_clk c 5), Doc (JObj (stamp pr (c_clk c 5) (disable_update pr c ref s))))"
      and "\<And>x. r = Inr x \<Longrightarrow> x = stamp pr (c_clk c 5) (disable_update pr c ref s) \<and> state_ok (c_clk c 6) x"
  using assms unfolding disable_def by (elim op_elims) (auto intro: unchanged wrote)

lemma enable_cases:
  assumes "enable_reuse pr c er eg approval st = (r, st')"
  obtains (unchanged) "failed r" and "s_file st' = s_file st"
  | (wrote) s ref where "doc st = Some s" and "state_ok (c_clk c 0) s"
      and "require_revision s er eg = Inr ()"
      and "s_file st' = Some (private_file pr (c_clk c 3), Doc (JObj (stamp pr (c_clk c 3) (enable_update pr c ref s))))"
  using assms unfolding enable_reuse_def
  by (elim op_elims) (auto dest: read_valid_same_file intro: unchanged wrote)

lemma authorize_cases:
  assumes "authorize_login pr c er eg target offvpn approval meth ttl st = (r, st')"
  obtains (unchanged) "failed r" and "s_file st' = s_file st"
  | (wrote) s s1 s2 ref where "doc st = Some s" and "state_ok (c_clk c 0) s"
      and "authorize_args target offvpn meth ttl = Inr ()"
      and "clean_reference approval ''approval_reference'' = Inr ref"
      and "require_revision s er eg = Inr ()"
      and "jget s ''mode'' = JStr (lit ''reuse_only'')"
      and "expire_stale_authorization pr (c_clk c 1) (c_clk c 2) s = Inr s1"
      and "jget s1 ''login_grant'' = JNull"
      and "settle_attempt (c_clk c 1) s1 = Inr s2"
      and "s_file st' = Some (private_file pr (c_clk c 4), Doc (JObj (stamp pr (c_clk c 4)
             (authorize_update pr c (new_grant pr (c_uuid c 0) (c_clk c 1) target offvpn ref meth ttl)
                target offvpn meth ref s2))))"
      and "\<And>g. r = Inr g \<Longrightarrow> g = new_grant pr (c_uuid c 0) (c_clk c 1) target offvpn ref meth ttl"
  using assms unfolding authorize_login_def Let_def reuse_gate_def
  by (elim op_elims) (auto dest: read_valid_same_file intro: unchanged wrote)

lemma require_matching_grant_iff:
  "require_matching_grant pr now s gid target = Inr g \<longleftrightarrow>
     (\<exists>gd. jget s ''login_grant'' = JObj gd \<and> grant_ok None gd \<and> g = grant_of gd
        \<and> g_id g = gid \<and> g_client_id g = pr_client pr \<and> g_target g = target
        \<and> g_remaining_attempts g = 1 \<and> now < g_expires_at g)"
  by (cases "jget s ''login_grant''") (auto simp: require_matching_grant_def grant_from_dict_iff)

lemma consume_cases:
  assumes "consume_login_grant pr c gid target st = (r, st')"
  obtains (unchanged) "failed r" and "s_file st' = s_file st"
  | (wrote) s g where "doc st = Some s" and "state_ok (c_clk c 0) s"
      and "jget s ''mode'' = JStr (lit ''reuse_only'')"
      and "require_matching_grant pr (c_clk c 1) s gid target = Inr g"
      and "s_file st' = Some (private_file pr (c_clk c 4),
             Doc (JObj (stamp pr (c_clk c 4) (consume_update pr c g target (pr_pid pr) s))))"
      and "\<And>x. r = Inr x \<Longrightarrow> x = g"
  using assms unfolding consume_login_grant_def consume_login_grant_locked_def reuse_gate_def
  by (elim op_elims) (auto dest: read_valid_same_file intro: unchanged wrote)

lemma revoke_cases:
  assumes "revoke_unused_standing_grant pr c gid reason st = (r, st')"
  obtains (unchanged) "failed r \<or> r = Inr False" and "s_file st' = s_file st"
  | (wrote) s gd ref where "doc st = Some s" and "state_ok (c_clk c 0) s"
      and "jget s ''login_grant'' = JObj gd" and "g_id (grant_of gd) = gid"
      and "g_client_id (grant_of gd) = pr_client pr"
      and "g_authorization_method (grant_of gd) = lit ''standing_on_vpn''"
      and "s_file st' = Some (private_file pr (c_clk c 3),
             Doc (JObj (stamp pr (c_clk c 3) (revoke_update pr c (grant_of gd) ref s))))"
  using assms unfolding revoke_unused_standing_grant_def
  by (elim op_elims) (auto simp: is_dict_iff grant_from_dict_iff intro: unchanged split: if_splits
      elim!: op_elims, blast dest: read_valid_same_file intro: wrote)

lemma finish_cases:
  assumes "finish_login_attempt pr c gid oc rc st = (r, st')"
  obtains (unchanged) "failed r" and "s_file st' = s_file st"
  | (wrote) s a where "doc st = Some s" and "state_ok (c_clk c 0) s"
      and "oc \<in> {lit ''success'', lit ''failed'', lit ''timed_out'', lit ''error''}"
      and "jget s ''login_attempt'' = JObj a" and "jget a ''grant_id'' = JStr gid"
      and "jget a ''outcome'' = JStr (lit ''active'')"
      and "s_file st' = Some (private_file pr (c_clk c 3),
             Doc (JObj (stamp pr (c_clk c 3) (finish_update pr c gid oc rc s))))"
  using assms unfolding finish_login_attempt_def Let_def
  by (elim op_elims) (auto simp: is_dict_iff dest: read_valid_same_file intro: unchanged wrote)

lemma reuse_launch_cases:
  assumes "serialize_reuse_launch pr now st = (r, st')"
  obtains "failed r" and "s_file st' = s_file st"
  | s where "doc st = Some s" and "state_ok now s" and "jget s ''mode'' = JStr (lit ''reuse_only'')"
      and "s_file st' = s_file st"
  using assms unfolding serialize_reuse_launch_def reuse_gate_def
  by (elim op_elims) (auto dest: read_valid_same_file)

lemma broker_launch_cases:
  assumes "authorize_consumed_broker_launch pr now gid target client lpid st = (r, st')"
  obtains "failed r" and "s_file st' = s_file st"
  | s where "doc st = Some s" and "state_ok now s" and "jget s ''mode'' = JStr (lit ''reuse_only'')"
      and "attempt_matches s gid target client (int_of lpid)" and "s_file st' = s_file st"
  using assms unfolding authorize_consumed_broker_launch_def reuse_gate_def
  by (elim op_elims) (auto dest: read_valid_same_file)

section \<open>Runs\<close>

datatype policy_op =
    Disable json
  | EnableReuse json json json
  | AuthorizeLogin json json json json json json rat
  | Consume ustr ustr
  | RevokeStanding ustr json
  | Finish ustr ustr "int option"
  | ReuseLaunch
  | BrokerLaunch ustr ustr ustr json
  | Damage

type_synonym policy_step = "proc \<times> call \<times> policy_op"

definition outcome :: "'a res \<times> store \<Rightarrow> bool \<times> store" where
  "outcome p = (\<not> failed (fst p), snd p)"

text \<open>
  \<open>Damage\<close> is a step of the environment, not of the code: an existing policy file is truncated
  or overwritten with text that is no JSON, at the time of the call's first clock reading.
\<close>

definition damaged :: "rat \<Rightarrow> store \<Rightarrow> store" where
  "damaged t st = st\<lparr>s_file := map_option (\<lambda>(m, cont). (m\<lparr>m_mtime := Fin t\<rparr>, Garbage)) (s_file st)\<rparr>"

lemma doc_damaged [simp]: "doc (damaged t st) = None"
  by (cases "s_file st") (auto simp: doc_def damaged_def)

text \<open>One operation: whether it returned a value, and the store it left.\<close>

fun exec :: "policy_step \<Rightarrow> store \<Rightarrow> bool \<times> store" where
  "exec (pr, c, Disable reason) st = outcome (disable pr c reason st)"
| "exec (pr, c, EnableReuse er eg ap) st = outcome (enable_reuse pr c er eg ap st)"
| "exec (pr, c, AuthorizeLogin er eg tg ov ap me ttl) st = outcome (authorize_login pr c er eg tg ov ap me ttl st)"
| "exec (pr, c, Consume gid tg) st = outcome (consume_login_grant pr c gid tg st)"
| "exec (pr, c, RevokeStanding gid reason) st = outcome (revoke_unused_standing_grant pr c gid reason st)"
| "exec (pr, c, Finish gid oc rc) st = outcome (finish_login_attempt pr c gid oc rc st)"
| "exec (pr, c, ReuseLaunch) st = outcome (serialize_reuse_launch pr (c_clk c 0) st)"
| "exec (pr, c, BrokerLaunch gid tg cl lp) st =
     outcome (authorize_consumed_broker_launch pr (c_clk c 0) gid tg cl lp st)"
| "exec (pr, c, Damage) st = (True, damaged (c_clk c 0) st)"

fun run :: "policy_step list \<Rightarrow> store \<Rightarrow> (policy_step \<times> bool) list \<times> store" where
  "run [] st = ([], st)"
| "run (x # xs) st =
     (let (ok, st1) = exec x st; (rs, st2) = run xs st1 in ((x, ok) # rs, st2))"

definition final :: "policy_step list \<Rightarrow> store \<Rightarrow> store" where
  "final xs st = snd (run xs st)"

definition results :: "policy_step list \<Rightarrow> store \<Rightarrow> (policy_step \<times> bool) list" where
  "results xs st = fst (run xs st)"

lemma results_simps [simp]:
  "results [] st = []" "final [] st = st"
  "results (x # xs) st = (x, fst (exec x st)) # results xs (snd (exec x st))"
  "final (x # xs) st = final xs (snd (exec x st))"
  by (simp_all add: results_def final_def split: prod.splits)

abbreviation op_of :: "policy_step \<Rightarrow> policy_op" where "op_of x \<equiv> snd (snd x)"
abbreviation call_of :: "policy_step \<Rightarrow> call" where "call_of x \<equiv> fst (snd x)"

text \<open>The operations after which a process may start something remote or obtain a grant.\<close>

fun opens :: "policy_op \<Rightarrow> bool" where
  "opens (AuthorizeLogin _ _ _ _ _ _ _) = True"
| "opens (Consume _ _) = True"
| "opens ReuseLaunch = True"
| "opens (BrokerLaunch _ _ _ _) = True"
| "opens _ = False"

fun is_enable :: "policy_op \<Rightarrow> bool" where
  "is_enable (EnableReuse _ _ _) = True" | "is_enable _ = False"

fun is_consume :: "policy_op \<Rightarrow> bool" where
  "is_consume (Consume _ _) = True" | "is_consume _ = False"

fun is_authorize :: "policy_op \<Rightarrow> bool" where
  "is_authorize (AuthorizeLogin _ _ _ _ _ _ _) = True" | "is_authorize _ = False"

lemma outcome_eq: "outcome p = (ok, st') \<longleftrightarrow> (\<exists>r. p = (r, st') \<and> ok = (\<not> failed r))"
  by (cases p) (auto simp: outcome_def)

text \<open>
  One case rule for all operations: a step leaves the file alone, or it replaces it by one of
  the six records.
\<close>

lemmas mutation_elims = disable_cases enable_cases authorize_cases consume_cases revoke_cases
  finish_cases reuse_launch_cases broker_launch_cases

section \<open>A safety stop holds until reuse is enabled again\<close>

definition stopped :: "store \<Rightarrow> bool" where
  "stopped st \<longleftrightarrow> (\<forall>d. doc st = Some d \<longrightarrow> jget d ''mode'' \<noteq> JStr (lit ''reuse_only''))"

lemma stopped_cong: "s_file st' = s_file st \<Longrightarrow> stopped st \<Longrightarrow> stopped st'"
  unfolding stopped_def doc_def by simp

lemma doc_of_file: "s_file st = Some (m, Doc (JObj d)) \<Longrightarrow> doc st = Some d"
  by (simp add: doc_def)

lemma update_modes:
  "jget (disable_update pr c ref s) ''mode'' = JStr (lit ''disabled'')"
  "jget (enable_update pr c ref s) ''mode'' = JStr (lit ''reuse_only'')"
  "jget (consume_update pr c g tg lp s) ''mode'' = jget s ''mode''"
  "jget (revoke_update pr c g ref s) ''mode'' = jget s ''mode''"
  "jget (finish_update pr c gid oc rc s) ''mode'' = jget s ''mode''"
  by (simp_all add: disable_update_def enable_update_def consume_update_def revoke_update_def
      finish_update_def Let_def)

lemma stopped_written:
  "s_file st' = Some (m, Doc (JObj (stamp pr t s))) \<Longrightarrow>
   jget s ''mode'' \<noteq> JStr (lit ''reuse_only'') \<Longrightarrow> stopped st'"
  by (simp add: stopped_def doc_of_file)

lemma stopped_doc: "stopped st \<Longrightarrow> doc st = Some s \<Longrightarrow> jget s ''mode'' \<noteq> JStr (lit ''reuse_only'')"
  by (simp add: stopped_def)

lemma disable_stopped: "disable pr c reason st = (r, st') \<Longrightarrow> stopped st \<Longrightarrow> stopped st'"
  by (erule disable_cases) (auto intro: stopped_cong stopped_written simp: update_modes)

lemma revoke_stopped:
  "revoke_unused_standing_grant pr c gid reason st = (r, st') \<Longrightarrow> stopped st \<Longrightarrow> stopped st'"
  by (erule revoke_cases) (auto intro: stopped_cong stopped_written simp: update_modes stopped_doc)

lemma finish_stopped:
  "finish_login_attempt pr c gid oc rc st = (r, st') \<Longrightarrow> stopped st \<Longrightarrow> stopped st'"
  by (erule finish_cases) (auto intro: stopped_cong stopped_written simp: update_modes stopped_doc)

lemma opening_stopped:
  "authorize_login pr c er eg tg ov ap me ttl st = (r, st') \<Longrightarrow> stopped st \<Longrightarrow> failed r \<and> stopped st'"
  "consume_login_grant pr c gid tg' st = (r', st') \<Longrightarrow> stopped st \<Longrightarrow> failed r' \<and> stopped st'"
  "serialize_reuse_launch pr now st = (u, st') \<Longrightarrow> stopped st \<Longrightarrow> failed u \<and> stopped st'"
  "authorize_consumed_broker_launch pr now gid tg' cl lp st = (u, st') \<Longrightarrow> stopped st \<Longrightarrow> failed u \<and> stopped st'"
  by (erule authorize_cases, auto intro: stopped_cong dest: stopped_doc)
    (erule consume_cases reuse_launch_cases broker_launch_cases; auto intro: stopped_cong dest: stopped_doc)+

lemma exec_stopped:
  assumes "exec x st = (ok, st')" and "stopped st" and "\<not> is_enable (op_of x)"
  shows "stopped st' \<and> (opens (op_of x) \<longrightarrow> \<not> ok)"
proof -
  obtain pr c opn where x: "x = (pr, c, opn)" by (metis surj_pair)
  from assms show ?thesis unfolding x
    by (cases opn) (auto simp: outcome_eq stopped_def [of "damaged t s" for t s] dest: disable_stopped revoke_stopped finish_stopped opening_stopped)
qed

section \<open>Invariants of runs\<close>

text \<open>
  The interface the run-level guarantees use: a predicate on stores that every permitted step
  keeps, together with what such a step can and cannot return. Whole runs then keep it.
\<close>

locale policy_invariant =
  fixes I :: "store \<Rightarrow> bool" and permitted :: "policy_step \<Rightarrow> bool"
    and good :: "policy_step \<Rightarrow> bool \<Rightarrow> bool"
  assumes step: "exec x st = (ok, st') \<Longrightarrow> I st \<Longrightarrow> permitted x \<Longrightarrow> I st' \<and> good x ok"
begin

lemma run_keeps:
  "I st \<Longrightarrow> \<forall>x \<in> set xs. permitted x \<Longrightarrow>
   I (final xs st) \<and> (\<forall>(x, ok) \<in> set (results xs st). good x ok)"
proof (induction xs arbitrary: st)
  case (Cons x xs)
  obtain ok st1 where e: "exec x st = (ok, st1)" by fastforce
  with Cons.prems step [OF e] have "I st1" "good x ok" by auto
  with Cons e show ?case by auto
qed simp

lemma run_good:
  "I st \<Longrightarrow> \<forall>x \<in> set xs. permitted x \<Longrightarrow> (x, ok) \<in> set (results xs st) \<Longrightarrow> good x ok"
  using run_keeps by blast

end

interpretation stop: policy_invariant stopped "\<lambda>x. \<not> is_enable (op_of x)" "\<lambda>x ok. opens (op_of x) \<longrightarrow> \<not> ok"
  by unfold_locales (auto dest: exec_stopped)

section \<open>Stale revisions stay rejected\<close>

text \<open>
  The compare-and-swap pair of a record. \<open>superseded g r\<close> holds of a store whose record, if it is
  still of generation \<open>g\<close>, has a revision above \<open>r\<close>.
\<close>

definition superseded :: "ustr \<Rightarrow> int \<Rightarrow> store \<Rightarrow> bool" where
  "superseded g r st \<longleftrightarrow>
     (\<forall>d. doc st = Some d \<longrightarrow> jget d ''generation'' = JStr g \<longrightarrow> r < int_of (jget d ''revision''))"

fun expects :: "policy_op \<Rightarrow> ustr \<Rightarrow> int \<Rightarrow> bool" where
  "expects (EnableReuse er eg _) g r = (er = JInt r \<and> eg = JStr g)"
| "expects (AuthorizeLogin er eg _ _ _ _ _) g r = (er = JInt r \<and> eg = JStr g)"
| "expects _ g r = False"

lemma update_generations:
  "jget (disable_update pr c ref s) ''generation'' = jget s ''generation''"
  "jget (enable_update pr c ref s) ''generation'' = jget s ''generation''"
  "jget (authorize_update pr c gr tg ov me ref s) ''generation'' = jget s ''generation''"
  "jget (consume_update pr c gr tg' lp s) ''generation'' = jget s ''generation''"
  "jget (revoke_update pr c gr ref s) ''generation'' = jget s ''generation''"
  "jget (finish_update pr c gid oc rc s) ''generation'' = jget s ''generation''"
  by (simp_all add: disable_update_def enable_update_def authorize_update_def consume_update_def
      revoke_update_def finish_update_def Let_def)

lemma update_revisions:
  "jget_or (disable_update pr c ref s) ''revision'' v = jget_or s ''revision'' v"
  "jget_or (enable_update pr c ref s) ''revision'' v = jget_or s ''revision'' v"
  "jget_or (authorize_update pr c gr tg ov me ref s) ''revision'' v = jget_or s ''revision'' v"
  "jget_or (consume_update pr c gr tg' lp s) ''revision'' v = jget_or s ''revision'' v"
  "jget_or (revoke_update pr c gr ref s) ''revision'' v = jget_or s ''revision'' v"
  "jget_or (finish_update pr c gid oc rc s) ''revision'' v = jget_or s ''revision'' v"
  by (simp_all add: disable_update_def enable_update_def authorize_update_def consume_update_def
      revoke_update_def finish_update_def Let_def)

lemma state_ok_revision:
  "state_ok now s \<Longrightarrow> jget_or s ''revision'' v = jget s ''revision'' \<and> is_int (jget s ''revision'')"
  by (auto simp: state_ok_def jget_or_def jget_def split: option.splits)

lemma settle_get: "settle_attempt now s = Inr s' \<Longrightarrow> k \<noteq> ''login_attempt'' \<Longrightarrow>
    jget s' k = jget s k \<and> jget_or s' k v = jget_or s k v"
  by (auto simp: settle_attempt_def Let_def split: if_splits)

lemma expire_get: "expire_stale_authorization pr now t s = Inr s' \<Longrightarrow> k \<notin> {''login_grant'', ''events''} \<Longrightarrow>
    jget s' k = jget s k \<and> jget_or s' k v = jget_or s k v"
  by (auto simp: expire_stale_authorization_def append_event_def split: if_splits)

lemma superseded_written:
  assumes "s_file st' = Some (m, Doc (JObj (stamp pr t s')))"
    and "doc st = Some s" and "state_ok now s" and "superseded g r st"
    and "jget s' ''generation'' = jget s ''generation''"
    and "jget_or s' ''revision'' (JInt 0) = jget_or s ''revision'' (JInt 0)"
  shows "superseded g (r + 1) st'"
  using assms state_ok_revision [OF assms(3), of "JInt 0"]
  by (auto simp: superseded_def doc_of_file stamp_revision)

lemma superseded_mono: "superseded g r st \<Longrightarrow> r' \<le> r \<Longrightarrow> superseded g r' st"
  by (force simp: superseded_def)

lemma superseded_cong: "s_file st' = s_file st \<Longrightarrow> superseded g r st \<Longrightarrow> superseded g r st'"
  unfolding superseded_def doc_def by simp

lemma superseded_rejects:
  "superseded g r st \<Longrightarrow> doc st = Some s \<Longrightarrow> require_revision s (JInt r) (JStr g) = Inr () \<Longrightarrow> False"
  by (auto simp: superseded_def require_revision_def)

end
