(* ===== verification/Policy_Safety.thy ===== *)
theory Policy_Safety
  imports Policy_Trace
begin

text \<open>
  Guarantees over runs of the policy store that need more than one step: stale approvals stay
  rejected, a grant starts at most one login, and a login attempt that did not succeed keeps
  every further attempt away for the full cooldown.
\<close>

section \<open>Repair\<close>

lemma read_for_repair_cases:
  assumes "read_for_repair_or_initialize pr c st = Inr s"
  obtains (valid) m where "s_file st = Some (m, Doc (JObj s))" and "state_ok (c_clk c 0) s"
  | (missing) "s_file st = None" and "s = initial_state pr (c_clk c 2) (c_uuid c 0)"
  | (repaired) m cont where "s_file st = Some (m, cont)" and "s = conservative_repair_state pr c m"
  using assms
  by (auto simp: read_for_repair_or_initialize_def validate_state_iff
      split: option.splits prod.splits content.splits sum.splits if_splits)

lemma fresh_generation:
  "jget (initial_state pr t u) ''generation'' = JStr u"
  "jget (conservative_repair_state pr c m) ''generation'' = JStr (c_uuid c 0)"
  by (simp_all add: initial_state_def conservative_repair_state_def Let_def)

section \<open>Stale approvals\<close>

lemma disable_superseded:
  assumes "disable pr c reason st = (r, st')" and "superseded g n st" and "c_uuid c 0 \<noteq> g"
  shows "s_file st' = s_file st \<or> superseded g (n + 1) st'"
  using assms(1)
proof (cases rule: disable_cases)
  case unchanged
  then show ?thesis by simp
next
  case (wrote st1 s ref)
  from wrote(2) show ?thesis
  proof (cases rule: read_for_repair_cases)
    case (valid m)
    with wrote(1) have d: "doc st = Some s" by (metis doc_of_file)
    have "superseded g (n + 1) st'"
      by (rule superseded_written [OF wrote(3) d valid(2) assms(2)])
        (simp_all add: update_generations update_revisions)
    then show ?thesis ..
  qed (use wrote(3) assms(3) in
      \<open>simp_all add: superseded_def doc_of_file update_generations fresh_generation\<close>)
qed

lemma enable_superseded:
  assumes "enable_reuse pr c er eg ap st = (r, st')" and "superseded g n st"
  shows "(s_file st' = s_file st \<or> superseded g (n + 1) st') \<and> (er = JInt n \<and> eg = JStr g \<longrightarrow> failed r)"
  using assms(1)
proof (cases rule: enable_cases)
  case unchanged
  with assms(2) show ?thesis by (blast intro: superseded_cong)
next
  case (wrote s ref)
  with assms(2) show ?thesis
    by (auto intro: superseded_written dest: superseded_rejects simp: update_generations update_revisions)
qed

lemma authorize_superseded:
  assumes "authorize_login pr c er eg tg ov ap me ttl st = (r, st')" and "superseded g n st"
  shows "(s_file st' = s_file st \<or> superseded g (n + 1) st') \<and> (er = JInt n \<and> eg = JStr g \<longrightarrow> failed r)"
  using assms(1)
proof (cases rule: authorize_cases)
  case unchanged
  with assms(2) show ?thesis by (blast intro: superseded_cong)
next
  case (wrote s s1 s2 ref)
  note keys = expire_get [OF wrote(7)] settle_get [OF wrote(9)]
  have "superseded g (n + 1) st'"
    by (rule superseded_written [OF wrote(10) wrote(1,2) assms(2)])
      (simp_all add: update_generations update_revisions keys)
  with wrote(1,5) assms(2) show ?thesis by (auto dest: superseded_rejects)
qed

lemma other_superseded:
  "consume_login_grant pr c gid tg st = (r, st') \<Longrightarrow> superseded g n st \<Longrightarrow>
     s_file st' = s_file st \<or> superseded g (n + 1) st'"
  "revoke_unused_standing_grant pr c gid reason st = (rb, st') \<Longrightarrow> superseded g n st \<Longrightarrow>
     s_file st' = s_file st \<or> superseded g (n + 1) st'"
  "finish_login_attempt pr c gid oc rc st = (ru, st') \<Longrightarrow> superseded g n st \<Longrightarrow>
     s_file st' = s_file st \<or> superseded g (n + 1) st'"
  by (erule consume_cases revoke_cases finish_cases; auto intro: superseded_cong superseded_written
      simp: update_generations update_revisions)+

lemma launch_same_file:
  "serialize_reuse_launch pr now st = (u, st') \<Longrightarrow> s_file st' = s_file st"
  "authorize_consumed_broker_launch pr now gid tg cl lp st = (u, st') \<Longrightarrow> s_file st' = s_file st"
  by (auto elim: reuse_launch_cases broker_launch_cases)

lemma exec_superseded_write:
  assumes "exec x st = (ok, st')" and "superseded g n st" and "c_uuid (call_of x) 0 \<noteq> g"
  shows "(s_file st' = s_file st \<or> superseded g (n + 1) st') \<and> (expects (op_of x) g n \<longrightarrow> \<not> ok)"
proof -
  obtain pr c opn where x: "x = (pr, c, opn)" by (metis surj_pair)
  from assms show ?thesis unfolding x
    by (cases opn) (auto simp: outcome_eq superseded_def [of _ _ "damaged t s" for t s] dest: disable_superseded
        enable_superseded authorize_superseded other_superseded launch_same_file)
qed

lemma exec_superseded:
  assumes "exec x st = (ok, st')" and "superseded g n st" and "c_uuid (call_of x) 0 \<noteq> g"
  shows "superseded g n st' \<and> (expects (op_of x) g n \<longrightarrow> \<not> ok)"
  using exec_superseded_write [OF assms] assms(2)
  by (auto intro: superseded_cong superseded_mono)

interpretation cas: policy_invariant "superseded g n" "\<lambda>x. c_uuid (call_of x) 0 \<noteq> g"
  "\<lambda>x ok. expects (op_of x) g n \<longrightarrow> \<not> ok" for g n
  by unfold_locales (auto dest: exec_superseded)

section \<open>One login per grant\<close>

definition holds_grant :: "store \<Rightarrow> bool" where
  "holds_grant st \<longleftrightarrow> (case doc st of None \<Rightarrow> False | Some d \<Rightarrow> is_dict (jget d ''login_grant''))"

fun consumed :: "policy_step list \<Rightarrow> store \<Rightarrow> nat" where
  "consumed [] st = 0"
| "consumed (x # xs) st =
     (let (ok, st1) = exec x st in of_bool (is_consume (op_of x) \<and> ok) + consumed xs st1)"

fun issued :: "policy_step list \<Rightarrow> store \<Rightarrow> nat" where
  "issued [] st = 0"
| "issued (x # xs) st =
     (let (ok, st1) = exec x st
      in of_bool (is_authorize (op_of x) \<and> s_file st1 \<noteq> s_file st) + issued xs st1)"

lemma holds_grant_cong: "s_file st' = s_file st \<Longrightarrow> holds_grant st' = holds_grant st"
  unfolding holds_grant_def doc_def by simp

lemma holds_grant_written:
  "s_file st' = Some (m, Doc (JObj (stamp pr t s))) \<Longrightarrow> holds_grant st' = is_dict (jget s ''login_grant'')"
  by (simp add: holds_grant_def doc_of_file)

lemma doc_holds_grant: "doc st = Some s \<Longrightarrow> holds_grant st = is_dict (jget s ''login_grant'')"
  by (simp add: holds_grant_def)

lemma update_grants:
  "jget (disable_update pr c ref s) ''login_grant'' = JNull"
  "jget (enable_update pr c ref s) ''login_grant'' = JNull"
  "jget (consume_update pr c gr tg' lp s) ''login_grant'' = JNull"
  "jget (revoke_update pr c gr ref s) ''login_grant'' = JNull"
  "jget (finish_update pr c gid oc rc s) ''login_grant'' = jget s ''login_grant''"
  by (simp_all add: disable_update_def enable_update_def consume_update_def revoke_update_def
      finish_update_def Let_def)

lemma consume_uses_grant:
  "consume_login_grant pr c gid tg st = (r, st') \<Longrightarrow>
     (if failed r then holds_grant st' \<longrightarrow> holds_grant st else holds_grant st \<and> \<not> holds_grant st')"
  by (erule consume_cases)
    (auto simp: holds_grant_written update_grants require_matching_grant_iff doc_holds_grant
      dest: holds_grant_cong)

lemma no_new_grant:
  "disable pr c reason st = (r, st') \<Longrightarrow> holds_grant st' \<Longrightarrow> holds_grant st"
  "enable_reuse pr c er eg ap st = (r, st') \<Longrightarrow> holds_grant st' \<Longrightarrow> holds_grant st"
  "revoke_unused_standing_grant pr c gid reason st = (rb, st') \<Longrightarrow> holds_grant st' \<Longrightarrow> holds_grant st"
  "finish_login_attempt pr c gid oc rc st = (ru, st') \<Longrightarrow> holds_grant st' \<Longrightarrow> holds_grant st"
  by (erule disable_cases enable_cases revoke_cases finish_cases;
      auto simp: holds_grant_written update_grants dest: holds_grant_cong simp: doc_holds_grant)+

lemma exec_grant_count:
  assumes "exec x st = (ok, st')"
  shows "of_bool (is_consume (op_of x) \<and> ok) + of_bool (holds_grant st')
      \<le> (of_bool (holds_grant st) :: nat) + of_bool (is_authorize (op_of x) \<and> s_file st' \<noteq> s_file st)"
proof -
  obtain pr c opn where x: "x = (pr, c, opn)" by (metis surj_pair)
  have same: "s_file st' = s_file st \<Longrightarrow> holds_grant st' = holds_grant st"
    by (rule holds_grant_cong)
  from assms show ?thesis unfolding x
    by (cases opn) (auto simp: outcome_eq of_bool_def holds_grant_def [of "damaged t s" for t s] dest: no_new_grant consume_uses_grant same launch_same_file
        split: if_splits)
qed

lemma consumed_le_issued: "consumed xs st \<le> issued xs st + of_bool (holds_grant st)"
proof (induction xs arbitrary: st)
  case (Cons x xs)
  obtain ok st1 where e: "exec x st = (ok, st1)" by fastforce
  have "consumed (x # xs) st = of_bool (is_consume (op_of x) \<and> ok) + consumed xs st1"
    by (simp add: e)
  also have "\<dots> \<le> of_bool (is_consume (op_of x) \<and> ok) + (issued xs st1 + of_bool (holds_grant st1))"
    using Cons.IH by simp
  also have "\<dots> \<le> issued xs st1 + (of_bool (holds_grant st) + of_bool (is_authorize (op_of x) \<and> s_file st1 \<noteq> s_file st))"
    using exec_grant_count [OF e] by simp
  finally show ?case by (simp add: e)
qed simp

section \<open>The retry cooldown\<close>

text \<open>
  A run's clock: readings never go back, within a call and from one call to the next.
\<close>

fun clk_ok :: "rat \<Rightarrow> policy_step list \<Rightarrow> bool" where
  "clk_ok lo [] = True"
| "clk_ok lo ((pr, c, opn) # xs) = (lo \<le> c_clk c 0 \<and> mono (c_clk c) \<and> clk_ok (c_clk c 6) xs)"

fun succeeds :: "policy_op \<Rightarrow> bool" where
  "succeeds (Finish gid oc rc) = (oc = lit ''success'')" | "succeeds _ = False"

text \<open>
  A store that is cooling down until \<open>b\<close> after an attempt started at \<open>b\<close> less the cooldown: the
  file is no older than that start, no grant is stored, and the stored attempt blocks until \<open>b\<close>.
\<close>

definition cooling :: "rat \<Rightarrow> store \<Rightarrow> bool" where
  "cooling b st \<longleftrightarrow>
     (\<exists>m r cont. s_file st = Some (m, cont) \<and> m_mtime m = Fin r \<and> b - DEFAULT_LOGIN_COOLDOWN_SECONDS \<le> r)
     \<and> (\<forall>d. doc st = Some d \<longrightarrow> \<not> is_dict (jget d ''login_grant'')
          \<and> (\<exists>a. jget d ''login_attempt'' = JObj a \<and> b \<le> num_val (jget a ''blocked_until'')))"

lemma cooling_cong: "s_file st' = s_file st \<Longrightarrow> cooling b st \<Longrightarrow> cooling b st'"
  unfolding cooling_def doc_def by simp

lemma cooling_written:
  assumes "s_file st' = Some (private_file pr t, Doc (JObj (stamp pr t s)))"
    and "b - DEFAULT_LOGIN_COOLDOWN_SECONDS \<le> t" and "\<not> is_dict (jget s ''login_grant'')"
    and "jget s ''login_attempt'' = JObj a" and "b \<le> num_val (jget a ''blocked_until'')"
  shows "cooling b st'"
  using assms by (auto simp: cooling_def doc_of_file private_file_def)

lemma cooling_doc:
  assumes "cooling b st" and "doc st = Some s"
  obtains a where "\<not> is_dict (jget s ''login_grant'')" and "jget s ''login_attempt'' = JObj a"
    and "b \<le> num_val (jget a ''blocked_until'')"
  using assms by (auto simp: cooling_def)

lemma update_attempts:
  "jget (disable_update pr c ref s) ''login_attempt'' = jget s ''login_attempt''"
  "jget (enable_update pr c ref s) ''login_attempt'' = jget s ''login_attempt''"
  "jget (consume_update pr c gr tg' lp s) ''login_attempt'' = JObj (attempt_of_grant gr lp (c_clk c 2))"
  "jget (revoke_update pr c gr ref s) ''login_attempt'' = jget s ''login_attempt''"
  "jget (finish_update pr c gid oc rc s) ''login_attempt'' =
     JObj (finished_attempt (dict_of (jget s ''login_attempt'')) oc rc (c_clk c 1))"
  by (simp_all add: disable_update_def enable_update_def consume_update_def revoke_update_def
      finish_update_def Let_def)

lemma repair_attempt:
  "jget (conservative_repair_state pr c m) ''login_grant'' = JNull"
  "\<exists>a. jget (conservative_repair_state pr c m) ''login_attempt'' = JObj a
     \<and> num_val (jget a ''blocked_until'') = repair_started_at (m_mtime m) (c_clk c 1) + DEFAULT_LOGIN_COOLDOWN_SECONDS"
  by (simp_all add: conservative_repair_state_def initial_state_def Let_def)

lemma disable_cooling:
  assumes "disable pr c reason st = (r, st')" and "cooling b st"
    and "b - DEFAULT_LOGIN_COOLDOWN_SECONDS \<le> c_clk c 0" and "mono (c_clk c)"
  shows "cooling b st'"
  using assms(1)
proof (cases rule: disable_cases)
  case unchanged
  with assms(2) show ?thesis by (blast intro: cooling_cong)
next
  case (wrote st1 s ref)
  have t: "b - DEFAULT_LOGIN_COOLDOWN_SECONDS \<le> c_clk c n" for n
    using assms(3) monoD [OF assms(4), of 0 n] by simp
  from assms(2) obtain m x cont where f: "s_file st = Some (m, cont)" "m_mtime m = Fin x"
      "b - DEFAULT_LOGIN_COOLDOWN_SECONDS \<le> x"
    by (auto simp: cooling_def)
  from wrote(2) show ?thesis
  proof (cases rule: read_for_repair_cases)
    case (valid m')
    with wrote(1) have "doc st = Some s" by (metis doc_of_file)
    with assms(2) obtain a where "jget s ''login_attempt'' = JObj a" "b \<le> num_val (jget a ''blocked_until'')"
      by (rule cooling_doc)
    with wrote(3) t show ?thesis
      by (auto intro!: cooling_written simp: update_grants update_attempts)
  next
    case missing
    with wrote(1) f show ?thesis by simp
  next
    case (repaired m' cont')
    with wrote(1) f have "m' = m" by simp
    with f t [of 1] have "b \<le> repair_started_at (m_mtime m') (c_clk c 1) + DEFAULT_LOGIN_COOLDOWN_SECONDS"
      by (simp add: repair_started_at_def)
    with wrote(3) t repaired(2) repair_attempt [of pr c m'] show ?thesis
      by (auto intro!: cooling_written simp: update_grants update_attempts)
  qed
qed

lemma enable_cooling:
  assumes "enable_reuse pr c er eg ap st = (r, st')" and "cooling b st"
    and "\<And>n. b - DEFAULT_LOGIN_COOLDOWN_SECONDS \<le> c_clk c n"
  shows "cooling b st'"
  using assms(1)
proof (cases rule: enable_cases)
  case unchanged
  with assms(2) show ?thesis by (blast intro: cooling_cong)
next
  case (wrote s ref)
  from cooling_doc [OF assms(2) wrote(1)] obtain a where
    "jget s ''login_attempt'' = JObj a" "b \<le> num_val (jget a ''blocked_until'')" .
  with wrote(4) assms(3) show ?thesis
    by (auto intro!: cooling_written simp: update_grants update_attempts)
qed

lemma finish_cooling:
  assumes "finish_login_attempt pr c gid oc rc st = (r, st')" and "cooling b st" and "oc \<noteq> lit ''success''"
    and "\<And>n. b - DEFAULT_LOGIN_COOLDOWN_SECONDS \<le> c_clk c n"
  shows "cooling b st'"
  using assms(1)
proof (cases rule: finish_cases)
  case unchanged
  with assms(2) show ?thesis by (blast intro: cooling_cong)
next
  case (wrote s a)
  from cooling_doc [OF assms(2) wrote(1)] wrote(4)
  have "b \<le> num_val (jget a ''blocked_until'')" "\<not> is_dict (jget s ''login_grant'')" by auto
  with wrote(4,7) assms(3,4) show ?thesis
    by (auto intro!: cooling_written simp: update_grants update_attempts finished_attempt_def)
qed

text \<open>While cooling, no grant can be consumed or revoked, and none issued before \<open>b\<close>.\<close>

lemma consume_cooling:
  "consume_login_grant pr c gid tg st = (r, st') \<Longrightarrow> cooling b st \<Longrightarrow> failed r \<and> cooling b st'"
  by (erule consume_cases)
    (auto simp: require_matching_grant_iff intro: cooling_cong elim: cooling_doc)

lemma revoke_cooling:
  "revoke_unused_standing_grant pr c gid reason st = (r, st') \<Longrightarrow> cooling b st \<Longrightarrow> cooling b st'"
  by (erule revoke_cases) (auto intro: cooling_cong elim: cooling_doc)

lemma authorize_cooling:
  assumes "authorize_login pr c er eg tg ov ap me ttl st = (r, st')" and "cooling b st"
  shows "failed r \<and> cooling b st' \<or> b \<le> c_clk c 1"
  using assms(1)
proof (cases rule: authorize_cases)
  case unchanged
  with assms(2) show ?thesis by (blast intro: cooling_cong)
next
  case (wrote s s1 s2 ref)
  from cooling_doc [OF assms(2) wrote(1)] obtain a where a: "\<not> is_dict (jget s ''login_grant'')"
    "jget s ''login_attempt'' = JObj a" "b \<le> num_val (jget a ''blocked_until'')" .
  with wrote(7) have "s1 = s" by (simp add: expire_stale_authorization_def)
  moreover have "num_val (jget_or a ''blocked_until'' (JFloat (Fin 0))) = num_val (jget a ''blocked_until'')"
    by (simp add: jget_or_def jget_def num_val_def split: option.splits)
  ultimately have "b \<le> c_clk c 1"
    using wrote(9) a by (auto simp: settle_attempt_def Let_def split: if_splits)
  then show ?thesis by simp
qed

lemma damaged_cooling:
  assumes "cooling b st" and "b - DEFAULT_LOGIN_COOLDOWN_SECONDS \<le> t"
  shows "cooling b (damaged t st)"
proof -
  from assms(1) obtain m cont where "s_file st = Some (m, cont)" by (auto simp: cooling_def)
  then have "s_file (damaged t st) = Some (m\<lparr>m_mtime := Fin t\<rparr>, Garbage)" by (simp add: damaged_def)
  with assms(2) show ?thesis by (simp add: cooling_def)
qed

lemma exec_cooling:
  assumes "exec x st = (ok, st')" and "cooling b st" and "\<not> succeeds (op_of x)"
    and "b - DEFAULT_LOGIN_COOLDOWN_SECONDS \<le> c_clk (call_of x) 0" and m: "mono (c_clk (call_of x))"
  shows "\<not> (ok \<and> (is_consume (op_of x) \<or> is_authorize (op_of x))) \<and> cooling b st' \<or> b \<le> c_clk (call_of x) 1"
proof -
  obtain pr c opn where x: "x = (pr, c, opn)" by (metis surj_pair)
  have t: "b - DEFAULT_LOGIN_COOLDOWN_SECONDS \<le> c_clk c n" for n
    using assms(4) monoD [OF m, of 0 n] unfolding x by simp
  from assms t show ?thesis unfolding x
    by (cases opn) (auto simp: outcome_eq dest: disable_cooling enable_cooling consume_cooling revoke_cooling
        finish_cooling authorize_cooling damaged_cooling launch_same_file [THEN cooling_cong])
qed

lemma run_cooling:
  "cooling b st \<or> b \<le> lo \<Longrightarrow> b - DEFAULT_LOGIN_COOLDOWN_SECONDS \<le> lo \<Longrightarrow> clk_ok lo xs \<Longrightarrow>
   \<forall>x \<in> set xs. \<not> succeeds (op_of x) \<Longrightarrow> (x, True) \<in> set (results xs st) \<Longrightarrow>
   is_consume (op_of x) \<or> is_authorize (op_of x) \<Longrightarrow> b \<le> c_clk (call_of x) 2"
proof (induction xs arbitrary: st lo)
  case (Cons y ys)
  obtain pr c opn where y: "y = (pr, c, opn)" by (metis surj_pair)
  obtain ok st1 where e: "exec y st = (ok, st1)" by fastforce
  have m: "mono (c_clk c)" and lo: "lo \<le> c_clk c 0" and ys: "clk_ok (c_clk c 6) ys"
    using Cons.prems(3) by (simp_all add: y)
  have up: "c_clk c 0 \<le> c_clk c n" for n using monoD [OF m, of 0 n] by simp
  have up1: "1 \<le> n \<Longrightarrow> c_clk c 1 \<le> c_clk c n" for n using monoD [OF m, of 1 n] by simp
  have step: "\<not> (ok \<and> (is_consume opn \<or> is_authorize opn)) \<and> cooling b st1 \<or> b \<le> c_clk c 1"
    using Cons.prems(1)
  proof
    assume "cooling b st"
    with exec_cooling [OF e] Cons.prems(2,4) lo m show ?thesis by (simp add: y)
  next
    assume "b \<le> lo"
    with lo up [of 1] show ?thesis by linarith
  qed
  show ?case
  proof (cases "(x, True) \<in> set (results ys st1)")
    case True
    have "b - DEFAULT_LOGIN_COOLDOWN_SECONDS \<le> c_clk c 6"
      using Cons.prems(2) lo up [of 6] by linarith
    moreover have "cooling b st1 \<or> b \<le> c_clk c 6" using step up1 [of 6] by auto
    ultimately show ?thesis using Cons.IH [of st1 "c_clk c 6"] Cons.prems(4,6) ys True by simp
  next
    case False
    with Cons.prems(5) e have "x = y" "ok" by auto
    with step Cons.prems(6) up1 [of 2] show ?thesis by (auto simp: y)
  qed
qed simp

end
