(* ===== verification/Policy_Wf.thy ===== *)
theory Policy_Wf
  imports Policy_Safety
begin

text \<open>
  Every operation keeps the policy file readable: a well-formed record stays well-formed, so the
  reread at the end of a write cannot refuse what was just written. The theory also shows that
  the safety stop goes through on missing, malformed and valid files.
\<close>

section \<open>Well-formed policy files\<close>

definition wf_state :: "rat \<Rightarrow> jdict \<Rightarrow> bool" where
  "wf_state now s \<longleftrightarrow> state_ok now s
     \<and> (\<forall>a. jget s ''login_attempt'' = JObj a \<longrightarrow> num_val (jget a ''started_at'') \<le> now)
     \<and> (\<forall>g. jget s ''login_grant'' = JObj g \<longrightarrow>
          \<not> (method_of g = JStr (lit ''standing_on_vpn'') \<and> bool_of (jget g ''allow_offvpn'')))"

definition wf_policy :: "rat \<Rightarrow> store \<Rightarrow> bool" where
  "wf_policy now st \<longleftrightarrow> (\<exists>s. doc st = Some s \<and> wf_state now s)"

text \<open>What the callers of the store supply: identities, uuids and consistent outcomes.\<close>

fun sane_op :: "policy_op \<Rightarrow> bool" where
  "sane_op (Finish gid oc rc) = (oc = lit ''success'' \<longrightarrow> rc = Some 0)"
| "sane_op Damage = False"
| "sane_op _ = True"

definition sane :: "policy_step \<Rightarrow> bool" where
  "sane x \<longleftrightarrow> (case x of (pr, c, opn) \<Rightarrow>
     pr_client pr \<noteq> [] \<and> 0 < pr_pid pr \<and> c_uuid c 0 \<noteq> [] \<and> sane_op opn)"

lemma state_ok_mono: "state_ok t s \<Longrightarrow> t \<le> t' \<Longrightarrow> state_ok t' s"
  by (auto simp: state_ok_def grant_ok_def intro: order_trans)

lemma wf_state_mono: "wf_state t s \<Longrightarrow> t \<le> t' \<Longrightarrow> wf_state t' s"
  unfolding wf_state_def using state_ok_mono [of t s t'] by (meson order_trans)

lemma wf_policy_mono: "wf_policy t st \<Longrightarrow> t \<le> t' \<Longrightarrow> wf_policy t' st"
  by (auto simp: wf_policy_def intro: wf_state_mono)

lemma wf_policy_cong: "s_file st' = s_file st \<Longrightarrow> wf_policy t st \<Longrightarrow> wf_policy t st'"
  unfolding wf_policy_def doc_def by simp

lemma wf_state_stamp: "wf_state t s \<Longrightarrow> wf_state t (stamp pr tw s)"
proof -
  assume w: "wf_state t s"
  then have ok: "state_ok t s" by (simp add: wf_state_def)
  have "jget_or s ''revision'' (JInt 0) = jget s ''revision''" and "0 \<le> int_of (jget s ''revision'')"
    using state_ok_revision [OF ok] ok by (simp_all add: state_ok_def)
  with w show ?thesis
    by (auto simp: wf_state_def state_ok_def stamp_def SCHEMA_VERSION_def jget_or_def jget_def jset_def)
qed

lemma wf_state_event: "wf_state t s \<Longrightarrow> wf_state t (append_event pr tw ev ds s)"
  by (auto simp: wf_state_def state_ok_def append_event_def)

lemma wf_state_mode: "wf_state t s \<Longrightarrow> m \<in> set MODES \<Longrightarrow> wf_state t (jset ''mode'' (JStr (lit m)) s)"
  by (auto simp: wf_state_def state_ok_def one_of_def)

lemma wf_state_grant_null: "wf_state t s \<Longrightarrow> wf_state t (jset ''login_grant'' JNull s)"
  by (auto simp: wf_state_def state_ok_def)

lemma wf_state_grant:
  "wf_state t s \<Longrightarrow> grant_ok (Some t) g \<Longrightarrow>
   \<not> (method_of g = JStr (lit ''standing_on_vpn'') \<and> bool_of (jget g ''allow_offvpn'')) \<Longrightarrow>
   wf_state t (jset ''login_grant'' (JObj g) s)"
  by (auto simp: wf_state_def state_ok_def)

lemma wf_state_attempt:
  "wf_state t s \<Longrightarrow> attempt_ok a \<Longrightarrow> num_val (jget a ''started_at'') \<le> t \<Longrightarrow>
   wf_state t (jset ''login_attempt'' (JObj a) s)"
  by (auto simp: wf_state_def state_ok_def)

lemmas wf_state_intros = wf_state_stamp wf_state_event wf_state_mode wf_state_grant_null

lemma wf_policy_written:
  "s_file st' = Some (m, Doc (JObj (stamp pr tw s))) \<Longrightarrow> wf_state t s \<Longrightarrow> wf_policy t st'"
  by (auto simp: wf_policy_def doc_of_file intro: wf_state_stamp)

section \<open>The records the operations write\<close>

lemma strip_by_Nil: "strip_by P s = [] \<longleftrightarrow> list_all P s"
proof -
  have "(\<forall>x \<in> set (dropWhile P s). P x) \<longleftrightarrow> (\<forall>x \<in> set s. P x)" by (induction s) auto
  then show ?thesis by (simp add: strip_by_def list_all_iff)
qed

lemma words_by_ne: "acc \<noteq> [] \<or> \<not> list_all P s \<Longrightarrow> words_by P acc s \<noteq> []"
  by (induction P acc s rule: words_by.induct) auto

lemma words_by_nonempty: "[] \<notin> set (words_by P acc s)"
  by (induction P acc s rule: words_by.induct) auto

lemma join_ne: "xs \<noteq> [] \<Longrightarrow> [] \<notin> set xs \<Longrightarrow> join sep xs \<noteq> []"
  by (induction sep xs rule: join.induct) auto

lemma clean_reference_ne: "clean_reference v f = Inr r \<Longrightarrow> r \<noteq> []"
proof -
  assume a: "clean_reference v f = Inr r"
  then have "\<not> list_all is_space (str_of v)" and r: "r = join [32] (split_ws (str_of v))"
    by (auto simp: clean_reference_def Let_def strip_def strip_by_Nil)
  then have "split_ws (str_of v) \<noteq> []" by (simp add: split_ws_def words_by_ne)
  then show ?thesis unfolding r by (rule join_ne) (simp add: split_ws_def words_by_nonempty)
qed

lemma authorize_args_iff:
  "authorize_args tg ov me ttl = Inr () \<longleftrightarrow>
     one_of tg TARGETS \<and> is_bool ov \<and> one_of me METHODS
     \<and> \<not> (me = JStr (lit ''standing_on_vpn'') \<and> bool_of ov) \<and> 0 < ttl \<and> ttl \<le> DEFAULT_GRANT_TTL_SECONDS"
  unfolding authorize_args_def by (simp only: validator_iffs conj_assoc)

lemma new_grant_ok:
  assumes "authorize_args tg ov me ttl = Inr ()" and "u \<noteq> []" and "pr_client pr \<noteq> []" and "ref \<noteq> []"
    and "now \<le> t"
  defines "g \<equiv> grant_dict (new_grant pr u now tg ov ref me ttl)"
  shows "grant_ok (Some t) g"
    and "\<not> (method_of g = JStr (lit ''standing_on_vpn'') \<and> bool_of (jget g ''allow_offvpn''))"
  using assms
  by (auto simp: authorize_args_iff g_def grant_ok_def grant_dict_def new_grant_def method_of_def one_of_def)

lemma attempt_of_grant_ok:
  assumes "grant_ok n gd"
    and "\<not> (method_of gd = JStr (lit ''standing_on_vpn'') \<and> bool_of (jget gd ''allow_offvpn''))"
    and "0 < lpid"
  shows "attempt_ok (attempt_of_grant (grant_of gd) lpid now)"
  using assms
  by (auto simp: attempt_ok_def attempt_of_grant_def grant_ok_def grant_of_def one_of_def
      method_of_def [of "_ # _"] elim!: is_nonempty_strE is_boolE)

lemma finished_attempt_ok:
  assumes "attempt_ok a" and "jget a ''outcome'' = JStr (lit ''active'')"
    and "num_val (jget a ''started_at'') \<le> t"
    and "oc \<in> {lit ''success'', lit ''failed'', lit ''timed_out'', lit ''error''}"
    and "oc = lit ''success'' \<longrightarrow> rc = Some 0"
  shows "attempt_ok (finished_attempt a oc rc t)"
proof -
  have rc: "returncode_json rc = JNull \<or> is_int (returncode_json rc)"
    by (simp add: returncode_json_def split: option.splits)
  consider "oc = lit ''success''" | "oc = lit ''failed''" | "oc = lit ''timed_out''" | "oc = lit ''error''"
    using assms(4) by blast
  then show ?thesis
    by cases (use assms rc in \<open>simp_all add: attempt_ok_def finished_attempt_def one_of_def method_of_def
        Let_def returncode_json_def\<close>)
qed

lemma settle_wf:
  assumes "wf_state t s" and "settle_attempt now s = Inr s'" and "now \<le> t"
  shows "wf_state t s'"
proof (cases "jget s ''login_attempt''")
  case (JObj a)
  with assms(1) have a: "attempt_ok a" "num_val (jget a ''started_at'') \<le> t"
    by (auto simp: wf_state_def state_ok_def)
  have b: "num_val (jget_or a ''blocked_until'' (JFloat (Fin 0))) = num_val (jget a ''blocked_until'')"
    by (simp add: jget_or_def jget_def num_val_def split: option.splits)
  show ?thesis
  proof (cases "jget a ''outcome'' = JStr (lit ''active'')")
    case True
    with a(1) assms(2) JObj b have
      "attempt_ok (jset ''finished_at'' (JFloat (Fin now)) (jset ''outcome'' (JStr (lit ''stale'')) a))"
      by (auto simp: attempt_ok_def settle_attempt_def Let_def one_of_def method_of_def policy_consts split: if_splits)
    with assms True JObj a(2) show ?thesis
      by (auto simp: settle_attempt_def Let_def intro: wf_state_attempt split: if_splits)
  next
    case False
    with assms JObj show ?thesis by (auto simp: settle_attempt_def Let_def split: if_splits)
  qed
qed (use assms in \<open>auto simp: settle_attempt_def\<close>)

lemma expire_wf:
  "wf_state t s \<Longrightarrow> expire_stale_authorization pr now u s = Inr s' \<Longrightarrow> wf_state t s'"
  by (auto simp: expire_stale_authorization_def intro: wf_state_intros split: if_splits)

section \<open>Every operation keeps the file well-formed\<close>

lemma doc_wf: "wf_policy t st \<Longrightarrow> doc st = Some s \<Longrightarrow> t \<le> t' \<Longrightarrow> wf_state t' s"
  by (auto simp: wf_policy_def intro: wf_state_mono)

lemma disable_wf:
  assumes "disable pr c reason st = (r, st')" and "wf_policy lo st" and "\<And>n. lo \<le> c_clk c n"
    and "mono (c_clk c)"
  shows "wf_policy (c_clk c 6) st'"
  using assms(1)
proof (cases rule: disable_cases)
  case unchanged
  with assms(2,3) show ?thesis by (blast intro: wf_policy_cong wf_policy_mono)
next
  case (wrote st1 s ref)
  from assms(2) obtain s0 where s0: "doc st = Some s0" "wf_state lo s0" by (auto simp: wf_policy_def)
  then obtain m where f: "s_file st = Some (m, Doc (JObj s0))"
    by (auto simp: doc_def split: option.splits prod.splits content.splits json.splits)
  have ok: "validate_state (c_clk c 0) (JObj s0) = Inr s0"
    using s0(2) assms(3) [of 0] by (auto simp: validate_state_iff wf_state_def intro: state_ok_mono)
  from wrote(1,2) f ok have "s = s0"
    by (auto simp: read_for_repair_or_initialize_def)
  with s0(2) have "wf_state (c_clk c 6) s" using assms(3) by (blast intro: wf_state_mono)
  then have "wf_state (c_clk c 6) (disable_update pr c ref s)"
    unfolding disable_update_def by (intro wf_state_intros) auto
  with wrote(3) show ?thesis by (rule wf_policy_written)
qed

lemma enable_wf:
  assumes "enable_reuse pr c er eg ap st = (r, st')" and "wf_policy lo st" and "\<And>n. lo \<le> c_clk c n"
  shows "wf_policy (c_clk c 6) st'"
  using assms(1)
proof (cases rule: enable_cases)
  case unchanged
  with assms(2,3) show ?thesis by (blast intro: wf_policy_cong wf_policy_mono)
next
  case (wrote s ref)
  from doc_wf [OF assms(2) wrote(1) assms(3)] have "wf_state (c_clk c 6) s" .
  then have "wf_state (c_clk c 6) (enable_update pr c ref s)"
    unfolding enable_update_def Let_def by (intro wf_state_intros) (auto intro: wf_state_event)
  with wrote(4) show ?thesis by (rule wf_policy_written)
qed

lemma authorize_wf:
  assumes "authorize_login pr c er eg tg ov ap me ttl st = (r, st')" and "wf_policy lo st"
    and "\<And>n. lo \<le> c_clk c n" and m: "mono (c_clk c)" and "pr_client pr \<noteq> []" and "c_uuid c 0 \<noteq> []"
  shows "wf_policy (c_clk c 6) st'"
  using assms(1)
proof (cases rule: authorize_cases)
  case unchanged
  with assms(2,3) show ?thesis by (blast intro: wf_policy_cong wf_policy_mono)
next
  case (wrote s s1 s2 ref)
  have le: "c_clk c 1 \<le> c_clk c 6" using monoD [OF m, of 1 6] by simp
  from doc_wf [OF assms(2) wrote(1) assms(3)] have "wf_state (c_clk c 6) s" .
  then have "wf_state (c_clk c 6) s2"
    using wrote(7,9) le by (blast intro: expire_wf settle_wf)
  then have "wf_state (c_clk c 6) (authorize_update pr c
      (new_grant pr (c_uuid c 0) (c_clk c 1) tg ov ref me ttl) tg ov me ref s2)"
    unfolding authorize_update_def
    using new_grant_ok [OF wrote(3) assms(6,5) clean_reference_ne [OF wrote(4)] le]
    by (intro wf_state_event wf_state_grant) auto
  with wrote(10) show ?thesis by (rule wf_policy_written)
qed

lemma consume_wf:
  assumes "consume_login_grant pr c gid tg st = (r, st')" and "wf_policy lo st"
    and "\<And>n. lo \<le> c_clk c n" and m: "mono (c_clk c)" and "0 < pr_pid pr"
  shows "wf_policy (c_clk c 6) st'"
  using assms(1)
proof (cases rule: consume_cases)
  case unchanged
  with assms(2,3) show ?thesis by (blast intro: wf_policy_cong wf_policy_mono)
next
  case (wrote s g)
  have le: "c_clk c 2 \<le> c_clk c 6" using monoD [OF m, of 2 6] by simp
  from doc_wf [OF assms(2) wrote(1) assms(3)] have s: "wf_state (c_clk c 6) s" .
  from wrote(4) obtain gd where gd: "jget s ''login_grant'' = JObj gd" "grant_ok None gd" "g = grant_of gd"
    by (auto simp: require_matching_grant_iff)
  with s have "\<not> (method_of gd = JStr (lit ''standing_on_vpn'') \<and> bool_of (jget gd ''allow_offvpn''))"
    by (auto simp: wf_state_def)
  from attempt_of_grant_ok [OF gd(2) this assms(5)]
  have "attempt_ok (attempt_of_grant g (pr_pid pr) (c_clk c 2))" by (simp add: gd(3))
  then have "wf_state (c_clk c 6) (consume_update pr c g tg (pr_pid pr) s)"
    unfolding consume_update_def using s le
    by (intro wf_state_event wf_state_attempt wf_state_grant_null) (simp_all add: attempt_of_grant_def)
  with wrote(5) show ?thesis by (rule wf_policy_written)
qed

lemma revoke_wf:
  assumes "revoke_unused_standing_grant pr c gid reason st = (r, st')" and "wf_policy lo st"
    and "\<And>n. lo \<le> c_clk c n"
  shows "wf_policy (c_clk c 6) st'"
  using assms(1)
proof (cases rule: revoke_cases)
  case unchanged
  with assms(2,3) show ?thesis by (blast intro: wf_policy_cong wf_policy_mono)
next
  case (wrote s gd ref)
  from doc_wf [OF assms(2) wrote(1) assms(3)] have "wf_state (c_clk c 6) s" .
  then have "wf_state (c_clk c 6) (revoke_update pr c (grant_of gd) ref s)"
    unfolding revoke_update_def by (intro wf_state_intros)
  with wrote(7) show ?thesis by (rule wf_policy_written)
qed

lemma finish_wf:
  assumes "finish_login_attempt pr c gid oc rc st = (r, st')" and "wf_policy lo st"
    and "\<And>n. lo \<le> c_clk c n" and "oc = lit ''success'' \<longrightarrow> rc = Some 0"
  shows "wf_policy (c_clk c 6) st'"
  using assms(1)
proof (cases rule: finish_cases)
  case unchanged
  with assms(2,3) show ?thesis by (blast intro: wf_policy_cong wf_policy_mono)
next
  case (wrote s a)
  from doc_wf [OF assms(2) wrote(1) assms(3)] have s: "wf_state (c_clk c n) s" for n .
  with wrote(4) have "attempt_ok a" "num_val (jget a ''started_at'') \<le> c_clk c n" for n
    by (auto simp: wf_state_def state_ok_def)
  then have "attempt_ok (finished_attempt a oc rc (c_clk c 1))"
    and "num_val (jget (finished_attempt a oc rc (c_clk c 1)) ''started_at'') \<le> c_clk c 6"
    using wrote(3,6) assms(4) by (blast intro: finished_attempt_ok, simp add: finished_attempt_def Let_def)
  then have "wf_state (c_clk c 6) (finish_update pr c gid oc rc s)"
    unfolding finish_update_def Let_def using s wrote(4)
    by (intro wf_state_event wf_state_attempt) simp_all
  with wrote(7) show ?thesis by (rule wf_policy_written)
qed

lemma exec_wf:
  assumes "exec x st = (ok, st')" and "wf_policy lo st" and "sane x"
    and "lo \<le> c_clk (call_of x) 0" and m: "mono (c_clk (call_of x))"
  shows "wf_policy (c_clk (call_of x) 6) st'"
proof -
  obtain pr c opn where x: "x = (pr, c, opn)" by (metis surj_pair)
  have t: "lo \<le> c_clk c n" for n
    using assms(4) monoD [OF m, of 0 n] unfolding x by simp
  from assms t show ?thesis unfolding x
    by (cases opn) (auto simp: outcome_eq sane_def dest: disable_wf enable_wf authorize_wf consume_wf
        revoke_wf finish_wf launch_same_file [THEN wf_policy_cong] intro: wf_policy_mono)
qed

fun clock_after :: "rat \<Rightarrow> policy_step list \<Rightarrow> rat" where
  "clock_after lo [] = lo"
| "clock_after lo (x # xs) = clock_after (c_clk (call_of x) 6) xs"

lemma run_wf:
  "wf_policy lo st \<Longrightarrow> clk_ok lo xs \<Longrightarrow> \<forall>x \<in> set xs. sane x \<Longrightarrow> wf_policy (clock_after lo xs) (final xs st)"
proof (induction xs arbitrary: st lo)
  case (Cons x xs)
  obtain ok st1 where e: "exec x st = (ok, st1)" by fastforce
  have "lo \<le> c_clk (call_of x) 0 \<and> mono (c_clk (call_of x)) \<and> clk_ok (c_clk (call_of x) 6) xs"
    using Cons.prems(2) by (cases x) auto
  with exec_wf [OF e Cons.prems(1)] Cons.prems(3) Cons.IH [of "c_clk (call_of x) 6" st1] e
  show ?case by simp
qed simp

end
