(* ===== verification/Policy_Stop.thy ===== *)
theory Policy_Stop
  imports Policy_Wf
begin

text \<open>
  Failing closed: which exceptions the validation can raise, that a snapshot of a malformed
  policy reads as disabled, and that the safety stop goes through on missing, malformed and
  valid policy files.
\<close>

section \<open>Exceptions of the validation\<close>

text \<open>
  A payload is plain when the values the code hashes are no lists or objects and the timestamps
  it converts are in the range of floats. On plain payloads the only exception is
  \<open>O2PolicyInvalidError\<close>.
\<close>

fun hashable :: "json \<Rightarrow> bool" where
  "hashable (JArr xs) = False" | "hashable (JObj d) = False" | "hashable _ = True"

fun convertible :: "json \<Rightarrow> bool" where
  "convertible (JInt i) = (\<bar>i\<bar> < float_limit)" | "convertible _ = True"

definition plain_grant :: "jdict \<Rightarrow> bool" where
  "plain_grant g \<longleftrightarrow> hashable (method_of g) \<and> convertible (jget g ''created_at'') \<and> convertible (jget g ''expires_at'')"

definition plain_attempt :: "jdict \<Rightarrow> bool" where
  "plain_attempt a \<longleftrightarrow> hashable (method_of a) \<and> convertible (jget a ''started_at'')
     \<and> convertible (jget a ''blocked_until'') \<and> convertible (jget a ''finished_at'')"

definition plain :: "json \<Rightarrow> bool" where
  "plain j \<longleftrightarrow> (let p = dict_of j in
     hashable (jget p ''mode'') \<and> plain_grant (dict_of (jget p ''login_grant''))
     \<and> plain_attempt (dict_of (jget p ''login_attempt'')))"

definition only_invalid :: "'a res \<Rightarrow> bool" where
  "only_invalid r \<longleftrightarrow> (\<forall>e. r = Inl e \<longrightarrow> (\<exists>m. e = O2PolicyInvalidError m))"

lemma only_invalid_simps [simp]: "only_invalid (Inr x)" "only_invalid (Inl (O2PolicyInvalidError m))"
  by (simp_all add: only_invalid_def)

lemma only_invalid_bind:
  "only_invalid r \<Longrightarrow> (\<And>x. r = Inr x \<Longrightarrow> only_invalid (f x)) \<Longrightarrow> only_invalid (bind r f)"
  by (cases r) (auto simp: only_invalid_def)

lemma only_invalid_ensure [simp]: "only_invalid (ensure b (O2PolicyInvalidError m))"
  by (simp add: only_invalid_def)

lemma only_invalid_require_in: "hashable v \<Longrightarrow> only_invalid (require_in v ks (O2PolicyInvalidError m))"
  by (cases v) (auto simp: require_in_def only_invalid_def)

lemma only_invalid_timestamp: "convertible v \<Longrightarrow> only_invalid (require_timestamp v (O2PolicyInvalidError m))"
  by (cases v rule: isfinite.cases) (auto simp: require_timestamp_def only_invalid_def)

lemma hashable_str: "is_nonempty_str v \<Longrightarrow> hashable v"
  by (cases v) auto

lemmas only_invalid_intros = only_invalid_bind only_invalid_require_in only_invalid_timestamp

lemma grant_only_invalid: "plain_grant g \<Longrightarrow> only_invalid (grant_from_dict g now)"
  unfolding grant_from_dict_def plain_grant_def method_of_def
  by (intro only_invalid_intros) (auto intro: hashable_str)

lemma attempt_only_invalid: "plain_attempt a \<Longrightarrow> only_invalid (validate_login_attempt a)"
  unfolding validate_login_attempt_def plain_attempt_def method_of_def
  by (intro only_invalid_intros) (auto intro: hashable_str intro!: only_invalid_intros)

lemma validate_only_invalid:
  assumes "plain j"
  shows "only_invalid (validate_state now j)"
proof -
  have g: "only_invalid (when_present v (O2PolicyInvalidError m) (\<lambda>g. bind (grant_from_dict g (Some now)) (\<lambda>_. Inr ())))"
    if "plain_grant (dict_of v)" for v m
    using that by (auto simp: when_present_def intro!: only_invalid_bind grant_only_invalid)
  have a: "only_invalid (when_present v (O2PolicyInvalidError m) validate_login_attempt)"
    if "plain_attempt (dict_of v)" for v m
    using that by (auto simp: when_present_def intro!: only_invalid_bind attempt_only_invalid)
  from assms show ?thesis
    unfolding validate_state_def plain_def Let_def
    by (intro only_invalid_intros g a) auto
qed

definition plain_file :: "store \<Rightarrow> bool" where
  "plain_file st \<longleftrightarrow> (case s_file st of Some (m, Doc j) \<Rightarrow> plain j | _ \<Rightarrow> True)"

lemma read_only_invalid: "plain_file st \<Longrightarrow> only_invalid (read_valid_state pr now st)"
  unfolding read_valid_state_def plain_file_def validate_parent_directory_def validate_file_metadata_def
  by (intro only_invalid_bind)
    (auto split: option.splits prod.splits content.splits intro!: only_invalid_bind validate_only_invalid)

section \<open>The safety stop\<close>

text \<open>What a process needs to lock the store and replace the policy file.\<close>

definition accessible :: "proc \<Rightarrow> store \<Rightarrow> bool" where
  "accessible pr st \<longleftrightarrow>
     (case s_dir st of None \<Rightarrow> True
      | Some m \<Rightarrow> m_kind m = Directory \<and> m_uid m = pr_uid pr \<and> (permissive (m_mode m) \<longrightarrow> pr_legacy pr))
     \<and> (case s_mutex st of None \<Rightarrow> True | Some m \<Rightarrow> meta_ok pr m)
     \<and> (case s_file st of None \<Rightarrow> True | Some (m, cont) \<Rightarrow> meta_ok pr m)"

lemma accessible_locked:
  assumes "accessible pr st"
  shows "\<exists>st1. s_file st1 = s_file st \<and> dir_ok pr st1 \<and> (\<forall>body :: 'a op. locked pr body st = body st1)"
proof -
  have "\<exists>st0. prepare_policy_directory pr st = (Inr (), st0) \<and> s_mutex st0 = s_mutex st"
    using assms by (cases "s_dir st") (auto simp: accessible_def prepare_policy_directory_def)
  then obtain st0 where p: "prepare_policy_directory pr st = (Inr (), st0)" "s_mutex st0 = s_mutex st"
    by blast
  note d = prepare_dir [OF p(1)]
  show ?thesis
  proof (cases "s_mutex st0")
    case None
    with p d show ?thesis
      by (intro exI [of _ "st0\<lparr>s_mutex := Some (private_file pr 0)\<rparr>"]) (auto simp: locked_def dir_ok_def)
  next
    case (Some m)
    with p(2) have "s_mutex st = Some m" by simp
    with assms have "meta_ok pr m" by (simp add: accessible_def)
    then have "validate_file_metadata pr m = Inr ()" "m_kind m \<notin> {Symlink, Directory}"
      by (auto simp: meta_ok_def validate_file_metadata_def)
    with p(1) Some d show ?thesis
      by (intro exI [of _ st0]) (auto simp: locked_def simp del: validate_file_metadata_iff)
  qed
qed

lemma state_ok_disable:
  assumes "state_ok t s"
  shows "state_ok t (stamp pr tw (disable_update pr c r s))"
  using assms state_ok_revision [OF assms, of "JInt 0"]
  by (auto simp: state_ok_def stamp_def disable_update_def append_event_def SCHEMA_VERSION_def one_of_def
      jget_or_def jget_def jset_def)

lemma initial_state_ok:
  "uuid_ok u \<Longrightarrow> u \<noteq> [] \<Longrightarrow> state_ok t (initial_state pr now u)"
  by (simp add: state_ok_def initial_state_def SCHEMA_VERSION_def one_of_def)

lemma repair_started_le: "0 \<le> now \<Longrightarrow> repair_started_at mt now \<le> now"
  by (auto simp: repair_started_at_def split: pyfloat.splits)

lemma repair_state_ok:
  assumes "uuid_ok (c_uuid c 0)" and "c_uuid c 0 \<noteq> []" and "pr_client pr \<noteq> []" and "0 \<le> c_clk c 1"
  shows "state_ok t (conservative_repair_state pr c m)"
  using assms repair_started_le [OF assms(4), of "m_mtime m"]
  by (simp add: state_ok_def conservative_repair_state_def initial_state_def append_event_def Let_def
      SCHEMA_VERSION_def one_of_def attempt_ok_def method_of_def)

lemma disable_goes_through:
  assumes "accessible pr st" and "plain_file st" and r: "clean_reference reason ''reason'' = Inr r"
    and "c_fault c = NoFault" and "mono (c_clk c)" and "0 \<le> c_clk c 0"
    and "uuid_ok (c_uuid c 0)" and "c_uuid c 0 \<noteq> []" and "pr_client pr \<noteq> []"
  obtains s st' where "disable pr c reason st = (Inr s, st')" and "doc st' = Some s"
    and "jget s ''mode'' = JStr (lit ''disabled'')" and "jget s ''login_grant'' = JNull"
proof -
  have clk: "0 \<le> c_clk c 1" "c_clk c 0 \<le> c_clk c 6"
    using assms(6) monoD [OF assms(5), of 0 1] monoD [OF assms(5), of 0 6] by auto
  have fresh: "state_ok t (initial_state pr t' (c_uuid c 0))" for t t'
    using assms(7,8) by (rule initial_state_ok)
  have rep: "state_ok t (conservative_repair_state pr c m)" for t m
    using assms(7,8,9) clk(1) by (rule repair_state_ok)
  obtain st1 where st1: "s_file st1 = s_file st" "dir_ok pr st1"
    and lk: "locked pr body st = body st1" for body :: "jdict op"
    using accessible_locked [OF assms(1)] by blast
  have "\<exists>s. read_for_repair_or_initialize pr c st1 = Inr s \<and> state_ok (c_clk c 6) s"
  proof (cases "s_file st")
    case None
    with st1 fresh show ?thesis by (auto simp: read_for_repair_or_initialize_def)
  next
    case (Some p)
    obtain m cont where p: "p = (m, cont)" by fastforce
    with Some assms(1) have m: "meta_ok pr m" by (simp add: accessible_def)
    show ?thesis
    proof (cases cont)
      case Garbage
      with Some p m st1 rep show ?thesis by (auto simp: read_for_repair_or_initialize_def)
    next
      case (Doc j)
      have "only_invalid (validate_state (c_clk c 0) j)"
        using assms(2) Some p Doc by (intro validate_only_invalid) (simp add: plain_file_def)
      moreover have "state_ok (c_clk c 0) s \<Longrightarrow> state_ok (c_clk c 6) s" for s
        using clk(2) by (blast intro: state_ok_mono)
      ultimately show ?thesis using Some p m st1 rep Doc
        by (cases "validate_state (c_clk c 0) j")
          (auto simp: read_for_repair_or_initialize_def only_invalid_def dest: validate_state_iff [THEN iffD1])
    qed
  qed
  then obtain s where s: "read_for_repair_or_initialize pr c st1 = Inr s" "state_ok (c_clk c 6) s" by blast
  let ?s = "stamp pr (c_clk c 5) (disable_update pr c r s)"
  let ?st = "st1\<lparr>s_file := Some (private_file pr (c_clk c 5), Doc (JObj ?s))\<rparr>"
  have "dir_ok pr ?st" using st1(2) by (simp add: dir_ok_def)
  then have "disable pr c reason st = (Inr ?s, ?st)"
    using r s lk assms(4) state_ok_disable [OF s(2)]
    by (simp add: disable_def write_next_revision_def Let_def read_valid_state_iff)
  then show thesis by (rule that) (simp_all add: update_modes update_grants)
qed

section \<open>Consuming a live grant\<close>

lemma consume_goes_through:
  assumes "accessible pr st" and "doc st = Some s" and wf: "wf_state lo s" and "lo \<le> c_clk c 0"
    and m: "mono (c_clk c)" and "c_fault c = NoFault" and "0 < pr_pid pr"
    and "jget s ''mode'' = JStr (lit ''reuse_only'')"
    and g: "require_matching_grant pr (c_clk c 1) s gid target = Inr g"
  shows "fst (consume_login_grant pr c gid target st) = Inr g"
proof -
  have clk: "lo \<le> c_clk c n" for n using assms(4) monoD [OF m, of 0 n] by simp
  obtain st1 where st1: "s_file st1 = s_file st" "dir_ok pr st1"
    and lk: "\<And>body :: login_grant op. locked pr body st = body st1"
    using accessible_locked [OF assms(1)] by metis
  obtain mt where f: "s_file st = Some (mt, Doc (JObj s))"
    using assms(2) by (auto simp: doc_def split: option.splits prod.splits content.splits json.splits)
  then have mt: "meta_ok pr mt" using assms(1) by (simp add: accessible_def)
  have "state_ok (c_clk c 0) s" using wf assms(4) by (auto simp: wf_state_def intro: state_ok_mono)
  then have rd: "read_valid_state pr (c_clk c 0) st1 = Inr s"
    using st1 f mt by (simp add: read_valid_state_iff)
  let ?s = "stamp pr (c_clk c 4) (consume_update pr c g target (pr_pid pr) s)"
  let ?st = "st1\<lparr>s_file := Some (private_file pr (c_clk c 4), Doc (JObj ?s))\<rparr>"
  have "wf_state (c_clk c 5) s" using wf clk by (rule wf_state_mono)
  moreover from g obtain gd where gd: "jget s ''login_grant'' = JObj gd" "grant_ok None gd" "g = grant_of gd"
    by (auto simp: require_matching_grant_iff)
  moreover from gd wf have "attempt_ok (attempt_of_grant g (pr_pid pr) (c_clk c 2))"
    unfolding gd(3) using assms(7) by (intro attempt_of_grant_ok) (auto simp: wf_state_def)
  moreover have "c_clk c 2 \<le> c_clk c 5" using monoD [OF m, of 2 5] by simp
  ultimately have "wf_state (c_clk c 5) (consume_update pr c g target (pr_pid pr) s)"
    unfolding consume_update_def
    by (intro wf_state_event wf_state_attempt wf_state_grant_null) (simp_all add: attempt_of_grant_def)
  then have "wf_state (c_clk c 5) ?s" by (rule wf_state_stamp)
  then have "state_ok (c_clk c 5) ?s" by (simp add: wf_state_def)
  moreover have "dir_ok pr ?st" using st1(2) by (simp add: dir_ok_def)
  ultimately have "read_valid_state pr (c_clk c 5) ?st = Inr ?s" by (simp add: read_valid_state_iff)
  then show ?thesis
    using rd g assms(6,8) lk
    by (simp add: consume_login_grant_def consume_login_grant_locked_def reuse_gate_def returning_def
        write_next_revision_def Let_def)
qed

end
