(* ===== verification/Policy_Properties.thy ===== *)
theory Policy_Properties
  imports Policy_Stop
begin

text \<open>
  The properties of the policy store, each with a witness on a concrete store. The samples below
  are one process, a clock that advances by one second at each reading, and a policy file that
  permits reuse and holds one login grant.
\<close>

section \<open>Samples\<close>

definition sample_proc :: proc where
  "sample_proc = \<lparr>pr_uid = 501, pr_client = lit ''client-a'', pr_pid = 4242, pr_legacy = False\<rparr>"

definition sample_uuid :: ustr where
  "sample_uuid = lit ''0f8fad5b-d9cb-469f-a165-70867728950e''"

definition sample_call :: "rat \<Rightarrow> ustr \<Rightarrow> call" where
  "sample_call t u = \<lparr>c_clk = (\<lambda>n. t + of_nat n), c_uuid = (\<lambda>_. u), c_fault = NoFault\<rparr>"

definition sample_text :: json where
  "sample_text = JStr (lit ''approved in chat'')"

definition sample_grant :: login_grant where
  "sample_grant =
     \<lparr>g_id = lit ''grant-1'', g_client_id = lit ''client-a'', g_target = lit ''login'', g_allow_offvpn = False,
      g_created_at = 1000, g_expires_at = 1300, g_remaining_attempts = 1,
      g_approval_reference = lit ''approved'', g_authorization_method = lit ''explicit_user_approval''\<rparr>"

definition sample_state :: jdict where
  "sample_state =
     [(lit ''schema_version'', JInt 1), (lit ''generation'', JStr sample_uuid), (lit ''revision'', JInt 7),
      (lit ''mode'', JStr (lit ''reuse_only'')), (lit ''updated_at'', JFloat (Fin 1000)),
      (lit ''updated_by'', JNull), (lit ''login_grant'', JObj (grant_dict sample_grant)),
      (lit ''login_attempt'', JNull), (lit ''events'', JArr [])]"

definition sample_store :: store where
  "sample_store = \<lparr>s_dir = Some (private_dir sample_proc), s_mutex = None,
     s_file = Some (private_file sample_proc 1000, Doc (JObj sample_state))\<rparr>"

lemma sample_mono: "mono (c_clk (sample_call t u))"
  by (simp add: mono_def sample_call_def)

lemma sample_uuid_ok: "uuid_ok sample_uuid"
  by (simp add: uuid_ok_def int16_ok_def sample_uuid_def lit_def strip_by_def is_hex_def is_space_def Let_def)

lemma sample_clean: "clean_reference sample_text f = Inr (lit ''approved in chat'')"
  by (simp add: clean_reference_def sample_text_def lit_def strip_def strip_by_def split_ws_def is_space_def Let_def)

lemma sample_accessible: "accessible sample_proc sample_store"
  by (simp add: accessible_def sample_store_def private_dir_def permissive_def sample_proc_def)

lemma sample_doc: "doc sample_store = Some sample_state"
  by (simp add: sample_store_def doc_def)

lemma sample_wf: "1000 \<le> t \<Longrightarrow> wf_state t sample_state"
  by (simp add: wf_state_def state_ok_def sample_state_def SCHEMA_VERSION_def sample_uuid_ok one_of_def
      grant_dict_def sample_grant_def grant_ok_def method_of_def policy_consts)
    (simp add: sample_uuid_def)

lemma sample_plain: "plain_file sample_store"
  by (simp add: plain_file_def sample_store_def plain_def sample_state_def plain_grant_def plain_attempt_def
      grant_dict_def method_of_def Let_def)

lemma sample_match:
  "t < 1300 \<Longrightarrow> require_matching_grant sample_proc t sample_state (lit ''grant-1'') (lit ''login'') = Inr sample_grant"
  by (simp add: require_matching_grant_iff sample_state_def sample_proc_def)
    (simp add: grant_dict_def sample_grant_def grant_of_def grant_ok_def method_of_def one_of_def policy_consts)

lemma sample_mode: "jget sample_state ''mode'' = JStr (lit ''reuse_only'')"
  by (simp add: sample_state_def)

lemma sample_clk [simp]: "c_clk (sample_call t u) n = t + of_nat n" "c_uuid (sample_call t u) n = u"
  "c_fault (sample_call t u) = NoFault"
  by (simp_all add: sample_call_def)

lemma sample_ids: "0 < pr_pid sample_proc" "pr_client sample_proc \<noteq> []" "sample_uuid \<noteq> []"
  by (simp_all add: sample_proc_def sample_uuid_def)

lemma sample_consumed:
  "fst (consume_login_grant sample_proc (sample_call 1010 u) (lit ''grant-1'') (lit ''login'') sample_store)
     = Inr sample_grant"
  by (rule consume_goes_through [OF sample_accessible sample_doc sample_wf [of 1000]])
    (simp_all add: sample_mono sample_match sample_mode sample_ids)

lemma sample_disabled:
  obtains s st' where "disable sample_proc (sample_call 1010 sample_uuid) sample_text sample_store = (Inr s, st')"
    and "doc st' = Some s" and "jget s ''mode'' = JStr (lit ''disabled'')"
  by (rule disable_goes_through [OF sample_accessible sample_plain sample_clean, of "sample_call 1010 sample_uuid"])
    (auto simp: sample_mono sample_ids sample_uuid_ok)

section \<open>The safety stop\<close>

text \<open>
  C5. After a completed \<open>disable\<close>, whatever any processes do except \<open>enable_reuse\<close>, and even if
  the policy file is damaged in between, no launch gate opens, no login is authorised and no
  grant is consumed.
\<close>

theorem safety_stop_holds:
  assumes "\<not> failed (fst (disable pr c reason st))"
    and "\<forall>x \<in> set xs. \<not> is_enable (op_of x)"
  shows "\<forall>(x, ok) \<in> set (results xs (snd (disable pr c reason st))). opens (op_of x) \<longrightarrow> \<not> ok"
proof -
  obtain r st' where d: "disable pr c reason st = (r, st')" by fastforce
  then have nf: "\<not> failed r" using assms(1) by simp
  from d have "stopped st'"
    by (cases rule: disable_cases) (use nf in \<open>auto intro: stopped_written simp: update_modes\<close>)
  with stop.run_keeps [OF _ assms(2)] d show ?thesis by simp
qed

theorem safety_stop_holds_witness:
  "\<not> failed (fst (disable sample_proc (sample_call 1010 sample_uuid) sample_text sample_store))
   \<and> \<not> fst (exec (sample_proc, sample_call 1020 [], ReuseLaunch)
        (snd (disable sample_proc (sample_call 1010 sample_uuid) sample_text sample_store)))"
proof -
  have ok: "\<not> failed (fst (disable sample_proc (sample_call 1010 sample_uuid) sample_text sample_store))"
    using sample_disabled by (metis failed_simps(2) fst_conv)
  show ?thesis
    using ok safety_stop_holds [OF ok, of "[(sample_proc, sample_call 1020 [], ReuseLaunch)]"] by simp
qed

text \<open>
  C6. The safety stop is available. The process may lock the store and replace the policy file
  (\<open>accessible\<close>); the file is missing, not JSON, invalid or valid, but where it is JSON the
  values the validator hashes are no arrays or objects and the timestamps it converts are within
  the range of floats (\<open>plain_file\<close>; C7 shows the other case); the reason is usable, the client
  id not empty, the fresh UUID valid, the clock not negative and not running back during the call,
  and no file operation fails. Then \<open>disable\<close> returns the record it left on disk, in mode
  \<open>disabled\<close> and without a grant.
\<close>

theorem disable_completes:
  assumes "accessible pr st" and "plain_file st" and "clean_reference reason ''reason'' = Inr r"
    and "c_fault c = NoFault" and "mono (c_clk c)" and "0 \<le> c_clk c 0"
    and "uuid_ok (c_uuid c 0)" and "c_uuid c 0 \<noteq> []" and "pr_client pr \<noteq> []"
  shows "\<exists>s st'. disable pr c reason st = (Inr s, st') \<and> doc st' = Some s
     \<and> jget s ''mode'' = JStr (lit ''disabled'') \<and> jget s ''login_grant'' = JNull"
  using assms by (elim disable_goes_through) blast+

theorem disable_completes_witness:
  "\<exists>s st'. disable sample_proc (sample_call 1010 sample_uuid) sample_text sample_store = (Inr s, st')
     \<and> doc st' = Some s \<and> jget s ''mode'' = JStr (lit ''disabled'') \<and> jget s ''login_grant'' = JNull"
  by (rule disable_completes [OF sample_accessible sample_plain sample_clean])
    (simp_all add: sample_mono sample_ids sample_uuid_ok)

text \<open>
  C7. A hole in the safety stop: on every policy file that passes the checks made before the one
  of \<open>mode\<close> (an object, the supported schema version, a revision, a generation) and whose \<open>mode\<close>
  is a JSON array or object, the set membership test raises \<open>TypeError\<close>, which neither \<open>disable\<close>
  nor \<open>snapshot\<close> handles. In a store the process may lock and replace, and with a usable reason,
  every call of \<open>disable\<close> raises it and leaves the file in place, and every snapshot of the same
  store raises it instead of reporting a disabled policy.
\<close>

definition reaches_mode_check :: "jdict \<Rightarrow> bool" where
  "reaches_mode_check p \<longleftrightarrow> num_of (jget p ''schema_version'') = Some (of_int SCHEMA_VERSION)
     \<and> is_int (jget p ''revision'') \<and> 0 \<le> int_of (jget p ''revision'')
     \<and> is_nonempty_str (jget p ''generation'') \<and> uuid_ok (str_of (jget p ''generation''))"

lemma unhashable_mode_raises:
  assumes "reaches_mode_check p" and "is_list (jget p ''mode'') \<or> is_dict (jget p ''mode'')"
  obtains e where "\<And>t. validate_state t (JObj p) = Inl (TypeError e)"
  using assms that
  by (cases "jget p ''mode''") (auto simp: validate_state_def require_in_def reaches_mode_check_def)

lemma file_of_unhashable_mode:
  assumes "s_file st = Some (m, Doc j)" and "meta_ok pr m" and "dir_ok pr st"
    and e: "\<And>t. validate_state t j = Inl (TypeError e)"
  shows "read_for_repair_or_initialize pr c st = Inl (TypeError e)"
    and "snapshot pr now st = Inl (TypeError e)"
proof -
  have "validate_file_metadata pr m = Inr ()" "validate_parent_directory pr st = Inr ()"
    using assms(2,3) by simp_all
  with assms(1) e show "read_for_repair_or_initialize pr c st = Inl (TypeError e)"
    and "snapshot pr now st = Inl (TypeError e)"
    by (simp_all add: read_for_repair_or_initialize_def snapshot_def read_valid_state_def
        del: validate_file_metadata_iff validate_parent_directory_iff)
qed

theorem disable_defeated_by_unhashable_mode:
  assumes acc: "accessible pr st" and d: "dir_ok pr st"
    and f: "s_file st = Some (m, Doc (JObj p))" and "reaches_mode_check p"
    and "is_list (jget p ''mode'') \<or> is_dict (jget p ''mode'')"
    and r: "clean_reference reason ''reason'' = Inr r"
  shows "\<exists>e st'. disable pr c reason st = (Inl (TypeError e), st') \<and> s_file st' = s_file st
     \<and> snapshot pr now st = Inl (TypeError e)"
proof -
  obtain e where e: "validate_state t (JObj p) = Inl (TypeError e)" for t
    using unhashable_mode_raises [OF assms(4,5)] by blast
  have m: "meta_ok pr m" using acc f by (simp add: accessible_def)
  obtain st1 where st1: "s_file st1 = s_file st" "dir_ok pr st1"
    and lk: "locked pr body st = body st1" for body :: "jdict op"
    using accessible_locked [OF acc] by blast
  have "read_for_repair_or_initialize pr c st1 = Inl (TypeError e)"
    using st1 f m e by (intro file_of_unhashable_mode) auto
  then have "disable pr c reason st = (Inl (TypeError e), st1)"
    using r lk by (simp add: disable_def)
  moreover have "snapshot pr now st = Inl (TypeError e)"
    using f m d e by (rule file_of_unhashable_mode)
  ultimately show ?thesis using st1 by blast
qed

definition unhashable_store :: store where
  "unhashable_store = sample_store\<lparr>s_file := Some (private_file sample_proc 1000,
     Doc (JObj (jset ''mode'' (JArr []) sample_state)))\<rparr>"

theorem disable_defeated_by_unhashable_mode_witness:
  "\<exists>e st'. disable sample_proc (sample_call 1010 sample_uuid) sample_text unhashable_store = (Inl (TypeError e), st')
     \<and> s_file st' = s_file unhashable_store
     \<and> snapshot sample_proc 1010 unhashable_store = Inl (TypeError e)"
proof (rule disable_defeated_by_unhashable_mode)
  show "accessible sample_proc unhashable_store" "dir_ok sample_proc unhashable_store"
    by (simp_all add: accessible_def dir_ok_def unhashable_store_def sample_store_def private_dir_def
        permissive_def sample_proc_def)
  show "s_file unhashable_store
      = Some (private_file sample_proc 1000, Doc (JObj (jset ''mode'' (JArr []) sample_state)))"
    by (simp add: unhashable_store_def)
  show "reaches_mode_check (jset ''mode'' (JArr []) sample_state)"
    by (simp add: reaches_mode_check_def sample_uuid_ok sample_state_def SCHEMA_VERSION_def jset_def dset_def)
      (simp add: sample_uuid_def)
qed (simp_all add: sample_clean)

text \<open>
  C8. Reading fails closed: on a file whose values can be hashed and converted, \<open>snapshot\<close> always
  returns, and it reports \<open>reuse_only\<close> only for a record that passes the full validation.
\<close>

theorem snapshot_fails_closed:
  assumes "plain_file st"
  shows "\<exists>sn. snapshot pr now st = Inr sn
     \<and> (sn_mode sn = lit ''reuse_only'' \<longrightarrow>
          (\<exists>s. read_valid_state pr now st = Inr s \<and> sn_state sn = Some s \<and> sn_valid sn))"
  using read_only_invalid [OF assms, of pr now]
  by (cases "read_valid_state pr now st") (auto simp: snapshot_def only_invalid_def)

theorem snapshot_fails_closed_witness:
  "\<exists>sn. snapshot sample_proc 1010 sample_store = Inr sn
     \<and> (sn_mode sn = lit ''reuse_only'' \<longrightarrow>
          (\<exists>s. read_valid_state sample_proc 1010 sample_store = Inr s \<and> sn_state sn = Some s \<and> sn_valid sn))"
  by (rule snapshot_fails_closed [OF sample_plain])

section \<open>Logins\<close>

text \<open>
  C9. One login per authorisation: over any run of operations by any processes, with any write
  failures, at most as many grants are consumed as \<open>authorize_login\<close> calls replaced the policy
  file, plus one for a grant already stored at the start.
\<close>

theorem one_login_per_grant: "consumed xs st \<le> issued xs st + of_bool (holds_grant st)"
  by (rule consumed_le_issued)

text \<open>
  C10. A grant is consumed only by the client it was issued to, for its target, before it expires
  and within five minutes of its creation; afterwards the file holds no grant but an active
  attempt bound to that client and process, with the full cooldown ahead.
\<close>

theorem consume_scoped_and_recorded:
  assumes "fst (consume_login_grant pr c gid target st) = Inr g"
  shows "g_id g = gid \<and> g_client_id g = pr_client pr \<and> g_target g = target
     \<and> c_clk c 1 < g_expires_at g \<and> g_created_at g \<le> c_clk c 0 \<and> c_clk c 1 < g_created_at g + 300
     \<and> (\<exists>d. doc (snd (consume_login_grant pr c gid target st)) = Some d
          \<and> jget d ''login_grant'' = JNull \<and> attempt_matches d gid target (pr_client pr) (pr_pid pr)
          \<and> num_val (jget (dict_of (jget d ''login_attempt'')) ''blocked_until'') = c_clk c 2 + 300)"
proof -
  obtain st' where "consume_login_grant pr c gid target st = (Inr g, st')"
    using assms by (metis prod.collapse)
  then show ?thesis
  proof (cases rule: consume_cases)
    case (wrote s g')
    then have g: "g' = g" by simp
    from wrote(4) obtain gd where gd: "jget s ''login_grant'' = JObj gd" "grant_ok None gd" "g = grant_of gd"
      and m: "g_id g = gid" "g_client_id g = pr_client pr" "g_target g = target" "c_clk c 1 < g_expires_at g"
      by (auto simp: require_matching_grant_iff g)
    have "grant_ok (Some (c_clk c 0)) gd" using wrote(2) gd(1) by (auto simp: state_ok_def)
    then have "g_created_at g \<le> c_clk c 0" "g_expires_at g - g_created_at g \<le> 300"
      by (auto simp: gd(3) grant_ok_def grant_of_def policy_consts)
    moreover have "doc st' = Some (stamp pr (c_clk c 4) (consume_update pr c g target (pr_pid pr) s))"
      using wrote(5) by (simp add: doc_of_file g)
    ultimately show ?thesis
      using m \<open>consume_login_grant pr c gid target st = (Inr g, st')\<close>
      by (simp add: update_grants update_attempts attempt_matches_def attempt_of_grant_def policy_consts)
  qed simp
qed

theorem consume_scoped_and_recorded_witness:
  "g_expires_at sample_grant = 1300 \<and>
   (\<exists>d. doc (snd (consume_login_grant sample_proc (sample_call 1010 []) (lit ''grant-1'') (lit ''login'') sample_store)) = Some d
      \<and> jget d ''login_grant'' = JNull)"
  using consume_scoped_and_recorded [OF sample_consumed [of "[]"]] by (auto simp: sample_grant_def)

text \<open>
  C11. No login storm: once a grant is consumed, no further login is authorised or consumed by
  anyone until the cooldown of 300 seconds has passed, unless an attempt is reported successful;
  safety stops, repairs of damaged files and write failures in between do not shorten it. The clock
  does not run back.
\<close>

theorem cooldown_between_logins:
  assumes "fst (consume_login_grant pr c gid target st) = Inr g" and "mono (c_clk c)"
    and "clk_ok (c_clk c 6) xs" and "\<forall>x \<in> set xs. \<not> succeeds (op_of x)"
  shows "\<forall>(x, ok) \<in> set (results xs (snd (consume_login_grant pr c gid target st))).
     ok \<and> (is_consume (op_of x) \<or> is_authorize (op_of x)) \<longrightarrow> c_clk c 2 + 300 \<le> c_clk (call_of x) 2"
proof -
  let ?b = "c_clk c 2 + DEFAULT_LOGIN_COOLDOWN_SECONDS"
  have clk: "c_clk c 2 \<le> c_clk c 4" "c_clk c 2 \<le> c_clk c 6"
    using monoD [OF assms(2), of 2 4] monoD [OF assms(2), of 2 6] by simp_all
  obtain st' where st': "consume_login_grant pr c gid target st = (Inr g, st')"
    using assms(1) by (metis prod.collapse)
  then have "cooling ?b st'"
  proof (cases rule: consume_cases)
    case (wrote s g')
    then show ?thesis using clk
      by (auto intro!: cooling_written simp: update_grants update_attempts attempt_of_grant_def)
  qed simp
  then have "(x, True) \<in> set (results xs st') \<Longrightarrow> is_consume (op_of x) \<or> is_authorize (op_of x) \<Longrightarrow>
      ?b \<le> c_clk (call_of x) 2" for x
    using clk(2) assms(3,4) by (intro run_cooling [of ?b st' "c_clk c 6" xs x]) auto
  then show ?thesis by (auto simp: st' policy_consts)
qed

theorem cooldown_between_logins_witness:
  "fst (consume_login_grant sample_proc (sample_call 1010 []) (lit ''grant-1'') (lit ''login'') sample_store) = Inr sample_grant
   \<and> \<not> fst (exec (sample_proc, sample_call 1100 [], Consume (lit ''grant-1'') (lit ''login''))
        (snd (consume_login_grant sample_proc (sample_call 1010 []) (lit ''grant-1'') (lit ''login'') sample_store)))"
  using cooldown_between_logins [OF sample_consumed [of "[]"] sample_mono, where xs =
      "[(sample_proc, sample_call 1100 [], Consume (lit ''grant-1'') (lit ''login''))]"]
  by (simp add: sample_mono sample_consumed)


text \<open>
  Stale approvals never take effect: once any step has replaced a record of generation \<open>g\<close> and
  revision \<open>n\<close>, no later \<open>enable_reuse\<close> or \<open>authorize_login\<close> that was approved against exactly that
  revision succeeds, whatever happens in between, including safety stops, damage to the file and
  its repair, as long as fresh generations differ from \<open>g\<close>.
\<close>

theorem stale_approval_rejected:
  assumes "doc st = Some d" and "jget d ''generation'' = JStr g" and "jget d ''revision'' = JInt n"
    and "s_file (snd (exec x st)) \<noteq> s_file st"
    and "\<forall>y \<in> set (x # xs). c_uuid (call_of y) 0 \<noteq> g"
  shows "\<forall>(y, ok) \<in> set (results xs (snd (exec x st))). expects (op_of y) g n \<longrightarrow> \<not> ok"
proof -
  have "superseded g (n - 1) st" using assms(1-3) by (simp add: superseded_def)
  then have "superseded g n (snd (exec x st))"
    using exec_superseded_write [of x st _ _ g "n - 1"] assms(4,5)
    by (metis diff_add_cancel list.set_intros(1) prod.collapse)
  with cas.run_keeps [of g n _ xs] assms(5) show ?thesis by simp
qed

theorem stale_approval_rejected_witness:
  "\<not> fst (exec (sample_proc, sample_call 1020 (lit ''g2''), EnableReuse (JInt 7) (JStr sample_uuid) sample_text)
        (snd (exec (sample_proc, sample_call 1010 (lit ''g2''), Damage) sample_store)))"
  using stale_approval_rejected [OF sample_doc, of sample_uuid 7 "(sample_proc, sample_call 1010 (lit ''g2''), Damage)"
      "[(sample_proc, sample_call 1020 (lit ''g2''), EnableReuse (JInt 7) (JStr sample_uuid) sample_text)]"]
  by (simp add: sample_state_def damaged_def sample_store_def sample_uuid_def)

text \<open>
  C12. The record stays well formed. A stored record is well formed (\<open>wf_policy\<close>) when the
  validator accepts it, its login attempt did not start after the clock and its grant is not a
  \<open>standing_on_vpn\<close> one that allows off-VPN use (a combination \<open>LoginGrant.from_dict\<close> lets pass
  and the attempt check refuses). From such a store, every run whose clock does not run back, whose
  client ids, pids and UUIDs are usable, whose outcomes report success only with return code 0 and
  in which nothing outside the program damages the file ends in such a store. In particular no
  operation leaves behind a record that the validator rejects, also when its write is reported as
  failed.
\<close>

theorem policy_stays_well_formed:
  assumes "wf_policy lo st" and "clk_ok lo xs" and "\<forall>x \<in> set xs. sane x"
  shows "wf_policy (clock_after lo xs) (final xs st)"
  using assms by (rule run_wf)

theorem policy_stays_well_formed_witness:
  "\<exists>s. doc (final [(sample_proc, sample_call 1010 sample_uuid, Consume (lit ''grant-1'') (lit ''login'')),
                (sample_proc, sample_call 1020 sample_uuid, Disable sample_text)] sample_store) = Some s
     \<and> validate_state 1026 (JObj s) = Inr s"
proof -
  have "wf_policy 1000 sample_store"
    using sample_wf [of 1000] sample_doc by (simp add: wf_policy_def)
  then show ?thesis
    using policy_stays_well_formed [of 1000 sample_store
      "[(sample_proc, sample_call 1010 sample_uuid, Consume (lit ''grant-1'') (lit ''login'')),
        (sample_proc, sample_call 1020 sample_uuid, Disable sample_text)]"]
    by (simp add: sample_mono sane_def sample_ids wf_policy_def wf_state_def validate_state_iff) blast
qed

text \<open>
  A broker process may spawn SSH only for the login attempt that is current: the gate opens
  exactly when the stored record is valid, in mode \<open>reuse_only\<close>, and its active attempt carries
  the same grant, target, client and launcher process.
\<close>

theorem broker_launch_bound:
  assumes "accessible pr st"
  shows "fst (authorize_consumed_broker_launch pr now gid target client lpid st) = Inr u \<longleftrightarrow>
     (\<exists>n s. lpid = JInt n \<and> 0 < n \<and> doc st = Some s \<and> validate_state now (JObj s) = Inr s
        \<and> jget s ''mode'' = JStr (lit ''reuse_only'') \<and> attempt_matches s gid target client n)"
proof -
  obtain st1 where st1: "s_file st1 = s_file st" "dir_ok pr st1"
    and lk: "\<And>body :: unit op. locked pr body st = body st1"
    using accessible_locked [OF assms(1)] by metis
  have rd: "read_valid_state pr now st1 = Inr s \<longleftrightarrow> doc st = Some s \<and> validate_state now (JObj s) = Inr s" for s
    using st1 assms by (auto simp: read_valid_state_iff validate_state_iff doc_def accessible_def
        split: option.splits prod.splits content.splits json.splits)
  have "is_int lpid \<longleftrightarrow> (\<exists>n. lpid = JInt n)" by (cases lpid) auto
  then have "fst (authorize_consumed_broker_launch pr now gid target client lpid st) = Inr u \<longleftrightarrow>
     (\<exists>n s. lpid = JInt n \<and> 0 < n \<and> read_valid_state pr now st1 = Inr s
        \<and> jget s ''mode'' = JStr (lit ''reuse_only'') \<and> attempt_matches s gid target client n)"
    by (cases "read_valid_state pr now st1")
      (auto simp: authorize_consumed_broker_launch_def lk lift_def ensure_def reuse_gate_def)
  then show ?thesis unfolding rd by blast
qed

theorem broker_launch_bound_witness:
  "(fst (authorize_consumed_broker_launch sample_proc 1010 (lit ''g'') (lit ''login'') (lit ''client-a'') (JInt 7) sample_store)
     = Inr ()) = False"
  unfolding broker_launch_bound [OF sample_accessible] sample_doc
  by (auto simp: attempt_matches_def sample_state_def)

end
