(* ===== verification/Py_Path.thy ===== *)
theory Py_Path
  imports Py_Text "HOL-Library.Sublist"
begin

text \<open>
  The \<open>posixpath\<close> functions of the standard library that the package calls: \<open>normpath\<close>,
  \<open>join\<close>, \<open>commonpath\<close>, \<open>basename\<close> and \<open>dirname\<close>, with the facts on normalised absolute
  paths that the plan components rely on. As in the library, a path with exactly two leading
  slashes keeps both under \<open>normpath\<close>, while \<open>commonpath\<close> always answers with one.
\<close>

abbreviation slash :: nat where "slash \<equiv> 47"
abbreviation dot :: ustr where "dot \<equiv> [46]"
abbreviation dotdot :: ustr where "dotdot \<equiv> [46, 46]"

section \<open>Definitions\<close>

definition isabs :: "ustr \<Rightarrow> bool" where
  "isabs p \<longleftrightarrow> take 1 p = [slash]"

definition slash_split :: "ustr \<Rightarrow> ustr list" where
  "slash_split p = split_on slash p"

text \<open>The components \<open>commonpath\<close> compares: empty and \<open>.\<close> components are dropped.\<close>

definition comps :: "ustr \<Rightarrow> ustr list" where
  "comps p = filter (\<lambda>c. c \<noteq> [] \<and> c \<noteq> dot) (slash_split p)"

fun norm_loop :: "bool \<Rightarrow> ustr list \<Rightarrow> ustr list \<Rightarrow> ustr list" where
  "norm_loop a acc [] = rev acc"
| "norm_loop a acc (c # cs) =
     (if c = [] \<or> c = dot then norm_loop a acc cs
      else if c \<noteq> dotdot \<or> (\<not> a \<and> acc = []) \<or> (acc \<noteq> [] \<and> hd acc = dotdot)
        then norm_loop a (c # acc) cs
      else if acc \<noteq> [] then norm_loop a (tl acc) cs
      else norm_loop a acc cs)"

definition initial_slashes :: "ustr \<Rightarrow> nat" where
  "initial_slashes p =
     (if \<not> isabs p then 0
      else if take 2 p = [slash, slash] \<and> take 3 p \<noteq> [slash, slash, slash] then 2
      else 1)"

definition normpath :: "ustr \<Rightarrow> ustr" where
  "normpath p =
     (if p = [] then dot
      else let q = replicate (initial_slashes p) slash
                   @ join [slash] (norm_loop (isabs p) [] (slash_split p))
           in if q = [] then dot else q)"

fun path_join :: "ustr \<Rightarrow> ustr list \<Rightarrow> ustr" where
  "path_join a [] = a"
| "path_join a (b # bs) =
     (if isabs b then path_join b bs
      else if a = [] \<or> last a = slash then path_join (a @ b) bs
      else path_join (a @ [slash] @ b) bs)"

fun lcp :: "'a list \<Rightarrow> 'a list \<Rightarrow> 'a list" where
  "lcp (x # xs) (y # ys) = (if x = y then x # lcp xs ys else [])"
| "lcp _ _ = []"

definition commonpath :: "ustr \<Rightarrow> ustr \<Rightarrow> ustr res" where
  "commonpath p q =
     (if isabs p \<noteq> isabs q then Inl (ValueError ''Can't mix absolute and relative paths'')
      else let s1 = min (comps p) (comps q); s2 = max (comps p) (comps q)
           in Inr ((if isabs p then [slash] else []) @ join [slash] (lcp s1 s2)))"

definition basename :: "ustr \<Rightarrow> ustr" where
  "basename p = after_last slash p"

definition dirname :: "ustr \<Rightarrow> ustr" where
  "dirname p =
     (let head = take (length p - length (basename p)) p
      in if head \<noteq> [] \<and> head \<noteq> replicate (length head) slash
         then rev (dropWhile (\<lambda>c. c = slash) (rev head)) else head)"

section \<open>Normalised absolute paths\<close>

text \<open>
  A component that survives normalisation. A normalised absolute path with one leading slash
  is determined by its components.
\<close>

definition good_comp :: "ustr \<Rightarrow> bool" where
  "good_comp c \<longleftrightarrow> c \<noteq> [] \<and> c \<noteq> dot \<and> c \<noteq> dotdot \<and> slash \<notin> set c"

definition abs_of :: "ustr list \<Rightarrow> ustr" where
  "abs_of cs = slash # join [slash] cs"

lemma norm_loop_good:
  "\<forall>c \<in> set acc. good_comp c \<Longrightarrow> \<forall>c \<in> set cs. slash \<notin> set c \<Longrightarrow>
   \<forall>c \<in> set (norm_loop True acc cs). good_comp c"
proof (induction cs arbitrary: acc)
  case (Cons c cs)
  have tl: "\<forall>c \<in> set (tl acc). good_comp c" using Cons.prems(1) by (cases acc) auto
  have hd: "acc = [] \<or> hd acc \<noteq> dotdot" using Cons.prems(1) by (cases acc) (auto simp: good_comp_def)
  have rest: "\<forall>c \<in> set cs. slash \<notin> set c" using Cons.prems(2) by simp
  consider "c = [] \<or> c = dot" | "c = dotdot" | "good_comp c"
    using Cons.prems(2) by (auto simp: good_comp_def)
  then show ?case
  proof cases
    case 1
    then have "norm_loop True acc (c # cs) = norm_loop True acc cs" by auto
    with Cons.IH [OF Cons.prems(1) rest] show ?thesis by simp
  next
    case 2
    with hd have "norm_loop True acc (c # cs) = norm_loop True (tl acc) cs" by (cases acc) auto
    with Cons.IH [OF tl rest] show ?thesis by simp
  next
    case 3
    then have "norm_loop True acc (c # cs) = norm_loop True (c # acc) cs"
      by (subst norm_loop.simps) (auto simp: good_comp_def)
    moreover have "\<forall>x \<in> set (c # acc). good_comp x" using 3 Cons.prems(1) by simp
    ultimately show ?thesis using Cons.IH [OF _ rest, of "c # acc"] by metis
  qed
qed simp

lemma norm_loop_fix:
  "\<forall>c \<in> set cs. good_comp c \<Longrightarrow> norm_loop a acc cs = rev acc @ cs"
  by (induction a acc cs rule: norm_loop.induct) (auto simp: good_comp_def)

lemma slash_split_noslash: "c \<in> set (slash_split p) \<Longrightarrow> slash \<notin> set c"
  by (simp add: slash_split_def split_on_parts)

lemma slash_split_join:
  "\<forall>c \<in> set cs. good_comp c \<Longrightarrow> cs \<noteq> [] \<Longrightarrow> slash_split (join [slash] cs) = cs"
  by (simp add: slash_split_def split_on_join good_comp_def)

lemma slash_split_slash: "slash_split (slash # p) = [] # slash_split p"
  by (simp add: slash_split_def)

lemma filter_good: "\<forall>c \<in> set cs. good_comp c \<Longrightarrow> filter (\<lambda>c. c \<noteq> [] \<and> c \<noteq> dot) cs = cs"
  by (auto simp: good_comp_def intro!: filter_True)

lemma comps_join: "\<forall>c \<in> set cs. good_comp c \<Longrightarrow> comps (join [slash] cs) = cs"
proof (cases "cs = []")
  case True
  then show ?thesis by (simp add: comps_def slash_split_def)
next
  case False
  assume "\<forall>c \<in> set cs. good_comp c"
  with False show ?thesis by (simp add: comps_def slash_split_join filter_good)
qed

lemma comps_slash [simp]: "comps (slash # p) = comps p"
  by (simp add: comps_def slash_split_slash)

lemma comps_abs_of: "\<forall>c \<in> set cs. good_comp c \<Longrightarrow> comps (abs_of cs) = cs"
  by (simp add: abs_of_def comps_join)

lemma isabs_abs_of [simp]: "isabs (abs_of cs)"
  by (simp add: isabs_def abs_of_def)

lemma isabs_Cons [simp]: "isabs (c # p) \<longleftrightarrow> c = slash"
  by (simp add: isabs_def)

text \<open>A normalised absolute path is one or two slashes followed by good components.\<close>

lemma normalized_abs_cases:
  assumes "isabs p" and "normpath p = p"
  obtains cs where "\<forall>c \<in> set cs. good_comp c"
    and "p = abs_of cs \<or> p = slash # abs_of cs" and "comps p = cs"
proof -
  define cs where "cs = norm_loop True [] (slash_split p)"
  have good: "\<forall>c \<in> set cs. good_comp c"
    unfolding cs_def by (rule norm_loop_good) (auto dest: slash_split_noslash)
  have ne: "p \<noteq> []" using assms(1) by (auto simp: isabs_def)
  have k: "initial_slashes p = 1 \<or> initial_slashes p = 2"
    using assms(1) by (simp add: initial_slashes_def)
  then have "normpath p = replicate (initial_slashes p) slash @ join [slash] cs"
    using assms(1) ne unfolding normpath_def cs_def by (auto simp: Let_def)
  with assms(2) k have p: "p = abs_of cs \<or> p = slash # abs_of cs"
    by (auto simp: abs_of_def numeral_2_eq_2)
  with good have "comps p = cs" using comps_abs_of by auto
  with good p show thesis by (rule that)
qed

lemma single_slash_abs_of:
  assumes "isabs p" and "normpath p = p" and "take 2 p \<noteq> [slash, slash]"
  shows "p = abs_of (comps p)" and "\<forall>c \<in> set (comps p). good_comp c"
proof -
  obtain cs where *: "\<forall>c \<in> set cs. good_comp c" "p = abs_of cs \<or> p = slash # abs_of cs" "comps p = cs"
    using normalized_abs_cases [OF assms(1,2)] .
  have "take 2 (slash # abs_of cs) = [slash, slash]" by (simp add: abs_of_def)
  with * assms(3) show "p = abs_of (comps p)" by metis
  from * show "\<forall>c \<in> set (comps p). good_comp c" by simp
qed

lemma comps_good:
  "isabs p \<Longrightarrow> normpath p = p \<Longrightarrow> \<forall>c \<in> set (comps p). good_comp c"
  by (rule normalized_abs_cases) auto

section \<open>Common prefixes\<close>

lemma lcp_commute: "lcp xs ys = lcp ys xs"
  by (induction xs ys rule: lcp.induct) auto

lemma lcp_min_max: "lcp (min xs ys) (max xs ys) = lcp xs (ys :: 'a :: linorder list)"
  by (cases "xs \<le> ys") (auto simp: min_def max_def lcp_commute)

lemma lcp_eq_left: "lcp xs ys = xs \<longleftrightarrow> prefix xs ys"
  by (induction xs ys rule: lcp.induct) auto

lemma lcp_eq_right: "lcp xs ys = ys \<longleftrightarrow> prefix ys xs"
  by (metis lcp_commute lcp_eq_left)

lemma lcp_prefix: "prefix (lcp xs ys) xs"
  by (induction xs ys rule: lcp.induct) auto

lemma set_lcp: "set (lcp xs ys) \<subseteq> set xs"
  using lcp_prefix [of xs ys] by (auto simp: prefix_def) (metis Un_iff set_append)

lemma commonpath_abs:
  "isabs p \<Longrightarrow> isabs q \<Longrightarrow> commonpath p q = Inr (abs_of (lcp (comps p) (comps q)))"
  by (simp add: commonpath_def lcp_min_max Let_def abs_of_def)

lemma abs_of_inj:
  "\<forall>c \<in> set cs. good_comp c \<Longrightarrow> \<forall>c \<in> set ds. good_comp c \<Longrightarrow> abs_of cs = abs_of ds \<longleftrightarrow> cs = ds"
  by (metis comps_abs_of)

section \<open>Joining below a normalised root\<close>

lemma join_snoc: "xs \<noteq> [] \<Longrightarrow> join sep (xs @ [y]) = join sep xs @ sep @ y"
  by (induction sep xs rule: join.induct) auto

lemma join_append: "xs \<noteq> [] \<Longrightarrow> ys \<noteq> [] \<Longrightarrow> join sep (xs @ ys) = join sep xs @ sep @ join sep ys"
proof (induction sep xs rule: join.induct)
  case (2 sep x)
  then show ?case by (cases ys) auto
qed auto

lemma join_last_good:
  "xs \<noteq> [] \<Longrightarrow> \<forall>c \<in> set xs. good_comp c \<Longrightarrow> join [slash] xs \<noteq> [] \<and> last (join [slash] xs) \<noteq> slash"
proof (induction "[slash]" xs rule: join.induct)
  case (2 x)
  then show ?case by (metis good_comp_def join.simps(2) last_in_set list.set_intros(1))
next
  case (3 x y xs)
  then show ?case by auto
qed simp

lemma good_not_abs: "good_comp c \<Longrightarrow> \<not> isabs c"
  by (cases c) (auto simp: good_comp_def)

text \<open>Appending good components to a normalised root keeps the root's components as a prefix.\<close>

lemma path_join_abs_of:
  "cs \<noteq> [] \<Longrightarrow> \<forall>c \<in> set cs. good_comp c \<Longrightarrow> \<forall>c \<in> set bs. good_comp c \<Longrightarrow>
   path_join (abs_of cs) bs = abs_of (cs @ bs)"
proof (induction bs arbitrary: cs)
  case (Cons b bs)
  have "last (abs_of cs) \<noteq> slash"
    using join_last_good [of cs] Cons.prems by (simp add: abs_of_def)
  moreover have "\<not> isabs b" using Cons.prems good_not_abs by simp
  moreover have "abs_of cs @ slash # b = abs_of (cs @ [b])"
    using Cons.prems by (simp add: abs_of_def join_snoc)
  moreover have "path_join (abs_of (cs @ [b])) bs = abs_of ((cs @ [b]) @ bs)"
    using Cons.prems by (intro Cons.IH) auto
  ultimately show ?case by (simp add: abs_of_def)
qed simp

section \<open>Paths given by their components\<close>

definition rel_of :: "ustr list \<Rightarrow> ustr" where
  "rel_of cs = join [slash] cs"

lemma rel_of_hd:
  assumes "cs \<noteq> []" and "\<forall>c \<in> set cs. good_comp c"
  shows "rel_of cs \<noteq> []" and "hd (rel_of cs) \<noteq> slash" and "\<not> isabs (rel_of cs)"
proof -
  obtain c ds where cs: "cs = c # ds" using assms(1) by (cases cs) auto
  then obtain x y where c: "c = x # y" "x \<noteq> slash"
    using assms(2) by (cases c) (auto simp: good_comp_def)
  then have "\<exists>r. rel_of cs = x # r" using cs by (cases ds) (auto simp: rel_of_def)
  with c show "rel_of cs \<noteq> []" "hd (rel_of cs) \<noteq> slash" "\<not> isabs (rel_of cs)" by auto
qed

lemma normpath_rel_of:
  assumes "cs \<noteq> []" and "\<forall>c \<in> set cs. good_comp c"
  shows "normpath (rel_of cs) = rel_of cs"
proof -
  note hd = rel_of_hd [OF assms]
  have "slash_split (rel_of cs) = cs" using assms by (simp add: rel_of_def slash_split_join)
  with hd assms show ?thesis
    by (simp add: normpath_def initial_slashes_def norm_loop_fix Let_def) (simp add: rel_of_def)
qed

lemma abs_of_rel_of: "abs_of cs = slash # rel_of cs"
  by (simp add: abs_of_def rel_of_def)

lemma normpath_abs_of:
  assumes "cs \<noteq> []" and "\<forall>c \<in> set cs. good_comp c"
  shows "normpath (abs_of cs) = abs_of cs"
proof -
  note hd = rel_of_hd [OF assms]
  have i: "initial_slashes (abs_of cs) = 1"
    using hd(1,2) by (cases "rel_of cs") (simp_all add: initial_slashes_def abs_of_rel_of)
  have "slash_split (abs_of cs) = [] # cs"
    using assms by (simp add: abs_of_def slash_split_slash slash_split_join)
  then have "norm_loop True [] (slash_split (abs_of cs)) = cs" using assms(2) by (simp add: norm_loop_fix)
  with i show ?thesis by (simp add: normpath_def Let_def) (simp add: abs_of_def)
qed

lemma path_join_rel_of:
  assumes "cs \<noteq> []" and "\<forall>c \<in> set cs. good_comp c" and "ds \<noteq> []" and "\<forall>c \<in> set ds. good_comp c"
  shows "path_join (abs_of cs) [rel_of ds] = abs_of (cs @ ds)"
proof -
  have "last (abs_of cs) \<noteq> slash" using join_last_good [of cs] assms by (simp add: abs_of_def)
  moreover have "abs_of cs @ slash # rel_of ds = abs_of (cs @ ds)"
    using assms by (simp add: abs_of_def rel_of_def join_append)
  ultimately show ?thesis using rel_of_hd(3) [OF assms(3,4)] by (simp add: abs_of_def)
qed

lemma basename_abs_of:
  assumes "good_comp c" and "\<forall>d \<in> set cs. good_comp d"
  shows "basename (abs_of (cs @ [c])) = c"
proof -
  have "slash \<notin> set c" using assms(1) by (simp add: good_comp_def)
  then have tw: "takeWhile (\<lambda>x. x \<noteq> slash) (rev c @ slash # r) = rev c" for r
    by (subst takeWhile_append2) auto
  have "\<exists>r. abs_of (cs @ [c]) = r @ slash # c"
    by (cases "cs = []") (auto simp: abs_of_def join_snoc)
  then show ?thesis using tw by (auto simp: basename_def after_last_def)
qed

lemma dirname_abs_of:
  assumes "good_comp c" and "cs \<noteq> []" and "\<forall>d \<in> set cs. good_comp d"
  shows "dirname (abs_of (cs @ [c])) = abs_of cs"
proof -
  have eq: "abs_of (cs @ [c]) = (abs_of cs @ [slash]) @ c" using assms(2) by (simp add: abs_of_def join_snoc)
  have h: "take (length (abs_of (cs @ [c])) - length (basename (abs_of (cs @ [c])))) (abs_of (cs @ [c])) = abs_of cs @ [slash]"
    unfolding basename_abs_of [OF assms(1,3)] unfolding eq by simp
  have last: "last (abs_of cs) \<noteq> slash" "abs_of cs \<noteq> []"
    using join_last_good [of cs] assms by (simp_all add: abs_of_def)
  then have "dropWhile (\<lambda>c. c = slash) (rev (abs_of cs @ [slash])) = rev (abs_of cs)"
    by (cases "rev (abs_of cs)") (auto simp: hd_rev [symmetric])
  moreover have "abs_of cs @ [slash] \<noteq> replicate (length (abs_of cs @ [slash])) slash"
  proof
    assume "abs_of cs @ [slash] = replicate (length (abs_of cs @ [slash])) slash"
    then have "last (abs_of cs) \<in> set (replicate (length (abs_of cs @ [slash])) slash)"
      using last(2) by (metis UnI1 last_in_set set_append)
    with last(1) show False by simp
  qed
  ultimately show ?thesis unfolding dirname_def h by (simp add: Let_def)
qed

end
