(* ===== verification/Plan_Values.thy ===== *)
theory Plan_Values
  imports Py_Path Json
begin

text \<open>
  The first half of \<open>runorg/plan_components.py\<close>: the field validators, \<open>DatasetIdentity\<close> and
  \<open>CanonicalPaths\<close>. A frozen dataclass is a record; its \<open>__post_init__\<close> is a function from a
  record to the record the constructor leaves, or the error it raises. Record fields are typed,
  so the \<open>isinstance\<close> tests of a constructor hold by construction; \<open>from_dict\<close> starts from
  decoded JSON and tests types as the code does.
\<close>

section \<open>Character classes and regular expressions\<close>

definition is_alnum :: "nat \<Rightarrow> bool" where
  "is_alnum c \<longleftrightarrow> 48 \<le> c \<and> c \<le> 57 \<or> 65 \<le> c \<and> c \<le> 90 \<or> 97 \<le> c \<and> c \<le> 122"

text \<open>Letters, digits, dot, underscore and hyphen.\<close>

definition is_ident_char :: "nat \<Rightarrow> bool" where
  "is_ident_char c \<longleftrightarrow> is_alnum c \<or> c = 46 \<or> c = 95 \<or> c = 45"

definition is_lower_hex :: "nat \<Rightarrow> bool" where
  "is_lower_hex c \<longleftrightarrow> 48 \<le> c \<and> c \<le> 57 \<or> 97 \<le> c \<and> c \<le> 102"

definition IDENTIFIER_RE :: "ustr \<Rightarrow> bool" where
  "IDENTIFIER_RE s \<longleftrightarrow> (case s of [] \<Rightarrow> False | c # cs \<Rightarrow> is_alnum c \<and> list_all is_ident_char cs)"

definition SHA256_RE :: "ustr \<Rightarrow> bool" where
  "SHA256_RE s \<longleftrightarrow> length s = 64 \<and> list_all is_lower_hex s"

definition GIT_COMMIT_RE :: "ustr \<Rightarrow> bool" where
  "GIT_COMMIT_RE s \<longleftrightarrow> (length s = 40 \<or> length s = 64) \<and> list_all is_lower_hex s"

section \<open>Field validators\<close>

definition contains_surrogate :: "ustr \<Rightarrow> bool" where
  "contains_surrogate s \<longleftrightarrow> list_ex (\<lambda>c. 55296 \<le> c \<and> c \<le> 57343) s"

definition is_single_line_string :: "ustr \<Rightarrow> bool" where
  "is_single_line_string s \<longleftrightarrow>
     s \<noteq> [] \<and> \<not> contains_surrogate s \<and> 0 \<notin> set s \<and> 10 \<notin> set s \<and> 13 \<notin> set s"

definition require_mapping :: "json \<Rightarrow> string \<Rightarrow> jdict res" where
  "require_mapping v f = (case v of JObj d \<Rightarrow> Inr d | _ \<Rightarrow> Inl (ValueError (f @ '' must be an object'')))"

definition reject_unknown_keys :: "jdict \<Rightarrow> string list \<Rightarrow> string \<Rightarrow> unit res" where
  "reject_unknown_keys d allowed f =
     ensure (dkeys d \<subseteq> lit ` set allowed) (ValueError (f @ '' contains unsupported fields''))"

definition require_sequence :: "json \<Rightarrow> string \<Rightarrow> json list res" where
  "require_sequence v f = (case v of JArr xs \<Rightarrow> Inr xs | _ \<Rightarrow> Inl (ValueError (f @ '' must be an array'')))"

definition require_str :: "json \<Rightarrow> string \<Rightarrow> ustr res" where
  "require_str v f =
     (case v of JStr s \<Rightarrow>
        bind (ensure (s \<noteq> []) (ValueError (f @ '' cannot be empty''))) (\<lambda>_.
        bind (ensure (\<not> contains_surrogate s)
                (ValueError (f @ '' cannot contain unpaired Unicode surrogates''))) (\<lambda>_.
        Inr s))
      | _ \<Rightarrow> Inl (ValueError (f @ '' must be a string'')))"

definition require_int :: "json \<Rightarrow> string \<Rightarrow> int res" where
  "require_int v f = (case v of JInt i \<Rightarrow> Inr i | _ \<Rightarrow> Inl (ValueError (f @ '' must be an integer'')))"

definition require_bool :: "json \<Rightarrow> string \<Rightarrow> bool res" where
  "require_bool v f = (case v of JBool b \<Rightarrow> Inr b | _ \<Rightarrow> Inl (ValueError (f @ '' must be a boolean'')))"

text \<open>\<open>_require_str(data[k], f) if data.get(k) is not None else None\<close>, on the value of \<open>data.get(k)\<close>.\<close>

definition optional_str :: "json \<Rightarrow> string \<Rightarrow> ustr option res" where
  "optional_str v f = (if v = JNull then Inr None else bind (require_str v f) (\<lambda>s. Inr (Some s)))"

definition validate_identifier :: "ustr \<Rightarrow> string \<Rightarrow> unit res" where
  "validate_identifier s f =
     ensure (IDENTIFIER_RE s \<and> s \<noteq> dot \<and> s \<noteq> dotdot) (ValueError (f @ '' must match the identifier pattern''))"

definition validate_sha256 :: "ustr \<Rightarrow> string \<Rightarrow> unit res" where
  "validate_sha256 s f =
     ensure (SHA256_RE s) (ValueError (f @ '' must be a 64-character lowercase SHA-256 digest''))"

definition validate_absolute_path :: "ustr \<Rightarrow> string \<Rightarrow> unit res" where
  "validate_absolute_path p f =
     bind (ensure (is_single_line_string p) (ValueError (f @ '' must be a single-line NUL-free path''))) (\<lambda>_.
     bind (ensure (startswith p [slash]) (ValueError (f @ '' must be an absolute POSIX path''))) (\<lambda>_.
     ensure (normpath p = p \<and> p \<noteq> [slash])
       (ValueError (f @ '' must be normalized and cannot be the filesystem root''))))"

definition validate_relative_path :: "ustr \<Rightarrow> string \<Rightarrow> unit res" where
  "validate_relative_path p f =
     bind (ensure (is_single_line_string p) (ValueError (f @ '' must be a single-line NUL-free path''))) (\<lambda>_.
     bind (ensure (\<not> startswith p [slash] \<and> p \<notin> {[], dot, dotdot})
             (ValueError (f @ '' must be a non-empty run-relative path''))) (\<lambda>_.
     ensure (normpath p = p \<and> \<not> startswith (normpath p) (dotdot @ [slash]))
       (ValueError (f @ '' must be normalized and cannot traverse above the run root''))))"

definition is_within :: "ustr \<Rightarrow> ustr \<Rightarrow> bool" where
  "is_within p r = (case commonpath p r of Inl e \<Rightarrow> False | Inr q \<Rightarrow> q = r \<and> p \<noteq> r)"

section \<open>Accepted field values\<close>

definition wire_str :: "ustr \<Rightarrow> bool" where
  "wire_str s \<longleftrightarrow> s \<noteq> [] \<and> \<not> contains_surrogate s"

definition ident_ok :: "ustr \<Rightarrow> bool" where
  "ident_ok s \<longleftrightarrow> IDENTIFIER_RE s"

definition abs_path_ok :: "ustr \<Rightarrow> bool" where
  "abs_path_ok p \<longleftrightarrow> is_single_line_string p \<and> isabs p \<and> normpath p = p \<and> p \<noteq> [slash]"

definition rel_path_ok :: "ustr \<Rightarrow> bool" where
  "rel_path_ok p \<longleftrightarrow> is_single_line_string p \<and> \<not> isabs p \<and> p \<noteq> dot \<and> p \<noteq> dotdot \<and> normpath p = p
     \<and> \<not> startswith p (dotdot @ [slash])"

lemma require_eq_Inr [simp]:
  "require_mapping v f = Inr d \<longleftrightarrow> v = JObj d"
  "require_sequence v f = Inr xs \<longleftrightarrow> v = JArr xs"
  "require_str v f = Inr s \<longleftrightarrow> v = JStr s \<and> wire_str s"
  "require_int v f = Inr i \<longleftrightarrow> v = JInt i"
  "require_bool v f = Inr b \<longleftrightarrow> v = JBool b"
  by (auto simp: require_mapping_def require_sequence_def require_str_def require_int_def require_bool_def
      wire_str_def split: json.splits)

lemma reject_unknown_keys_eq [simp]:
  "reject_unknown_keys d ks f = Inr u \<longleftrightarrow> dkeys d \<subseteq> lit ` set ks"
  by (simp add: reject_unknown_keys_def)

text \<open>How the decoders compute on values of the right type.\<close>

lemma require_simps [simp]:
  "require_mapping (JObj d) f = Inr d" "require_sequence (JArr xs) f = Inr xs"
  "require_int (JInt i) f = Inr i" "require_bool (JBool b) f = Inr b"
  "wire_str s \<Longrightarrow> require_str (JStr s) f = Inr s"
  "dkeys d \<subseteq> lit ` set ks \<Longrightarrow> reject_unknown_keys d ks f = Inr ()"
  by simp_all

text \<open>An optional string as JSON, and the member that is left out when it is absent.\<close>

definition opt_json :: "ustr option \<Rightarrow> json" where
  "opt_json v = (case v of None \<Rightarrow> JNull | Some s \<Rightarrow> JStr s)"

definition opt_field :: "string \<Rightarrow> ustr option \<Rightarrow> jdict" where
  "opt_field k v = (case v of None \<Rightarrow> [] | Some s \<Rightarrow> [(lit k, JStr s)])"

lemma optional_opt_json [simp]: "opt_ok wire_str v \<Longrightarrow> optional_str (opt_json v) f = Inr v"
  by (cases v) (auto simp: optional_str_def opt_json_def)

lemma opt_field_reads [simp]:
  "jget (opt_field k v) k' = (if k = k' then opt_json v else JNull)"
  "lit k \<notin> dkeys d \<Longrightarrow> jget (opt_field k v @ d) k = opt_json v"
  "k' \<noteq> k \<Longrightarrow> jget (opt_field k v @ d) k' = jget d k'"
  "dkeys (opt_field k v) \<subseteq> S \<longleftrightarrow> v = None \<or> lit k \<in> S"
  "lit k' \<in> dkeys (opt_field k v) \<longleftrightarrow> v \<noteq> None \<and> k' = k"
  using dget_None_iff [of d "lit k"]
  by (auto simp: opt_json_def opt_field_def jget_def split: option.splits)

lemma IDENTIFIER_not_dots: "IDENTIFIER_RE s \<Longrightarrow> s \<noteq> dot \<and> s \<noteq> dotdot"
  by (auto simp: IDENTIFIER_RE_def is_alnum_def)

lemma validate_eq_Inr [simp]:
  "validate_identifier s f = Inr u \<longleftrightarrow> ident_ok s"
  "validate_sha256 s f = Inr u \<longleftrightarrow> SHA256_RE s"
  "validate_absolute_path s f = Inr u \<longleftrightarrow> abs_path_ok s"
  "validate_relative_path s f = Inr u \<longleftrightarrow> rel_path_ok s"
  by (auto simp: validate_identifier_def validate_sha256_def validate_absolute_path_def ident_ok_def
      validate_relative_path_def abs_path_ok_def rel_path_ok_def startswith_def isabs_def
      is_single_line_string_def dest: IDENTIFIER_not_dots)

lemma single_line_wire: "is_single_line_string s \<Longrightarrow> wire_str s"
  by (simp add: is_single_line_string_def wire_str_def)

lemma wire_str_ascii: "s \<noteq> [] \<Longrightarrow> list_all P s \<Longrightarrow> (\<And>c. P c \<Longrightarrow> c < 55296) \<Longrightarrow> wire_str s"
  by (force simp: wire_str_def contains_surrogate_def list_ex_iff list_all_iff)

lemma ident_chars: "ident_ok s \<Longrightarrow> s \<noteq> [] \<and> list_all is_ident_char s"
  by (auto simp: ident_ok_def IDENTIFIER_RE_def is_ident_char_def split: list.splits)

lemma ident_char_bound: "is_ident_char c \<Longrightarrow> c < 128 \<and> c \<noteq> slash \<and> c \<noteq> 58"
  by (auto simp: is_ident_char_def is_alnum_def)

lemma ident_wire: "ident_ok s \<Longrightarrow> wire_str s"
  using ident_chars [of s] ident_char_bound by (fastforce intro: wire_str_ascii)

lemma sha_wire: "SHA256_RE s \<Longrightarrow> wire_str s"
  by (rule wire_str_ascii [of _ is_lower_hex]) (auto simp: SHA256_RE_def is_lower_hex_def)

lemma path_wire: "abs_path_ok p \<Longrightarrow> wire_str p" "rel_path_ok p \<Longrightarrow> wire_str p"
  by (auto simp: abs_path_ok_def rel_path_ok_def intro: single_line_wire)

lemma opt_wire:
  "opt_ok SHA256_RE v \<Longrightarrow> opt_ok wire_str v" "opt_ok ident_ok v \<Longrightarrow> opt_ok wire_str v"
  "opt_ok abs_path_ok v \<Longrightarrow> opt_ok wire_str v"
  by (auto elim!: opt_ok_mono intro: sha_wire ident_wire path_wire)

lemmas wire_intros = opt_wire single_line_wire ident_wire sha_wire path_wire

section \<open>Values that travel as JSON objects\<close>

text \<open>
  The interface of the plan's value classes. \<open>post_init\<close> is the constructor, which may bring a
  value into canonical form; a value is canonical when the constructor leaves it as it is.
  \<open>sound\<close> says that the parts of a value are themselves constructed values.
\<close>

locale wire_value =
  fixes post_init :: "'a \<Rightarrow> 'a res" and sound :: "'a \<Rightarrow> bool"
    and to_dict :: "'a \<Rightarrow> jdict" and from_dict :: "json \<Rightarrow> 'a res"
  assumes idem: "post_init x = Inr y \<Longrightarrow> post_init y = Inr y"
    and constructed: "from_dict v = Inr x \<Longrightarrow> sound x \<and> (\<exists>y. post_init y = Inr x)"
    and inverse: "post_init x = Inr x \<Longrightarrow> sound x \<Longrightarrow> from_dict (JObj (to_dict x)) = Inr x"
begin

definition canonical :: "'a \<Rightarrow> bool" where
  "canonical x \<longleftrightarrow> post_init x = Inr x \<and> sound x"

lemma canonicalI: "post_init y = Inr x \<Longrightarrow> sound x \<Longrightarrow> canonical x"
  unfolding canonical_def using idem by blast

lemma decoded_canonical: "from_dict v = Inr x \<Longrightarrow> canonical x"
  unfolding canonical_def using constructed idem by blast

lemma roundtrip: "canonical x \<Longrightarrow> from_dict (JObj (to_dict x)) = Inr x"
  unfolding canonical_def using inverse by blast

lemma reencode: "from_dict v = Inr x \<Longrightarrow> from_dict (JObj (to_dict x)) = Inr x"
  using decoded_canonical roundtrip by blast

lemma to_dict_inj: "canonical x \<Longrightarrow> canonical y \<Longrightarrow> to_dict x = to_dict y \<Longrightarrow> x = y"
  by (metis roundtrip sum.inject(2))

text \<open>The lists of such values, as the enclosing decoders read them.\<close>

lemma list_roundtrip:
  "\<forall>x \<in> set xs. canonical x \<Longrightarrow>
   mapR (\<lambda>v. bind (require_mapping v l) (\<lambda>m. from_dict (JObj m))) (map (\<lambda>x. JObj (to_dict x)) xs) = Inr xs"
  by (induction xs) (auto simp: roundtrip)

lemma list_decoded:
  "mapR (\<lambda>v. bind (require_mapping v l) (\<lambda>m. from_dict (JObj m))) vs = Inr xs \<Longrightarrow> \<forall>x \<in> set xs. canonical x"
  by (induction vs arbitrary: xs) (auto dest: decoded_canonical)

end

section \<open>DatasetIdentity\<close>

record dataset_identity =
  ds_dataset_id :: ustr
  ds_manifest_sha256 :: ustr
  ds_storage_binding_sha256 :: "ustr option"
  ds_source_uri :: "ustr option"

definition dataset_post_init :: "dataset_identity \<Rightarrow> dataset_identity res" where
  "dataset_post_init d =
     bind (validate_identifier (ds_dataset_id d) ''dataset_id'') (\<lambda>_.
     bind (validate_sha256 (ds_manifest_sha256 d) ''manifest_sha256'') (\<lambda>_.
     bind (optR (\<lambda>s. validate_sha256 s ''storage_binding_sha256'') (ds_storage_binding_sha256 d)) (\<lambda>_.
     bind (optR (\<lambda>s. ensure (is_single_line_string s)
             (ValueError ''source_uri must be a non-empty single-line Unicode string when supplied''))
             (ds_source_uri d)) (\<lambda>_.
     Inr d))))"

definition dataset_to_dict :: "dataset_identity \<Rightarrow> jdict" where
  "dataset_to_dict d =
     [(lit ''dataset_id'', JStr (ds_dataset_id d)), (lit ''manifest_sha256'', JStr (ds_manifest_sha256 d))]
     @ opt_field ''storage_binding_sha256'' (ds_storage_binding_sha256 d)
     @ opt_field ''source_uri'' (ds_source_uri d)"

definition dataset_from_dict :: "json \<Rightarrow> dataset_identity res" where
  "dataset_from_dict v =
     bind (require_mapping v ''dataset'') (\<lambda>d.
     bind (reject_unknown_keys d
             [''dataset_id'', ''manifest_sha256'', ''storage_binding_sha256'', ''source_uri''] ''dataset'') (\<lambda>_.
     bind (require_str (jget d ''dataset_id'') ''dataset.dataset_id'') (\<lambda>i.
     bind (require_str (jget d ''manifest_sha256'') ''dataset.manifest_sha256'') (\<lambda>m.
     bind (optional_str (jget d ''storage_binding_sha256'') ''dataset.storage_binding_sha256'') (\<lambda>sb.
     bind (optional_str (jget d ''source_uri'') ''dataset.source_uri'') (\<lambda>u.
     dataset_post_init \<lparr>ds_dataset_id = i, ds_manifest_sha256 = m, ds_storage_binding_sha256 = sb,
       ds_source_uri = u\<rparr>))))))"

lemma dataset_fields_ok:
  assumes "dataset_post_init x = Inr y"
  shows "wire_str (ds_dataset_id x)" "wire_str (ds_manifest_sha256 x)"
    "opt_ok wire_str (ds_storage_binding_sha256 x)" "opt_ok wire_str (ds_source_uri x)"
  using assms by (auto simp: dataset_post_init_def wire_intros elim: opt_ok_mono)

interpretation dataset: wire_value dataset_post_init "\<lambda>_. True" dataset_to_dict dataset_from_dict
proof
  show "dataset_post_init x = Inr y \<Longrightarrow> dataset_post_init y = Inr y" for x y
    by (auto simp: dataset_post_init_def)
  show "dataset_from_dict v = Inr x \<Longrightarrow> True \<and> (\<exists>y. dataset_post_init y = Inr x)" for v x
    unfolding dataset_from_dict_def by auto
  show "dataset_post_init x = Inr x \<Longrightarrow> dataset_from_dict (JObj (dataset_to_dict x)) = Inr x" for x
    using dataset_fields_ok [of x x] by (cases x) (simp add: dataset_from_dict_def dataset_to_dict_def)
qed

section \<open>CanonicalPaths\<close>

record canonical_paths =
  cp_run_root :: ustr
  cp_work_root :: ustr
  cp_results_root :: ustr
  cp_receipts_root :: ustr
  cp_logs_root :: ustr
  cp_promotion_root :: "ustr option"

text \<open>\<open>commonpath((l, r)) in {l, r}\<close>; on a mixture of absolute and relative paths the call raises.\<close>

definition overlap :: "ustr \<Rightarrow> ustr \<Rightarrow> bool res" where
  "overlap l r = bind (commonpath l r) (\<lambda>q. Inr (q = l \<or> q = r))"

text \<open>
  The double loop over the four named roots visits each pair once, with the smaller name on the
  left, in the order of the outer and then the inner iteration.
\<close>

definition non_overlapping_roots :: "canonical_paths \<Rightarrow> (string \<times> ustr) list" where
  "non_overlapping_roots p =
     [(''work_root'', cp_work_root p), (''receipts_root'', cp_receipts_root p),
      (''logs_root'', cp_logs_root p), (''results_root'', cp_results_root p)]"

definition root_pairs :: "canonical_paths \<Rightarrow> (ustr \<times> ustr) list" where
  "root_pairs p =
     map (\<lambda>(l, r). (snd l, snd r))
       (filter (\<lambda>(l, r). lit (fst l) < lit (fst r))
         (List.product (non_overlapping_roots p) (non_overlapping_roots p)))"

definition paths_post_init :: "canonical_paths \<Rightarrow> canonical_paths res" where
  "paths_post_init p =
     bind (validate_absolute_path (cp_run_root p) ''run_root'') (\<lambda>_.
     bind (validate_absolute_path (cp_work_root p) ''work_root'') (\<lambda>_.
     bind (validate_absolute_path (cp_results_root p) ''results_root'') (\<lambda>_.
     bind (validate_absolute_path (cp_receipts_root p) ''receipts_root'') (\<lambda>_.
     bind (validate_absolute_path (cp_logs_root p) ''logs_root'') (\<lambda>_.
     bind (optR (\<lambda>q. validate_absolute_path q ''promotion_root'') (cp_promotion_root p)) (\<lambda>_.
     bind (ensure (is_within (cp_work_root p) (cp_run_root p))
             (ValueError ''work_root must be strictly inside run_root'')) (\<lambda>_.
     bind (ensure (is_within (cp_receipts_root p) (cp_run_root p))
             (ValueError ''receipts_root must be strictly inside run_root'')) (\<lambda>_.
     bind (ensure (is_within (cp_logs_root p) (cp_run_root p))
             (ValueError ''logs_root must be strictly inside run_root'')) (\<lambda>_.
     bind (forR (\<lambda>(l, r). bind (overlap l r) (\<lambda>b.
             ensure (\<not> b) (ValueError ''roots must be distinct and non-overlapping''))) (root_pairs p)) (\<lambda>_.
     Inr p))))))))))"

definition paths_to_dict :: "canonical_paths \<Rightarrow> jdict" where
  "paths_to_dict p =
     [(lit ''logs_root'', JStr (cp_logs_root p)), (lit ''receipts_root'', JStr (cp_receipts_root p)),
      (lit ''results_root'', JStr (cp_results_root p)), (lit ''run_root'', JStr (cp_run_root p)),
      (lit ''work_root'', JStr (cp_work_root p))]
     @ opt_field ''promotion_root'' (cp_promotion_root p)"

definition paths_from_dict :: "json \<Rightarrow> canonical_paths res" where
  "paths_from_dict v =
     bind (require_mapping v ''paths'') (\<lambda>d.
     bind (reject_unknown_keys d
             [''run_root'', ''work_root'', ''results_root'', ''receipts_root'', ''logs_root'', ''promotion_root'']
             ''paths'') (\<lambda>_.
     bind (require_str (jget d ''run_root'') ''paths.run_root'') (\<lambda>run.
     bind (require_str (jget d ''work_root'') ''paths.work_root'') (\<lambda>work.
     bind (require_str (jget d ''results_root'') ''paths.results_root'') (\<lambda>results.
     bind (require_str (jget d ''receipts_root'') ''paths.receipts_root'') (\<lambda>receipts.
     bind (require_str (jget d ''logs_root'') ''paths.logs_root'') (\<lambda>logs.
     bind (optional_str (jget d ''promotion_root'') ''paths.promotion_root'') (\<lambda>promotion.
     paths_post_init \<lparr>cp_run_root = run, cp_work_root = work, cp_results_root = results,
       cp_receipts_root = receipts, cp_logs_root = logs, cp_promotion_root = promotion\<rparr>))))))))"

lemma is_within_abs_of:
  "\<forall>c \<in> set cs. good_comp c \<Longrightarrow> \<forall>c \<in> set ds. good_comp c \<Longrightarrow>
   is_within (abs_of cs) (abs_of ds) \<longleftrightarrow> strict_prefix ds cs"
proof -
  assume g: "\<forall>c \<in> set cs. good_comp c" "\<forall>c \<in> set ds. good_comp c"
  have l: "\<forall>c \<in> set (lcp cs ds). good_comp c" using set_lcp [of cs ds] g(1) by blast
  have "is_within (abs_of cs) (abs_of ds) \<longleftrightarrow> abs_of (lcp cs ds) = abs_of ds \<and> abs_of cs \<noteq> abs_of ds"
    by (simp add: is_within_def commonpath_abs comps_abs_of g)
  then show ?thesis
    unfolding abs_of_inj [OF l g(2)] abs_of_inj [OF g] lcp_eq_right strict_prefix_def by blast
qed

lemma overlap_abs_of:
  "\<forall>c \<in> set cs. good_comp c \<Longrightarrow> \<forall>c \<in> set ds. good_comp c \<Longrightarrow>
   overlap (abs_of cs) (abs_of ds) = Inr (prefix cs ds \<or> prefix ds cs)"
proof -
  assume g: "\<forall>c \<in> set cs. good_comp c" "\<forall>c \<in> set ds. good_comp c"
  have l: "\<forall>c \<in> set (lcp cs ds). good_comp c" using set_lcp [of cs ds] g(1) by blast
  have "overlap (abs_of cs) (abs_of ds) = Inr (abs_of (lcp cs ds) = abs_of cs \<or> abs_of (lcp cs ds) = abs_of ds)"
    by (simp add: overlap_def commonpath_abs comps_abs_of g)
  then show ?thesis
    unfolding abs_of_inj [OF l g(1)] abs_of_inj [OF l g(2)] lcp_eq_right lcp_eq_left .
qed

text \<open>A component of identifier characters that is not made of dots; paths of such components are accepted.\<close>

definition plain_comp :: "ustr \<Rightarrow> bool" where
  "plain_comp c \<longleftrightarrow> c \<noteq> [] \<and> c \<noteq> dot \<and> c \<noteq> dotdot \<and> list_all is_ident_char c"

lemma plain_good: "plain_comp c \<Longrightarrow> good_comp c"
  using ident_char_bound by (auto simp: plain_comp_def good_comp_def list_all_iff)

lemma set_join: "set (join sep cs) \<subseteq> set sep \<union> \<Union> (set ` set cs)"
  by (induction sep cs rule: join.induct) auto

lemma ident_char_range: "is_ident_char c \<Longrightarrow> 45 \<le> c \<and> c < 128"
  by (auto simp: is_ident_char_def is_alnum_def)

lemma single_line_rel_of:
  assumes "cs \<noteq> []" and "\<forall>c \<in> set cs. plain_comp c"
  shows "is_single_line_string (rel_of cs)" and "is_single_line_string (abs_of cs)"
proof -
  have r: "45 \<le> x \<and> x < 128" if "x \<in> set (rel_of cs)" for x
    using that assms(2) set_join [of "[slash]" cs] ident_char_range
    by (fastforce simp: rel_of_def plain_comp_def list_all_iff)
  have "rel_of cs \<noteq> []" using rel_of_hd(1) [OF assms(1)] assms(2) plain_good by blast
  with r show "is_single_line_string (rel_of cs)" "is_single_line_string (abs_of cs)"
    unfolding is_single_line_string_def contains_surrogate_def list_ex_iff abs_of_rel_of by force+
qed

lemma abs_path_ok_abs_of: "cs \<noteq> [] \<Longrightarrow> \<forall>c \<in> set cs. plain_comp c \<Longrightarrow> abs_path_ok (abs_of cs)"
  using single_line_rel_of(2) [of cs] normpath_abs_of [of cs] rel_of_hd(1) [of cs] plain_good
  by (auto simp: abs_path_ok_def abs_of_rel_of)

lemma rel_path_ok_rel_of:
  assumes "cs \<noteq> []" and "\<forall>c \<in> set cs. plain_comp c"
  shows "rel_path_ok (rel_of cs)"
proof -
  have g: "\<forall>c \<in> set cs. good_comp c" using assms(2) plain_good by blast
  have sp: "slash_split (rel_of cs) = cs" using assms(1) g by (simp add: rel_of_def slash_split_join)
  have "\<not> startswith (rel_of cs) (dotdot @ [slash])"
  proof
    assume "startswith (rel_of cs) (dotdot @ [slash])"
    then obtain t where "rel_of cs = dotdot @ slash # t" by (auto simp: startswith_iff)
    then have "hd (slash_split (rel_of cs)) = dotdot" by (simp add: slash_split_def split: list.splits)
    with sp assms(1) g show False by (metis good_comp_def hd_in_set)
  qed
  moreover have "rel_of cs \<noteq> dot" "rel_of cs \<noteq> dotdot"
  proof -
    have "slash_split dot = [dot]" "slash_split dotdot = [dotdot]" by (simp_all add: slash_split_def)
    then show "rel_of cs \<noteq> dot" "rel_of cs \<noteq> dotdot" using sp g by (metis good_comp_def list.set_intros(1))+
  qed
  ultimately show ?thesis
    using single_line_rel_of(1) [OF assms] normpath_rel_of [OF assms(1) g] rel_of_hd(3) [OF assms(1) g]
    by (simp add: rel_path_ok_def)
qed

lemma paths_post_init_same: "paths_post_init x = Inr y \<Longrightarrow> y = x"
  by (simp add: paths_post_init_def)

lemma paths_fields_ok:
  assumes "paths_post_init x = Inr y"
  shows "abs_path_ok (cp_run_root x)" "abs_path_ok (cp_work_root x)" "abs_path_ok (cp_results_root x)"
    "abs_path_ok (cp_receipts_root x)" "abs_path_ok (cp_logs_root x)"
    "opt_ok abs_path_ok (cp_promotion_root x)"
    "is_within (cp_work_root x) (cp_run_root x)" "is_within (cp_receipts_root x) (cp_run_root x)"
    "is_within (cp_logs_root x) (cp_run_root x)"
    "\<forall>(l, r) \<in> set (root_pairs x). overlap l r = Inr False"
  using assms by (simp_all add: paths_post_init_def) (auto dest!: bspec)

interpretation paths: wire_value paths_post_init "\<lambda>_. True" paths_to_dict paths_from_dict
proof
  show "paths_post_init x = Inr y \<Longrightarrow> paths_post_init y = Inr y" for x y
    by (metis paths_post_init_same)
  show "paths_from_dict v = Inr x \<Longrightarrow> True \<and> (\<exists>y. paths_post_init y = Inr x)" for v x
    unfolding paths_from_dict_def by auto
  show "paths_post_init x = Inr x \<Longrightarrow> paths_from_dict (JObj (paths_to_dict x)) = Inr x" for x
    using paths_fields_ok(1-6) [of x x]
    by (cases x) (simp add: paths_from_dict_def paths_to_dict_def wire_intros opt_ok_mono)
qed

end
