(* ===== verification/Plan_Resources.thy ===== *)
theory Plan_Resources
  imports Plan_Values
begin

text \<open>
  The second half of \<open>runorg/plan_components.py\<close>: \<open>ResourceSpec\<close>, \<open>ReceiptSpec\<close> and
  \<open>RetryPolicy\<close>. Constructors that sort an unordered collection return the sorted record.
\<close>

section \<open>Regular expressions of resources\<close>

definition is_constraint_char :: "nat \<Rightarrow> bool" where
  "is_constraint_char c \<longleftrightarrow> is_ident_char c \<or> c \<in> set (lit ''&|!*+()[]'')"

definition CONSTRAINT_RE :: "ustr \<Rightarrow> bool" where
  "CONSTRAINT_RE s \<longleftrightarrow> s \<noteq> [] \<and> list_all is_constraint_char s"

text \<open>\<open>NAME:COUNT\<close>; neither part can contain a colon, so the string has exactly one.\<close>

definition LICENSE_RE :: "ustr \<Rightarrow> bool" where
  "LICENSE_RE s \<longleftrightarrow>
     (case split_on 58 s of
        [n, k] \<Rightarrow> n \<noteq> [] \<and> list_all is_ident_char n
          \<and> k \<noteq> [] \<and> 49 \<le> hd k \<and> hd k \<le> 57 \<and> list_all (\<lambda>c. 48 \<le> c \<and> c \<le> 57) k
      | _ \<Rightarrow> False)"

text \<open>\<open>H:MM:SS\<close> or \<open>HH:MM:SS\<close>, optionally after \<open>D-\<close>. The digit class accepts every Unicode decimal digit.\<close>

definition clock_match :: "ustr \<Rightarrow> bool" where
  "clock_match s \<longleftrightarrow>
     (case split_on 58 s of
        [h, m, x] \<Rightarrow> (length h = 1 \<or> length h = 2) \<and> length m = 2 \<and> length x = 2
          \<and> list_all is_nd h \<and> list_all is_nd m \<and> list_all is_nd x
      | _ \<Rightarrow> False)"

definition TIME_LIMIT_RE :: "ustr \<Rightarrow> bool" where
  "TIME_LIMIT_RE s \<longleftrightarrow>
     (if 45 \<in> set s
      then let d = before_first 45 s
           in d \<noteq> [] \<and> list_all is_nd d \<and> clock_match (drop (Suc (length d)) s)
      else clock_match s)"

text \<open>The seconds a time limit stands for, with the checks in the constructor's order.\<close>

definition time_limit_seconds :: "ustr \<Rightarrow> nat res" where
  "time_limit_seconds s =
     bind (ensure (TIME_LIMIT_RE s)
             (ValueError ''time_limit must use Slurm D-HH:MM:SS or HH:MM:SS syntax'')) (\<lambda>_.
     bind (mapR int_of_digits (split_on 58 (after_last 45 s))) (\<lambda>parts.
     case parts of
       [hours, minutes, seconds] \<Rightarrow>
         bind (ensure (minutes < 60 \<and> seconds < 60)
                 (ValueError ''time_limit minutes and seconds must each be below 60'')) (\<lambda>_.
         bind (if 45 \<in> set s then int_of_digits (before_first 45 s) else Inr 0) (\<lambda>days.
         Inr (((days * 24 + hours) * 60 + minutes) * 60 + seconds)))
     | _ \<Rightarrow> Inl (ValueError ''not enough values to unpack'')))"

section \<open>ResourceSpec\<close>

record resource_spec =
  rs_partition :: ustr
  rs_cpus :: int
  rs_memory_mb :: int
  rs_time_limit :: ustr
  rs_gpus :: int
  rs_gpu_type :: "ustr option"
  rs_array_parallelism :: int
  rs_account :: "ustr option"
  rs_qos :: "ustr option"
  rs_constraint :: "ustr option"
  rs_exclude_nodes :: "ustr list"
  rs_licenses :: "ustr list"

definition resources_post_init :: "resource_spec \<Rightarrow> resource_spec res" where
  "resources_post_init r =
     bind (validate_identifier (rs_partition r) ''partition'') (\<lambda>_.
     bind (ensure (1 \<le> rs_cpus r \<and> rs_cpus r \<le> 1024) (ValueError ''cpus must be between 1 and 1024'')) (\<lambda>_.
     bind (ensure (1 \<le> rs_memory_mb r \<and> rs_memory_mb r \<le> 16 * 1024 * 1024)
             (ValueError ''memory_mb must be between 1 and 16777216'')) (\<lambda>_.
     bind (time_limit_seconds (rs_time_limit r)) (\<lambda>total.
     bind (ensure (1 \<le> total \<and> total \<le> 14 * 24 * 60 * 60)
             (ValueError ''time_limit must be positive and no longer than 14 days'')) (\<lambda>_.
     bind (ensure (0 \<le> rs_gpus r \<and> rs_gpus r \<le> 64) (ValueError ''gpus must be between 0 and 64'')) (\<lambda>_.
     bind (optR (\<lambda>t. bind (validate_identifier t ''gpu_type'') (\<lambda>_.
             ensure (rs_gpus r \<noteq> 0) (ValueError ''gpu_type requires a positive GPU count''))) (rs_gpu_type r)) (\<lambda>_.
     bind (ensure (1 \<le> rs_array_parallelism r \<and> rs_array_parallelism r \<le> 10000)
             (ValueError ''array_parallelism must be between 1 and 10000'')) (\<lambda>_.
     bind (optR (\<lambda>a. validate_identifier a ''account'') (rs_account r)) (\<lambda>_.
     bind (optR (\<lambda>q. validate_identifier q ''qos'') (rs_qos r)) (\<lambda>_.
     bind (optR (\<lambda>c. ensure (CONSTRAINT_RE c)
             (ValueError ''constraint contains unsupported Slurm feature-expression characters''))
             (rs_constraint r)) (\<lambda>_.
     bind (forR (\<lambda>n. validate_identifier n ''exclude_nodes[]'') (rs_exclude_nodes r)) (\<lambda>_.
     bind (forR (\<lambda>l. ensure (LICENSE_RE l)
             (ValueError ''licenses entries must use NAME:POSITIVE_COUNT syntax'')) (rs_licenses r)) (\<lambda>_.
     bind (ensure (card (set (rs_exclude_nodes r)) = length (rs_exclude_nodes r))
             (ValueError ''exclude_nodes cannot contain duplicates'')) (\<lambda>_.
     bind (ensure (card (before_first 58 ` set (rs_licenses r)) = length (rs_licenses r))
             (ValueError ''license names cannot contain duplicates'')) (\<lambda>_.
     Inr (r\<lparr>rs_exclude_nodes := sort (rs_exclude_nodes r), rs_licenses := sort (rs_licenses r)\<rparr>))))))))))))))))"

definition jstrs :: "ustr list \<Rightarrow> json" where
  "jstrs xs = JArr (map JStr xs)"

definition resources_to_dict :: "resource_spec \<Rightarrow> jdict" where
  "resources_to_dict r =
     [(lit ''array_parallelism'', JInt (rs_array_parallelism r)), (lit ''cpus'', JInt (rs_cpus r)),
      (lit ''exclude_nodes'', jstrs (sort (rs_exclude_nodes r))), (lit ''gpus'', JInt (rs_gpus r)),
      (lit ''gpu_type'', opt_json (rs_gpu_type r)), (lit ''licenses'', jstrs (sort (rs_licenses r))),
      (lit ''memory_mb'', JInt (rs_memory_mb r)), (lit ''partition'', JStr (rs_partition r)),
      (lit ''time_limit'', JStr (rs_time_limit r))]
     @ opt_field ''account'' (rs_account r) @ opt_field ''qos'' (rs_qos r)
     @ opt_field ''constraint'' (rs_constraint r)"

definition resources_from_dict :: "json \<Rightarrow> resource_spec res" where
  "resources_from_dict v =
     bind (require_mapping v ''resources'') (\<lambda>d.
     bind (reject_unknown_keys d
             [''partition'', ''cpus'', ''memory_mb'', ''time_limit'', ''gpus'', ''gpu_type'', ''array_parallelism'',
              ''account'', ''qos'', ''constraint'', ''exclude_nodes'', ''licenses''] ''resources'') (\<lambda>_.
     bind (require_sequence (jget_or d ''exclude_nodes'' (JArr [])) ''resources.exclude_nodes'') (\<lambda>nodes.
     bind (require_sequence (jget_or d ''licenses'' (JArr [])) ''resources.licenses'') (\<lambda>licenses.
     bind (require_str (jget d ''partition'') ''resources.partition'') (\<lambda>part.
     bind (require_int (jget d ''cpus'') ''resources.cpus'') (\<lambda>cpus.
     bind (require_int (jget d ''memory_mb'') ''resources.memory_mb'') (\<lambda>mem.
     bind (require_str (jget d ''time_limit'') ''resources.time_limit'') (\<lambda>tl.
     bind (require_int (jget_or d ''gpus'' (JInt 0)) ''resources.gpus'') (\<lambda>gpus.
     bind (optional_str (jget d ''gpu_type'') ''resources.gpu_type'') (\<lambda>gt.
     bind (require_int (jget_or d ''array_parallelism'' (JInt 1)) ''resources.array_parallelism'') (\<lambda>ap.
     bind (optional_str (jget d ''account'') ''resources.account'') (\<lambda>acct.
     bind (optional_str (jget d ''qos'') ''resources.qos'') (\<lambda>qos.
     bind (optional_str (jget d ''constraint'') ''resources.constraint'') (\<lambda>cons.
     bind (mapR (\<lambda>n. require_str n ''resources.exclude_nodes[]'') nodes) (\<lambda>ns.
     bind (mapR (\<lambda>l. require_str l ''resources.licenses[]'') licenses) (\<lambda>ls.
     resources_post_init \<lparr>rs_partition = part, rs_cpus = cpus, rs_memory_mb = mem, rs_time_limit = tl,
       rs_gpus = gpus, rs_gpu_type = gt, rs_array_parallelism = ap, rs_account = acct, rs_qos = qos,
       rs_constraint = cons, rs_exclude_nodes = ns, rs_licenses = ls\<rparr>))))))))))))))))"

section \<open>ReceiptSpec\<close>

record receipt_spec =
  rc_receipt_id :: ustr
  rc_path :: ustr
  rc_required :: bool
  rc_sha256 :: "ustr option"

definition receipt_post_init :: "receipt_spec \<Rightarrow> receipt_spec res" where
  "receipt_post_init r =
     bind (validate_identifier (rc_receipt_id r) ''receipt_id'') (\<lambda>_.
     bind (validate_relative_path (rc_path r) ''receipt path'') (\<lambda>_.
     bind (optR (\<lambda>s. validate_sha256 s ''receipt sha256'') (rc_sha256 r)) (\<lambda>_.
     Inr r)))"

definition receipt_to_dict :: "receipt_spec \<Rightarrow> jdict" where
  "receipt_to_dict r =
     [(lit ''path'', JStr (rc_path r)), (lit ''receipt_id'', JStr (rc_receipt_id r)),
      (lit ''required'', JBool (rc_required r))] @ opt_field ''sha256'' (rc_sha256 r)"

definition receipt_from_dict :: "json \<Rightarrow> receipt_spec res" where
  "receipt_from_dict v =
     bind (require_mapping v ''receipt'') (\<lambda>d.
     bind (reject_unknown_keys d [''receipt_id'', ''path'', ''required'', ''sha256''] ''receipt'') (\<lambda>_.
     bind (require_bool (jget_or d ''required'' (JBool True)) ''receipt.required'') (\<lambda>req.
     bind (require_str (jget d ''receipt_id'') ''receipt.receipt_id'') (\<lambda>i.
     bind (require_str (jget d ''path'') ''receipt.path'') (\<lambda>p.
     bind (optional_str (jget d ''sha256'') ''receipt.sha256'') (\<lambda>s.
     receipt_post_init \<lparr>rc_receipt_id = i, rc_path = p, rc_required = req, rc_sha256 = s\<rparr>))))))"

section \<open>RetryPolicy\<close>

definition RETRYABLE_SLURM_STATES :: "string list" where
  "RETRYABLE_SLURM_STATES = [''BOOT_FAIL'', ''NODE_FAIL'', ''PREEMPTED'', ''REVOKED'']"

record retry_policy =
  rp_max_attempts :: int
  rp_retryable_slurm_states :: "ustr list"
  rp_retryable_exit_codes :: "int list"
  rp_retry_missing_receipts :: bool
  rp_backoff_seconds :: int

definition retry_post_init :: "retry_policy \<Rightarrow> retry_policy res" where
  "retry_post_init r =
     bind (ensure (1 \<le> rp_max_attempts r \<and> rp_max_attempts r \<le> 5)
             (ValueError ''max_attempts must be between 1 and 5'')) (\<lambda>_.
     bind (ensure (set (rp_retryable_slurm_states r) \<subseteq> lit ` set RETRYABLE_SLURM_STATES)
             (ValueError ''unsupported retryable Slurm states'')) (\<lambda>_.
     bind (ensure (card (set (rp_retryable_slurm_states r)) = length (rp_retryable_slurm_states r))
             (ValueError ''retryable_slurm_states cannot contain duplicates'')) (\<lambda>_.
     bind (ensure (card (set (rp_retryable_exit_codes r)) = length (rp_retryable_exit_codes r))
             (ValueError ''retryable_exit_codes cannot contain duplicates'')) (\<lambda>_.
     bind (ensure (list_all (\<lambda>c. 1 \<le> c \<and> c \<le> 255) (rp_retryable_exit_codes r))
             (ValueError ''retryable_exit_codes must be between 1 and 255'')) (\<lambda>_.
     bind (ensure (0 \<le> rp_backoff_seconds r \<and> rp_backoff_seconds r \<le> 3600)
             (ValueError ''backoff_seconds must be between 0 and 3600'')) (\<lambda>_.
     bind (ensure (\<not> (rp_max_attempts r = 1
               \<and> (rp_retryable_slurm_states r \<noteq> [] \<or> rp_retryable_exit_codes r \<noteq> []
                  \<or> rp_retry_missing_receipts r \<or> rp_backoff_seconds r \<noteq> 0)))
             (ValueError ''retry conditions require max_attempts greater than one'')) (\<lambda>_.
     Inr (r\<lparr>rp_retryable_slurm_states := sort (rp_retryable_slurm_states r),
            rp_retryable_exit_codes := sort (rp_retryable_exit_codes r)\<rparr>))))))))"

definition retry_to_dict :: "retry_policy \<Rightarrow> jdict" where
  "retry_to_dict r =
     [(lit ''backoff_seconds'', JInt (rp_backoff_seconds r)), (lit ''max_attempts'', JInt (rp_max_attempts r)),
      (lit ''retry_missing_receipts'', JBool (rp_retry_missing_receipts r)),
      (lit ''retryable_exit_codes'', JArr (map JInt (sort (rp_retryable_exit_codes r)))),
      (lit ''retryable_slurm_states'', jstrs (sort (rp_retryable_slurm_states r)))]"

definition retry_from_dict :: "json \<Rightarrow> retry_policy res" where
  "retry_from_dict v =
     bind (require_mapping v ''retry_policy'') (\<lambda>d.
     bind (reject_unknown_keys d
             [''max_attempts'', ''retryable_slurm_states'', ''retryable_exit_codes'', ''retry_missing_receipts'',
              ''backoff_seconds''] ''retry_policy'') (\<lambda>_.
     bind (require_sequence (jget_or d ''retryable_slurm_states'' (JArr [])) ''retryable_slurm_states'') (\<lambda>states.
     bind (require_sequence (jget_or d ''retryable_exit_codes'' (JArr [])) ''retryable_exit_codes'') (\<lambda>codes.
     bind (require_bool (jget_or d ''retry_missing_receipts'' (JBool False)) ''retry_missing_receipts'') (\<lambda>missing.
     bind (require_int (jget_or d ''max_attempts'' (JInt 1)) ''max_attempts'') (\<lambda>n.
     bind (mapR (\<lambda>s. require_str s ''retryable_slurm_states[]'') states) (\<lambda>ss.
     bind (mapR (\<lambda>c. require_int c ''retryable_exit_codes[]'') codes) (\<lambda>cs.
     bind (require_int (jget_or d ''backoff_seconds'' (JInt 0)) ''backoff_seconds'') (\<lambda>b.
     retry_post_init \<lparr>rp_max_attempts = n, rp_retryable_slurm_states = ss, rp_retryable_exit_codes = cs,
       rp_retry_missing_receipts = missing, rp_backoff_seconds = b\<rparr>)))))))))"

section \<open>The constructors bring values into canonical form\<close>

lemma sort_sort [simp]: "sort (sort xs) = sort (xs :: 'a :: linorder list)"
  by (simp add: sort_key_id_if_sorted)

lemma mapR_strs: "\<forall>s \<in> set xs. wire_str s \<Longrightarrow> mapR (\<lambda>v. require_str v f) (map JStr xs) = Inr xs"
  by (induction xs) auto

lemma mapR_ints: "mapR (\<lambda>v. require_int v f) (map JInt xs) = Inr xs"
  by (induction xs) auto

interpretation receipt: wire_value receipt_post_init "\<lambda>_. True" receipt_to_dict receipt_from_dict
proof
  show "receipt_post_init x = Inr y \<Longrightarrow> receipt_post_init y = Inr y" for x y
    by (auto simp: receipt_post_init_def)
  show "receipt_from_dict v = Inr x \<Longrightarrow> True \<and> (\<exists>y. receipt_post_init y = Inr x)" for v x
    unfolding receipt_from_dict_def by auto
  show "receipt_post_init x = Inr x \<Longrightarrow> receipt_from_dict (JObj (receipt_to_dict x)) = Inr x" for x
    by (cases x) (auto simp: receipt_from_dict_def receipt_to_dict_def receipt_post_init_def wire_intros)
qed

lemma retry_state_wire: "s \<in> lit ` set RETRYABLE_SLURM_STATES \<Longrightarrow> wire_str s"
  by (auto simp: RETRYABLE_SLURM_STATES_def wire_str_def contains_surrogate_def lit_def)

interpretation retry: wire_value retry_post_init "\<lambda>_. True" retry_to_dict retry_from_dict
proof
  show "retry_post_init x = Inr y \<Longrightarrow> retry_post_init y = Inr y" for x y
    by (auto simp: retry_post_init_def list_all_iff)
  show "retry_from_dict v = Inr x \<Longrightarrow> True \<and> (\<exists>y. retry_post_init y = Inr x)" for v x
    unfolding retry_from_dict_def by auto
  show "retry_post_init x = Inr x \<Longrightarrow> retry_from_dict (JObj (retry_to_dict x)) = Inr x" for x
  proof -
    assume ok: "retry_post_init x = Inr x"
    then have "\<forall>s \<in> set (rp_retryable_slurm_states x). wire_str s"
      using retry_state_wire by (auto simp: retry_post_init_def)
    moreover from ok have "sort (rp_retryable_slurm_states x) = rp_retryable_slurm_states x"
      "sort (rp_retryable_exit_codes x) = rp_retryable_exit_codes x"
      by (cases x; simp add: retry_post_init_def)+
    ultimately show ?thesis using ok
      by (cases x) (simp add: retry_from_dict_def retry_to_dict_def jstrs_def mapR_strs mapR_ints)
  qed
qed

section \<open>Resources\<close>

definition resources_ok :: "resource_spec \<Rightarrow> bool" where
  "resources_ok r \<longleftrightarrow> ident_ok (rs_partition r) \<and> 1 \<le> rs_cpus r \<and> rs_cpus r \<le> 1024
     \<and> 1 \<le> rs_memory_mb r \<and> rs_memory_mb r \<le> 16777216
     \<and> (\<exists>t. time_limit_seconds (rs_time_limit r) = Inr t \<and> 1 \<le> t \<and> t \<le> 1209600)
     \<and> 0 \<le> rs_gpus r \<and> rs_gpus r \<le> 64
     \<and> opt_ok (\<lambda>t. ident_ok t \<and> rs_gpus r \<noteq> 0) (rs_gpu_type r)
     \<and> 1 \<le> rs_array_parallelism r \<and> rs_array_parallelism r \<le> 10000
     \<and> opt_ok ident_ok (rs_account r) \<and> opt_ok ident_ok (rs_qos r)
     \<and> opt_ok CONSTRAINT_RE (rs_constraint r)
     \<and> (\<forall>n \<in> set (rs_exclude_nodes r). ident_ok n) \<and> distinct (rs_exclude_nodes r)
     \<and> (\<forall>l \<in> set (rs_licenses r). LICENSE_RE l) \<and> distinct (map (before_first 58) (rs_licenses r))"

lemma resources_post_init_iff:
  "resources_post_init r = Inr r' \<longleftrightarrow>
     resources_ok r \<and> r' = r\<lparr>rs_exclude_nodes := sort (rs_exclude_nodes r), rs_licenses := sort (rs_licenses r)\<rparr>"
  using card_set_distinct [of "rs_exclude_nodes r"] card_set_distinct [of "map (before_first 58) (rs_licenses r)"]
  by (auto simp: resources_post_init_def resources_ok_def)

text \<open>The strings of a valid specification pass the decoder's string test.\<close>

lemma set_split_on: "x \<in> set s \<Longrightarrow> x = c \<or> (\<exists>p \<in> set (split_on c s). x \<in> set p)"
  by (induction s) (auto split: list.splits)

lemma wire_str_iff: "wire_str s \<longleftrightarrow> s \<noteq> [] \<and> (\<forall>c \<in> set s. \<not> (55296 \<le> c \<and> c \<le> 57343))"
  by (auto simp: wire_str_def contains_surrogate_def list_ex_iff)

lemma nd_no_surrogate: "is_nd c \<Longrightarrow> \<not> (55296 \<le> c \<and> c \<le> 57343)"
  by (auto simp: is_nd_def nd_zeros_def)

lemma clock_chars: "clock_match s \<Longrightarrow> s \<noteq> [] \<and> (\<forall>c \<in> set s. is_nd c \<or> c = 58)"
  using set_split_on [of _ s 58]
  by (auto simp: clock_match_def list_all_iff split: list.splits)

lemma time_limit_chars: "TIME_LIMIT_RE s \<Longrightarrow> s \<noteq> [] \<and> (\<forall>c \<in> set s. is_nd c \<or> c = 58 \<or> c = 45)"
proof (cases "45 \<in> set s")
  case True
  assume m: "TIME_LIMIT_RE s"
  let ?d = "before_first 45 s"
  have s: "s = ?d @ 45 # drop (Suc (length ?d)) s"
    using True unfolding before_first_def
    by (induction s) auto
  from True m clock_chars have "\<forall>c \<in> set ?d. is_nd c"
    "\<forall>c \<in> set (drop (Suc (length ?d)) s). is_nd c \<or> c = 58"
    by (auto simp: TIME_LIMIT_RE_def Let_def list_all_iff)
  then show ?thesis using s by (metis Un_iff True empty_iff empty_set set_ConsD set_append)
qed (auto simp: TIME_LIMIT_RE_def dest: clock_chars)

lemma time_limit_wire: "time_limit_seconds s = Inr t \<Longrightarrow> wire_str s"
  using time_limit_chars [of s] nd_no_surrogate
  by (auto simp: time_limit_seconds_def wire_str_iff)

lemma constraint_wire: "CONSTRAINT_RE s \<Longrightarrow> wire_str s"
  by (rule wire_str_ascii [of _ is_constraint_char])
    (auto simp: CONSTRAINT_RE_def is_constraint_char_def lit_def dest: ident_char_bound)

lemma license_wire: "LICENSE_RE s \<Longrightarrow> wire_str s"
  using set_split_on [of _ s 58]
  by (fastforce simp: LICENSE_RE_def wire_str_iff list_all_iff split: list.splits dest: ident_char_bound)

lemma resources_ok_sort:
  "resources_ok (r\<lparr>rs_exclude_nodes := sort (rs_exclude_nodes r), rs_licenses := sort (rs_licenses r)\<rparr>)
     \<longleftrightarrow> resources_ok r"
proof -
  have "distinct (map f (sort xs)) \<longleftrightarrow> distinct (map f xs)" for f :: "ustr \<Rightarrow> ustr" and xs
    by (simp add: distinct_map)
  then show ?thesis by (simp add: resources_ok_def)
qed

lemma resources_fields_ok:
  assumes "resources_ok r"
  shows "\<forall>s \<in> set (rs_exclude_nodes r). wire_str s" "\<forall>s \<in> set (rs_licenses r). wire_str s"
    "wire_str (rs_partition r)" "wire_str (rs_time_limit r)" "opt_ok wire_str (rs_gpu_type r)"
    "opt_ok wire_str (rs_account r)" "opt_ok wire_str (rs_qos r)" "opt_ok wire_str (rs_constraint r)"
  using assms unfolding resources_ok_def
  by (blast intro: wire_intros time_limit_wire constraint_wire license_wire opt_ok_mono)+

interpretation resources: wire_value resources_post_init "\<lambda>_. True" resources_to_dict resources_from_dict
proof
  show "resources_post_init x = Inr y \<Longrightarrow> resources_post_init y = Inr y" for x y
    using resources_ok_sort by (auto simp: resources_post_init_iff)
  show "resources_from_dict v = Inr x \<Longrightarrow> True \<and> (\<exists>y. resources_post_init y = Inr x)" for v x
    unfolding resources_from_dict_def by auto
  show "resources_post_init x = Inr x \<Longrightarrow> resources_from_dict (JObj (resources_to_dict x)) = Inr x" for x
  proof -
    assume ok: "resources_post_init x = Inr x"
    then have r: "resources_ok x" by (simp add: resources_post_init_iff)
    have "sort (rs_exclude_nodes x) = rs_exclude_nodes x" "sort (rs_licenses x) = rs_licenses x"
      using ok by (cases x; simp add: resources_post_init_iff)+
    with resources_fields_ok [OF r] ok show ?thesis
      by (cases x) (simp add: resources_from_dict_def resources_to_dict_def jstrs_def mapR_strs)
  qed
qed

end
