(* ===== verification/Plan_Stages.thy ===== *)
theory Plan_Stages
  imports Plan_Resources
begin

text \<open>
  \<open>runorg/plan_stages.py\<close>: exact commands, array tasks and the stages of the execution graph.
\<close>

section \<open>CommandSpec\<close>

definition ENVIRONMENT_NAME_RE :: "ustr \<Rightarrow> bool" where
  "ENVIRONMENT_NAME_RE s \<longleftrightarrow>
     (case s of [] \<Rightarrow> False
      | c # cs \<Rightarrow> (is_alnum c \<and> \<not> (48 \<le> c \<and> c \<le> 57) \<or> c = 95) \<and> list_all (\<lambda>c. is_alnum c \<or> c = 95) cs)"

record command_spec =
  cm_argv :: "ustr list"
  cm_working_directory :: ustr
  cm_runtime_fingerprint_sha256 :: ustr
  cm_runtime_fingerprint_path :: "ustr option"
  cm_environment :: "ustr list"
  cm_environment_mode :: ustr

text \<open>\<open>self.runtime_fingerprint_path or self.argv[0]\<close>: absent and empty both select the executable.\<close>

definition runtime_path :: "command_spec \<Rightarrow> ustr" where
  "runtime_path c =
     (case cm_runtime_fingerprint_path c of
        Some p \<Rightarrow> if p = [] then hd (cm_argv c) else p
      | None \<Rightarrow> hd (cm_argv c))"

definition env_name :: "ustr \<Rightarrow> ustr" where
  "env_name assignment = before_first 61 assignment"

definition command_post_init :: "command_spec \<Rightarrow> command_spec res" where
  "command_post_init c =
     bind (ensure (cm_argv c \<noteq> []) (ValueError ''command argv cannot be empty'')) (\<lambda>_.
     bind (forR (\<lambda>a. ensure (is_single_line_string a)
             (ValueError ''command arguments must be non-empty single-line strings'')) (cm_argv c)) (\<lambda>_.
     bind (validate_absolute_path (hd (cm_argv c)) ''command executable'') (\<lambda>_.
     bind (validate_absolute_path (cm_working_directory c) ''command working_directory'') (\<lambda>_.
     bind (validate_sha256 (cm_runtime_fingerprint_sha256 c) ''command runtime_fingerprint_sha256'') (\<lambda>_.
     bind (validate_absolute_path (runtime_path c) ''command runtime_fingerprint_path'') (\<lambda>_.
     bind (ensure (runtime_path c = hd (cm_argv c))
             (ValueError ''command runtime_fingerprint_path must equal argv[0]'')) (\<lambda>_.
     bind (ensure (cm_environment_mode c = lit ''clean'')
             (ValueError ''command environment_mode must be clean'')) (\<lambda>_.
     bind (forR (\<lambda>e.
             bind (ensure (is_single_line_string e \<and> 61 \<in> set e)
                     (ValueError ''command environment entries must be single-line NAME=VALUE strings'')) (\<lambda>_.
             ensure (ENVIRONMENT_NAME_RE (env_name e))
               (ValueError ''invalid command environment variable name''))) (cm_environment c)) (\<lambda>_.
     bind (ensure (card (set (map env_name (cm_environment c))) = length (map env_name (cm_environment c)))
             (ValueError ''command environment variable names must be unique'')) (\<lambda>_.
     Inr (c\<lparr>cm_runtime_fingerprint_path := Some (runtime_path c),
            cm_environment := sort (cm_environment c)\<rparr>)))))))))))"

definition command_to_dict :: "command_spec \<Rightarrow> jdict" where
  "command_to_dict c =
     [(lit ''argv'', jstrs (cm_argv c)), (lit ''environment'', jstrs (sort (cm_environment c))),
      (lit ''environment_mode'', JStr (cm_environment_mode c)),
      (lit ''runtime_fingerprint_sha256'', JStr (cm_runtime_fingerprint_sha256 c)),
      (lit ''working_directory'', JStr (cm_working_directory c))]"

definition command_from_dict :: "json \<Rightarrow> command_spec res" where
  "command_from_dict v =
     bind (require_mapping v ''command'') (\<lambda>d.
     bind (reject_unknown_keys d
             [''argv'', ''working_directory'', ''runtime_fingerprint_sha256'', ''runtime_fingerprint_path'',
              ''environment'', ''environment_mode''] ''command'') (\<lambda>_.
     bind (require_sequence (jget d ''argv'') ''command.argv'') (\<lambda>argv.
     bind (require_sequence (jget_or d ''environment'' (JArr [])) ''command.environment'') (\<lambda>env.
     bind (mapR (\<lambda>a. require_str a ''command.argv[]'') argv) (\<lambda>args.
     bind (require_str (jget d ''working_directory'') ''command.working_directory'') (\<lambda>wd.
     bind (require_str (jget d ''runtime_fingerprint_sha256'') ''command.runtime_fingerprint_sha256'') (\<lambda>sha.
     bind (optional_str (jget d ''runtime_fingerprint_path'') ''command.runtime_fingerprint_path'') (\<lambda>rp.
     bind (mapR (\<lambda>e. require_str e ''command.environment[]'') env) (\<lambda>es.
     bind (require_str (jget_or d ''environment_mode'' (JStr (lit ''clean''))) ''command.environment_mode'') (\<lambda>mode.
     command_post_init \<lparr>cm_argv = args, cm_working_directory = wd, cm_runtime_fingerprint_sha256 = sha,
       cm_runtime_fingerprint_path = rp, cm_environment = es, cm_environment_mode = mode\<rparr>))))))))))"

section \<open>TaskSpec\<close>

definition reject_duplicate_receipts :: "receipt_spec list \<Rightarrow> unit res" where
  "reject_duplicate_receipts rs =
     bind (ensure (card (set (map rc_receipt_id rs)) = length (map rc_receipt_id rs))
             (ValueError ''receipt IDs must be unique'')) (\<lambda>_.
     ensure (card (set (map rc_path rs)) = length (map rc_path rs))
       (ValueError ''receipt paths must be unique''))"

record task_spec =
  tk_task_id :: ustr
  tk_array_index :: int
  tk_command :: command_spec
  tk_expected_receipts :: "receipt_spec list"

definition task_post_init :: "task_spec \<Rightarrow> task_spec res" where
  "task_post_init t =
     bind (ensure (0 \<le> tk_array_index t) (ValueError ''task array_index must be a nonnegative integer'')) (\<lambda>_.
     bind (validate_identifier (tk_task_id t) ''task_id'') (\<lambda>_.
     bind (ensure (tk_expected_receipts t \<noteq> [])
             (ValueError ''each task must declare at least one expected receipt'')) (\<lambda>_.
     bind (ensure (list_ex rc_required (tk_expected_receipts t))
             (ValueError ''each task must declare at least one required receipt'')) (\<lambda>_.
     bind (reject_duplicate_receipts (tk_expected_receipts t)) (\<lambda>_.
     Inr (t\<lparr>tk_expected_receipts := sort_key rc_path (tk_expected_receipts t)\<rparr>))))))"

definition receipts_json :: "receipt_spec list \<Rightarrow> json" where
  "receipts_json rs = JArr (map (\<lambda>r. JObj (receipt_to_dict r)) (sort_key rc_path rs))"

definition task_to_dict :: "task_spec \<Rightarrow> jdict" where
  "task_to_dict t =
     [(lit ''array_index'', JInt (tk_array_index t)), (lit ''command'', JObj (command_to_dict (tk_command t))),
      (lit ''expected_receipts'', receipts_json (tk_expected_receipts t)),
      (lit ''task_id'', JStr (tk_task_id t))]"

definition task_from_dict :: "json \<Rightarrow> task_spec res" where
  "task_from_dict v =
     bind (require_mapping v ''task'') (\<lambda>d.
     bind (reject_unknown_keys d [''task_id'', ''array_index'', ''command'', ''expected_receipts''] ''task'') (\<lambda>_.
     bind (require_sequence (jget d ''expected_receipts'') ''task.expected_receipts'') (\<lambda>receipts.
     bind (require_str (jget d ''task_id'') ''task.task_id'') (\<lambda>i.
     bind (require_int (jget d ''array_index'') ''task.array_index'') (\<lambda>n.
     bind (require_mapping (jget d ''command'') ''task.command'') (\<lambda>cd.
     bind (command_from_dict (JObj cd)) (\<lambda>c.
     bind (mapR (\<lambda>r. bind (require_mapping r ''task.expected_receipts[]'')
             (\<lambda>m. receipt_from_dict (JObj m))) receipts) (\<lambda>rs.
     task_post_init \<lparr>tk_task_id = i, tk_array_index = n, tk_command = c, tk_expected_receipts = rs\<rparr>))))))))"

section \<open>StageSpec\<close>

record stage_spec =
  st_stage_id :: ustr
  st_resources :: resource_spec
  st_expected_receipts :: "receipt_spec list"
  st_command :: "command_spec option"
  st_depends_on :: "ustr list"
  st_dependency_mode :: ustr
  st_tasks :: "task_spec list"
  st_retry_policy :: retry_policy

definition DEPENDENCY_MODES :: "string list" where
  "DEPENDENCY_MODES = [''afterany'', ''afterok'']"

definition stage_post_init :: "stage_spec \<Rightarrow> stage_spec res" where
  "stage_post_init s =
     bind (validate_identifier (st_stage_id s) ''stage_id'') (\<lambda>_.
     bind (ensure (\<not> (st_tasks s \<noteq> [] \<and> st_command s \<noteq> None))
             (ValueError ''array stage must put exact commands on its tasks'')) (\<lambda>_.
     bind (ensure (\<not> (st_tasks s = [] \<and> st_command s = None))
             (ValueError ''non-array stage must declare a command'')) (\<lambda>_.
     bind (ensure (card (set (st_depends_on s)) = length (st_depends_on s))
             (ValueError ''stage dependencies cannot contain duplicates'')) (\<lambda>_.
     bind (ensure (st_stage_id s \<notin> set (st_depends_on s))
             (ValueError ''stage cannot depend on itself'')) (\<lambda>_.
     bind (ensure (st_dependency_mode s \<in> lit ` set DEPENDENCY_MODES)
             (ValueError ''stage dependency_mode must be one of the dependency modes'')) (\<lambda>_.
     bind (ensure (\<not> (st_depends_on s = [] \<and> st_dependency_mode s \<noteq> lit ''afterok''))
             (ValueError ''root stage cannot use this dependency_mode'')) (\<lambda>_.
     bind (reject_duplicate_receipts (st_expected_receipts s)) (\<lambda>_.
     bind (ensure (\<not> (st_expected_receipts s = [] \<and> st_tasks s = []))
             (ValueError ''stage must declare a stage receipt or receipt-bearing tasks'')) (\<lambda>_.
     bind (ensure (\<not> (st_tasks s = [] \<and> \<not> list_ex rc_required (st_expected_receipts s)))
             (ValueError ''non-array stage must declare at least one required receipt'')) (\<lambda>_.
     bind (ensure (card (set (map tk_task_id (st_tasks s))) = length (map tk_task_id (st_tasks s)))
             (ValueError ''stage task IDs must be unique'')) (\<lambda>_.
     bind (ensure (card (set (map tk_array_index (st_tasks s))) = length (map tk_array_index (st_tasks s)))
             (ValueError ''stage task array indices must be unique'')) (\<lambda>_.
     bind (ensure (\<not> (rs_array_parallelism (st_resources s) > max 1 (int (length (st_tasks s))) \<and> st_tasks s \<noteq> []))
             (ValueError ''stage array_parallelism cannot exceed its task count'')) (\<lambda>_.
     Inr (s\<lparr>st_depends_on := sort (st_depends_on s),
            st_expected_receipts := sort_key rc_path (st_expected_receipts s),
            st_tasks := sort_key tk_task_id (st_tasks s)\<rparr>))))))))))))))"

definition stage_to_dict :: "stage_spec \<Rightarrow> jdict" where
  "stage_to_dict s =
     [(lit ''command'', case st_command s of None \<Rightarrow> JNull | Some c \<Rightarrow> JObj (command_to_dict c)),
      (lit ''dependency_mode'', JStr (st_dependency_mode s)),
      (lit ''depends_on'', jstrs (sort (st_depends_on s))),
      (lit ''expected_receipts'', receipts_json (st_expected_receipts s)),
      (lit ''resources'', JObj (resources_to_dict (st_resources s))),
      (lit ''retry_policy'', JObj (retry_to_dict (st_retry_policy s))),
      (lit ''stage_id'', JStr (st_stage_id s)),
      (lit ''tasks'', JArr (map (\<lambda>t. JObj (task_to_dict t)) (sort_key tk_task_id (st_tasks s))))]"

definition optional_command :: "json \<Rightarrow> command_spec option res" where
  "optional_command v =
     (if v = JNull then Inr None
      else bind (require_mapping v ''stage.command'') (\<lambda>d.
           bind (command_from_dict (JObj d)) (\<lambda>c. Inr (Some c))))"

definition stage_from_dict :: "json \<Rightarrow> stage_spec res" where
  "stage_from_dict v =
     bind (require_mapping v ''stage'') (\<lambda>d.
     bind (reject_unknown_keys d
             [''stage_id'', ''command'', ''resources'', ''expected_receipts'', ''depends_on'', ''dependency_mode'',
              ''tasks'', ''retry_policy''] ''stage'') (\<lambda>_.
     bind (require_sequence (jget_or d ''depends_on'' (JArr [])) ''stage.depends_on'') (\<lambda>deps.
     bind (require_sequence (jget d ''expected_receipts'') ''stage.expected_receipts'') (\<lambda>receipts.
     bind (require_sequence (jget_or d ''tasks'' (JArr [])) ''stage.tasks'') (\<lambda>tasks.
     bind (require_str (jget d ''stage_id'') ''stage.stage_id'') (\<lambda>i.
     bind (require_mapping (jget d ''resources'') ''stage.resources'') (\<lambda>rd.
     bind (resources_from_dict (JObj rd)) (\<lambda>res.
     bind (mapR (\<lambda>r. bind (require_mapping r ''stage.expected_receipts[]'')
             (\<lambda>m. receipt_from_dict (JObj m))) receipts) (\<lambda>rs.
     bind (optional_command (jget d ''command'')) (\<lambda>c.
     bind (mapR (\<lambda>x. require_str x ''stage.depends_on[]'') deps) (\<lambda>ds.
     bind (require_str (jget_or d ''dependency_mode'' (JStr (lit ''afterok''))) ''stage.dependency_mode'') (\<lambda>mode.
     bind (mapR (\<lambda>t. bind (require_mapping t ''stage.tasks[]'') (\<lambda>m. task_from_dict (JObj m))) tasks) (\<lambda>ts.
     bind (require_mapping (jget_or d ''retry_policy'' (JObj [])) ''stage.retry_policy'') (\<lambda>pd.
     bind (retry_from_dict (JObj pd)) (\<lambda>rp.
     stage_post_init \<lparr>st_stage_id = i, st_resources = res, st_expected_receipts = rs, st_command = c,
       st_depends_on = ds, st_dependency_mode = mode, st_tasks = ts, st_retry_policy = rp\<rparr>)))))))))))))))"

section \<open>Round trips\<close>

lemma sort_key_idem [simp]: "sort_key f (sort_key f xs) = sort_key f (xs :: 'a list)"
  for f :: "'a \<Rightarrow> 'b :: linorder"
  by (simp add: sort_key_id_if_sorted)

lemma sort_key_Nil_iff [simp]: "sort_key f xs = [] \<longleftrightarrow> xs = []"
  by (metis length_0_conv length_sort)

lemma distinct_map_sort_key [simp]: "distinct (map g (sort_key f xs)) \<longleftrightarrow> distinct (map g xs)"
  by (simp add: distinct_map)

lemma list_ex_sort_key [simp]: "list_ex P (sort_key f xs) \<longleftrightarrow> list_ex P xs"
  by (simp add: list_ex_iff)

lemma reject_duplicate_receipts_iff [simp]:
  "reject_duplicate_receipts rs = Inr u \<longleftrightarrow> distinct (map rc_receipt_id rs) \<and> distinct (map rc_path rs)"
  unfolding reject_duplicate_receipts_def card_set_distinct by simp

definition command_ok :: "command_spec \<Rightarrow> bool" where
  "command_ok c \<longleftrightarrow> cm_argv c \<noteq> [] \<and> (\<forall>a \<in> set (cm_argv c). is_single_line_string a)
     \<and> abs_path_ok (hd (cm_argv c)) \<and> abs_path_ok (cm_working_directory c)
     \<and> SHA256_RE (cm_runtime_fingerprint_sha256 c) \<and> runtime_path c = hd (cm_argv c)
     \<and> cm_environment_mode c = lit ''clean''
     \<and> (\<forall>e \<in> set (cm_environment c). is_single_line_string e \<and> 61 \<in> set e \<and> ENVIRONMENT_NAME_RE (env_name e))
     \<and> distinct (map env_name (cm_environment c))"

lemma command_post_init_iff:
  "command_post_init c = Inr c' \<longleftrightarrow>
     command_ok c \<and> c' = c\<lparr>cm_runtime_fingerprint_path := Some (runtime_path c), cm_environment := sort (cm_environment c)\<rparr>"
  using card_set_distinct [of "map env_name (cm_environment c)"]
  by (auto simp: command_post_init_def command_ok_def)

lemma lit_clean_wire [simp]: "wire_str (lit ''clean'')"
  by (simp add: wire_str_def contains_surrogate_def lit_def)

lemma command_fields_ok:
  assumes "command_ok x"
  shows "\<forall>s \<in> set (cm_argv x). wire_str s" "\<forall>s \<in> set (cm_environment x). wire_str s"
    "wire_str (cm_working_directory x)" "wire_str (cm_runtime_fingerprint_sha256 x)" "wire_str (cm_environment_mode x)"
  using assms unfolding command_ok_def by (auto intro: wire_intros)

interpretation command: wire_value command_post_init "\<lambda>_. True" command_to_dict command_from_dict
proof
  show "command_post_init x = Inr y \<Longrightarrow> command_post_init y = Inr y" for x y
    by (auto simp: command_post_init_iff command_ok_def runtime_path_def distinct_map abs_path_ok_def isabs_def)
  show "command_from_dict v = Inr x \<Longrightarrow> True \<and> (\<exists>y. command_post_init y = Inr x)" for v x
    unfolding command_from_dict_def by auto
  show "command_post_init x = Inr x \<Longrightarrow> command_from_dict (JObj (command_to_dict x)) = Inr x" for x
  proof -
    assume ok: "command_post_init x = Inr x"
    then have c: "command_ok x" and s: "sort (cm_environment x) = cm_environment x"
      and p: "cm_runtime_fingerprint_path x = Some (hd (cm_argv x))"
      by (cases x; simp add: command_post_init_iff command_ok_def)+
    note w = command_fields_ok [OF c]
    have "command_post_init (x\<lparr>cm_runtime_fingerprint_path := None\<rparr>) = Inr x"
      using c s p by (cases x) (simp add: command_post_init_iff command_ok_def runtime_path_def)
    with w s show ?thesis
      by (cases x) (simp add: command_from_dict_def command_to_dict_def jstrs_def mapR_strs optional_str_def)
  qed
qed

definition task_sound :: "task_spec \<Rightarrow> bool" where
  "task_sound t \<longleftrightarrow> command.canonical (tk_command t) \<and> (\<forall>r \<in> set (tk_expected_receipts t). receipt.canonical r)"

lemma task_post_init_same:
  "task_post_init t = Inr t' \<Longrightarrow> tk_task_id t' = tk_task_id t \<and> tk_command t' = tk_command t
     \<and> set (tk_expected_receipts t') = set (tk_expected_receipts t) \<and> ident_ok (tk_task_id t)"
  by (auto simp: task_post_init_def)

interpretation task: wire_value task_post_init task_sound task_to_dict task_from_dict
proof
  show "task_post_init x = Inr y \<Longrightarrow> task_post_init y = Inr y" for x y
    by (auto simp: task_post_init_def)
  show "task_from_dict v = Inr x \<Longrightarrow> task_sound x \<and> (\<exists>y. task_post_init y = Inr x)" for v x
  proof
    assume d: "task_from_dict v = Inr x"
    then show "\<exists>y. task_post_init y = Inr x" unfolding task_from_dict_def bind_eq_Inr by blast
    from d show "task_sound x" unfolding task_from_dict_def task_sound_def
      by (auto dest!: task_post_init_same receipt.list_decoded intro: command.decoded_canonical)
  qed
  show "task_post_init x = Inr x \<Longrightarrow> task_sound x \<Longrightarrow> task_from_dict (JObj (task_to_dict x)) = Inr x" for x
  proof -
    assume ok: "task_post_init x = Inr x" and snd: "task_sound x"
    have "sort_key rc_path (tk_expected_receipts x) = tk_expected_receipts x"
      using ok by (cases x) (simp add: task_post_init_def)
    moreover have "wire_str (tk_task_id x)" using task_post_init_same [OF ok] ident_wire by blast
    moreover have "\<forall>r \<in> set (tk_expected_receipts x). receipt.canonical r"
      "command_from_dict (JObj (command_to_dict (tk_command x))) = Inr (tk_command x)"
      using snd by (auto simp: task_sound_def command.roundtrip)
    ultimately show ?thesis using ok
      by (cases x) (simp add: task_from_dict_def task_to_dict_def receipts_json_def receipt.list_roundtrip)
  qed
qed

definition stage_sound :: "stage_spec \<Rightarrow> bool" where
  "stage_sound s \<longleftrightarrow> resources.canonical (st_resources s) \<and> retry.canonical (st_retry_policy s)
     \<and> opt_ok command.canonical (st_command s) \<and> (\<forall>t \<in> set (st_tasks s). task.canonical t)
     \<and> (\<forall>r \<in> set (st_expected_receipts s). receipt.canonical r) \<and> (\<forall>x \<in> set (st_depends_on s). wire_str x)"

definition stage_ok :: "stage_spec \<Rightarrow> bool" where
  "stage_ok s \<longleftrightarrow> ident_ok (st_stage_id s) \<and> (st_tasks s = [] \<longleftrightarrow> st_command s \<noteq> None)
     \<and> distinct (st_depends_on s) \<and> st_stage_id s \<notin> set (st_depends_on s)
     \<and> st_dependency_mode s \<in> lit ` set DEPENDENCY_MODES
     \<and> (st_depends_on s = [] \<longrightarrow> st_dependency_mode s = lit ''afterok'')
     \<and> distinct (map rc_receipt_id (st_expected_receipts s)) \<and> distinct (map rc_path (st_expected_receipts s))
     \<and> (st_tasks s = [] \<longrightarrow> st_expected_receipts s \<noteq> [] \<and> list_ex rc_required (st_expected_receipts s))
     \<and> distinct (map tk_task_id (st_tasks s)) \<and> distinct (map tk_array_index (st_tasks s))
     \<and> (st_tasks s \<noteq> [] \<longrightarrow> rs_array_parallelism (st_resources s) \<le> max 1 (int (length (st_tasks s))))"

definition stage_canon :: "stage_spec \<Rightarrow> stage_spec" where
  "stage_canon s = s\<lparr>st_depends_on := sort (st_depends_on s),
     st_expected_receipts := sort_key rc_path (st_expected_receipts s), st_tasks := sort_key tk_task_id (st_tasks s)\<rparr>"

lemma stage_post_init_iff: "stage_post_init s = Inr s' \<longleftrightarrow> stage_ok s \<and> s' = stage_canon s"
  unfolding stage_post_init_def card_set_distinct ensure_bind_Inr bind_eq_Inr reject_duplicate_receipts_iff
    validate_eq_Inr stage_ok_def stage_canon_def
  by fastforce

lemma stage_canon_simps [simp]:
  "st_resources (stage_canon s) = st_resources s" "st_retry_policy (stage_canon s) = st_retry_policy s"
  "st_command (stage_canon s) = st_command s" "st_tasks (stage_canon s) = sort_key tk_task_id (st_tasks s)"
  "st_expected_receipts (stage_canon s) = sort_key rc_path (st_expected_receipts s)"
  "st_depends_on (stage_canon s) = sort (st_depends_on s)"
  "st_dependency_mode (stage_canon s) = st_dependency_mode s" "st_stage_id (stage_canon s) = st_stage_id s"
  by (simp_all add: stage_canon_def)

lemma stage_canon_idem: "stage_canon (stage_canon s) = stage_canon s"
  by (cases s) (simp add: stage_canon_def)

lemma stage_ok_canon [simp]: "stage_ok (stage_canon s) \<longleftrightarrow> stage_ok s"
  by (simp add: stage_ok_def)

lemma stage_sound_canon [simp]: "stage_sound (stage_canon s) \<longleftrightarrow> stage_sound s"
  by (simp add: stage_sound_def)

lemma stage_canon_sorted:
  assumes "stage_canon s = s"
  shows "sort (st_depends_on s) = st_depends_on s"
    "sort_key rc_path (st_expected_receipts s) = st_expected_receipts s"
    "sort_key tk_task_id (st_tasks s) = st_tasks s"
  using assms by (metis stage_canon_simps(6), metis stage_canon_simps(5), metis stage_canon_simps(4))

lemma lit_modes_wire [simp]: "wire_str (lit ''afterok'')" "wire_str (lit ''afterany'')"
  by (simp_all add: wire_str_def contains_surrogate_def lit_def)

lemma optional_command_eq:
  "optional_command v = Inr c \<Longrightarrow> opt_ok command.canonical c"
  by (auto simp: optional_command_def intro: command.decoded_canonical split: if_splits)

lemma optional_command_roundtrip:
  "opt_ok command.canonical c \<Longrightarrow>
   optional_command (case c of None \<Rightarrow> JNull | Some c \<Rightarrow> JObj (command_to_dict c)) = Inr c"
  by (cases c) (auto simp: optional_command_def command.roundtrip)

lemma stage_strs_decoded: "mapR (\<lambda>v. require_str v f) vs = Inr xs \<Longrightarrow> \<forall>x \<in> set xs. wire_str x"
  by (induction vs arbitrary: xs) auto

lemma stage_wire: "stage_ok s \<Longrightarrow> wire_str (st_stage_id s) \<and> wire_str (st_dependency_mode s)"
  by (auto simp: stage_ok_def DEPENDENCY_MODES_def ident_wire)

interpretation stage: wire_value stage_post_init stage_sound stage_to_dict stage_from_dict
proof
  show "stage_post_init x = Inr y \<Longrightarrow> stage_post_init y = Inr y" for x y
    by (auto simp: stage_post_init_iff stage_canon_idem)
  show "stage_from_dict v = Inr x \<Longrightarrow> stage_sound x \<and> (\<exists>y. stage_post_init y = Inr x)" for v x
  proof
    assume d: "stage_from_dict v = Inr x"
    then show "\<exists>y. stage_post_init y = Inr x" unfolding stage_from_dict_def bind_eq_Inr by blast
    from d show "stage_sound x" unfolding stage_from_dict_def bind_eq_Inr stage_post_init_iff
      by (elim exE conjE) (simp add: stage_sound_def optional_command_eq receipt.list_decoded
          task.list_decoded stage_strs_decoded resources.decoded_canonical retry.decoded_canonical)
  qed
  show "stage_post_init x = Inr x \<Longrightarrow> stage_sound x \<Longrightarrow> stage_from_dict (JObj (stage_to_dict x)) = Inr x" for x
  proof -
    assume ok: "stage_post_init x = Inr x" and snd: "stage_sound x"
    from ok have "stage_ok x" and c: "stage_canon x = x" by (auto simp: stage_post_init_iff)
    with stage_wire [of x] ok stage_canon_sorted [OF c] snd show ?thesis unfolding stage_sound_def
      by (cases x) (simp add: stage_from_dict_def stage_to_dict_def receipts_json_def jstrs_def mapR_strs
          receipt.list_roundtrip task.list_roundtrip resources.roundtrip retry.roundtrip optional_command_roundtrip)
  qed
qed

end
