(* ===== verification/Plan_Graph.thy ===== *)
theory Plan_Graph
  imports Plan_Stages
begin

text \<open>
  The graph algorithms of \<open>ExecutionPlan\<close> in \<open>runorg/plans.py\<close>: the depth-first topological
  order with its cycle check, and the derived bound on the attempts of each stage. The nested
  recursive functions of the code carry their state explicitly and are given the number of
  stages as recursion depth; running out of it is the value \<open>RecursionError\<close>, which is proved
  not to happen.
\<close>

section \<open>Definitions\<close>

text \<open>\<open>{stage.stage_id: stage for stage in self.stages}\<close>: a later stage with the same id wins.\<close>

definition by_id :: "stage_spec list \<Rightarrow> (ustr, stage_spec) dict" where
  "by_id stages = foldl (\<lambda>d s. dset (st_stage_id s) s d) [] stages"

definition stage_at :: "(ustr, stage_spec) dict \<Rightarrow> ustr \<Rightarrow> stage_spec res" where
  "stage_at by i = (case dget by i of None \<Rightarrow> Inl (KeyError ''stage_id'') | Some s \<Rightarrow> Inr s)"

text \<open>\<open>visit(stage_id, stack)\<close>; the state is the status of each stage and the order so far.\<close>

primrec visit :: "nat \<Rightarrow> (ustr, stage_spec) dict \<Rightarrow> ustr \<Rightarrow> (ustr \<Rightarrow> nat) \<times> ustr list
    \<Rightarrow> ((ustr \<Rightarrow> nat) \<times> ustr list) res" where
  "visit 0 by i s =
     (case s of (status, ordered) \<Rightarrow>
        if status i = 2 then Inr s
        else if status i = 1 then Inl (ValueError ''stage dependency graph contains a cycle'')
        else Inl RecursionError)"
| "visit (Suc n) by i s =
     (case s of (status, ordered) \<Rightarrow>
        if status i = 2 then Inr s
        else if status i = 1 then Inl (ValueError ''stage dependency graph contains a cycle'')
        else bind (stage_at by i) (\<lambda>stage.
             bind (foldR (visit n by) (sort (st_depends_on stage)) (status(i := 1), ordered)) (\<lambda>(status', ordered').
             Inr (status'(i := 2), ordered' @ [i]))))"

definition topological_stage_ids :: "stage_spec list \<Rightarrow> ustr list res" where
  "topological_stage_ids stages =
     (let by = by_id stages
      in bind (foldR (visit (length stages) by) (sort (map fst by)) (\<lambda>_. 0, [])) (\<lambda>(status, ordered).
         Inr ordered))"

text \<open>
  \<open>derive(stage_id)\<close>, which threads the memo table \<open>derived\<close>. The step below is one term of the
  two generator expressions; \<open>rec\<close> stands for the recursive call.
\<close>

definition add_generations :: "(ustr \<Rightarrow> (ustr, int) dict \<Rightarrow> (int \<times> (ustr, int) dict) res)
    \<Rightarrow> (ustr, stage_spec) dict \<Rightarrow> stage_spec \<Rightarrow> ustr \<Rightarrow> int \<times> (ustr, int) dict \<Rightarrow> (int \<times> (ustr, int) dict) res" where
  "add_generations rec by stage d s =
     (case s of (acc, memo) \<Rightarrow>
        bind (rec d memo) (\<lambda>(b, memo').
        if st_dependency_mode stage = lit ''afterany'' then Inr (acc + (b - 1), memo')
        else bind (stage_at by d) (\<lambda>dep.
             Inr (acc + (b - rp_max_attempts (st_retry_policy dep)), memo'))))"

primrec derive :: "nat \<Rightarrow> (ustr, stage_spec) dict \<Rightarrow> ustr \<Rightarrow> (ustr, int) dict \<Rightarrow> (int \<times> (ustr, int) dict) res" where
  "derive 0 by i derived =
     (case dget derived i of Some b \<Rightarrow> Inr (b, derived) | None \<Rightarrow> Inl RecursionError)"
| "derive (Suc n) by i derived =
     (case dget derived i of
        Some b \<Rightarrow> Inr (b, derived)
      | None \<Rightarrow>
          bind (stage_at by i) (\<lambda>stage.
          bind (foldR (add_generations (derive n by) by stage) (st_depends_on stage)
                  (rp_max_attempts (st_retry_policy stage), derived)) (\<lambda>(bound, memo).
          Inr (bound, dset i bound memo))))"

definition derived_attempt_bounds :: "stage_spec list \<Rightarrow> (ustr, int) dict res" where
  "derived_attempt_bounds stages =
     (let by = by_id stages
      in bind (topological_stage_ids stages) (\<lambda>order.
         foldR (\<lambda>i memo. bind (derive (length stages) by i memo) (\<lambda>(b, memo'). Inr memo')) order []))"

definition signed_attempt_bound :: "stage_spec list \<Rightarrow> ustr \<Rightarrow> int res" where
  "signed_attempt_bound stages i =
     bind (derived_attempt_bounds stages) (\<lambda>bounds.
     case dget bounds i of Some b \<Rightarrow> Inr b | None \<Rightarrow> Inl (ValueError ''unknown stage_id''))"

section \<open>The dependency graph\<close>

definition deps_of :: "(ustr, stage_spec) dict \<Rightarrow> ustr \<Rightarrow> ustr set" where
  "deps_of by i = (case dget by i of None \<Rightarrow> {} | Some s \<Rightarrow> set (st_depends_on s))"

definition edges :: "(ustr, stage_spec) dict \<Rightarrow> (ustr \<times> ustr) set" where
  "edges by = {(i, d). d \<in> deps_of by i}"

definition closed :: "(ustr, stage_spec) dict \<Rightarrow> bool" where
  "closed by \<longleftrightarrow> (\<forall>i \<in> dkeys by. deps_of by i \<subseteq> dkeys by)"

text \<open>Every stage of the order comes after all its dependencies.\<close>

definition topo_ok :: "(ustr, stage_spec) dict \<Rightarrow> ustr list \<Rightarrow> bool" where
  "topo_ok by xs \<longleftrightarrow> distinct xs \<and> (\<forall>n < length xs. deps_of by (xs ! n) \<subseteq> set (take n xs))"

lemma topo_ok_snoc: "topo_ok by (xs @ [i]) \<longleftrightarrow> topo_ok by xs \<and> i \<notin> set xs \<and> deps_of by i \<subseteq> set xs"
  by (auto simp: topo_ok_def nth_append less_Suc_eq split: if_splits)

lemma topo_ok_deps: "topo_ok by xs \<Longrightarrow> i \<in> set xs \<Longrightarrow> deps_of by i \<subseteq> set xs"
  unfolding topo_ok_def by (metis in_set_conv_nth set_take_subset subset_trans)

lemma topo_ok_before:
  assumes "topo_ok by order" and "i \<in> set order" and "d \<in> deps_of by i"
  shows "\<exists>xs ys zs. order = xs @ d # ys @ i # zs"
proof -
  obtain n where n: "n < length order" "order ! n = i" using assms(2) by (metis in_set_conv_nth)
  then have "d \<in> set (take n order)" using assms(1,3) unfolding topo_ok_def by blast
  then obtain xs ys where "take n order = xs @ d # ys" by (metis split_list)
  then show ?thesis using id_take_nth_drop [OF n(1)] n(2) by (metis append.assoc append_Cons)
qed

section \<open>Invariant of the depth-first search\<close>

text \<open>\<open>S\<close> is the set of stages on the current path, all of status 1.\<close>

definition dfs_inv :: "(ustr, stage_spec) dict \<Rightarrow> ustr set \<Rightarrow> (ustr \<Rightarrow> nat) \<times> ustr list \<Rightarrow> bool" where
  "dfs_inv by S s \<longleftrightarrow> (case s of (status, ordered) \<Rightarrow>
     topo_ok by ordered \<and> (\<forall>i. status i = 2 \<longleftrightarrow> i \<in> set ordered) \<and> (\<forall>i. status i = 1 \<longleftrightarrow> i \<in> S)
     \<and> (\<forall>i. status i \<le> 2) \<and> set ordered \<subseteq> dkeys by)"

text \<open>What one visit promises; the same contract serves the loop over the dependencies.\<close>

definition dfs_result :: "(ustr, stage_spec) dict \<Rightarrow> ustr set \<Rightarrow> ustr set \<Rightarrow> (ustr \<Rightarrow> nat) \<times> ustr list
    \<Rightarrow> ((ustr \<Rightarrow> nat) \<times> ustr list) res \<Rightarrow> bool" where
  "dfs_result by S goals s r \<longleftrightarrow> (case r of
     Inl e \<Rightarrow> e = ValueError ''stage dependency graph contains a cycle'' \<and> (\<exists>j. (j, j) \<in> (edges by)\<^sup>+)
   | Inr s' \<Rightarrow> dfs_inv by S s' \<and> set (snd s) \<union> goals \<subseteq> set (snd s'))"

lemma dfs_loop:
  assumes "\<And>i s. i \<in> set xs \<Longrightarrow> dfs_inv by S s \<Longrightarrow> dfs_result by S {i} s (f i s)"
  shows "dfs_inv by S s \<Longrightarrow> dfs_result by S (set xs) s (foldR f xs s)"
  using assms
proof (induction xs arbitrary: s)
  case Nil
  then show ?case by (simp add: dfs_result_def)
next
  case (Cons x xs)
  have x: "dfs_result by S {x} s (f x s)" using Cons.prems by simp
  show ?case
  proof (cases "f x s")
    case (Inl e)
    with x show ?thesis by (simp add: dfs_result_def)
  next
    case (Inr s')
    with x have inv: "dfs_inv by S s'" and sub: "set (snd s) \<union> {x} \<subseteq> set (snd s')"
      by (auto simp: dfs_result_def)
    have "dfs_result by S (set xs) s' (foldR f xs s')" using Cons.IH [OF inv] Cons.prems(2) by simp
    with sub Inr show ?thesis by (cases "foldR f xs s'") (auto simp: dfs_result_def)
  qed
qed

lemma dfs_open:
  "dfs_inv by S (status, ordered) \<Longrightarrow> status i = 0 \<Longrightarrow>
   i \<notin> S \<and> dfs_inv by (insert i S) (status(i := 1), ordered)"
  unfolding dfs_inv_def by (auto; metis zero_neq_numeral nat.distinct(1))

lemma dfs_close:
  assumes "dfs_inv by (insert i S) (status, ordered)" and "i \<notin> S" and "i \<in> dkeys by"
    and "deps_of by i \<subseteq> set ordered"
  shows "dfs_inv by S (status(i := 2), ordered @ [i])"
proof -
  have "status i = 1" and two: "\<forall>j. status j = 2 \<longleftrightarrow> j \<in> set ordered"
    using assms(1) by (simp_all add: dfs_inv_def)
  then have "i \<notin> set ordered" by (metis one_eq_numeral_iff semiring_norm(85))
  with assms show ?thesis unfolding dfs_inv_def by (simp add: topo_ok_snoc)
qed

lemma card_diff_insert: "i \<in> A \<Longrightarrow> i \<notin> S \<Longrightarrow> finite A \<Longrightarrow> card (A - S) \<le> Suc n \<Longrightarrow> card (A - insert i S) \<le> n"
  by (metis Diff_iff Diff_insert card_Diff_singleton diff_le_mono diff_Suc_1)

lemma finite_dkeys [simp]: "finite (dkeys d)"
  by (simp add: dkeys_def)

lemma visit_correct:
  assumes "closed by"
  shows "i \<in> dkeys by \<Longrightarrow> S \<subseteq> dkeys by \<Longrightarrow> card (dkeys by - S) \<le> n \<Longrightarrow>
    \<forall>j \<in> S. (j, i) \<in> (edges by)\<^sup>+ \<Longrightarrow> dfs_inv by S s \<Longrightarrow> dfs_result by S {i} s (visit n by i s)"
proof (induction n arbitrary: i S s)
  case (0 i S s)
  then have "i \<in> S" by auto
  with 0 show ?case by (cases s) (auto simp: dfs_result_def dfs_inv_def)
next
  case (Suc n i S s)
  obtain status ordered where s: "s = (status, ordered)" by fastforce
  have "status i \<le> 2" using Suc.prems(5) unfolding s dfs_inv_def by auto
  then consider "status i = 2" | "status i = 1" | "status i = 0" by linarith
  then show ?case
  proof cases
    case 3
    obtain st where st: "dget by i = Some st" using Suc.prems(1) dget_None_iff by fastforce
    then have deps: "deps_of by i = set (st_depends_on st)" by (simp add: deps_of_def)
    let ?S = "insert i S" and ?s = "(status(i := 1), ordered)" and ?ds = "sort (st_depends_on st)"
    have iS: "i \<notin> S" and inv: "dfs_inv by ?S ?s" using dfs_open Suc.prems(5) 3 unfolding s by blast+
    have loop: "dfs_result by ?S (set ?ds) ?s (foldR (visit n by) ?ds ?s)"
    proof (rule dfs_loop [OF _ inv], rule Suc.IH)
      fix d s'
      assume d: "d \<in> set ?ds"
      then have e: "(i, d) \<in> edges by" by (simp add: edges_def deps)
      show "d \<in> dkeys by" using assms Suc.prems(1) d deps unfolding closed_def by auto
      show "?S \<subseteq> dkeys by" using Suc.prems(1,2) by simp
      show "card (dkeys by - ?S) \<le> n" using Suc.prems(1,3) iS by (intro card_diff_insert) auto
      show "\<forall>j \<in> ?S. (j, d) \<in> (edges by)\<^sup>+" using Suc.prems(4) e by (auto intro: trancl_into_trancl)
    qed
    show ?thesis
    proof (cases "foldR (visit n by) ?ds ?s")
      case (Inl e)
      with loop 3 s st show ?thesis by (simp add: dfs_result_def stage_at_def)
    next
      case (Inr s')
      obtain status' ordered' where s': "s' = (status', ordered')" by fastforce
      from loop Inr s' have "dfs_inv by ?S (status', ordered')"
        and sub: "set ordered \<union> deps_of by i \<subseteq> set ordered'" by (auto simp: dfs_result_def deps)
      with iS Suc.prems(1) have "dfs_inv by S (status'(i := 2), ordered' @ [i])" by (intro dfs_close) auto
      with sub 3 s st Inr s' show ?thesis by (auto simp: dfs_result_def stage_at_def)
    qed
  qed (use Suc.prems s in \<open>auto simp: dfs_result_def dfs_inv_def\<close>)
qed

section \<open>The order of a plan\<close>

lemma foldl_dset_distinct:
  "distinct (map f xs) \<Longrightarrow> f ` set xs \<inter> dkeys d = {} \<Longrightarrow>
   foldl (\<lambda>d s. dset (f s) s d) d xs = d @ map (\<lambda>s. (f s, s)) xs"
proof (induction xs arbitrary: d)
  case (Cons x xs)
  have "f x \<notin> dkeys d" using Cons.prems by auto
  then have "dset (f x) x d = d @ [(f x, x)]"
    unfolding dset_def dkeys_def by (induction d) auto
  moreover have "f ` set xs \<inter> dkeys (d @ [(f x, x)]) = {}"
    using Cons.prems by (auto simp: dkeys_def)
  ultimately show ?case using Cons by simp
qed simp

definition stage_ids :: "stage_spec list \<Rightarrow> ustr list" where
  "stage_ids stages = map st_stage_id stages"

lemma by_id_distinct:
  "distinct (stage_ids stages) \<Longrightarrow> by_id stages = map (\<lambda>s. (st_stage_id s, s)) stages"
  using foldl_dset_distinct [of st_stage_id stages "[]"] by (simp add: by_id_def stage_ids_def)

lemma by_id_keys: "distinct (stage_ids stages) \<Longrightarrow> map fst (by_id stages) = stage_ids stages"
  by (simp add: by_id_distinct stage_ids_def comp_def)

lemma by_id_dkeys: "distinct (stage_ids stages) \<Longrightarrow> dkeys (by_id stages) = set (stage_ids stages)"
  by (metis by_id_keys dkeys_def list.set_map)

lemma by_id_get:
  "distinct (stage_ids stages) \<Longrightarrow> s \<in> set stages \<Longrightarrow> dget (by_id stages) (st_stage_id s) = Some s"
  by (auto simp: by_id_distinct dget_def stage_ids_def comp_def intro!: map_of_is_SomeI)

definition deps_known :: "stage_spec list \<Rightarrow> bool" where
  "deps_known stages \<longleftrightarrow> (\<forall>s \<in> set stages. set (st_depends_on s) \<subseteq> set (stage_ids stages))"

lemma closed_by_id:
  assumes "distinct (stage_ids stages)" and "deps_known stages"
  shows "closed (by_id stages)"
proof -
  have "\<exists>s \<in> set stages. i = st_stage_id s" if "i \<in> set (stage_ids stages)" for i
    using that by (auto simp: stage_ids_def)
  with assms show ?thesis
    unfolding closed_def by_id_dkeys [OF assms(1)] deps_known_def
    by (metis by_id_get deps_of_def option.simps(5))
qed

lemma topological_result:
  assumes "distinct (stage_ids stages)" and "deps_known stages"
  shows "case topological_stage_ids stages of
      Inl e \<Rightarrow> e = ValueError ''stage dependency graph contains a cycle'' \<and> \<not> acyclic (edges (by_id stages))
    | Inr order \<Rightarrow> topo_ok (by_id stages) order \<and> set order = set (stage_ids stages)"
proof -
  let ?by = "by_id stages" and ?s = "(\<lambda>_. 0 :: nat, []) :: (ustr \<Rightarrow> nat) \<times> ustr list"
  let ?ks = "sort (map fst ?by)"
  have keys: "set ?ks = dkeys ?by" by (simp add: dkeys_def)
  have inv: "dfs_inv ?by {} ?s" by (simp add: dfs_inv_def topo_ok_def)
  have "card (dkeys ?by - {}) \<le> length stages"
    using assms(1) by (simp add: by_id_dkeys distinct_card) (simp add: stage_ids_def)
  then have "dfs_result ?by {} (set ?ks) ?s (foldR (visit (length stages) ?by) ?ks ?s)"
    using visit_correct [OF closed_by_id [OF assms]] keys by (intro dfs_loop [OF _ inv]) auto
  then show ?thesis
    using keys by_id_dkeys [OF assms(1)]
    by (cases "foldR (visit (length stages) ?by) ?ks ?s")
      (auto simp: topological_stage_ids_def Let_def dfs_result_def dfs_inv_def acyclic_def)
qed

lemma topo_ok_acyclic:
  assumes "topo_ok by order" and "dkeys by \<subseteq> set order"
  shows "acyclic (edges by)"
proof -
  define pos where "pos i = (LEAST n. n < length order \<and> order ! n = i)" for i
  have "pos d < pos i" if "(i, d) \<in> edges by" for i d
  proof -
    from that have d: "d \<in> deps_of by i" by (simp add: edges_def)
    then have "i \<in> dkeys by" using dget_None_iff [of "by" i] by (auto simp: deps_of_def split: option.splits)
    then obtain n where n: "n < length order" "order ! n = i" using assms(2) by (metis in_set_conv_nth subsetD)
    have pi: "pos i = n" unfolding pos_def
      using n assms(1) by (intro Least_equality) (auto simp: topo_ok_def nth_eq_iff_index_eq)
    from assms(1) n d have "d \<in> set (take n order)" unfolding topo_ok_def by blast
    then obtain m where m: "m < n" "order ! m = d" using n by (auto simp: in_set_conv_nth)
    then have "pos d \<le> m" unfolding pos_def using n by (intro Least_le) simp
    with m pi show ?thesis by simp
  qed
  then show ?thesis by (rule acyclicI_order)
qed

section \<open>Attempt bounds\<close>

text \<open>
  The equation of a stage's bound: its own attempts, plus for every dependency the generations
  beyond the first one (\<open>afterany\<close>) or beyond the dependency's own retries (\<open>afterok\<close>).
\<close>

definition own_attempts :: "(ustr, stage_spec) dict \<Rightarrow> ustr \<Rightarrow> int" where
  "own_attempts by i = (case dget by i of None \<Rightarrow> 0 | Some s \<Rightarrow> rp_max_attempts (st_retry_policy s))"

definition allowance :: "(ustr, stage_spec) dict \<Rightarrow> stage_spec \<Rightarrow> ustr \<Rightarrow> int" where
  "allowance by st d = (if st_dependency_mode st = lit ''afterany'' then 1 else own_attempts by d)"

definition value_of :: "(ustr, int) dict \<Rightarrow> ustr \<Rightarrow> int" where
  "value_of m d = (case dget m d of None \<Rightarrow> 0 | Some b \<Rightarrow> b)"

definition stage_bound :: "(ustr, stage_spec) dict \<Rightarrow> (ustr, int) dict \<Rightarrow> stage_spec \<Rightarrow> int" where
  "stage_bound by m st =
     rp_max_attempts (st_retry_policy st) + (\<Sum>d \<leftarrow> st_depends_on st. value_of m d - allowance by st d)"

definition bounds_ok :: "(ustr, stage_spec) dict \<Rightarrow> (ustr, int) dict \<Rightarrow> bool" where
  "bounds_ok by m \<longleftrightarrow> (\<forall>i \<in> dkeys m. \<exists>st. dget by i = Some st \<and> set (st_depends_on st) \<subseteq> dkeys m
     \<and> value_of m i = stage_bound by m st)"

lemma derive_hit: "dget m d = Some b \<Longrightarrow> derive n by d m = Inr (b, m)"
  by (cases n) simp_all

lemma derive_loop:
  assumes "\<forall>d \<in> set ds. d \<in> dkeys m \<and> d \<in> dkeys by"
  shows "foldR (add_generations (derive n by) by st) ds (acc, m)
         = Inr (acc + (\<Sum>d \<leftarrow> ds. value_of m d - allowance by st d), m)"
  using assms
proof (induction ds arbitrary: acc)
  case (Cons d ds)
  obtain b where b: "dget m d = Some b" using Cons.prems dget_None_iff [of m d] by auto
  obtain dep where dep: "dget by d = Some dep" using Cons.prems dget_None_iff [of "by" d] by auto
  have "add_generations (derive n by) by st d (acc, m) = Inr (acc + (value_of m d - allowance by st d), m)"
    by (simp add: add_generations_def derive_hit [OF b] stage_at_def allowance_def own_attempts_def value_of_def b dep)
  with Cons show ?case by simp
qed simp

lemma derive_miss:
  assumes "dget m i = None" and "dget by i = Some st"
    and "set (st_depends_on st) \<subseteq> dkeys m" and "set (st_depends_on st) \<subseteq> dkeys by"
  shows "derive (Suc n) by i m = Inr (stage_bound by m st, dset i (stage_bound by m st) m)"
  using assms derive_loop [of "st_depends_on st" m "by" n st]
  by (simp add: stage_at_def stage_bound_def subset_iff)

lemma stage_bound_dset:
  "i \<notin> set (st_depends_on st) \<Longrightarrow> stage_bound by (dset i b m) st = stage_bound by m st"
  unfolding stage_bound_def value_of_def
  by (auto intro!: arg_cong [where f = sum_list] map_cong)

lemma bounds_ok_dset:
  assumes "bounds_ok by m" and "i \<notin> dkeys m" and "dget by i = Some st"
    and "set (st_depends_on st) \<subseteq> dkeys m"
  shows "bounds_ok by (dset i (stage_bound by m st) m)"
  unfolding bounds_ok_def
proof
  fix j
  assume j: "j \<in> dkeys (dset i (stage_bound by m st) m)"
  have "i \<notin> set (st_depends_on s)" if "set (st_depends_on s) \<subseteq> dkeys m" for s using that assms(2) by blast
  then show "\<exists>s. dget by j = Some s \<and> set (st_depends_on s) \<subseteq> dkeys (dset i (stage_bound by m st) m)
      \<and> value_of (dset i (stage_bound by m st) m) j = stage_bound by (dset i (stage_bound by m st) m) s"
    using assms j unfolding bounds_ok_def
    by (cases "j = i") (auto simp: value_of_def stage_bound_dset, metis stage_bound_dset subset_insertI2)
qed

lemma derive_order:
  assumes "closed by" and "topo_ok by (done_ids @ todo)" and "set (done_ids @ todo) \<subseteq> dkeys by"
    and "bounds_ok by m" and "dkeys m = set done_ids"
  shows "\<exists>m'. foldR (\<lambda>i memo. bind (derive (Suc n) by i memo) (\<lambda>(b, memo'). Inr memo')) todo m = Inr m'
     \<and> bounds_ok by m' \<and> dkeys m' = set (done_ids @ todo)"
  using assms(2-)
proof (induction todo arbitrary: done_ids m)
  case (Cons i todo)
  have order: "topo_ok by ((done_ids @ [i]) @ todo)" using Cons.prems(1) by simp
  have dist: "distinct (done_ids @ i # todo)" and
    all: "\<forall>k < length (done_ids @ i # todo). deps_of by ((done_ids @ i # todo) ! k) \<subseteq> set (take k (done_ids @ i # todo))"
    using Cons.prems(1) unfolding topo_ok_def by blast+
  from all [rule_format, of "length done_ids"] have pre: "deps_of by i \<subseteq> set done_ids" by simp
  have new: "i \<notin> dkeys m" using dist Cons.prems(4) by simp
  obtain st where st: "dget by i = Some st" using Cons.prems(2) dget_None_iff [of "by" i] by auto
  have deps: "set (st_depends_on st) \<subseteq> dkeys m" using pre st Cons.prems(4) by (simp add: deps_of_def)
  moreover have "set (st_depends_on st) \<subseteq> dkeys by" using deps Cons.prems(2,4) by auto
  ultimately have d: "derive (Suc n) by i m = Inr (stage_bound by m st, dset i (stage_bound by m st) m)"
    using st new by (intro derive_miss) (simp_all add: dget_None_iff)
  have "bounds_ok by (dset i (stage_bound by m st) m)"
    by (rule bounds_ok_dset [OF Cons.prems(3) new st deps])
  from Cons.IH [OF order _ this] Cons.prems(2,4) show ?case by (auto simp: d simp del: derive.simps)
qed auto

lemma derived_bounds_result:
  assumes "distinct (stage_ids stages)" and "deps_known stages"
    and "topological_stage_ids stages = Inr order" and "stages \<noteq> []"
  shows "\<exists>m. derived_attempt_bounds stages = Inr m \<and> bounds_ok (by_id stages) m
     \<and> dkeys m = set (stage_ids stages)"
proof -
  obtain n where n: "length stages = Suc n" using assms(4) by (cases stages) auto
  have "topo_ok (by_id stages) order" "set order = set (stage_ids stages)"
    using topological_result [OF assms(1,2)] assms(3) by auto
  then have "\<exists>m. foldR (\<lambda>i memo. bind (derive (Suc n) (by_id stages) i memo) (\<lambda>(b, memo'). Inr memo')) order [] = Inr m
      \<and> bounds_ok (by_id stages) m \<and> dkeys m = set ([] @ order)"
    using closed_by_id [OF assms(1,2)]
    by (intro derive_order) (auto simp: bounds_ok_def by_id_dkeys [OF assms(1)])
  with assms(3) n \<open>set order = _\<close> show ?thesis by (simp add: derived_attempt_bounds_def Let_def)
qed

text \<open>The bounds are at least the stages' own attempts, by induction along the order.\<close>

lemma bounds_lower:
  assumes "bounds_ok by m" and "topo_ok by order" and "set order = dkeys m"
    and "\<forall>i \<in> dkeys by. 1 \<le> own_attempts by i"
  shows "i \<in> dkeys m \<Longrightarrow> own_attempts by i \<le> value_of m i"
proof -
  have "n < length order \<Longrightarrow> own_attempts by (order ! n) \<le> value_of m (order ! n)" for n
  proof (induction n rule: less_induct)
    case (less n)
    let ?i = "order ! n"
    have "?i \<in> dkeys m" using less.prems assms(3) nth_mem by blast
    then obtain st where st: "dget by ?i = Some st" "value_of m ?i = stage_bound by m st"
      using assms(1) unfolding bounds_ok_def by blast
    have "0 \<le> value_of m d - allowance by st d" if "d \<in> set (st_depends_on st)" for d
    proof -
      have "d \<in> set (take n order)"
        using that st(1) assms(2) less.prems unfolding topo_ok_def deps_of_def by fastforce
      then obtain k where k: "k < n" "order ! k = d" using less.prems by (auto simp: in_set_conv_nth)
      then have le: "own_attempts by d \<le> value_of m d" using less by auto
      have "d \<in> dkeys m" using k less.prems assms(3) by (metis nth_mem order.strict_trans)
      then have "d \<in> dkeys by" using assms(1) dget_None_iff [of "by" d] unfolding bounds_ok_def by fastforce
      with le assms(4) show ?thesis by (force simp: allowance_def)
    qed
    then have "0 \<le> (\<Sum>d \<leftarrow> st_depends_on st. value_of m d - allowance by st d)"
      by (intro sum_list_nonneg) auto
    with st show ?case by (simp add: stage_bound_def own_attempts_def)
  qed
  then show "i \<in> dkeys m \<Longrightarrow> own_attempts by i \<le> value_of m i"
    using assms(3) by (metis in_set_conv_nth)
qed

end
