(* ===== verification/Run_Ids.thy ===== *)
theory Run_Ids
  imports Plan_Values "HOL-Library.Product_Lexorder"
begin

text \<open>
  Run identities and storage paths of \<open>runorg/runs.py\<close>: the two patterns of run ids, the
  campaign and variant they encode, safe path components, the layout of the storage tiers, and
  the numeric order of job ids.
\<close>

section \<open>Run ids\<close>

text \<open>
  The timestamp of a run id and what follows the underscore after it. The historical pattern
  takes up to six digits after the \<open>T\<close> and an optional \<open>Z\<close>; the strict one wants exactly six
  and the \<open>Z\<close>. Neither \<open>Z\<close> nor the underscore is a digit, so there is one way to match.
\<close>

definition run_id_parts :: "bool \<Rightarrow> ustr \<Rightarrow> (ustr \<times> ustr) option" where
  "run_id_parts strict s =
     (let r = drop 4 s;
          ds = takeWhile is_nd (drop 9 r);
          t = drop (9 + length ds) r;
          z = (take 1 t = lit ''Z'');
          u = (if z then drop 1 t else t)
      in if take 4 s = lit ''RUN_'' \<and> length (take 8 r) = 8 \<and> list_all is_nd (take 8 r)
            \<and> take 1 (drop 8 r) = lit ''T'' \<and> (if strict then length ds = 6 \<and> z else length ds \<le> 6)
            \<and> take 1 u = lit ''_''
         then Some (take (length r - length u) r, drop 1 u) else None)"

text \<open>\<open>STRICT_RUN_ID_RE.fullmatch(s)\<close>: a slug without line feeds.\<close>

definition STRICT_RUN_ID_RE :: "ustr \<Rightarrow> bool" where
  "STRICT_RUN_ID_RE s \<longleftrightarrow>
     (case run_id_parts True s of None \<Rightarrow> False | Some (ts, slug) \<Rightarrow> slug \<noteq> [] \<and> 10 \<notin> set slug)"

text \<open>\<open>parse_run_id\<close>; a final line feed is not part of the slug, as \<open>$\<close> also matches before it.\<close>

definition parse_run_id :: "ustr \<Rightarrow> ustr \<times> ustr" where
  "parse_run_id s =
     (case run_id_parts False s of
        None \<Rightarrow> ([], s)
      | Some (ts, x) \<Rightarrow>
          let slug = takeWhile (\<lambda>c. c \<noteq> 10) x; rest = drop (length slug) x
          in if slug \<noteq> [] \<and> (rest = [] \<or> rest = [10]) then (ts, slug) else ([], s))"

text \<open>\<open>slug.split("__", 1)\<close> when the separator occurs.\<close>

fun split_dunder :: "ustr \<Rightarrow> (ustr \<times> ustr) option" where
  "split_dunder (a # b # s) =
     (if a = 95 \<and> b = 95 then Some ([], s)
      else map_option (\<lambda>(x, y). (a # x, y)) (split_dunder (b # s)))"
| "split_dunder _ = None"

definition strip_underscores :: "ustr \<Rightarrow> ustr" where
  "strip_underscores s = strip_by (\<lambda>c. c = 95) s"

definition or_uncategorized :: "ustr \<Rightarrow> ustr" where
  "or_uncategorized s = (if s = [] then lit ''uncategorized'' else s)"

definition endswith :: "ustr \<Rightarrow> ustr \<Rightarrow> bool" where
  "endswith s t \<longleftrightarrow> length t \<le> length s \<and> drop (length s - length t) s = t"

text \<open>The first matching suffix, longest first, is removed.\<close>

fun drop_first_suffix :: "ustr list \<Rightarrow> ustr \<Rightarrow> ustr" where
  "drop_first_suffix [] slug = slug"
| "drop_first_suffix (x # xs) slug =
     (if endswith slug (95 # x) then take (length slug - length (95 # x)) slug
      else drop_first_suffix xs slug)"

definition campaign_of :: "ustr \<Rightarrow> ustr list \<Rightarrow> ustr" where
  "campaign_of run_id view_suffixes =
     (let slug = snd (parse_run_id run_id)
      in case split_dunder slug of
           Some (c, v) \<Rightarrow> or_uncategorized (strip_underscores c)
         | None \<Rightarrow> or_uncategorized (strip_underscores
             (drop_first_suffix (sort_key (\<lambda>s. - int (length s)) view_suffixes) slug)))"

definition variant_of :: "ustr \<Rightarrow> ustr list \<Rightarrow> ustr" where
  "variant_of run_id view_suffixes =
     (let slug = snd (parse_run_id run_id)
      in case split_dunder slug of
           Some (c, v) \<Rightarrow> strip_underscores v
         | None \<Rightarrow>
             let campaign = campaign_of run_id view_suffixes
             in if startswith slug campaign then strip_underscores (drop (length campaign) slug) else [])"

section \<open>Storage layout\<close>

text \<open>\<open>re.sub(r"[^A-Za-z0-9._-]+", "-", s)\<close>: every maximal run of other characters becomes a hyphen.\<close>

fun hyphenate :: "bool \<Rightarrow> ustr \<Rightarrow> ustr" where
  "hyphenate in_run [] = []"
| "hyphenate in_run (c # s) =
     (if is_ident_char c then c # hyphenate False s
      else if in_run then hyphenate True s else 45 # hyphenate True s)"

definition safe :: "ustr \<Rightarrow> ustr" where
  "safe component =
     (let cleaned = strip_by (\<lambda>c. c = 45) (hyphenate False (strip component))
      in if cleaned \<noteq> [] \<and> cleaned \<noteq> dot \<and> cleaned \<noteq> dotdot then cleaned else lit ''uncategorized'')"

record run_layout =
  scratch_runs_root :: ustr
  group_runs_root :: ustr
  standby_archive_root :: ustr
  registry_path :: ustr

definition tier_root :: "run_layout \<Rightarrow> ustr \<Rightarrow> ustr" where
  "tier_root l status =
     (if status = lit ''kept'' then group_runs_root l
      else if status = lit ''archived'' then standby_archive_root l else scratch_runs_root l)"

definition run_dir :: "run_layout \<Rightarrow> ustr \<Rightarrow> ustr \<Rightarrow> ustr \<Rightarrow> ustr" where
  "run_dir l status campaign run_id = path_join (tier_root l status) [safe campaign, run_id]"

definition archive_tarball :: "run_layout \<Rightarrow> ustr \<Rightarrow> ustr \<Rightarrow> ustr" where
  "archive_tarball l campaign run_id =
     path_join (standby_archive_root l) [safe campaign, run_id @ lit ''.tar.zst'']"

definition archive_manifest :: "run_layout \<Rightarrow> ustr \<Rightarrow> ustr \<Rightarrow> ustr" where
  "archive_manifest l campaign run_id =
     path_join (standby_archive_root l) [safe campaign, run_id @ lit ''.run.json'']"

definition archive_checksum :: "run_layout \<Rightarrow> ustr \<Rightarrow> ustr \<Rightarrow> ustr" where
  "archive_checksum l campaign run_id =
     path_join (standby_archive_root l) [safe campaign, run_id @ lit ''.tar.zst.sha256'']"

section \<open>Job ids\<close>

text \<open>
  \<open>sort_job_ids\<close>. The iteration order of a Python set is unspecified, so the function takes an
  enumeration of the distinct ids and the results are related over all enumerations. The key of
  an id is computed first: a string of digits without decimal value makes \<open>int\<close> raise.
\<close>

definition job_key :: "ustr \<Rightarrow> (nat \<times> nat \<times> ustr) res" where
  "job_key x =
     (if isdigit x then bind (int_of_digits x) (\<lambda>n. Inr (0, n, [])) else Inr (1, 0, x))"

definition sort_job_ids :: "ustr list \<Rightarrow> ustr list res" where
  "sort_job_ids enumerated =
     bind (mapR (\<lambda>x. bind (job_key x) (\<lambda>k. Inr (k, x))) enumerated) (\<lambda>ks.
     Inr (map snd (sort_key fst ks)))"

section \<open>What the definitions give\<close>

lemma split_dunder_none: "95 \<notin> set c \<Longrightarrow> split_dunder c = None"
  by (induction c rule: split_dunder.induct) auto

definition no_dunder :: "ustr \<Rightarrow> bool" where
  "no_dunder c \<longleftrightarrow> split_dunder c = None"

lemma split_dunder_append:
  "split_dunder c = None \<Longrightarrow> c \<noteq> [] \<Longrightarrow> last c \<noteq> 95 \<Longrightarrow> split_dunder (c @ [95, 95] @ v) = Some (c, v)"
proof (induction c rule: split_dunder.induct)
  case (1 a b s)
  then show ?case by (auto split: if_splits)
qed simp_all

lemma strip_by_id: "c \<noteq> [] \<Longrightarrow> \<not> P (hd c) \<Longrightarrow> \<not> P (last c) \<Longrightarrow> strip_by P c = c"
proof -
  assume c: "c \<noteq> []" "\<not> P (hd c)" "\<not> P (last c)"
  then have "dropWhile P c = c" by (cases c) auto
  moreover have "dropWhile P (rev c) = rev c" using c by (cases "rev c") (auto simp: hd_rev [symmetric])
  ultimately show "strip_by P c = c" by (simp add: strip_by_def)
qed

lemma run_id_parts_join:
  assumes "length d = 8" and "list_all is_nd d" and "length t = 6" and "list_all is_nd t"
  shows "run_id_parts strict (lit ''RUN_'' @ d @ lit ''T'' @ t @ lit ''Z_'' @ slug) = Some (d @ lit ''T'' @ t @ lit ''Z'', slug)"
proof -
  have len: "length (lit ''RUN_'') = 4" "length (lit ''T'') = 1" "lit ''Z_'' = [90, 95]" "lit ''Z'' = [90]"
    "lit ''T'' = [84]" "lit ''_'' = [95]"
    by (simp_all add: lit_def)
  have "takeWhile is_nd (t @ 90 # 95 # slug) = t"
    using assms(4) is_nd_small [of 90] by (simp add: takeWhile_append2 list_all_iff)
  with assms len show ?thesis
    by (simp add: run_id_parts_def Let_def)
qed

lemma strip_by_set: "set (strip_by P s) \<subseteq> set s"
  unfolding strip_by_def by (auto dest!: set_dropWhileD)

lemma hyphenate_chars: "list_all is_ident_char (hyphenate b s)"
  by (induction b s rule: hyphenate.induct) (auto simp: is_ident_char_def)

lemma lit_uncategorized_good: "good_comp (lit ''uncategorized'')"
  by (simp add: good_comp_def lit_def)

text \<open>A safe component is one proper path component, whatever the input.\<close>

lemma safe_good: "good_comp (safe c)"
proof -
  let ?d = "strip_by (\<lambda>c. c = 45) (hyphenate False (strip c))"
  have "list_all is_ident_char ?d"
    using strip_by_set [of _ "hyphenate False (strip c)"] hyphenate_chars [of False "strip c"]
    unfolding list_all_iff by blast
  then have "slash \<notin> set ?d" using ident_char_bound by (auto simp: list_all_iff)
  then show ?thesis using lit_uncategorized_good by (auto simp: safe_def Let_def good_comp_def)
qed

lemma job_keys_Inr: "mapR (\<lambda>x. bind (job_key x) (\<lambda>k. Inr (k, x))) xs = Inr ks \<Longrightarrow>
    \<exists>f. (\<forall>x \<in> set xs. job_key x = Inr (f x)) \<and> ks = map (\<lambda>x. (f x, x)) xs"
proof (induction xs arbitrary: ks)
  case (Cons x xs)
  then obtain k ks' where k: "job_key x = Inr k"
    and ks': "mapR (\<lambda>x. bind (job_key x) (\<lambda>k. Inr (k, x))) xs = Inr ks'" "ks = (k, x) # ks'" by auto
  from Cons.IH [OF ks'(1)] obtain f where f: "\<forall>x \<in> set xs. job_key x = Inr (f x)" "ks' = map (\<lambda>x. (f x, x)) xs"
    by blast
  have "map (\<lambda>y. ((f(x := k)) y, y)) xs = map (\<lambda>y. (f y, y)) xs" using f(1) k by auto
  with f k ks' show ?case by (intro exI [of _ "f(x := k)"]) auto
qed simp

lemma mapR_keys_map: "\<forall>x \<in> set xs. job_key x = Inr (f x) \<Longrightarrow>
    mapR (\<lambda>x. bind (job_key x) (\<lambda>k. Inr (k, x))) xs = Inr (map (\<lambda>x. (f x, x)) xs)"
  by (induction xs) auto

end
