(* ===== verification/Json_Text.thy ===== *)
theory Json_Text
  imports Json
begin

text \<open>
  Canonical JSON text, \<open>json.dumps(value, allow_nan=False, ensure_ascii=False,
  separators=(",", ":"), sort_keys=True)\<close>, and its UTF-8 bytes. The text of a finite float is
  outside the model: encoding one is an error value of its own. The main result is that equal
  canonical bytes come from equal values, up to the order of object members.
\<close>

section \<open>Text\<close>

definition hex_digit :: "nat \<Rightarrow> nat" where
  "hex_digit n = (if n < 10 then 48 + n else 87 + n)"

text \<open>The escapes of \<open>py_encode_basestring\<close>: quote, backslash and the control characters below 32.\<close>

definition escape_char :: "nat \<Rightarrow> ustr" where
  "escape_char c =
     (if c = 34 then [92, 34] else if c = 92 then [92, 92]
      else if c = 8 then [92, 98] else if c = 12 then [92, 102] else if c = 10 then [92, 110]
      else if c = 13 then [92, 114] else if c = 9 then [92, 116]
      else if c < 32 then [92, 117, 48, 48, hex_digit (c div 16), hex_digit (c mod 16)]
      else [c])"

definition json_string :: "ustr \<Rightarrow> ustr" where
  "json_string s = [34] @ concat (map escape_char s) @ [34]"

fun sorted_members :: "json \<Rightarrow> json" where
  "sorted_members (JArr xs) = JArr (map sorted_members xs)"
| "sorted_members (JObj d) = JObj (sort_key fst (map (\<lambda>(k, v). (k, sorted_members v)) d))"
| "sorted_members v = v"

fun render :: "json \<Rightarrow> ustr" where
  "render JNull = lit ''null''"
| "render (JBool b) = lit (if b then ''true'' else ''false'')"
| "render (JInt i) = str_int i"
| "render (JFloat f) = []"
| "render (JStr s) = json_string s"
| "render (JArr xs) = [91] @ join [44] (map render xs) @ [93]"
| "render (JObj d) = [123] @ join [44] (map (\<lambda>(k, v). json_string k @ [58] @ render v) d) @ [125]"

text \<open>The floats of a value, in the order the encoder meets them.\<close>

fun floats :: "json \<Rightarrow> pyfloat list" where
  "floats (JFloat f) = [f]"
| "floats (JArr xs) = concat (map floats xs)"
| "floats (JObj d) = concat (map (\<lambda>(k, v). floats v) d)"
| "floats _ = []"

definition dumps :: "json \<Rightarrow> ustr res" where
  "dumps v =
     (case floats (sorted_members v) of
        [] \<Rightarrow> Inr (render (sorted_members v))
      | Fin r # _ \<Rightarrow> Inl (ValueError ''the text of a float is not modelled'')
      | _ # _ \<Rightarrow> Inl (ValueError ''Out of range float values are not JSON compliant''))"

section \<open>UTF-8\<close>

text \<open>
  \<open>str.encode("utf-8")\<close>: surrogates have no encoding. Code points of Python strings lie below
  1114112.
\<close>

definition utf8_char :: "nat \<Rightarrow> nat list" where
  "utf8_char c =
     (if c < 128 then [c]
      else if c < 2048 then [192 + c div 64, 128 + c mod 64]
      else if c < 65536 then [224 + c div 4096, 128 + c div 64 mod 64, 128 + c mod 64]
      else [240 + c div 262144, 128 + c div 4096 mod 64, 128 + c div 64 mod 64, 128 + c mod 64])"

definition is_scalar :: "nat \<Rightarrow> bool" where
  "is_scalar c \<longleftrightarrow> \<not> (55296 \<le> c \<and> c \<le> 57343)"

definition encode_utf8 :: "ustr \<Rightarrow> nat list res" where
  "encode_utf8 s =
     (if list_all is_scalar s then Inr (concat (map utf8_char s))
      else Inl (ValueError ''surrogates not allowed''))"

section \<open>Injectivity of strings and numbers\<close>

text \<open>Reading one escaped character back.\<close>

definition hex_value :: "nat \<Rightarrow> nat" where
  "hex_value d = (if d < 58 then d - 48 else d - 87)"

definition unescape_one :: "ustr \<Rightarrow> nat \<times> ustr" where
  "unescape_one s =
     (if hd s \<noteq> 92 then (hd s, tl s)
      else if s ! 1 = 117 then (16 * hex_value (s ! 4) + hex_value (s ! 5), drop 6 s)
      else (if s ! 1 = 98 then 8 else if s ! 1 = 102 then 12 else if s ! 1 = 110 then 10
            else if s ! 1 = 114 then 13 else if s ! 1 = 116 then 9 else s ! 1, drop 2 s))"

lemma hex_value_digit: "n < 16 \<Longrightarrow> hex_value (hex_digit n) = n"
  by (simp add: hex_value_def hex_digit_def)

lemma unescape_simps:
  "c \<noteq> 92 \<Longrightarrow> unescape_one (c # x) = (c, x)"
  "unescape_one (92 # 117 # a # b # h # l # x) = (16 * hex_value h + hex_value l, x)"
  "unescape_one (92 # 34 # x) = (34, x)" "unescape_one (92 # 92 # x) = (92, x)"
  "unescape_one (92 # 98 # x) = (8, x)" "unescape_one (92 # 102 # x) = (12, x)"
  "unescape_one (92 # 110 # x) = (10, x)" "unescape_one (92 # 114 # x) = (13, x)"
  "unescape_one (92 # 116 # x) = (9, x)"
  by (simp_all add: unescape_one_def)

lemma hex_control: "c < 32 \<Longrightarrow> 16 * hex_value (hex_digit (c div 16)) + hex_value (hex_digit (c mod 16)) = c"
  by (simp add: hex_value_digit div_less_iff_less_mult)

lemma unescape_escape: "unescape_one (escape_char c @ x) = (c, x)"
  unfolding escape_char_def by (cases "c < 32") (auto simp: unescape_simps hex_control)

lemma escape_char_prefix: "escape_char c @ x = escape_char d @ y \<Longrightarrow> c = d \<and> x = y"
  by (metis unescape_escape prod.inject)

lemma escape_char_hd: "escape_char c \<noteq> [] \<and> hd (escape_char c @ x) \<noteq> 34"
  by (simp add: escape_char_def)

lemma escape_not_quote: "34 # x \<noteq> escape_char c @ y"
  using escape_char_hd [of c y] by (metis list.sel(1))

lemma escape_prefix:
  "concat (map escape_char s) @ 34 # x = concat (map escape_char t) @ 34 # y \<Longrightarrow> s = t \<and> x = y"
proof (induction s arbitrary: t)
  case Nil
  then show ?case using escape_not_quote by (cases t) auto
next
  case (Cons c s)
  show ?case
  proof (cases t)
    case Nil
    with Cons.prems escape_not_quote [of y c "concat (map escape_char s) @ 34 # x"] show ?thesis by simp
  next
    case (Cons d t')
    with Cons.prems have "escape_char c @ (concat (map escape_char s) @ 34 # x) = escape_char d @ (concat (map escape_char t') @ 34 # y)"
      by simp
    from escape_char_prefix [OF this] Cons Cons.IH [of t'] show ?thesis by simp
  qed
qed

lemma json_string_prefix: "json_string s @ x = json_string t @ y \<Longrightarrow> s = t \<and> x = y"
  by (rule escape_prefix) (simp add: json_string_def)

text \<open>What can follow a value inside a larger text: nothing, a comma or a closing bracket.\<close>

definition delim :: "ustr \<Rightarrow> bool" where
  "delim s \<longleftrightarrow> s = [] \<or> hd s = 44 \<or> hd s = 93 \<or> hd s = 125"

lemma delim_simps [simp]: "delim []" "delim (c # s) \<longleftrightarrow> c = 44 \<or> c = 93 \<or> c = 125"
  by (auto simp: delim_def)

lemma digits_prefix:
  "delim s \<Longrightarrow> delim t \<Longrightarrow> dec_digits m @ s = dec_digits n @ t \<Longrightarrow> m = n \<and> s = t"
proof -
  assume d: "delim s" "delim t" and eq: "dec_digits m @ s = dec_digits n @ t"
  let ?P = "\<lambda>c :: nat. 48 \<le> c \<and> c < 58"
  have tw: "takeWhile ?P (dec_digits k @ u) = dec_digits k" if "delim u" for k u
  proof -
    have "takeWhile ?P u = []" using that by (cases u) auto
    then show ?thesis using dec_digits_range by (subst takeWhile_append2) auto
  qed
  from eq have "dec_digits m = dec_digits n" using tw d by metis
  with eq show ?thesis by simp
qed

lemma dec_digits_hd: "48 \<le> hd (dec_digits n) \<and> hd (dec_digits n) < 58"
  by (rule dec_digits_range [of _ n]) simp

lemma str_int_prefix:
  "delim s \<Longrightarrow> delim t \<Longrightarrow> str_int i @ s = str_int j @ t \<Longrightarrow> i = j \<and> s = t"
proof -
  assume d: "delim s" "delim t" and eq: "str_int i @ s = str_int j @ t"
  have "hd (str_int k @ u) = 45 \<longleftrightarrow> k < 0" for k u
    using dec_digits_hd [of "nat k"] by (auto simp: str_int_def)
  with eq have same: "i < 0 \<longleftrightarrow> j < 0" by metis
  show ?thesis
  proof (cases "i < 0")
    case True
    with same eq d digits_prefix [of s t "nat (- i)" "nat (- j)"] show ?thesis by (auto simp: str_int_def)
  next
    case False
    with same eq d digits_prefix [of s t "nat i" "nat j"] show ?thesis by (auto simp: str_int_def)
  qed
qed

section \<open>Injectivity of the canonical text\<close>

lemma join_prefix:
  assumes "\<And>x y s t. x \<in> set xs \<Longrightarrow> y \<in> set ys \<Longrightarrow> delim s \<Longrightarrow> delim t \<Longrightarrow> f x @ s = f y @ t \<Longrightarrow> x = y \<and> s = t"
    and "\<And>x s. x \<in> set xs \<union> set ys \<Longrightarrow> hd (f x @ s) \<noteq> c" and "c = 93 \<or> c = 125"
  shows "join [44] (map f xs) @ c # s = join [44] (map f ys) @ c # t \<Longrightarrow> xs = ys \<and> s = t"
  using assms
proof (induction xs arbitrary: ys)
  case Nil
  then show ?case
  proof (cases ys)
    case (Cons y ys')
    have "join [44] (map f ys) @ c # t = f y @ (if ys' = [] then c # t else 44 # join [44] (map f ys') @ c # t)"
      using Cons by (cases ys') auto
    with Nil Cons show ?thesis by (metis append_Nil join.simps(1) list.sel(1) list.set_intros(1) list.simps(8) UnI2)
  qed simp
next
  case (Cons x xs)
  let ?u = "if xs = [] then c # s else 44 # join [44] (map f xs) @ c # s"
  have ux: "join [44] (map f (x # xs)) @ c # s = f x @ ?u" by (cases xs) auto
  show ?case
  proof (cases ys)
    case Nil
    with ux Cons.prems show ?thesis by (metis append_Nil join.simps(1) list.sel(1) list.set_intros(1) list.simps(8) UnI1)
  next
    case (Cons y ys')
    let ?v = "if ys' = [] then c # t else 44 # join [44] (map f ys') @ c # t"
    have uy: "join [44] (map f ys) @ c # t = f y @ ?v" using Cons by (cases ys') auto
    have "delim ?u" "delim ?v" using Cons.prems(4) by auto
    moreover have "f x @ ?u = f y @ ?v" using Cons.prems(1) ux uy by simp
    moreover have "x \<in> set (x # xs)" "y \<in> set ys" using Cons by simp_all
    ultimately have xy: "x = y" and uv: "?u = ?v" using Cons.prems(2) [of x y ?u ?v] by blast+
    have c: "c \<noteq> 44" using Cons.prems(4) by auto
    show ?thesis
    proof (cases "xs = [] \<or> ys' = []")
      case True
      with uv c have "xs = []" "ys' = []" "s = t" by (auto split: if_splits)
      with xy Cons show ?thesis by simp
    next
      case False
      with uv have "join [44] (map f xs) @ c # s = join [44] (map f ys') @ c # t" by simp
      then have "xs = ys' \<and> s = t" using Cons.prems(2-4) Cons by (intro Cons.IH) auto
      with xy Cons show ?thesis by simp
    qed
  qed
qed

lemma render_hd: "floats v = [] \<Longrightarrow> render v \<noteq> [] \<and> hd (render v @ s) \<noteq> 93 \<and> hd (render v @ s) \<noteq> 125"
proof (cases v)
  case (JInt i)
  then show ?thesis using dec_digits_hd [of "nat i"] by (auto simp: str_int_def)
qed (auto simp: json_string_def lit_def)

text \<open>The first character of a text tells which kind of value it is.\<close>

fun kind :: "json \<Rightarrow> nat" where
  "kind JNull = 0" | "kind (JBool b) = (if b then 1 else 2)" | "kind (JInt i) = 3" | "kind (JFloat f) = 4"
| "kind (JStr s) = 5" | "kind (JArr xs) = 6" | "kind (JObj d) = 7"

definition kind_of_char :: "nat \<Rightarrow> nat" where
  "kind_of_char c =
     (if c = 110 then 0 else if c = 116 then 1 else if c = 102 then 2 else if c = 34 then 5
      else if c = 91 then 6 else if c = 123 then 7 else 3)"

lemma kind_of_render: "floats v = [] \<Longrightarrow> kind_of_char (hd (render v @ s)) = kind v"
proof (cases v)
  case (JInt i)
  then show ?thesis using dec_digits_hd [of "nat i"] by (simp add: str_int_def kind_of_char_def)
qed (auto simp: json_string_def lit_def kind_of_char_def)

lemma render_kind_eq:
  "floats a = [] \<Longrightarrow> floats b = [] \<Longrightarrow> render a @ s = render b @ t \<Longrightarrow> kind a = kind b"
  by (metis kind_of_render)

text \<open>Equal texts in equal positions come from equal values.\<close>

lemma members_prefix:
  assumes "\<And>k v v' u w. (k, v) \<in> set d \<Longrightarrow> v' \<in> snd ` set e \<Longrightarrow> delim u \<Longrightarrow> delim w \<Longrightarrow>
      render v @ u = render v' @ w \<Longrightarrow> v = v' \<and> u = w"
    and "join [44] (map (\<lambda>(k, v). json_string k @ [58] @ render v) d) @ 125 # s
       = join [44] (map (\<lambda>(k, v). json_string k @ [58] @ render v) e) @ 125 # t"
  shows "d = e \<and> s = t"
proof (rule join_prefix [OF _ _ _ assms(2)])
  let ?f = "\<lambda>(k, v). json_string k @ [58] @ render v"
  show "x = y \<and> u = w" if xy: "x \<in> set d" "y \<in> set e" "delim u" "delim w" "?f x @ u = ?f y @ w" for x y u w
  proof -
    obtain k v l v' where p: "x = (k, v)" "y = (l, v')" by fastforce
    with xy(5) have "json_string k @ (58 # render v @ u) = json_string l @ (58 # render v' @ w)" by simp
    then have k: "k = l" and "render v @ u = render v' @ w" using json_string_prefix by blast+
    moreover have "v' \<in> snd ` set e" using xy(2) p by force
    ultimately have "v = v' \<and> u = w" using assms(1) [of k v v' u w] xy(1,3,4) p by blast
    with k p show ?thesis by simp
  qed
  show "x \<in> set d \<union> set e \<Longrightarrow> hd (?f x @ u) \<noteq> 125" for x u
    by (cases x) (simp add: json_string_def)
qed simp

lemma render_prefix:
  "floats a = [] \<Longrightarrow> floats b = [] \<Longrightarrow> delim s \<Longrightarrow> delim t \<Longrightarrow> render a @ s = render b @ t \<Longrightarrow> a = b \<and> s = t"
proof (induction a arbitrary: b s t rule: render.induct)
  case (6 xs)
  have "kind b = 6" using render_kind_eq [OF 6(2,3,6)] by simp
  then obtain ys where b: "b = JArr ys" by (cases b) (auto split: if_splits)
  have "xs = ys \<and> s = t"
  proof (rule join_prefix)
    show "join [44] (map render xs) @ 93 # s = join [44] (map render ys) @ 93 # t" using 6(6) b by simp
    show "x \<in> set xs \<Longrightarrow> y \<in> set ys \<Longrightarrow> delim u \<Longrightarrow> delim w \<Longrightarrow> render x @ u = render y @ w \<Longrightarrow> x = y \<and> u = w"
      for x y u w using 6(2,3) b by (intro 6(1)) auto
    show "x \<in> set xs \<union> set ys \<Longrightarrow> hd (render x @ u) \<noteq> 93" for x u using 6(2,3) b render_hd [of x] by auto
  qed simp
  with b show ?case by simp
next
  case (7 d)
  have "kind b = 7" using render_kind_eq [OF 7(2,3,6)] by simp
  then obtain e where b: "b = JObj e" by (cases b) (auto split: if_splits)
  have "d = e \<and> s = t"
  proof (rule members_prefix)
    show "join [44] (map (\<lambda>(k, v). json_string k @ [58] @ render v) d) @ 125 # s
        = join [44] (map (\<lambda>(k, v). json_string k @ [58] @ render v) e) @ 125 # t" using 7(6) b by simp
    show "v = v' \<and> u = w" if "(k, v) \<in> set d" "v' \<in> snd ` set e" "delim u" "delim w" "render v @ u = render v' @ w"
      for k v v' u w using that 7(2,3) b by (intro 7(1)) auto
  qed
  with b show ?case by simp
next
  case (3 i)
  have "kind b = 3" using render_kind_eq [OF 3(1,2,5)] by simp
  then obtain j where b: "b = JInt j" by (cases b) (auto split: if_splits)
  with 3 str_int_prefix [of s t i j] show ?case by simp
next
  case (5 x)
  have "kind b = 5" using render_kind_eq [OF 5(1,2,5)] by simp
  then obtain y where b: "b = JStr y" by (cases b) (auto split: if_splits)
  with 5 json_string_prefix [of x s y t] show ?case by simp
next
  case 1
  have "kind b = 0" using render_kind_eq [OF 1(1,2,5)] by simp
  then have "b = JNull" by (cases b) (auto split: if_splits)
  with 1 show ?case by simp
next
  case (2 p)
  have "kind b = kind (JBool p)" using render_kind_eq [OF 2(1,2,5)] by simp
  then have "b = JBool p" by (cases b) (auto split: if_splits)
  with 2 show ?case by simp
qed simp

lemma dumps_inj:
  "dumps a = Inr x \<Longrightarrow> dumps b = Inr x \<Longrightarrow> sorted_members a = sorted_members b"
  using render_prefix [of "sorted_members a" "sorted_members b" "[]" "[]"]
  by (simp add: dumps_def split: list.splits pyfloat.splits)

section \<open>Injectivity of UTF-8\<close>

definition decode_one :: "nat list \<Rightarrow> nat \<times> nat list" where
  "decode_one s =
     (let b = s ! 0
      in if b < 128 then (b, drop 1 s)
         else if b < 224 then ((b - 192) * 64 + (s ! 1 - 128), drop 2 s)
         else if b < 240 then (((b - 224) * 64 + (s ! 1 - 128)) * 64 + (s ! 2 - 128), drop 3 s)
         else ((((b - 240) * 64 + (s ! 1 - 128)) * 64 + (s ! 2 - 128)) * 64 + (s ! 3 - 128), drop 4 s))"

lemma div_mod_64: "c div 64 * 64 + c mod 64 = (c :: nat)" "c div 4096 * 64 + c div 64 mod 64 = c div 64"
  "c div 262144 * 64 + c div 4096 mod 64 = c div 4096"
proof -
  show "c div 64 * 64 + c mod 64 = c" by (rule div_mult_mod_eq)
  have "c div 4096 = c div 64 div 64" "c div 262144 = c div 4096 div 64" by (simp_all add: div_mult2_eq [symmetric])
  then show "c div 4096 * 64 + c div 64 mod 64 = c div 64" "c div 262144 * 64 + c div 4096 mod 64 = c div 4096"
    by (metis div_mult_mod_eq)+
qed

lemma decode_bytes:
  "c < 128 \<Longrightarrow> decode_one ([c] @ x) = (c, x)"
  "a < 32 \<Longrightarrow> decode_one ([192 + a, 128 + b] @ x) = (a * 64 + b, x)"
  "a < 16 \<Longrightarrow> decode_one ([224 + a, 128 + b, 128 + c] @ x) = ((a * 64 + b) * 64 + c, x)"
  "decode_one ([240 + a, 128 + b, 128 + c, 128 + d] @ x) = (((a * 64 + b) * 64 + c) * 64 + d, x)"
  by (simp_all add: decode_one_def)

lemma decode_utf8_char: "decode_one (utf8_char c @ x) = (c, x)"
proof -
  consider "c < 128" | "\<not> c < 128" "c < 2048" | "\<not> c < 2048" "c < 65536" | "\<not> c < 65536" by linarith
  then show ?thesis
  proof cases
    case 1
    then show ?thesis by (simp only: utf8_char_def decode_bytes(1) if_True)
  next
    case 2
    then have "c div 64 < 32" by (simp add: div_less_iff_less_mult)
    from decode_bytes(2) [OF this, of "c mod 64" x] 2 show ?thesis
      by (simp only: utf8_char_def if_True if_False div_mod_64)
  next
    case 3
    then have "c div 4096 < 16" by (simp add: div_less_iff_less_mult)
    moreover from 3 have "\<not> c < 128" by linarith
    ultimately show ?thesis using 3 decode_bytes(3) [of "c div 4096" "c div 64 mod 64" "c mod 64" x]
      by (simp only: utf8_char_def if_True if_False div_mod_64)
  next
    case 4
    then have "\<not> c < 128" "\<not> c < 2048" by linarith+
    with 4 show ?thesis using decode_bytes(4) [of "c div 262144" "c div 4096 mod 64" "c div 64 mod 64" "c mod 64" x]
      by (simp only: utf8_char_def if_True if_False div_mod_64)
  qed
qed

lemma utf8_char_ne [simp]: "utf8_char c \<noteq> []"
  by (simp add: utf8_char_def)

lemma utf8_concat_inj: "concat (map utf8_char s) = concat (map utf8_char t) \<Longrightarrow> s = t"
proof (induction s arbitrary: t)
  case Nil
  then show ?case by (cases t) simp_all
next
  case (Cons c s)
  then obtain d t' where t: "t = d # t'" by (cases t) simp_all
  then have "utf8_char c @ concat (map utf8_char s) = utf8_char d @ concat (map utf8_char t')"
    using Cons.prems by simp
  then have "c = d" "concat (map utf8_char s) = concat (map utf8_char t')"
    by (metis decode_utf8_char prod.inject)+
  with Cons.IH t show ?case by simp
qed

lemma encode_utf8_inj: "encode_utf8 s = Inr b \<Longrightarrow> encode_utf8 t = Inr b \<Longrightarrow> s = t"
  by (auto simp: encode_utf8_def intro: utf8_concat_inj split: if_splits)

text \<open>The bytes every plan digest is computed from.\<close>

definition canonical_json_bytes :: "json \<Rightarrow> nat list res" where
  "canonical_json_bytes v = bind (dumps v) encode_utf8"

lemma canonical_json_bytes_inj:
  "canonical_json_bytes a = Inr x \<Longrightarrow> canonical_json_bytes b = Inr x \<Longrightarrow> sorted_members a = sorted_members b"
  unfolding canonical_json_bytes_def by (auto dest: encode_utf8_inj intro: dumps_inj)

section \<open>Members of objects with equal canonical form\<close>

lemma sorted_members_get:
  assumes "sorted_members (JObj d) = sorted_members (JObj e)" and "dict_ok d" and "dict_ok e"
  shows "sorted_members (jget d k) = sorted_members (jget e k)"
proof -
  let ?f = "\<lambda>(k, v). (k, sorted_members v)"
  have dist: "distinct (map fst (map ?f d))" "distinct (map fst (map ?f e))"
    using assms(2,3) by (simp_all add: dict_ok_def case_prod_unfold comp_def)
  have "sort_key fst (map ?f d) = sort_key fst (map ?f e)" using assms(1) by simp
  then have "mset (sort_key fst (map ?f d)) = mset (sort_key fst (map ?f e))" by (rule arg_cong)
  then have "mset (map ?f d) = mset (map ?f e)" by (simp only: mset_sort)
  then have "set (map ?f d) = set (map ?f e)" by (rule mset_eq_setD)
  then have "map_of (map ?f d) = map_of (map ?f e)"
    using map_of_inject_set [OF dist] by blast
  moreover have "map_of (map ?f c) x = map_option sorted_members (map_of c x)" for c x
    by (induction c) auto
  ultimately have "map_option sorted_members (dget d x) = map_option sorted_members (dget e x)" for x
    by (metis dget_def)
  from this [of "lit k"] show ?thesis
    by (auto simp: jget_def split: option.splits)
qed

end
