(* ===== verification/Plan.thy ===== *)
theory Plan
  imports Plan_Graph Run_Ids Json_Text
begin

text \<open>
  \<open>ExecutionPlan\<close> of \<open>runorg/plans.py\<close> and \<open>PreparedRunIdentity\<close> of \<open>runorg/prepared.py\<close>:
  validation across the parts of a plan, its unhashed JSON payload, and the self-checksummed
  envelope. SHA-256 is a parameter \<open>sha\<close> from bytes to hexadecimal digests.
\<close>

section \<open>ExecutionPlan\<close>

record execution_plan =
  pl_project :: ustr
  pl_campaign :: ustr
  pl_pipeline :: ustr
  pl_run_id :: ustr
  pl_source_commit :: ustr
  pl_source_bundle_sha256 :: ustr
  pl_datasets :: "dataset_identity list"
  pl_paths :: canonical_paths
  pl_stages :: "stage_spec list"
  pl_schema_version :: int

definition EXECUTION_PLAN_SCHEMA_VERSION :: int where
  "EXECUTION_PLAN_SCHEMA_VERSION = 1"

text \<open>The receipts of all stages and tasks, in the order \<open>_validate_receipt_tree\<close> collects them.\<close>

definition all_receipts :: "execution_plan \<Rightarrow> receipt_spec list" where
  "all_receipts p =
     concat (map (\<lambda>s. st_expected_receipts s @ concat (map tk_expected_receipts (st_tasks s))) (pl_stages p))"

definition receipt_location :: "execution_plan \<Rightarrow> receipt_spec \<Rightarrow> ustr" where
  "receipt_location p r = path_join (cp_run_root (pl_paths p)) [rc_path r]"

definition engine_receipts :: "execution_plan \<Rightarrow> ustr" where
  "engine_receipts p = path_join (cp_receipts_root (pl_paths p)) [lit ''execution'']"

definition check_receipt :: "execution_plan \<Rightarrow> receipt_spec \<Rightarrow> ustr set \<times> ustr set \<Rightarrow> (ustr set \<times> ustr set) res" where
  "check_receipt p r seen =
     (case seen of (seen_paths, seen_ids) \<Rightarrow>
        bind (ensure (is_within (receipt_location p r) (cp_receipts_root (pl_paths p)))
                (ValueError ''receipt must resolve inside paths.receipts_root'')) (\<lambda>_.
        bind (ensure (\<not> (receipt_location p r = engine_receipts p
                         \<or> is_within (receipt_location p r) (engine_receipts p)))
                (ValueError ''receipt overlaps the reserved execution-engine receipt namespace'')) (\<lambda>_.
        bind (ensure (rc_path r \<notin> seen_paths) (ValueError ''receipt path is shared'')) (\<lambda>_.
        bind (ensure (rc_receipt_id r \<notin> seen_ids) (ValueError ''receipt ID is shared'')) (\<lambda>_.
        Inr (insert (rc_path r) seen_paths, insert (rc_receipt_id r) seen_ids))))))"

definition validate_receipt_tree :: "execution_plan \<Rightarrow> unit res" where
  "validate_receipt_tree p = bind (foldR (check_receipt p) (all_receipts p) ({}, {})) (\<lambda>_. Inr ())"

definition stage_commands :: "stage_spec \<Rightarrow> command_spec list" where
  "stage_commands s = (case st_command s of None \<Rightarrow> [] | Some c \<Rightarrow> [c]) @ map tk_command (st_tasks s)"

definition validate_command_roots :: "execution_plan \<Rightarrow> unit res" where
  "validate_command_roots p =
     forR (\<lambda>s. forR (\<lambda>c.
       ensure (cm_working_directory c = cp_work_root (pl_paths p)
               \<or> is_within (cm_working_directory c) (cp_work_root (pl_paths p)))
         (ValueError ''stage command working_directory must be inside paths.work_root'')) (stage_commands s))
       (pl_stages p)"

definition plan_post_init :: "execution_plan \<Rightarrow> execution_plan res" where
  "plan_post_init p =
     bind (ensure (pl_schema_version p = EXECUTION_PLAN_SCHEMA_VERSION) (ValueError ''schema_version must be 1'')) (\<lambda>_.
     bind (validate_identifier (pl_project p) ''project'') (\<lambda>_.
     bind (validate_identifier (pl_campaign p) ''campaign'') (\<lambda>_.
     bind (validate_identifier (pl_pipeline p) ''pipeline'') (\<lambda>_.
     bind (validate_identifier (pl_run_id p) ''run_id'') (\<lambda>_.
     bind (ensure (STRICT_RUN_ID_RE (pl_run_id p))
             (ValueError ''run_id must match the registered RUN_<UTCtimestamp>Z_<slug> convention'')) (\<lambda>_.
     bind (ensure (campaign_of (pl_run_id p) [] = pl_campaign p)
             (ValueError ''campaign must match the campaign encoded in run_id'')) (\<lambda>_.
     bind (ensure (basename (cp_run_root (pl_paths p)) = pl_run_id p)
             (ValueError ''paths.run_root basename must equal run_id'')) (\<lambda>_.
     bind (ensure (basename (dirname (cp_run_root (pl_paths p))) = pl_campaign p)
             (ValueError ''paths.run_root parent directory must equal campaign'')) (\<lambda>_.
     bind (ensure (GIT_COMMIT_RE (pl_source_commit p))
             (ValueError ''source_commit must be a full 40- or 64-character lowercase Git object ID'')) (\<lambda>_.
     bind (validate_sha256 (pl_source_bundle_sha256 p) ''source_bundle_sha256'') (\<lambda>_.
     bind (ensure (pl_datasets p \<noteq> []) (ValueError ''execution plan must contain at least one dataset'')) (\<lambda>_.
     bind (ensure (card (set (map ds_dataset_id (pl_datasets p))) = length (map ds_dataset_id (pl_datasets p)))
             (ValueError ''dataset IDs must be unique'')) (\<lambda>_.
     bind (ensure (pl_stages p \<noteq> []) (ValueError ''execution plan must contain at least one stage'')) (\<lambda>_.
     bind (ensure (card (set (stage_ids (pl_stages p))) = length (stage_ids (pl_stages p)))
             (ValueError ''stage IDs must be unique'')) (\<lambda>_.
     bind (forR (\<lambda>s. ensure (set (st_depends_on s) \<subseteq> set (stage_ids (pl_stages p)))
             (ValueError ''stage has unknown dependencies'')) (pl_stages p)) (\<lambda>_.
     bind (topological_stage_ids (pl_stages p)) (\<lambda>_.
     bind (derived_attempt_bounds (pl_stages p)) (\<lambda>bounds.
     bind (forR (\<lambda>(i, b). ensure (b \<le> 999)
             (ValueError ''stage derived attempt bound exceeds the identity limit 999'')) bounds) (\<lambda>_.
     bind (validate_receipt_tree p) (\<lambda>_.
     bind (validate_command_roots p) (\<lambda>_.
     Inr (p\<lparr>pl_datasets := sort_key ds_dataset_id (pl_datasets p),
            pl_stages := sort_key st_stage_id (pl_stages p)\<rparr>))))))))))))))))))))))"

definition plan_to_dict :: "execution_plan \<Rightarrow> jdict" where
  "plan_to_dict p =
     [(lit ''campaign'', JStr (pl_campaign p)),
      (lit ''datasets'', JArr (map (\<lambda>d. JObj (dataset_to_dict d)) (sort_key ds_dataset_id (pl_datasets p)))),
      (lit ''paths'', JObj (paths_to_dict (pl_paths p))),
      (lit ''pipeline'', JStr (pl_pipeline p)),
      (lit ''project'', JStr (pl_project p)),
      (lit ''run_id'', JStr (pl_run_id p)),
      (lit ''schema_version'', JInt (pl_schema_version p)),
      (lit ''source_bundle_sha256'', JStr (pl_source_bundle_sha256 p)),
      (lit ''source_commit'', JStr (pl_source_commit p)),
      (lit ''stages'', JArr (map (\<lambda>s. JObj (stage_to_dict s)) (sort_key st_stage_id (pl_stages p))))]"

definition plan_from_dict :: "json \<Rightarrow> execution_plan res" where
  "plan_from_dict v =
     bind (require_mapping v ''execution_plan'') (\<lambda>d.
     bind (reject_unknown_keys d
             [''project'', ''campaign'', ''pipeline'', ''run_id'', ''source_commit'', ''source_bundle_sha256'',
              ''datasets'', ''paths'', ''stages'', ''schema_version''] ''execution_plan'') (\<lambda>_.
     bind (require_sequence (jget d ''datasets'') ''execution_plan.datasets'') (\<lambda>datasets.
     bind (require_sequence (jget d ''stages'') ''execution_plan.stages'') (\<lambda>stages.
     bind (require_str (jget d ''project'') ''execution_plan.project'') (\<lambda>project.
     bind (require_str (jget d ''campaign'') ''execution_plan.campaign'') (\<lambda>campaign.
     bind (require_str (jget d ''pipeline'') ''execution_plan.pipeline'') (\<lambda>pipeline.
     bind (require_str (jget d ''run_id'') ''execution_plan.run_id'') (\<lambda>run_id.
     bind (require_str (jget d ''source_commit'') ''execution_plan.source_commit'') (\<lambda>commit.
     bind (require_str (jget d ''source_bundle_sha256'') ''execution_plan.source_bundle_sha256'') (\<lambda>bundle.
     bind (mapR (\<lambda>x. bind (require_mapping x ''execution_plan.datasets[]'')
             (\<lambda>m. dataset_from_dict (JObj m))) datasets) (\<lambda>ds.
     bind (require_mapping (jget d ''paths'') ''execution_plan.paths'') (\<lambda>pd.
     bind (paths_from_dict (JObj pd)) (\<lambda>ps.
     bind (mapR (\<lambda>x. bind (require_mapping x ''execution_plan.stages[]'')
             (\<lambda>m. stage_from_dict (JObj m))) stages) (\<lambda>ss.
     bind (require_int (jget d ''schema_version'') ''execution_plan.schema_version'') (\<lambda>ver.
     plan_post_init \<lparr>pl_project = project, pl_campaign = campaign, pl_pipeline = pipeline, pl_run_id = run_id,
       pl_source_commit = commit, pl_source_bundle_sha256 = bundle, pl_datasets = ds, pl_paths = ps,
       pl_stages = ss, pl_schema_version = ver\<rparr>)))))))))))))))"

section \<open>The envelope\<close>

definition plan_sha256 :: "(nat list \<Rightarrow> ustr) \<Rightarrow> execution_plan \<Rightarrow> ustr res" where
  "plan_sha256 sha p = bind (canonical_json_bytes (JObj (plan_to_dict p))) (\<lambda>b. Inr (sha b))"

definition to_envelope :: "(nat list \<Rightarrow> ustr) \<Rightarrow> execution_plan \<Rightarrow> jdict res" where
  "to_envelope sha p =
     bind (plan_sha256 sha p) (\<lambda>digest.
     Inr [(lit ''execution_plan'', JObj (plan_to_dict p)), (lit ''plan_sha256'', JStr digest)])"

definition from_envelope :: "(nat list \<Rightarrow> ustr) \<Rightarrow> json \<Rightarrow> execution_plan res" where
  "from_envelope sha v =
     bind (require_mapping v ''execution plan envelope'') (\<lambda>d.
     bind (reject_unknown_keys d [''execution_plan'', ''plan_sha256''] ''execution plan envelope'') (\<lambda>_.
     bind (require_str (jget d ''plan_sha256'') ''plan_sha256'') (\<lambda>recorded.
     bind (validate_sha256 recorded ''plan_sha256'') (\<lambda>_.
     bind (require_mapping (jget d ''execution_plan'') ''execution_plan'') (\<lambda>m.
     bind (plan_from_dict (JObj m)) (\<lambda>plan.
     bind (plan_sha256 sha plan) (\<lambda>digest.
     bind (ensure (recorded = digest)
             (ValueError ''execution plan digest mismatch: the envelope content changed after hashing'')) (\<lambda>_.
     Inr plan))))))))"

text \<open>\<open>from_json\<close> after the text has been decoded to \<open>v\<close>.\<close>

definition from_decoded_json :: "(nat list \<Rightarrow> ustr) \<Rightarrow> json \<Rightarrow> ustr option \<Rightarrow> execution_plan res" where
  "from_decoded_json sha v expected =
     bind (require_mapping v ''execution plan envelope'') (\<lambda>d.
     bind (from_envelope sha (JObj d)) (\<lambda>plan.
     bind (optR (\<lambda>e.
             bind (validate_sha256 e ''expected_plan_sha256'') (\<lambda>_.
             bind (plan_sha256 sha plan) (\<lambda>digest.
             ensure (digest = e)
               (ValueError ''execution plan does not match the independently trusted digest'')))) expected) (\<lambda>_.
     Inr plan)))"

section \<open>PreparedRunIdentity\<close>

record prepared_run =
  pp_project :: ustr
  pp_campaign :: ustr
  pp_pipeline :: ustr
  pp_run_id :: ustr
  pp_run_root :: ustr
  pp_created_utc :: ustr
  pp_dataset_ids :: "ustr list"

definition prepared_post_init :: "prepared_run \<Rightarrow> prepared_run res" where
  "prepared_post_init r =
     bind (validate_identifier (pp_project r) ''project'') (\<lambda>_.
     bind (validate_identifier (pp_campaign r) ''campaign'') (\<lambda>_.
     bind (validate_identifier (pp_pipeline r) ''pipeline'') (\<lambda>_.
     bind (ensure (STRICT_RUN_ID_RE (pp_run_id r))
             (ValueError ''prepared run_id must match RUN_<UTCtimestamp>Z_<slug>'')) (\<lambda>_.
     bind (ensure (campaign_of (pp_run_id r) [] = pp_campaign r)
             (ValueError ''prepared campaign must match the campaign encoded in run_id'')) (\<lambda>_.
     bind (ensure (startswith (pp_run_root r) [slash] \<and> normpath (pp_run_root r) = pp_run_root r)
             (ValueError ''prepared run_root must be a normalized absolute POSIX path'')) (\<lambda>_.
     bind (ensure (basename (pp_run_root r) = pp_run_id r)
             (ValueError ''prepared run_root basename must equal run_id'')) (\<lambda>_.
     bind (ensure (basename (dirname (pp_run_root r)) = pp_campaign r)
             (ValueError ''prepared run_root parent must equal campaign'')) (\<lambda>_.
     bind (ensure (pp_created_utc r \<noteq> [] \<and> 10 \<notin> set (pp_created_utc r) \<and> 13 \<notin> set (pp_created_utc r))
             (ValueError ''prepared created_utc must be a non-empty single-line value'')) (\<lambda>_.
     bind (ensure (pp_dataset_ids r \<noteq> [])
             (ValueError ''prepared dataset_ids must be a non-empty immutable tuple'')) (\<lambda>_.
     bind (forR (\<lambda>i. validate_identifier i ''dataset_ids[]'') (pp_dataset_ids r)) (\<lambda>_.
     bind (ensure (card (set (pp_dataset_ids r)) = length (pp_dataset_ids r))
             (ValueError ''prepared dataset_ids cannot contain duplicates'')) (\<lambda>_.
     Inr (r\<lparr>pp_dataset_ids := sort (pp_dataset_ids r)\<rparr>)))))))))))))"

definition seal_plan :: "prepared_run \<Rightarrow> ustr \<Rightarrow> ustr \<Rightarrow> dataset_identity list \<Rightarrow> canonical_paths
    \<Rightarrow> stage_spec list \<Rightarrow> execution_plan res" where
  "seal_plan r commit bundle datasets paths stages =
     bind (ensure (cp_run_root paths = pp_run_root r)
             (ValueError ''execution plan paths.run_root does not match the prepared run'')) (\<lambda>_.
     bind (ensure (sort (map ds_dataset_id datasets) = pp_dataset_ids r)
             (ValueError ''execution plan datasets do not match the prepared dataset scope'')) (\<lambda>_.
     plan_post_init \<lparr>pl_project = pp_project r, pl_campaign = pp_campaign r, pl_pipeline = pp_pipeline r,
       pl_run_id = pp_run_id r, pl_source_commit = commit, pl_source_bundle_sha256 = bundle,
       pl_datasets = datasets, pl_paths = paths, pl_stages = stages,
       pl_schema_version = EXECUTION_PLAN_SCHEMA_VERSION\<rparr>))"

end
