(* ===== verification/Plan_Facts.thy ===== *)
theory Plan_Facts
  imports Plan
begin

text \<open>
  What an accepted plan satisfies: the constructor's result does not depend on the order of its
  unordered parts, and the JSON payload decodes to the same plan.
\<close>

section \<open>The receipt tree\<close>

definition receipt_placed :: "execution_plan \<Rightarrow> receipt_spec \<Rightarrow> bool" where
  "receipt_placed p r \<longleftrightarrow> is_within (receipt_location p r) (cp_receipts_root (pl_paths p))
     \<and> receipt_location p r \<noteq> engine_receipts p \<and> \<not> is_within (receipt_location p r) (engine_receipts p)"

lemma check_receipts_iff:
  "(\<exists>s. foldR (check_receipt p) rs (ps, is) = Inr s) \<longleftrightarrow>
     (\<forall>r \<in> set rs. receipt_placed p r) \<and> distinct (map rc_path rs) \<and> distinct (map rc_receipt_id rs)
     \<and> rc_path ` set rs \<inter> ps = {} \<and> rc_receipt_id ` set rs \<inter> is = {}"
proof (induction rs arbitrary: ps "is")
  case (Cons r rs)
  have step: "check_receipt p r (ps, is) = Inr s \<longleftrightarrow>
      receipt_placed p r \<and> rc_path r \<notin> ps \<and> rc_receipt_id r \<notin> is
      \<and> s = (insert (rc_path r) ps, insert (rc_receipt_id r) is)" for s
    by (auto simp: check_receipt_def receipt_placed_def)
  have "(\<exists>s. foldR (check_receipt p) (r # rs) (ps, is) = Inr s) \<longleftrightarrow>
      (\<exists>s'. check_receipt p r (ps, is) = Inr s' \<and> (\<exists>s. foldR (check_receipt p) rs s' = Inr s))"
    by (simp only: foldR.simps bind_eq_Inr) blast
  also have "\<dots> \<longleftrightarrow> receipt_placed p r \<and> rc_path r \<notin> ps \<and> rc_receipt_id r \<notin> is
      \<and> (\<exists>s. foldR (check_receipt p) rs (insert (rc_path r) ps, insert (rc_receipt_id r) is) = Inr s)"
    unfolding step by blast
  finally show ?case unfolding Cons.IH by auto
qed simp

lemma validate_receipt_tree_iff [simp]:
  "validate_receipt_tree p = Inr u \<longleftrightarrow>
     (\<forall>r \<in> set (all_receipts p). receipt_placed p r)
     \<and> distinct (map rc_path (all_receipts p)) \<and> distinct (map rc_receipt_id (all_receipts p))"
  using check_receipts_iff [of p "all_receipts p" "{}" "{}"] by (simp add: validate_receipt_tree_def)

definition command_placed :: "execution_plan \<Rightarrow> command_spec \<Rightarrow> bool" where
  "command_placed p c \<longleftrightarrow> cm_working_directory c = cp_work_root (pl_paths p)
     \<or> is_within (cm_working_directory c) (cp_work_root (pl_paths p))"

lemma validate_command_roots_iff [simp]:
  "validate_command_roots p = Inr u \<longleftrightarrow> (\<forall>s \<in> set (pl_stages p). \<forall>c \<in> set (stage_commands s). command_placed p c)"
  by (simp add: validate_command_roots_def command_placed_def)

section \<open>Accepted plans\<close>

definition graph_ok :: "stage_spec list \<Rightarrow> bool" where
  "graph_ok stages \<longleftrightarrow> stages \<noteq> [] \<and> distinct (stage_ids stages) \<and> deps_known stages
     \<and> (\<exists>order. topological_stage_ids stages = Inr order)
     \<and> (\<exists>m. derived_attempt_bounds stages = Inr m \<and> (\<forall>(i, b) \<in> set m. b \<le> 999))"

definition plan_ok :: "execution_plan \<Rightarrow> bool" where
  "plan_ok p \<longleftrightarrow> pl_schema_version p = 1 \<and> ident_ok (pl_project p) \<and> ident_ok (pl_campaign p)
     \<and> ident_ok (pl_pipeline p) \<and> ident_ok (pl_run_id p) \<and> STRICT_RUN_ID_RE (pl_run_id p)
     \<and> campaign_of (pl_run_id p) [] = pl_campaign p
     \<and> basename (cp_run_root (pl_paths p)) = pl_run_id p
     \<and> basename (dirname (cp_run_root (pl_paths p))) = pl_campaign p
     \<and> GIT_COMMIT_RE (pl_source_commit p) \<and> SHA256_RE (pl_source_bundle_sha256 p)
     \<and> pl_datasets p \<noteq> [] \<and> distinct (map ds_dataset_id (pl_datasets p)) \<and> graph_ok (pl_stages p)
     \<and> (\<forall>r \<in> set (all_receipts p). receipt_placed p r)
     \<and> distinct (map rc_path (all_receipts p)) \<and> distinct (map rc_receipt_id (all_receipts p))
     \<and> (\<forall>s \<in> set (pl_stages p). \<forall>c \<in> set (stage_commands s). command_placed p c)"

definition plan_canon :: "execution_plan \<Rightarrow> execution_plan" where
  "plan_canon p = p\<lparr>pl_datasets := sort_key ds_dataset_id (pl_datasets p),
     pl_stages := sort_key st_stage_id (pl_stages p)\<rparr>"

lemma plan_post_init_iff: "plan_post_init p = Inr q \<longleftrightarrow> plan_ok p \<and> q = plan_canon p"
  unfolding plan_post_init_def card_set_distinct ensure_bind_Inr bind_eq_Inr validate_eq_Inr
    validate_receipt_tree_iff validate_command_roots_iff forR_eq_Inr ensure_eq_Inr plan_ok_def graph_ok_def
    deps_known_def EXECUTION_PLAN_SCHEMA_VERSION_def plan_canon_def
  by (fastforce simp: case_prod_unfold)

section \<open>Order independence\<close>

lemma stage_at_cong: "(\<And>i. dget m i = dget m' i) \<Longrightarrow> stage_at m = stage_at m'"
  by (intro ext) (simp add: stage_at_def)

lemma visit_cong:
  assumes "\<And>i. dget m i = dget m' i"
  shows "visit n m = visit n m'"
proof (induction n)
  case 0
  show ?case by (intro ext) simp
next
  case (Suc n)
  show ?case by (intro ext) (simp only: visit.simps Suc stage_at_cong [OF assms])
qed

lemma derive_cong:
  assumes "\<And>i. dget m i = dget m' i"
  shows "derive n m = derive n m'"
proof (induction n)
  case 0
  show ?case by (intro ext) simp
next
  case (Suc n)
  have "add_generations r m = add_generations r m'" for r
    by (intro ext) (simp only: add_generations_def stage_at_cong [OF assms])
  then show ?case by (intro ext) (simp only: derive.simps Suc stage_at_cong [OF assms])
qed

lemma by_id_perm:
  assumes "distinct (stage_ids xs)" and "mset xs = mset ys"
  shows "dget (by_id xs) i = dget (by_id ys) i" and "sort (map fst (by_id xs)) = sort (map fst (by_id ys))"
    and "distinct (stage_ids ys)" and "length xs = length ys"
proof -
  have "mset (stage_ids xs) = mset (stage_ids ys)" using assms(2) by (simp add: stage_ids_def)
  then show d: "distinct (stage_ids ys)" using assms(1) by (metis mset_eq_imp_distinct_iff)
  show "length xs = length ys" using assms(2) by (rule mset_eq_length)
  have m: "mset (by_id xs) = mset (by_id ys)"
    using assms(2) by (simp add: by_id_distinct [OF assms(1)] by_id_distinct [OF d])
  then show "sort (map fst (by_id xs)) = sort (map fst (by_id ys))"
    by (intro sort_key_perm_unique) auto
  have "distinct (map fst (by_id xs))" "distinct (map fst (by_id ys))"
    using assms(1) d by (simp_all add: by_id_keys)
  then show "dget (by_id xs) i = dget (by_id ys) i"
    using mset_eq_setD [OF m] by (metis dget_def map_of_inject_set)
qed

lemma graph_perm:
  assumes "distinct (stage_ids xs)" and "mset xs = mset ys"
  shows "topological_stage_ids xs = topological_stage_ids ys"
    and "derived_attempt_bounds xs = derived_attempt_bounds ys"
proof -
  note perm = by_id_perm [OF assms]
  have v: "visit n (by_id xs) = visit n (by_id ys)" for n using visit_cong perm(1) by blast
  have d: "derive n (by_id xs) = derive n (by_id ys)" for n using derive_cong perm(1) by blast
  show t: "topological_stage_ids xs = topological_stage_ids ys"
    unfolding topological_stage_ids_def Let_def v perm(2,4) ..
  show "derived_attempt_bounds xs = derived_attempt_bounds ys"
    unfolding derived_attempt_bounds_def Let_def d perm(4) t ..
qed

lemma graph_ok_perm:
  assumes "mset xs = mset ys" and "graph_ok xs"
  shows "graph_ok ys"
proof -
  have d: "distinct (stage_ids xs)" using assms(2) by (simp add: graph_ok_def)
  have "set (stage_ids ys) = set (stage_ids xs)" "set ys = set xs"
    using assms(1) by (metis mset_eq_setD stage_ids_def list.set_map)+
  moreover have "ys \<noteq> []" using assms by (auto simp: graph_ok_def)
  ultimately show ?thesis
    using assms(2) by_id_perm(3) [OF d assms(1)] graph_perm [OF d assms(1)]
    by (simp add: graph_ok_def deps_known_def)
qed

lemma mset_concat_map: "mset (concat (map f xs)) = sum_mset (image_mset (\<lambda>x. mset (f x)) (mset xs))"
  by (induction xs) auto

lemma all_receipts_perm:
  "mset (pl_stages p) = mset (pl_stages q) \<Longrightarrow> mset (all_receipts p) = mset (all_receipts q)"
  by (simp add: all_receipts_def mset_concat_map)

lemma distinct_map_perm: "mset xs = mset ys \<Longrightarrow> distinct (map f xs) \<longleftrightarrow> distinct (map f ys)"
  by (metis mset_eq_imp_distinct_iff mset_map)

lemma plan_ok_perm:
  assumes "plan_ok p" and "mset ds = mset (pl_datasets p)" and "mset ss = mset (pl_stages p)"
  shows "plan_ok (p\<lparr>pl_datasets := ds, pl_stages := ss\<rparr>)"
proof -
  let ?q = "p\<lparr>pl_datasets := ds, pl_stages := ss\<rparr>"
  have r: "mset (all_receipts ?q) = mset (all_receipts p)" using assms(3) by (intro all_receipts_perm) simp
  have placed: "receipt_placed ?q = receipt_placed p" "command_placed ?q = command_placed p"
    by (auto simp: fun_eq_iff receipt_placed_def command_placed_def receipt_location_def engine_receipts_def)
  have "graph_ok ss" using graph_ok_perm [of "pl_stages p" ss] assms by (simp add: plan_ok_def)
  moreover have "ds \<noteq> []" using assms(1,2) by (auto simp: plan_ok_def)
  moreover have "distinct (map ds_dataset_id ds)" "distinct (map rc_path (all_receipts ?q))"
    "distinct (map rc_receipt_id (all_receipts ?q))"
    using assms(1) by (simp_all add: plan_ok_def distinct_map_perm [OF assms(2)] distinct_map_perm [OF r])
  ultimately show ?thesis
    using assms(1) mset_eq_setD [OF r] mset_eq_setD [OF assms(3)]
    by (simp add: plan_ok_def placed)
qed

lemma plan_ok_canon: "plan_ok p \<Longrightarrow> plan_ok (plan_canon p)"
  unfolding plan_canon_def by (rule plan_ok_perm) simp_all

lemma plan_canon_idem: "plan_canon (plan_canon p) = plan_canon p"
  by (simp add: plan_canon_def)

text \<open>Two presentations of one plan that differ in the order of datasets and stages construct equal plans.\<close>

lemma plan_order_free:
  assumes "mset ds = mset (pl_datasets p)" and "mset ss = mset (pl_stages p)" and "plan_post_init p = Inr q"
  shows "plan_post_init (p\<lparr>pl_datasets := ds, pl_stages := ss\<rparr>) = Inr q"
proof -
  have ok: "plan_ok p" and q: "q = plan_canon p" using assms(3) by (auto simp: plan_post_init_iff)
  have "inj_on ds_dataset_id (set ds)" "inj_on st_stage_id (set ss)"
    using ok mset_eq_setD [OF assms(1)] mset_eq_setD [OF assms(2)]
    by (auto simp: plan_ok_def graph_ok_def stage_ids_def distinct_map)
  then have "sort_key ds_dataset_id ds = sort_key ds_dataset_id (pl_datasets p)"
    "sort_key st_stage_id ss = sort_key st_stage_id (pl_stages p)"
    using assms(1,2) by (auto intro: sort_key_perm_unique)
  with plan_ok_perm [OF ok assms(1,2)] q show ?thesis
    by (cases p) (simp add: plan_post_init_iff plan_canon_def)
qed

section \<open>The payload decodes to the plan\<close>

definition plan_sound :: "execution_plan \<Rightarrow> bool" where
  "plan_sound p \<longleftrightarrow> (\<forall>d \<in> set (pl_datasets p). dataset.canonical d) \<and> paths.canonical (pl_paths p)
     \<and> (\<forall>s \<in> set (pl_stages p). stage.canonical s)"

lemma plan_sound_canon [simp]: "plan_sound (plan_canon p) \<longleftrightarrow> plan_sound p"
  by (simp add: plan_sound_def plan_canon_def)

lemma commit_wire: "GIT_COMMIT_RE s \<Longrightarrow> wire_str s"
  by (rule wire_str_ascii [of _ is_lower_hex]) (auto simp: GIT_COMMIT_RE_def is_lower_hex_def)

interpretation plan: wire_value plan_post_init plan_sound plan_to_dict plan_from_dict
proof
  show "plan_post_init x = Inr y \<Longrightarrow> plan_post_init y = Inr y" for x y
    by (auto simp: plan_post_init_iff plan_ok_canon plan_canon_idem)
  show "plan_from_dict v = Inr x \<Longrightarrow> plan_sound x \<and> (\<exists>y. plan_post_init y = Inr x)" for v x
  proof
    assume d: "plan_from_dict v = Inr x"
    then show "\<exists>y. plan_post_init y = Inr x" unfolding plan_from_dict_def bind_eq_Inr by blast
    from d show "plan_sound x" unfolding plan_from_dict_def bind_eq_Inr plan_post_init_iff
      by (elim exE conjE) (simp add: plan_sound_def plan_canon_def dataset.list_decoded stage.list_decoded paths.decoded_canonical)
  qed
  show "plan_post_init x = Inr x \<Longrightarrow> plan_sound x \<Longrightarrow> plan_from_dict (JObj (plan_to_dict x)) = Inr x" for x
  proof -
    assume ok: "plan_post_init x = Inr x" and snd: "plan_sound x"
    have p: "plan_ok x" and c: "plan_canon x = x" using ok by (auto simp: plan_post_init_iff)
    have "sort_key ds_dataset_id (pl_datasets x) = pl_datasets x" "sort_key st_stage_id (pl_stages x) = pl_stages x"
      using arg_cong [OF c, of pl_datasets] arg_cong [OF c, of pl_stages] by (simp_all add: plan_canon_def)
    moreover have "wire_str (pl_project x)" "wire_str (pl_campaign x)" "wire_str (pl_pipeline x)"
      "wire_str (pl_run_id x)" "wire_str (pl_source_commit x)" "wire_str (pl_source_bundle_sha256 x)"
      using p unfolding plan_ok_def by (blast intro: wire_intros commit_wire)+
    ultimately show ?thesis using ok snd unfolding plan_sound_def
      by (cases x) (simp add: plan_from_dict_def plan_to_dict_def dataset.list_roundtrip stage.list_roundtrip
          paths.roundtrip)
  qed
qed

text \<open>Parts of a sound plan.\<close>

lemma plan_receipts_canonical: "r \<in> set (all_receipts p) \<Longrightarrow> plan_sound p \<Longrightarrow> receipt.canonical r"
  by (auto simp: all_receipts_def plan_sound_def stage.canonical_def stage_sound_def task.canonical_def task_sound_def)

lemma plan_attempts_positive:
  assumes "distinct (stage_ids (pl_stages p))" and "plan_sound p" and "i \<in> dkeys (by_id (pl_stages p))"
  shows "1 \<le> own_attempts (by_id (pl_stages p)) i"
proof -
  obtain s where s: "s \<in> set (pl_stages p)" "i = st_stage_id s"
    using assms(3) by_id_dkeys [OF assms(1)] by (auto simp: stage_ids_def)
  then have "retry.canonical (st_retry_policy s)"
    using assms(2) by (simp add: plan_sound_def stage.canonical_def stage_sound_def)
  then show ?thesis
    using by_id_get [OF assms(1) s(1)] s(2) by (simp add: own_attempts_def retry.canonical_def retry_post_init_def)
qed

end
