(* ===== verification/Plan_Digest.thy ===== *)
theory Plan_Digest
  imports Plan_Facts
begin

text \<open>
  The canonical bytes behind \<open>plan_sha256\<close> determine the plan: each value class of a plan can be
  recovered from its canonical text, so a digest that does not collide on the two byte strings
  identifies one plan, with all its commands, paths, receipts and retry rules.
\<close>

section \<open>The digest binds the plan\<close>

text \<open>
  The interface extended by what hashing needs: the canonical text of a value, in which object
  members are sorted, still determines the value.
\<close>

locale digest_value = wire_value +
  assumes members_inj: "canonical x \<Longrightarrow> canonical y \<Longrightarrow>
      sorted_members (JObj (to_dict x)) = sorted_members (JObj (to_dict y)) \<Longrightarrow> x = y"
begin

lemma list_members_inj:
  "\<forall>x \<in> set xs. canonical x \<Longrightarrow> \<forall>y \<in> set ys. canonical y \<Longrightarrow>
   map (\<lambda>x. sorted_members (JObj (to_dict x))) xs = map (\<lambda>x. sorted_members (JObj (to_dict x))) ys \<Longrightarrow> xs = ys"
proof (induction xs arbitrary: ys)
  case (Cons x xs)
  then obtain y ys' where ys: "ys = y # ys'" by (cases ys) auto
  then have "sorted_members (JObj (to_dict x)) = sorted_members (JObj (to_dict y))"
    "map (\<lambda>x. sorted_members (JObj (to_dict x))) xs = map (\<lambda>x. sorted_members (JObj (to_dict x))) ys'"
    using Cons.prems(3) by (simp_all del: sorted_members.simps)
  with Cons.prems(1,2) ys members_inj [of x y] Cons.IH [of ys'] show ?case by simp
qed simp

lemma bytes_determine:
  "canonical x \<Longrightarrow> canonical y \<Longrightarrow> canonical_json_bytes (JObj (to_dict x)) = Inr b \<Longrightarrow>
   canonical_json_bytes (JObj (to_dict y)) = Inr b \<Longrightarrow> x = y"
  using canonical_json_bytes_inj members_inj by blast

end

lemma dict_ok_fields [simp]:
  "dict_ok []" "dict_ok ((k, v) # d) \<longleftrightarrow> k \<notin> dkeys d \<and> dict_ok d"
  "dict_ok (opt_field s u)" "dict_ok (opt_field s u @ d) \<longleftrightarrow> (u \<noteq> None \<longrightarrow> lit s \<notin> dkeys d) \<and> dict_ok d"
  by (auto simp: dict_ok_def dkeys_def opt_field_def split: option.splits)

lemma sorted_members_scalar [simp]:
  "sorted_members (opt_json v) = opt_json v" "opt_json v = opt_json w \<longleftrightarrow> v = w"
  "sorted_members (jstrs xs) = jstrs xs" "jstrs xs = jstrs ys \<longleftrightarrow> xs = ys"
proof -
  show "sorted_members (opt_json v) = opt_json v" "opt_json v = opt_json w \<longleftrightarrow> v = w"
    by (auto simp: opt_json_def split: option.splits)
  have "map (sorted_members \<circ> JStr) xs = map JStr xs" by simp
  then show "sorted_members (jstrs xs) = jstrs xs" by (simp add: jstrs_def)
  show "jstrs xs = jstrs ys \<longleftrightarrow> xs = ys" by (auto simp: jstrs_def dest: map_injective intro!: injI)
qed

lemma sorted_members_ints [simp]: "sorted_members (JArr (map JInt xs)) = JArr (map JInt xs)"
  by simp

lemma map_JInt_inj [simp]: "map JInt xs = map JInt ys \<longleftrightarrow> xs = ys"
  by (auto dest: map_injective intro!: injI)

interpretation dataset: digest_value dataset_post_init "\<lambda>_. True" dataset_to_dict dataset_from_dict
proof
  fix x y
  assume eq: "sorted_members (JObj (dataset_to_dict x)) = sorted_members (JObj (dataset_to_dict y))"
  have ok: "dict_ok (dataset_to_dict z)" for z by (simp add: dataset_to_dict_def)
  note get = sorted_members_get [OF eq ok ok]
  show "x = y"
    using get [of "''dataset_id''"] get [of "''manifest_sha256''"] get [of "''storage_binding_sha256''"]
      get [of "''source_uri''"]
    by (cases x; cases y) (simp add: dataset_to_dict_def)
qed

interpretation paths: digest_value paths_post_init "\<lambda>_. True" paths_to_dict paths_from_dict
proof
  fix x y
  assume eq: "sorted_members (JObj (paths_to_dict x)) = sorted_members (JObj (paths_to_dict y))"
  have ok: "dict_ok (paths_to_dict z)" for z by (simp add: paths_to_dict_def)
  note get = sorted_members_get [OF eq ok ok]
  show "x = y"
    using get [of "''run_root''"] get [of "''work_root''"] get [of "''results_root''"] get [of "''receipts_root''"]
      get [of "''logs_root''"] get [of "''promotion_root''"]
    by (cases x; cases y) (simp add: paths_to_dict_def)
qed

interpretation receipt: digest_value receipt_post_init "\<lambda>_. True" receipt_to_dict receipt_from_dict
proof
  fix x y
  assume eq: "sorted_members (JObj (receipt_to_dict x)) = sorted_members (JObj (receipt_to_dict y))"
  have ok: "dict_ok (receipt_to_dict z)" for z by (simp add: receipt_to_dict_def)
  note get = sorted_members_get [OF eq ok ok]
  show "x = y"
    using get [of "''receipt_id''"] get [of "''path''"] get [of "''required''"] get [of "''sha256''"]
    by (cases x; cases y) (simp add: receipt_to_dict_def)
qed

interpretation retry: digest_value retry_post_init "\<lambda>_. True" retry_to_dict retry_from_dict
proof
  fix x y
  assume "retry.canonical x" "retry.canonical y"
    and eq: "sorted_members (JObj (retry_to_dict x)) = sorted_members (JObj (retry_to_dict y))"
  then have c: "sort (rp_retryable_slurm_states z) = rp_retryable_slurm_states z"
    "sort (rp_retryable_exit_codes z) = rp_retryable_exit_codes z" if "z = x \<or> z = y" for z
    using that by (cases z; force simp: retry.canonical_def retry_post_init_def)+
  have ok: "dict_ok (retry_to_dict z)" for z by (simp add: retry_to_dict_def)
  note get = sorted_members_get [OF eq ok ok]
  show "x = y"
    using get [of "''max_attempts''"] get [of "''retryable_slurm_states''"] get [of "''retryable_exit_codes''"]
      get [of "''retry_missing_receipts''"] get [of "''backoff_seconds''"] c [of x] c [of y]
    by (cases x; cases y) (simp add: retry_to_dict_def comp_def)
qed

lemma resources_sorted:
  "resources.canonical z \<Longrightarrow> sort (rs_exclude_nodes z) = rs_exclude_nodes z \<and> sort (rs_licenses z) = rs_licenses z"
  by (cases z) (simp add: resources.canonical_def resources_post_init_iff)

interpretation resources: digest_value resources_post_init "\<lambda>_. True" resources_to_dict resources_from_dict
proof
  fix x y
  assume can: "resources.canonical x" "resources.canonical y"
    and eq: "sorted_members (JObj (resources_to_dict x)) = sorted_members (JObj (resources_to_dict y))"
  have ok: "dict_ok (resources_to_dict z)" for z by (simp add: resources_to_dict_def)
  note get = sorted_members_get [OF eq ok ok]
  show "x = y"
    using get [of "''partition''"] get [of "''cpus''"] get [of "''memory_mb''"] get [of "''time_limit''"]
      get [of "''gpus''"] get [of "''gpu_type''"] get [of "''array_parallelism''"] get [of "''account''"]
      get [of "''qos''"] get [of "''constraint''"] get [of "''exclude_nodes''"] get [of "''licenses''"]
      can [THEN resources_sorted]
    by (cases x; cases y) (simp add: resources_to_dict_def)
qed

lemma command_canonical_parts:
  "command.canonical z \<Longrightarrow> sort (cm_environment z) = cm_environment z
     \<and> cm_runtime_fingerprint_path z = Some (hd (cm_argv z))"
proof -
  assume "command.canonical z"
  then have ok: "command_ok z"
    and z: "z = z\<lparr>cm_runtime_fingerprint_path := Some (runtime_path z), cm_environment := sort (cm_environment z)\<rparr>"
    by (simp_all add: command.canonical_def command_post_init_iff)
  have "sort (cm_environment z) = cm_environment z" using arg_cong [OF z, of cm_environment] by simp
  moreover have "cm_runtime_fingerprint_path z = Some (runtime_path z)"
    using arg_cong [OF z, of cm_runtime_fingerprint_path] by simp
  ultimately show ?thesis using ok by (simp add: command_ok_def)
qed

interpretation command: digest_value command_post_init "\<lambda>_. True" command_to_dict command_from_dict
proof
  fix x y
  assume can: "command.canonical x" "command.canonical y"
    and eq: "sorted_members (JObj (command_to_dict x)) = sorted_members (JObj (command_to_dict y))"
  have ok: "dict_ok (command_to_dict z)" for z by (simp add: command_to_dict_def)
  note get = sorted_members_get [OF eq ok ok]
  show "x = y"
    using get [of "''argv''"] get [of "''environment''"] get [of "''environment_mode''"]
      get [of "''runtime_fingerprint_sha256''"] get [of "''working_directory''"]
      can [THEN command_canonical_parts]
    by (cases x; cases y) (simp add: command_to_dict_def)
qed

text \<open>Nested values: the canonical form of a list of objects, and of an object member.\<close>

lemma sorted_members_list:
  "sorted_members (JArr (map (\<lambda>x. JObj (f x)) xs)) = JArr (map (\<lambda>x. sorted_members (JObj (f x))) xs)"
  by (simp add: comp_def)

lemma receipts_members_inj:
  assumes "\<forall>r \<in> set xs. receipt.canonical r" and "\<forall>r \<in> set ys. receipt.canonical r"
    and "sort_key rc_path xs = xs" and "sort_key rc_path ys = ys"
    and "sorted_members (receipts_json xs) = sorted_members (receipts_json ys)"
  shows "xs = ys"
  using assms(3-5) receipt.list_members_inj [OF assms(1,2)]
  unfolding receipts_json_def assms(3,4) sorted_members_list by simp

lemma task_parts:
  assumes "task.canonical z"
  shows "\<forall>r \<in> set (tk_expected_receipts z). receipt.canonical r" "command.canonical (tk_command z)"
    "sort_key rc_path (tk_expected_receipts z) = tk_expected_receipts z"
proof -
  show "\<forall>r \<in> set (tk_expected_receipts z). receipt.canonical r" "command.canonical (tk_command z)"
    using assms by (simp_all add: task.canonical_def task_sound_def)
  have "task_post_init z = Inr z" using assms by (simp add: task.canonical_def)
  then have "z = z\<lparr>tk_expected_receipts := sort_key rc_path (tk_expected_receipts z)\<rparr>" by (simp add: task_post_init_def)
  from arg_cong [OF this, of tk_expected_receipts]
  show "sort_key rc_path (tk_expected_receipts z) = tk_expected_receipts z" by simp
qed

interpretation task: digest_value task_post_init task_sound task_to_dict task_from_dict
proof
  fix x y
  assume can: "task.canonical x" "task.canonical y"
    and eq: "sorted_members (JObj (task_to_dict x)) = sorted_members (JObj (task_to_dict y))"
  have ok: "dict_ok (task_to_dict z)" for z by (simp add: task_to_dict_def)
  note get = sorted_members_get [OF eq ok ok]
  have "sorted_members (receipts_json (tk_expected_receipts x)) = sorted_members (receipts_json (tk_expected_receipts y))"
    using get [of "''expected_receipts''"] by (simp add: task_to_dict_def del: sorted_members.simps)
  then have "tk_expected_receipts x = tk_expected_receipts y"
    by (rule receipts_members_inj [OF task_parts(1) [OF can(1)] task_parts(1) [OF can(2)]
          task_parts(3) [OF can(1)] task_parts(3) [OF can(2)]])
  moreover have "sorted_members (JObj (command_to_dict (tk_command x))) = sorted_members (JObj (command_to_dict (tk_command y)))"
    using get [of "''command''"] by (simp add: task_to_dict_def del: sorted_members.simps)
  then have "tk_command x = tk_command y"
    by (rule command.members_inj [OF task_parts(2) [OF can(1)] task_parts(2) [OF can(2)]])
  ultimately show "x = y"
    using get [of "''task_id''"] get [of "''array_index''"] by (cases x; cases y) (simp add: task_to_dict_def)
qed

lemma stage_parts:
  assumes "stage.canonical z"
  shows "\<forall>r \<in> set (st_expected_receipts z). receipt.canonical r" "\<forall>t \<in> set (st_tasks z). task.canonical t"
    "resources.canonical (st_resources z)" "retry.canonical (st_retry_policy z)"
    "opt_ok command.canonical (st_command z)" "stage_canon z = z"
  using assms by (simp_all add: stage.canonical_def stage_sound_def stage_post_init_iff)

definition command_json :: "command_spec option \<Rightarrow> json" where
  "command_json c = (case c of None \<Rightarrow> JNull | Some c \<Rightarrow> JObj (command_to_dict c))"

lemma command_json_inj:
  "opt_ok command.canonical c \<Longrightarrow> opt_ok command.canonical d \<Longrightarrow>
   sorted_members (command_json c) = sorted_members (command_json d) \<Longrightarrow> c = d"
  by (cases c; cases d) (auto simp: command_json_def intro: command.members_inj)

lemma stage_members:
  assumes "sorted_members (JObj (stage_to_dict x)) = sorted_members (JObj (stage_to_dict y))"
  shows "sorted_members (command_json (st_command x)) = sorted_members (command_json (st_command y))"
    "sorted_members (receipts_json (st_expected_receipts x)) = sorted_members (receipts_json (st_expected_receipts y))"
    "sorted_members (JObj (resources_to_dict (st_resources x))) = sorted_members (JObj (resources_to_dict (st_resources y)))"
    "sorted_members (JObj (retry_to_dict (st_retry_policy x))) = sorted_members (JObj (retry_to_dict (st_retry_policy y)))"
    "sorted_members (JArr (map (\<lambda>t. JObj (task_to_dict t)) (sort_key tk_task_id (st_tasks x))))
       = sorted_members (JArr (map (\<lambda>t. JObj (task_to_dict t)) (sort_key tk_task_id (st_tasks y))))"
    "st_stage_id x = st_stage_id y" "st_dependency_mode x = st_dependency_mode y"
    "sort (st_depends_on x) = sort (st_depends_on y)"
proof -
  have ok: "dict_ok (stage_to_dict z)" for z by (simp add: stage_to_dict_def)
  note get = sorted_members_get [OF assms ok ok, unfolded stage_to_dict_def command_json_def [symmetric]]
  show "sorted_members (command_json (st_command x)) = sorted_members (command_json (st_command y))"
    using get [of "''command''"] by simp
  show "sorted_members (receipts_json (st_expected_receipts x)) = sorted_members (receipts_json (st_expected_receipts y))"
    using get [of "''expected_receipts''"] by simp
  show "sorted_members (JObj (resources_to_dict (st_resources x))) = sorted_members (JObj (resources_to_dict (st_resources y)))"
    using get [of "''resources''"] by simp
  show "sorted_members (JObj (retry_to_dict (st_retry_policy x))) = sorted_members (JObj (retry_to_dict (st_retry_policy y)))"
    using get [of "''retry_policy''"] by simp
  show "sorted_members (JArr (map (\<lambda>t. JObj (task_to_dict t)) (sort_key tk_task_id (st_tasks x))))
       = sorted_members (JArr (map (\<lambda>t. JObj (task_to_dict t)) (sort_key tk_task_id (st_tasks y))))"
    using get [of "''tasks''"] by simp
  show "st_stage_id x = st_stage_id y" "st_dependency_mode x = st_dependency_mode y"
    "sort (st_depends_on x) = sort (st_depends_on y)"
    using get [of "''stage_id''"] get [of "''dependency_mode''"] get [of "''depends_on''"] by simp_all
qed

interpretation stage: digest_value stage_post_init stage_sound stage_to_dict stage_from_dict
proof
  fix x y
  assume can: "stage.canonical x" "stage.canonical y"
    and eq: "sorted_members (JObj (stage_to_dict x)) = sorted_members (JObj (stage_to_dict y))"
  note px = stage_parts [OF can(1)] and py = stage_parts [OF can(2)] and m = stage_members [OF eq]
  note sx = stage_canon_sorted [OF px(6)] and sy = stage_canon_sorted [OF py(6)]
  have "st_command x = st_command y" by (rule command_json_inj [OF px(5) py(5) m(1)])
  moreover have "st_expected_receipts x = st_expected_receipts y"
    by (rule receipts_members_inj [OF px(1) py(1) sx(2) sy(2) m(2)])
  moreover have "st_resources x = st_resources y" by (rule resources.members_inj [OF px(3) py(3) m(3)])
  moreover have "st_retry_policy x = st_retry_policy y" by (rule retry.members_inj [OF px(4) py(4) m(4)])
  moreover have "st_tasks x = st_tasks y"
    using m(5) unfolding sx(3) sy(3) sorted_members_list
    by (intro task.list_members_inj [OF px(2) py(2)]) (simp only: json.inject)
  moreover have "st_depends_on x = st_depends_on y" using m(8) sx(1) sy(1) by simp
  ultimately show "x = y" using m(6,7) by (cases x; cases y) simp
qed

interpretation plan: digest_value plan_post_init plan_sound plan_to_dict plan_from_dict
proof
  fix x y
  assume can: "plan.canonical x" "plan.canonical y"
    and eq: "sorted_members (JObj (plan_to_dict x)) = sorted_members (JObj (plan_to_dict y))"
  have parts: "\<forall>d \<in> set (pl_datasets z). dataset.canonical d" "paths.canonical (pl_paths z)"
    "\<forall>s \<in> set (pl_stages z). stage.canonical s" "plan_canon z = z" if "plan.canonical z" for z
    using that by (simp_all add: plan.canonical_def plan_sound_def plan_post_init_iff)
  have sorted: "sort_key ds_dataset_id (pl_datasets z) = pl_datasets z" "sort_key st_stage_id (pl_stages z) = pl_stages z"
    if "plan.canonical z" for z
    using arg_cong [OF parts(4) [OF that], of pl_datasets] arg_cong [OF parts(4) [OF that], of pl_stages]
    by (simp_all add: plan_canon_def)
  have ok: "dict_ok (plan_to_dict z)" for z by (simp add: plan_to_dict_def)
  note get = sorted_members_get [OF eq ok ok, unfolded plan_to_dict_def sorted [OF can(1)] sorted [OF can(2)]]
  have "sorted_members (JArr (map (\<lambda>d. JObj (dataset_to_dict d)) (pl_datasets x)))
      = sorted_members (JArr (map (\<lambda>d. JObj (dataset_to_dict d)) (pl_datasets y)))"
    using get [of "''datasets''"] by simp
  then have "pl_datasets x = pl_datasets y" unfolding sorted_members_list
    by (intro dataset.list_members_inj [OF parts(1) [OF can(1)] parts(1) [OF can(2)]]) (simp only: json.inject)
  moreover have "sorted_members (JArr (map (\<lambda>s. JObj (stage_to_dict s)) (pl_stages x)))
      = sorted_members (JArr (map (\<lambda>s. JObj (stage_to_dict s)) (pl_stages y)))"
    using get [of "''stages''"] by simp
  then have "pl_stages x = pl_stages y" unfolding sorted_members_list
    by (intro stage.list_members_inj [OF parts(3) [OF can(1)] parts(3) [OF can(2)]]) (simp only: json.inject)
  moreover have "sorted_members (JObj (paths_to_dict (pl_paths x))) = sorted_members (JObj (paths_to_dict (pl_paths y)))"
    using get [of "''paths''"] by simp
  then have "pl_paths x = pl_paths y" by (rule paths.members_inj [OF parts(2) [OF can(1)] parts(2) [OF can(2)]])
  ultimately show "x = y"
    using get [of "''campaign''"] get [of "''pipeline''"] get [of "''project''"] get [of "''run_id''"]
      get [of "''schema_version''"] get [of "''source_bundle_sha256''"] get [of "''source_commit''"]
    by (cases x; cases y) simp
qed

end
