(* ===== verification/Plan_Samples.thy ===== *)
theory Plan_Samples
  imports Plan_Digest
begin

text \<open>
  A concrete plan with two datasets and two stages, the second of which waits for the first. The
  witnesses of the plan's properties are stated on it. Its paths are given by their components.
\<close>

section \<open>The plan\<close>

definition hex64 :: ustr where
  "hex64 = replicate 64 97"

definition sample_run_id :: ustr where
  "sample_run_id = lit ''RUN_20240101T120000Z_camp''"

definition sample_root :: "ustr list" where
  "sample_root = [lit ''s'', lit ''camp'', sample_run_id]"

definition sample_paths :: canonical_paths where
  "sample_paths = \<lparr>cp_run_root = abs_of sample_root, cp_work_root = abs_of (sample_root @ [lit ''w'']),
     cp_results_root = abs_of [lit ''r''], cp_receipts_root = abs_of (sample_root @ [lit ''q'']),
     cp_logs_root = abs_of (sample_root @ [lit ''l'']), cp_promotion_root = None\<rparr>"

definition sample_resources :: resource_spec where
  "sample_resources = \<lparr>rs_partition = lit ''short'', rs_cpus = 2, rs_memory_mb = 4096, rs_time_limit = lit ''1:30:00'',
     rs_gpus = 0, rs_gpu_type = None, rs_array_parallelism = 1, rs_account = None, rs_qos = None,
     rs_constraint = None, rs_exclude_nodes = [], rs_licenses = []\<rparr>"

definition sample_retry :: retry_policy where
  "sample_retry = \<lparr>rp_max_attempts = 3, rp_retryable_slurm_states = [lit ''NODE_FAIL''],
     rp_retryable_exit_codes = [], rp_retry_missing_receipts = False, rp_backoff_seconds = 0\<rparr>"

definition sample_command :: command_spec where
  "sample_command = \<lparr>cm_argv = [abs_of [lit ''b'']], cm_working_directory = cp_work_root sample_paths,
     cm_runtime_fingerprint_sha256 = hex64, cm_runtime_fingerprint_path = Some (abs_of [lit ''b'']),
     cm_environment = [], cm_environment_mode = lit ''clean''\<rparr>"

definition sample_receipt :: "string \<Rightarrow> receipt_spec" where
  "sample_receipt n = \<lparr>rc_receipt_id = lit n, rc_path = rel_of [lit ''q'', lit n], rc_required = True, rc_sha256 = None\<rparr>"

definition sample_stage :: "string \<Rightarrow> ustr list \<Rightarrow> stage_spec" where
  "sample_stage n deps = \<lparr>st_stage_id = lit n, st_resources = sample_resources,
     st_expected_receipts = [sample_receipt n], st_command = Some sample_command, st_depends_on = deps,
     st_dependency_mode = lit (if deps = [] then ''afterok'' else ''afterany''), st_tasks = [],
     st_retry_policy = sample_retry\<rparr>"

definition sample_dataset :: "string \<Rightarrow> dataset_identity" where
  "sample_dataset n = \<lparr>ds_dataset_id = lit n, ds_manifest_sha256 = hex64, ds_storage_binding_sha256 = None,
     ds_source_uri = None\<rparr>"

definition sample_stages :: "stage_spec list" where
  "sample_stages = [sample_stage ''a'' [], sample_stage ''b'' [lit ''a'']]"

definition sample_plan :: execution_plan where
  "sample_plan = \<lparr>pl_project = lit ''p'', pl_campaign = lit ''camp'', pl_pipeline = lit ''pipe'',
     pl_run_id = sample_run_id, pl_source_commit = replicate 40 97, pl_source_bundle_sha256 = hex64,
     pl_datasets = [sample_dataset ''d1'', sample_dataset ''d2''], pl_paths = sample_paths,
     pl_stages = sample_stages, pl_schema_version = 1\<rparr>"

text \<open>Its envelope under a constant digest, with the two members in either order.\<close>

definition sample_envelope :: "bool \<Rightarrow> json" where
  "sample_envelope swapped =
     JObj ((if \<not> swapped then [] else [(lit ''plan_sha256'', JStr hex64)])
       @ [(lit ''execution_plan'', JObj (plan_to_dict sample_plan))]
       @ (if \<not> swapped then [(lit ''plan_sha256'', JStr hex64)] else []))"

text \<open>Roots that coincide but are spelled with two leading slashes.\<close>

definition double_slash_paths :: canonical_paths where
  "double_slash_paths = sample_paths
     \<lparr>cp_work_root := slash # abs_of (sample_root @ [lit ''w'']),
      cp_receipts_root := slash # abs_of (sample_root @ [lit ''w''])\<rparr>"

section \<open>It is accepted\<close>

lemma hex64_sha [simp]: "SHA256_RE hex64"
  by (simp add: SHA256_RE_def hex64_def is_lower_hex_def list_all_iff)

lemma ident_lit [simp]: "ident_ok (lit s) \<longleftrightarrow> IDENTIFIER_RE (lit s)"
  by (simp add: ident_ok_def)

lemmas char_eval = IDENTIFIER_RE_def is_alnum_def is_ident_char_def lit_def

lemma sample_idents [simp]:
  "IDENTIFIER_RE (lit ''p'')" "IDENTIFIER_RE (lit ''a'')" "IDENTIFIER_RE (lit ''b'')" "IDENTIFIER_RE (lit ''d1'')"
  "IDENTIFIER_RE (lit ''d2'')" "IDENTIFIER_RE (lit ''camp'')" "IDENTIFIER_RE (lit ''pipe'')"
  "IDENTIFIER_RE (lit ''short'')" "ident_ok sample_run_id"
  by (simp_all add: char_eval ident_ok_def sample_run_id_def)

lemma plain_lits [simp]:
  "plain_comp (lit ''s'')" "plain_comp (lit ''camp'')" "plain_comp (lit ''r'')" "plain_comp (lit ''q'')"
  "plain_comp (lit ''l'')" "plain_comp (lit ''w'')" "plain_comp (lit ''a'')" "plain_comp (lit ''b'')"
  "plain_comp (lit ''execution'')" "plain_comp sample_run_id"
  by (simp_all add: plain_comp_def is_alnum_def is_ident_char_def lit_def sample_run_id_def)

lemma good_lits [simp]:
  "good_comp (lit ''s'')" "good_comp (lit ''camp'')" "good_comp (lit ''r'')" "good_comp (lit ''q'')"
  "good_comp (lit ''l'')" "good_comp (lit ''w'')" "good_comp (lit ''a'')" "good_comp (lit ''b'')"
  "good_comp (lit ''execution'')" "good_comp sample_run_id"
  by (simp_all add: plain_good)

lemma sample_run_ne [simp]: "sample_run_id \<noteq> lit s \<longleftrightarrow> s \<noteq> ''RUN_20240101T120000Z_camp''"
  by (auto simp: sample_run_id_def)

lemma name_less [simp]:
  "lit ''work_root'' < lit ''work_root'' \<longleftrightarrow> False" "lit ''receipts_root'' < lit ''work_root''"
  "lit ''logs_root'' < lit ''work_root''" "lit ''results_root'' < lit ''work_root''"
  "\<not> lit ''work_root'' < lit ''receipts_root''" "\<not> lit ''work_root'' < lit ''logs_root''"
  "\<not> lit ''work_root'' < lit ''results_root''" "lit ''receipts_root'' < lit ''results_root''"
  "\<not> lit ''results_root'' < lit ''receipts_root''" "lit ''logs_root'' < lit ''receipts_root''"
  "lit ''logs_root'' < lit ''results_root''" "\<not> lit ''receipts_root'' < lit ''logs_root''"
  "\<not> lit ''results_root'' < lit ''logs_root''"
  by (simp_all add: lit_def)

lemma root_pairs_eq:
  "root_pairs p = [(cp_receipts_root p, cp_work_root p), (cp_receipts_root p, cp_results_root p),
     (cp_logs_root p, cp_work_root p), (cp_logs_root p, cp_receipts_root p), (cp_logs_root p, cp_results_root p),
     (cp_results_root p, cp_work_root p)]"
  by (simp add: root_pairs_def non_overlapping_roots_def)

lemma sample_paths_ok: "paths_post_init sample_paths = Inr sample_paths"
  by (simp add: paths_post_init_def sample_paths_def sample_root_def root_pairs_eq is_within_abs_of
      overlap_abs_of abs_path_ok_abs_of strict_prefix_def)

lemma sample_resources_ok: "resources.canonical sample_resources"
  by (simp add: resources.canonical_def resources_post_init_def sample_resources_def time_limit_seconds_def
      TIME_LIMIT_RE_def clock_match_def is_nd_def nd_zeros_def lit_def after_last_def int_of_digits_def nat_of_digits_def nd_value_ascii IDENTIFIER_RE_def is_alnum_def
      is_ident_char_def ident_ok_def)

lemma sample_retry_ok: "retry.canonical sample_retry"
  by (simp add: retry.canonical_def retry_post_init_def sample_retry_def RETRYABLE_SLURM_STATES_def)

lemma sample_command_ok: "command.canonical sample_command"
  by (simp add: command.canonical_def command_post_init_iff command_ok_def sample_command_def sample_paths_def
      sample_root_def abs_path_ok_abs_of single_line_rel_of runtime_path_def)

lemma sample_receipt_ok: "n = ''a'' \<or> n = ''b'' \<Longrightarrow> receipt.canonical (sample_receipt n)"
  by (auto simp: receipt.canonical_def receipt_post_init_def sample_receipt_def rel_path_ok_rel_of)

lemma sample_stage_ok:
  "stage.canonical (sample_stage ''a'' [])" "stage.canonical (sample_stage ''b'' [lit ''a''])"
  by (simp_all add: stage.canonical_def stage_post_init_iff stage_ok_def stage_canon_def stage_sound_def
      sample_stage_def DEPENDENCY_MODES_def sample_resources_ok sample_retry_ok sample_command_ok sample_receipt_ok
      ident_wire) (simp_all add: sample_receipt_def)

lemma sample_dataset_ok: "n = ''d1'' \<or> n = ''d2'' \<Longrightarrow> dataset.canonical (sample_dataset n)"
  by (auto simp: dataset.canonical_def dataset_post_init_def sample_dataset_def)

lemma sample_by_id:
  "by_id sample_stages = [(lit ''a'', sample_stage ''a'' []), (lit ''b'', sample_stage ''b'' [lit ''a''])]"
  by (simp add: by_id_def sample_stages_def sample_stage_def dset_def)

lemma sample_less [simp]: "lit ''a'' < lit ''b''" "lit ''a'' \<le> lit ''b''" "lit ''d1'' \<le> lit ''d2''"
  by (simp_all add: lit_def)

lemma sample_order: "topological_stage_ids sample_stages = Inr [lit ''a'', lit ''b'']"
  by (simp add: topological_stage_ids_def sample_by_id Let_def)
    (simp add: sample_stages_def numeral_2_eq_2 stage_at_def sample_stage_def)

lemma sample_bounds: "derived_attempt_bounds sample_stages = Inr [(lit ''a'', 3), (lit ''b'', 5)]"
  by (simp add: derived_attempt_bounds_def sample_order sample_by_id Let_def)
    (simp add: sample_stages_def numeral_2_eq_2 stage_at_def sample_stage_def add_generations_def dset_def sample_retry_def)

lemma sample_digits: "length (lit ''20240101'') = 8" "list_all is_nd (lit ''20240101'')"
  "length (lit ''120000'') = 6" "list_all is_nd (lit ''120000'')"
  by (simp_all add: lit_def is_nd_small)

lemma sample_run_id_parts: "run_id_parts b sample_run_id = Some (lit ''20240101T120000Z'', lit ''camp'')"
  using run_id_parts_join [OF sample_digits, of b "lit ''camp''"]
  by (simp add: sample_run_id_def flip: lit_append)

lemma sample_run_id_ok [simp]: "STRICT_RUN_ID_RE sample_run_id" "campaign_of sample_run_id [] = lit ''camp''"
  by (simp_all add: STRICT_RUN_ID_RE_def sample_run_id_parts campaign_of_def parse_run_id_def)
    (simp_all add: lit_def or_uncategorized_def strip_underscores_def strip_by_def)

lemma sample_graph_ok: "graph_ok sample_stages"
  by (simp add: graph_ok_def sample_order sample_bounds)
    (simp add: sample_stages_def stage_ids_def deps_known_def sample_stage_def)

lemma sample_receipts: "all_receipts sample_plan = [sample_receipt ''a'', sample_receipt ''b'']"
  by (simp add: all_receipts_def sample_plan_def sample_stages_def sample_stage_def)

lemma sample_receipt_placed: "n = ''a'' \<or> n = ''b'' \<Longrightarrow> receipt_placed sample_plan (sample_receipt n)"
  by (auto simp: receipt_placed_def receipt_location_def engine_receipts_def sample_plan_def
      sample_paths_def sample_root_def sample_receipt_def path_join_rel_of path_join_abs_of is_within_abs_of
      abs_of_inj strict_prefix_def simp del: path_join.simps)

lemma sample_root_names:
  "basename (cp_run_root sample_paths) = sample_run_id"
  "basename (dirname (cp_run_root sample_paths)) = lit ''camp''"
  using basename_abs_of [of sample_run_id "[lit ''s'', lit ''camp'']"]
    dirname_abs_of [of sample_run_id "[lit ''s'', lit ''camp'']"] basename_abs_of [of "lit ''camp''" "[lit ''s'']"]
  by (simp_all add: sample_paths_def sample_root_def)

lemma sample_commands_placed:
  "\<forall>s \<in> set (pl_stages sample_plan). \<forall>c \<in> set (stage_commands s). command_placed sample_plan c"
  by (simp add: sample_plan_def sample_stages_def sample_stage_def stage_commands_def command_placed_def
      sample_command_def)

lemma sample_receipts_distinct:
  "distinct (map rc_path (all_receipts sample_plan))" "distinct (map rc_receipt_id (all_receipts sample_plan))"
  by (simp_all add: sample_receipts sample_receipt_def rel_of_def)

lemma sample_commit: "GIT_COMMIT_RE (replicate 40 97)"
  by (simp add: GIT_COMMIT_RE_def is_lower_hex_def list_all_iff)

lemma sample_plan_ok: "plan_post_init sample_plan = Inr sample_plan"
proof -
  have "plan_canon sample_plan = sample_plan"
    by (simp add: plan_canon_def sample_plan_def sample_stages_def sample_stage_def sample_dataset_def)
  moreover have "plan_ok sample_plan"
    unfolding plan_ok_def using sample_commands_placed sample_receipts_distinct sample_receipt_placed
    by (intro conjI) (simp_all add: sample_receipts, simp_all add: sample_plan_def sample_root_names
      sample_graph_ok sample_commit sample_dataset_def)
  ultimately show ?thesis by (simp add: plan_post_init_iff)
qed

lemma sample_plan_canonical: "plan.canonical sample_plan"
  by (simp add: plan.canonical_def sample_plan_ok plan_sound_def)
    (simp add: sample_plan_def paths.canonical_def sample_paths_ok sample_dataset_ok sample_stages_def sample_stage_ok)

text \<open>Paths with two leading slashes have the components of the path with one.\<close>

lemma double_slash_ok:
  assumes "cs \<noteq> []" and "\<forall>c \<in> set cs. plain_comp c"
  shows "abs_path_ok (slash # abs_of cs)"
proof -
  have g: "\<forall>c \<in> set cs. good_comp c" using assms(2) plain_good by blast
  note hd = rel_of_hd [OF assms(1) g]
  have i: "initial_slashes (slash # abs_of cs) = 2"
    using hd(1,2) by (cases "rel_of cs") (simp_all add: initial_slashes_def abs_of_rel_of)
  have "slash_split (slash # abs_of cs) = [] # [] # cs"
    using assms(1) g by (simp add: abs_of_def slash_split_slash slash_split_join)
  then have "norm_loop True [] (slash_split (slash # abs_of cs)) = cs" using g by (simp add: norm_loop_fix)
  with i have "normpath (slash # abs_of cs) = slash # abs_of cs"
    by (simp add: normpath_def Let_def numeral_2_eq_2) (simp add: abs_of_def)
  then show ?thesis
    using single_line_rel_of(2) [OF assms]
    by (simp add: abs_path_ok_def is_single_line_string_def contains_surrogate_def)
qed

lemma double_slash_within:
  assumes "\<forall>c \<in> set cs. good_comp c" and "\<forall>c \<in> set ds. good_comp c"
  shows "is_within (slash # abs_of cs) (abs_of ds) \<longleftrightarrow> prefix ds cs"
    and "overlap (slash # abs_of cs) (slash # abs_of ds) = Inr False"
    and "overlap (abs_of ds) (slash # abs_of cs) = Inr (prefix ds cs)"
    and "overlap (slash # abs_of cs) (abs_of ds) = Inr (prefix ds cs)"
proof -
  have l: "\<forall>c \<in> set (lcp cs ds). good_comp c" "\<forall>c \<in> set (lcp ds cs). good_comp c"
    using set_lcp [of cs ds] set_lcp [of ds cs] assms by blast+
  have ne: "slash # abs_of xs \<noteq> abs_of ys" if "\<forall>c \<in> set ys. good_comp c" for xs ys
  proof
    assume "slash # abs_of xs = abs_of ys"
    then have e: "rel_of ys = abs_of xs" by (simp add: abs_of_rel_of)
    then have "ys \<noteq> []" by (auto simp: rel_of_def abs_of_def)
    from rel_of_hd(3) [OF this that] e show False by simp
  qed
  show "is_within (slash # abs_of cs) (abs_of ds) \<longleftrightarrow> prefix ds cs"
    using ne [OF assms(2), of cs] abs_of_inj [OF l(1) assms(2)]
    by (simp add: is_within_def commonpath_abs comps_abs_of assms lcp_eq_right)
  show "overlap (slash # abs_of cs) (slash # abs_of ds) = Inr False"
    using ne [OF l(1)] by (auto simp: overlap_def commonpath_abs comps_abs_of assms dest: sym)
  show o: "overlap (abs_of ds) (slash # abs_of cs) = Inr (prefix ds cs)"
    using ne [OF l(2), of cs] abs_of_inj [OF l(2) assms(2)]
    by (auto simp: overlap_def commonpath_abs comps_abs_of assms lcp_eq_left dest: sym)
  have "overlap l r = overlap r l" for l r
    by (auto simp: overlap_def commonpath_def min.commute max.commute disj_commute)
  with o show "overlap (slash # abs_of cs) (abs_of ds) = Inr (prefix ds cs)" by metis
qed

lemma double_slash_paths_ok: "paths_post_init double_slash_paths = Inr double_slash_paths"
  by (simp add: paths_post_init_def double_slash_paths_def sample_paths_def sample_root_def root_pairs_eq
      is_within_abs_of overlap_abs_of abs_path_ok_abs_of strict_prefix_def double_slash_ok double_slash_within)

end
