(* ===== verification/Plan_Encode.thy ===== *)
theory Plan_Encode
  imports Plan_Facts
begin

text \<open>
  Hashing a plan never fails: the payload of every value class of a plan is free of floats and of
  unpaired surrogates, so its canonical JSON text exists and has UTF-8 bytes.
\<close>

section \<open>Values with canonical bytes\<close>

fun clean :: "json \<Rightarrow> bool" where
  "clean (JFloat f) = False"
| "clean (JStr s) = list_all is_scalar s"
| "clean (JArr xs) = (\<forall>x \<in> set xs. clean x)"
| "clean (JObj d) = (\<forall>(k, v) \<in> set d. list_all is_scalar k \<and> clean v)"
| "clean _ = True"

lemma clean_sorted: "clean v \<Longrightarrow> clean (sorted_members v)"
  by (induction v rule: clean.induct) (auto simp: case_prod_unfold)

lemma clean_floats: "clean v \<Longrightarrow> floats v = []"
  by (induction v rule: clean.induct) (auto simp: case_prod_unfold)

lemma set_join_sub: "set (join sep xs) \<subseteq> set sep \<union> (\<Union>x \<in> set xs. set x)"
  by (induction sep xs rule: join.induct) auto

lemma scalar_join: "list_all is_scalar sep \<Longrightarrow> \<forall>x \<in> set xs. list_all is_scalar x \<Longrightarrow> list_all is_scalar (join sep xs)"
  using set_join_sub [of sep xs] by (fastforce simp: list_all_iff)

lemma scalar_small: "c < 55296 \<Longrightarrow> is_scalar c"
  by (simp add: is_scalar_def)

lemma scalar_escape: "is_scalar c \<Longrightarrow> list_all is_scalar (escape_char c)"
  by (auto simp: escape_char_def hex_digit_def intro!: scalar_small)

lemma scalar_json_string: "list_all is_scalar s \<Longrightarrow> list_all is_scalar (json_string s)"
  using scalar_escape by (fastforce simp: json_string_def list_all_iff scalar_small)

lemma scalar_lit [simp]: "list_all is_scalar (lit s)"
proof -
  have "(of_char c :: nat) < 256" for c by simp
  then have "is_scalar (of_char c)" for c by (rule scalar_small [OF less_trans]) simp
  then show ?thesis by (auto simp: lit_def list_all_iff)
qed

lemma scalar_str_int: "list_all is_scalar (str_int i)"
proof -
  have "c < 58" if "c \<in> set (str_int i)" for c
    using that dec_digits_range by (fastforce simp: str_int_def split: if_splits)
  then show ?thesis using scalar_small by (fastforce simp: list_all_iff)
qed

lemma scalar_render: "clean v \<Longrightarrow> list_all is_scalar (render v)"
proof (induction v rule: clean.induct)
  case (4 d)
  then have "list_all is_scalar (json_string k @ [58] @ render v)" if "(k, v) \<in> set d" for k v
    using that by (force simp: scalar_small intro!: scalar_json_string)
  then show ?case by (auto simp: scalar_small intro!: scalar_join)
qed (auto simp: scalar_str_int scalar_small intro!: scalar_join scalar_json_string)

lemma clean_bytes: "clean v \<Longrightarrow> \<exists>b. canonical_json_bytes v = Inr b"
  using clean_sorted [of v] clean_floats [of "sorted_members v"] scalar_render [of "sorted_members v"]
  by (simp add: canonical_json_bytes_def dumps_def encode_utf8_def)

section \<open>The value classes of a plan\<close>

locale text_value = wire_value +
  assumes payload_clean: "canonical x \<Longrightarrow> clean (JObj (to_dict x))"
begin

lemma list_clean: "\<forall>x \<in> set xs. canonical x \<Longrightarrow> clean (JArr (map (\<lambda>x. JObj (to_dict x)) xs))"
  using payload_clean by (simp del: clean.simps(4))

lemma encodes: "canonical x \<Longrightarrow> \<exists>b. canonical_json_bytes (JObj (to_dict x)) = Inr b"
  by (rule clean_bytes [OF payload_clean])

end

lemma wire_scalar: "wire_str s \<Longrightarrow> list_all is_scalar s"
  by (auto simp: wire_str_def contains_surrogate_def list_ex_iff list_all_iff is_scalar_def)

lemma clean_strs: "clean (jstrs xs) \<longleftrightarrow> (\<forall>x \<in> set xs. list_all is_scalar x)"
  by (simp add: jstrs_def)

lemma clean_opt [simp]: "clean (opt_json v) \<longleftrightarrow> opt_ok (list_all is_scalar) v"
  by (cases v) (simp_all add: opt_json_def)

lemma clean_opt_field: "opt_ok wire_str v \<Longrightarrow> clean (JObj (opt_field k v))"
  by (cases v) (simp_all add: opt_field_def wire_scalar)

lemma clean_Obj [simp]:
  "clean (JObj []) = True" "clean (JObj ((k, v) # d)) = (list_all is_scalar k \<and> clean v \<and> clean (JObj d))"
  "clean (JObj (d @ e)) = (clean (JObj d) \<and> clean (JObj e))"
  by auto

lemma clean_JStr: "wire_str s \<Longrightarrow> clean (JStr s)"
  by (simp add: wire_scalar)

lemma clean_opt_json: "opt_ok wire_str v \<Longrightarrow> clean (opt_json v)"
  by (cases v) (simp_all add: wire_scalar)

lemmas clean_intros = clean_JStr clean_opt_json clean_opt_field

interpretation dataset: text_value dataset_post_init "\<lambda>_. True" dataset_to_dict dataset_from_dict
proof
  show "dataset.canonical x \<Longrightarrow> clean (JObj (dataset_to_dict x))" for x
    using dataset_fields_ok [of x x]
    by (simp add: dataset.canonical_def dataset_to_dict_def clean_intros wire_scalar del: clean.simps(4))
qed

interpretation paths: text_value paths_post_init "\<lambda>_. True" paths_to_dict paths_from_dict
proof
  show "paths.canonical x \<Longrightarrow> clean (JObj (paths_to_dict x))" for x
    using paths_fields_ok(1-6) [of x x]
    by (simp add: paths.canonical_def paths_to_dict_def clean_intros wire_intros wire_scalar opt_ok_mono del: clean.simps(4))
qed

lemma receipt_fields_ok:
  "receipt_post_init x = Inr y \<Longrightarrow> wire_str (rc_path x) \<and> wire_str (rc_receipt_id x) \<and> opt_ok wire_str (rc_sha256 x)"
  by (auto simp: receipt_post_init_def wire_intros)

interpretation receipt: text_value receipt_post_init "\<lambda>_. True" receipt_to_dict receipt_from_dict
proof
  show "receipt.canonical x \<Longrightarrow> clean (JObj (receipt_to_dict x))" for x
    using receipt_fields_ok [of x x]
    by (simp add: receipt.canonical_def receipt_to_dict_def clean_intros wire_scalar del: clean.simps(4))
qed

lemma retry_states_scalar: "retry_post_init x = Inr y \<Longrightarrow> \<forall>s \<in> set (rp_retryable_slurm_states x). list_all is_scalar s"
  by (auto simp: retry_post_init_def dest!: subsetD)

interpretation retry: text_value retry_post_init "\<lambda>_. True" retry_to_dict retry_from_dict
proof
  show "retry.canonical x \<Longrightarrow> clean (JObj (retry_to_dict x))" for x
    using retry_states_scalar [of x x]
    by (simp add: retry.canonical_def retry_to_dict_def clean_strs del: clean.simps(4))
qed

interpretation resources: text_value resources_post_init "\<lambda>_. True" resources_to_dict resources_from_dict
proof
  show "resources.canonical x \<Longrightarrow> clean (JObj (resources_to_dict x))" for x
    using resources_fields_ok [of x]
    by (simp add: resources.canonical_def resources_post_init_iff resources_to_dict_def clean_strs clean_intros
        wire_scalar del: clean.simps(4) clean_opt)
qed

interpretation command: text_value command_post_init "\<lambda>_. True" command_to_dict command_from_dict
proof
  show "command.canonical x \<Longrightarrow> clean (JObj (command_to_dict x))" for x
    using command_fields_ok [of x]
    by (simp add: command.canonical_def command_post_init_iff command_to_dict_def clean_strs wire_scalar
        del: clean.simps(4))
qed

lemma clean_receipts: "\<forall>r \<in> set rs. receipt.canonical r \<Longrightarrow> clean (receipts_json rs)"
  unfolding receipts_json_def by (rule receipt.list_clean) simp

interpretation task: text_value task_post_init task_sound task_to_dict task_from_dict
proof
  show "task.canonical x \<Longrightarrow> clean (JObj (task_to_dict x))" for x
    using task_post_init_same [of x x] command.payload_clean [of "tk_command x"]
      clean_receipts [of "tk_expected_receipts x"]
    by (simp add: task.canonical_def task_sound_def task_to_dict_def wire_scalar ident_wire del: clean.simps(4))
qed

lemma clean_command:
  "opt_ok command.canonical c \<Longrightarrow> clean (case c of None \<Rightarrow> JNull | Some c \<Rightarrow> JObj (command_to_dict c))"
  using command.payload_clean by (cases c) (simp_all del: clean.simps(4))

interpretation stage: text_value stage_post_init stage_sound stage_to_dict stage_from_dict
proof
  fix x
  assume can: "stage.canonical x"
  then have s: "stage_sound x" and w: "wire_str (st_stage_id x)" "wire_str (st_dependency_mode x)"
    using stage_wire [of x] by (simp_all add: stage.canonical_def stage_post_init_iff)
  have "clean (JArr (map (\<lambda>t. JObj (task_to_dict t)) (sort_key tk_task_id (st_tasks x))))"
    using s by (intro task.list_clean) (simp add: stage_sound_def)
  with s w show "clean (JObj (stage_to_dict x))"
    unfolding stage_to_dict_def stage_sound_def
    by (simp add: clean_command clean_receipts resources.payload_clean retry.payload_clean clean_strs wire_scalar
        del: clean.simps(3,4))
qed

interpretation plan: text_value plan_post_init plan_sound plan_to_dict plan_from_dict
proof
  fix x
  assume can: "plan.canonical x"
  then have ok: "plan_ok x" and s: "plan_sound x" by (simp_all add: plan.canonical_def plan_post_init_iff)
  have w: "wire_str (pl_project x)" "wire_str (pl_campaign x)" "wire_str (pl_pipeline x)"
    "wire_str (pl_run_id x)" "wire_str (pl_source_commit x)" "wire_str (pl_source_bundle_sha256 x)"
    using ok unfolding plan_ok_def by (blast intro: wire_intros commit_wire)+
  have "clean (JArr (map (\<lambda>d. JObj (dataset_to_dict d)) (sort_key ds_dataset_id (pl_datasets x))))"
    "clean (JArr (map (\<lambda>t. JObj (stage_to_dict t)) (sort_key st_stage_id (pl_stages x))))"
    using s by (auto intro!: dataset.list_clean stage.list_clean simp: plan_sound_def simp del: clean.simps)
  with s w show "clean (JObj (plan_to_dict x))"
    unfolding plan_to_dict_def plan_sound_def
    by (simp add: paths.payload_clean wire_scalar del: clean.simps(3,4))
qed

text \<open>Every accepted plan has a digest.\<close>

lemma plan_sha256_total: "plan.canonical p \<Longrightarrow> \<exists>b. canonical_json_bytes (JObj (plan_to_dict p)) = Inr b \<and> plan_sha256 sha p = Inr (sha b)"
  using plan.encodes [of p] by (auto simp: plan_sha256_def)

end
