(* ===== verification/Plan_Paths.thy ===== *)
theory Plan_Paths
  imports Plan_Facts
begin

text \<open>
  What the string tests on paths mean for the directories they name: an accepted containment test
  is containment of component lists, and a receipt's location is a proper descendant of the
  receipts directory outside the engine's own namespace.
\<close>

section \<open>Normalised relative paths\<close>

text \<open>Normalising a relative path leaves some leading parent references and then good components.\<close>

definition parents_then_good :: "ustr list \<Rightarrow> bool" where
  "parents_then_good cs \<longleftrightarrow> (\<exists>k ds. cs = replicate k dotdot @ ds \<and> (\<forall>c \<in> set ds. good_comp c))"

lemma parents_then_good_snoc:
  "parents_then_good cs \<Longrightarrow> good_comp c \<Longrightarrow> parents_then_good (cs @ [c])"
  unfolding parents_then_good_def by (elim exE conjE, rename_tac k ds, rule_tac x = k in exI) auto

lemma parents_then_good_up:
  assumes "parents_then_good cs" and "cs = [] \<or> last cs = dotdot"
  shows "parents_then_good (cs @ [dotdot])"
proof -
  obtain k ds where cs: "cs = replicate k dotdot @ ds" "\<forall>c \<in> set ds. good_comp c"
    using assms(1) unfolding parents_then_good_def by blast
  have "ds = []"
  proof (rule ccontr)
    assume "ds \<noteq> []"
    with cs have "last cs \<in> set ds" "cs \<noteq> []" by auto
    with cs(2) assms(2) show False by (auto simp: good_comp_def)
  qed
  with cs have "cs @ [dotdot] = replicate (Suc k) dotdot @ []" by (simp add: replicate_append_same)
  then show ?thesis unfolding parents_then_good_def by (metis empty_iff list.set(1))
qed

lemma parents_then_good_butlast: "parents_then_good cs \<Longrightarrow> last cs \<noteq> dotdot \<Longrightarrow> parents_then_good (butlast cs)"
proof -
  assume "parents_then_good cs" and l: "last cs \<noteq> dotdot"
  then obtain k ds where cs: "cs = replicate k dotdot @ ds" "\<forall>c \<in> set ds. good_comp c"
    unfolding parents_then_good_def by blast
  show ?thesis
  proof (cases "ds = []")
    case True
    with cs l have "k = 0" by (cases k) (auto simp: replicate_append_same [symmetric])
    with True cs show ?thesis by (auto simp: parents_then_good_def)
  next
    case False
    with cs have "butlast cs = replicate k dotdot @ butlast ds" by (simp add: butlast_append)
    with cs(2) show ?thesis unfolding parents_then_good_def by (metis in_set_butlastD)
  qed
qed

lemma norm_loop_rel:
  "parents_then_good (rev acc) \<Longrightarrow> \<forall>c \<in> set cs. slash \<notin> set c \<Longrightarrow> parents_then_good (norm_loop False acc cs)"
proof (induction cs arbitrary: acc)
  case (Cons c cs)
  have rest: "\<forall>c \<in> set cs. slash \<notin> set c" using Cons.prems(2) by simp
  have top: "acc = [] \<or> hd acc = dotdot \<longleftrightarrow> rev acc = [] \<or> last (rev acc) = dotdot" by (cases acc) auto
  consider "c = [] \<or> c = dot" | "c = dotdot" "acc = [] \<or> hd acc = dotdot" | "c = dotdot" "acc \<noteq> []" "hd acc \<noteq> dotdot"
    | "good_comp c" using Cons.prems(2) by (auto simp: good_comp_def)
  then show ?case
  proof cases
    case 1
    with Cons.IH [OF Cons.prems(1) rest] show ?thesis by auto
  next
    case 2
    then have "parents_then_good (rev (c # acc))" using parents_then_good_up [OF Cons.prems(1)] top by simp
    from Cons.IH [OF this rest] 2 show ?thesis by auto
  next
    case 3
    then have "parents_then_good (rev (tl acc))"
      using parents_then_good_butlast [OF Cons.prems(1)] by (cases acc) auto
    from Cons.IH [OF this rest] 3 show ?thesis by auto
  next
    case 4
    then have "parents_then_good (rev (c # acc))" using parents_then_good_snoc [OF Cons.prems(1)] by simp
    from Cons.IH [OF this rest] 4 show ?thesis by (auto simp: good_comp_def)
  qed
qed simp

lemma rel_path_comps:
  assumes "rel_path_ok p"
  obtains ds where "p = rel_of ds" "ds \<noteq> []" "\<forall>c \<in> set ds. good_comp c"
proof -
  have p: "p \<noteq> []" "\<not> isabs p" "p \<noteq> dot" "p \<noteq> dotdot" "normpath p = p" "\<not> startswith p (dotdot @ [slash])"
    using assms by (auto simp: rel_path_ok_def is_single_line_string_def)
  define cs where "cs = norm_loop False [] (slash_split p)"
  have "parents_then_good cs" unfolding cs_def
    by (rule norm_loop_rel) (auto simp: parents_then_good_def dest: slash_split_noslash)
  then obtain k ds where cs: "cs = replicate k dotdot @ ds" "\<forall>c \<in> set ds. good_comp c"
    unfolding parents_then_good_def by blast
  have n: "normpath p = (if rel_of cs = [] then dot else rel_of cs)"
    using p(1,2) by (simp add: normpath_def initial_slashes_def cs_def rel_of_def Let_def)
  with p(3,5) have pc: "p = rel_of cs" "cs \<noteq> []" by (auto simp: rel_of_def split: if_splits)
  have "k = 0"
  proof (rule ccontr)
    assume "k \<noteq> 0"
    then obtain k' where "cs = dotdot # (replicate k' dotdot @ ds)" using cs(1) by (cases k) auto
    then have "p = dotdot \<or> (\<exists>x. p = dotdot @ [slash] @ x)"
      using pc(1) by (cases "replicate k' dotdot @ ds") (auto simp: rel_of_def)
    with p(4,6) show False by (auto simp: startswith_iff)
  qed
  with cs pc show thesis by (intro that [of cs]) auto
qed

section \<open>Containment of component lists\<close>

lemma abs_path_ok_cases:
  assumes "abs_path_ok p"
  obtains "p = abs_of (comps p)" | "p = slash # abs_of (comps p)"
  using assms normalized_abs_cases [of p] unfolding abs_path_ok_def by metis

lemma abs_path_ok_comps: "abs_path_ok p \<Longrightarrow> \<forall>c \<in> set (comps p). good_comp c"
  using comps_good [of p] unfolding abs_path_ok_def by blast

text \<open>The test \<open>_is_within\<close> succeeds only below a root with a single leading slash.\<close>

lemma is_within_comps:
  assumes "abs_path_ok p" and "abs_path_ok r" and "is_within p r"
  shows "r = abs_of (comps r)" and "prefix (comps r) (comps p)"
proof -
  have g: "\<forall>c \<in> set (comps p). good_comp c" "\<forall>c \<in> set (comps r). good_comp c"
    using assms(1,2) abs_path_ok_comps by blast+
  have l: "\<forall>c \<in> set (lcp (comps p) (comps r)). good_comp c"
    using set_lcp [of "comps p" "comps r"] g(1) by blast
  have "isabs p" "isabs r" using assms(1,2) by (simp_all add: abs_path_ok_def)
  with assms(3) have e: "abs_of (lcp (comps p) (comps r)) = r" by (simp add: is_within_def commonpath_abs)
  then have "lcp (comps p) (comps r) = comps r" using comps_abs_of [OF l] by simp
  with e show "r = abs_of (comps r)" "prefix (comps r) (comps p)" by (simp_all add: lcp_eq_right)
qed

lemma abs_path_ok_ne: "abs_path_ok p \<Longrightarrow> p = abs_of (comps p) \<Longrightarrow> comps p \<noteq> []"
  by (auto simp: abs_path_ok_def abs_of_def)

section \<open>Locations of receipts\<close>

text \<open>The roots of accepted paths: the run root is below one slash and has good components.\<close>

lemma paths_run_root:
  assumes "paths_post_init x = Inr y"
  shows "cp_run_root x = abs_of (comps (cp_run_root x))" "comps (cp_run_root x) \<noteq> []"
    "\<forall>c \<in> set (comps (cp_run_root x)). good_comp c"
proof -
  note f = paths_fields_ok [OF assms]
  show r: "cp_run_root x = abs_of (comps (cp_run_root x))" by (rule is_within_comps(1) [OF f(2,1,7)])
  show "comps (cp_run_root x) \<noteq> []" by (rule abs_path_ok_ne [OF f(1) r])
  show "\<forall>c \<in> set (comps (cp_run_root x)). good_comp c" using abs_path_ok_comps f(1) by blast
qed

lemma path_join_root:
  assumes "cs \<noteq> []" and "\<forall>c \<in> set cs. good_comp c" and "\<not> isabs q"
  shows "path_join (abs_of cs) [q] = abs_of cs @ [slash] @ q"
  using assms join_last_good [of cs] by (simp add: abs_of_def)

lemma receipt_location_eq:
  assumes "paths.canonical (pl_paths p)" and "receipt.canonical r"
  obtains ds where "rc_path r = rel_of ds" "ds \<noteq> []" "\<forall>c \<in> set ds. good_comp c"
    "receipt_location p r = abs_of (comps (cp_run_root (pl_paths p)) @ ds)"
proof -
  have pp: "paths_post_init (pl_paths p) = Inr (pl_paths p)" using assms(1) by (simp add: paths.canonical_def)
  note root = paths_run_root [OF pp]
  have "rel_path_ok (rc_path r)" using assms(2) by (simp add: receipt.canonical_def receipt_post_init_def)
  then obtain ds where ds: "rc_path r = rel_of ds" "ds \<noteq> []" "\<forall>c \<in> set ds. good_comp c" by (rule rel_path_comps)
  have "receipt_location p r = path_join (abs_of (comps (cp_run_root (pl_paths p)))) [rel_of ds]"
    using root(1) ds(1) by (simp only: receipt_location_def)
  with path_join_rel_of [OF root(2,3) ds(2,3)] ds show thesis by (intro that) simp_all
qed

lemma receipt_location_inj:
  assumes "paths.canonical (pl_paths p)" and "receipt.canonical r" and "receipt.canonical s"
    and "receipt_location p r = receipt_location p s"
  shows "rc_path r = rc_path s"
proof -
  let ?cs = "comps (cp_run_root (pl_paths p))"
  obtain ds where ds: "rc_path r = rel_of ds" "\<forall>c \<in> set ds. good_comp c" "receipt_location p r = abs_of (?cs @ ds)"
    using receipt_location_eq [OF assms(1,2)] by metis
  obtain es where es: "rc_path s = rel_of es" "\<forall>c \<in> set es. good_comp c" "receipt_location p s = abs_of (?cs @ es)"
    using receipt_location_eq [OF assms(1,3)] by metis
  have "\<forall>c \<in> set ?cs. good_comp c" using paths_run_root(3) assms(1) by (simp add: paths.canonical_def)
  with ds es assms(4) have "?cs @ ds = ?cs @ es"
    by (metis (no_types, lifting) Un_iff comps_abs_of set_append)
  with ds es show ?thesis by simp
qed

text \<open>With at least one receipt, the receipts root too is below one slash.\<close>

lemma receipts_root_single:
  assumes "paths.canonical (pl_paths p)" and "receipt.canonical r" and "receipt_placed p r"
  shows "cp_receipts_root (pl_paths p) = abs_of (comps (cp_receipts_root (pl_paths p)))"
    and "comps (cp_receipts_root (pl_paths p)) \<noteq> []"
    and "\<forall>c \<in> set (comps (cp_receipts_root (pl_paths p))). good_comp c"
proof -
  let ?root = "cp_receipts_root (pl_paths p)" and ?loc = "receipt_location p r"
  have pp: "paths_post_init (pl_paths p) = Inr (pl_paths p)" using assms(1) by (simp add: paths.canonical_def)
  have ok: "abs_path_ok ?root" by (rule paths_fields_ok(4) [OF pp])
  then show "\<forall>c \<in> set (comps ?root). good_comp c" by (rule abs_path_ok_comps)
  obtain ds where ds: "\<forall>c \<in> set ds. good_comp c" "?loc = abs_of (comps (cp_run_root (pl_paths p)) @ ds)"
    using receipt_location_eq [OF assms(1,2)] by metis
  let ?ls = "comps (cp_run_root (pl_paths p)) @ ds"
  have g: "\<forall>c \<in> set ?ls. good_comp c" using ds(1) paths_run_root(3) [OF pp] by auto
  have "is_within ?loc ?root" using assms(3) by (simp add: receipt_placed_def)
  then have "abs_of (lcp ?ls (comps ?root)) = ?root"
    using ok g by (simp add: is_within_def commonpath_abs ds(2) abs_path_ok_def comps_abs_of)
  moreover have "\<forall>c \<in> set (lcp ?ls (comps ?root)). good_comp c" using set_lcp [of ?ls "comps ?root"] g by blast
  ultimately show r: "?root = abs_of (comps ?root)" by (metis comps_abs_of)
  show "comps ?root \<noteq> []" by (rule abs_path_ok_ne [OF ok r])
qed

lemma engine_receipts_comps:
  assumes "cp_receipts_root (pl_paths p) = abs_of (comps (cp_receipts_root (pl_paths p)))"
    and "comps (cp_receipts_root (pl_paths p)) \<noteq> []"
    and "\<forall>c \<in> set (comps (cp_receipts_root (pl_paths p))). good_comp c"
  shows "comps (engine_receipts p) = comps (cp_receipts_root (pl_paths p)) @ [lit ''execution'']"
    and "engine_receipts p = abs_of (comps (cp_receipts_root (pl_paths p)) @ [lit ''execution''])"
proof -
  let ?root = "cp_receipts_root (pl_paths p)"
  have ge: "\<forall>c \<in> set [lit ''execution'']. good_comp c" by (simp add: good_comp_def lit_def)
  have "engine_receipts p = path_join (abs_of (comps ?root)) [lit ''execution'']"
    unfolding engine_receipts_def by (subst assms(1)) (rule refl)
  with path_join_abs_of [OF assms(2,3) ge]
  show e: "engine_receipts p = abs_of (comps ?root @ [lit ''execution''])" by simp
  have "\<forall>c \<in> set (comps ?root @ [lit ''execution'']). good_comp c" using assms(3) ge by auto
  with e show "comps (engine_receipts p) = comps ?root @ [lit ''execution'']" using comps_abs_of by simp
qed

lemma receipt_placed_comps:
  assumes "paths.canonical (pl_paths p)" and "receipt.canonical r" and "receipt_placed p r"
  shows "strict_prefix (comps (cp_receipts_root (pl_paths p))) (comps (receipt_location p r))"
    and "\<not> prefix (comps (engine_receipts p)) (comps (receipt_location p r))"
    and "\<not> prefix (comps (receipt_location p r)) (comps (engine_receipts p))"
proof -
  let ?root = "cp_receipts_root (pl_paths p)" and ?loc = "receipt_location p r"
  let ?es = "comps ?root @ [lit ''execution'']"
  note root = receipts_root_single [OF assms]
  note e = engine_receipts_comps [OF root]
  have ges: "\<forall>c \<in> set ?es. good_comp c" using root(3) by (simp add: good_comp_def lit_def)
  obtain ds where "\<forall>c \<in> set ds. good_comp c" "?loc = abs_of (comps (cp_run_root (pl_paths p)) @ ds)"
    using receipt_location_eq [OF assms(1,2)] by metis
  then obtain ls where ls: "?loc = abs_of ls" "\<forall>c \<in> set ls. good_comp c" "comps ?loc = ls"
    using paths_run_root(3) [of "pl_paths p"] assms(1) comps_abs_of
    by (metis Un_iff paths.canonical_def set_append)
  have sp: "strict_prefix (comps ?root) ls"
    using assms(3) is_within_abs_of [OF ls(2) root(3)] root(1) ls(1) by (simp add: receipt_placed_def)
  then show "strict_prefix (comps ?root) (comps ?loc)" using ls(3) by simp
  have np: "\<not> prefix ?es ls"
    using assms(3) unfolding receipt_placed_def ls(1) e(2) is_within_abs_of [OF ls(2) ges] abs_of_inj [OF ls(2) ges]
    by (auto simp: strict_prefix_def)
  then show "\<not> prefix (comps (engine_receipts p)) (comps ?loc)" using ls(3) e(1) by simp
  have "\<not> prefix ls ?es"
  proof
    assume "prefix ls ?es"
    then have "ls = ?es \<or> prefix ls (comps ?root)" by (auto simp: prefix_snoc)
    with np sp show False by (auto simp: strict_prefix_def dest: prefix_order.antisym)
  qed
  then show "\<not> prefix (comps ?loc) (comps (engine_receipts p))" using ls(3) e(1) by simp
qed

text \<open>Every accepted plan declares a receipt: a stage has one itself or has tasks, which have one each.\<close>

lemma plan_has_receipt: "plan_ok p \<Longrightarrow> plan_sound p \<Longrightarrow> all_receipts p \<noteq> []"
proof -
  assume ok: "plan_ok p" and snd: "plan_sound p"
  then obtain s where s: "s \<in> set (pl_stages p)" by (cases "pl_stages p") (auto simp: plan_ok_def graph_ok_def)
  then have st: "stage_ok s" "stage_sound s"
    using snd by (auto simp: plan_sound_def stage.canonical_def stage_post_init_iff)
  show "all_receipts p \<noteq> []"
  proof (cases "st_tasks s = []")
    case True
    with st have "st_expected_receipts s \<noteq> []" by (simp add: stage_ok_def)
    with s show ?thesis by (auto simp: all_receipts_def)
  next
    case False
    then obtain t where t: "t \<in> set (st_tasks s)" by (cases "st_tasks s") auto
    then have "task_post_init t = Inr t" using st(2) by (simp add: stage_sound_def task.canonical_def)
    then have "tk_expected_receipts t \<noteq> []" by (auto simp: task_post_init_def)
    with s t show ?thesis by (fastforce simp: all_receipts_def)
  qed
qed

end
