(* ===== verification/Plan_Properties.thy ===== *)
theory Plan_Properties
  imports Plan_Samples Plan_Encode Plan_Paths
begin

text \<open>
  The properties of execution plans, each followed by a witness on the sample plan where it has
  hypotheses.
\<close>

section \<open>Facts shared by the proofs\<close>

lemma distinct_map_weaker:
  "distinct (map f xs) \<Longrightarrow> (\<And>x y. x \<in> set xs \<Longrightarrow> y \<in> set xs \<Longrightarrow> g x = g y \<Longrightarrow> f x = f y) \<Longrightarrow> distinct (map g xs)"
  unfolding distinct_map inj_on_def by blast

lemma decoded_plan:
  assumes "plan_from_dict v = Inr p"
  shows "plan.canonical p" "plan_ok p" "plan_sound p" "graph_ok (pl_stages p)"
proof -
  show c: "plan.canonical p" using assms by (rule plan.decoded_canonical)
  then show "plan_ok p" "plan_sound p" by (simp_all add: plan.canonical_def plan_post_init_iff)
  then show "graph_ok (pl_stages p)" by (simp add: plan_ok_def)
qed

lemma from_decoded_jsonD:
  assumes "from_decoded_json sha v (Some e) = Inr p"
  shows "plan.canonical p" "plan_sha256 sha p = Inr e"
  using assms by (auto simp: from_decoded_json_def from_envelope_def dest: plan.decoded_canonical)

lemma sample_decodes: "plan_from_dict (JObj (plan_to_dict sample_plan)) = Inr sample_plan"
  by (rule plan.roundtrip [OF sample_plan_canonical])

lemma sample_digest: "plan_sha256 (\<lambda>_. hex64) sample_plan = Inr hex64"
  using plan_sha256_total [OF sample_plan_canonical, of "\<lambda>_. hex64"] by auto

section \<open>Encoding and digests\<close>

text \<open>C13. Every plan that was decoded can be sealed in an envelope (hashing never fails), and
  decoding the envelope gives back the same plan, provided the digests have the form of SHA-256
  digests.
\<close>

theorem envelope_roundtrip:
  assumes "plan_from_dict v = Inr p" and "\<forall>b. SHA256_RE (sha b)"
  shows "\<exists>env. to_envelope sha p = Inr env \<and> from_envelope sha (JObj env) = Inr p"
proof -
  have can: "plan.canonical p" using assms(1) by (rule decoded_plan(1))
  obtain d where d: "plan_sha256 sha p = Inr d" "SHA256_RE d"
    using plan_sha256_total [OF can, of sha] assms(2) by auto
  with plan.roundtrip [OF can] show ?thesis
    by (simp add: to_envelope_def from_envelope_def sha_wire)
qed

theorem envelope_roundtrip_witness:
  "\<exists>env. to_envelope (\<lambda>_. hex64) sample_plan = Inr env \<and> from_envelope (\<lambda>_. hex64) (JObj env) = Inr sample_plan"
  using envelope_roundtrip [OF sample_decodes, of "\<lambda>_. hex64"] by simp

text \<open>C14. The trusted digest identifies the plan: two envelopes accepted against the same expected
  digest carry the same plan, unless the digest function collides on the canonical bytes of the two
  plans. Reordered members, rewritten whitespace and reordered lists do not matter, and a changed
  command, path, receipt or retry rule cannot be passed off under the digest.
\<close>

theorem digest_binds_plan:
  assumes "from_decoded_json sha v (Some e) = Inr p" and "from_decoded_json sha w (Some e) = Inr q"
    and "\<forall>b c. canonical_json_bytes (JObj (plan_to_dict p)) = Inr b \<longrightarrow>
           canonical_json_bytes (JObj (plan_to_dict q)) = Inr c \<longrightarrow> sha b = sha c \<longrightarrow> b = c"
  shows "p = q"
proof -
  note p = from_decoded_jsonD [OF assms(1)] and q = from_decoded_jsonD [OF assms(2)]
  obtain b c where b: "canonical_json_bytes (JObj (plan_to_dict p)) = Inr b" "sha b = e"
    and c: "canonical_json_bytes (JObj (plan_to_dict q)) = Inr c" "sha c = e"
    using p(2) q(2) by (auto simp: plan_sha256_def)
  then have "b = c" using assms(3) by auto
  with b c show ?thesis using plan.bytes_determine [OF p(1) q(1)] by blast
qed

lemma sample_envelope_ok:
  "from_decoded_json (\<lambda>_. hex64) (sample_envelope sw) (Some hex64) = Inr sample_plan"
  by (simp add: from_decoded_json_def from_envelope_def sample_envelope_def sample_decodes sample_digest sha_wire optR_def)

theorem digest_binds_plan_witness:
  "from_decoded_json (\<lambda>_. hex64) (sample_envelope False) (Some hex64)
     = from_decoded_json (\<lambda>_. hex64) (sample_envelope True) (Some hex64)"
  using digest_binds_plan [OF sample_envelope_ok [of False] sample_envelope_ok [of True]]
  by (simp add: sample_envelope_ok)

text \<open>The constructor is insensitive to the order of datasets and stages: any rearrangement of an
  accepted plan's lists is accepted and constructs the same plan, hence has the same digest.
\<close>

theorem plan_order_irrelevant:
  assumes "plan_post_init p = Inr q" and "mset ds = mset (pl_datasets p)" and "mset ss = mset (pl_stages p)"
  shows "plan_post_init (p\<lparr>pl_datasets := ds, pl_stages := ss\<rparr>) = Inr q"
  by (rule plan_order_free [OF assms(2,3,1)])

theorem plan_order_irrelevant_witness:
  "plan_post_init (sample_plan\<lparr>pl_datasets := rev (pl_datasets sample_plan), pl_stages := rev (pl_stages sample_plan)\<rparr>)
     = Inr sample_plan"
  by (rule plan_order_irrelevant [OF sample_plan_ok]) simp_all

section \<open>The stage graph\<close>

text \<open>C15. On stages with distinct ids and known dependencies the topological sort always returns
  within the recursion depth given by the number of stages. It succeeds exactly when the graph has
  no cycle; then its result lists every stage once, after all its dependencies. Otherwise the
  result is the \<open>ValueError\<close> about the cycle.
\<close>

theorem topological_order_correct:
  assumes "distinct (stage_ids stages)" and "deps_known stages"
  shows "if acyclic (edges (by_id stages))
    then \<exists>order. topological_stage_ids stages = Inr order \<and> distinct order \<and> set order = set (stage_ids stages)
      \<and> (\<forall>s \<in> set stages. \<forall>d \<in> set (st_depends_on s).
           \<exists>xs ys zs. order = xs @ d # ys @ st_stage_id s # zs)
    else topological_stage_ids stages = Inl (ValueError ''stage dependency graph contains a cycle'')"
proof (cases "topological_stage_ids stages")
  case (Inl e)
  with topological_result [OF assms] show ?thesis by simp
next
  case (Inr order)
  with topological_result [OF assms] have t: "topo_ok (by_id stages) order" "set order = set (stage_ids stages)"
    by simp_all
  then have "acyclic (edges (by_id stages))"
    using topo_ok_acyclic by_id_dkeys [OF assms(1)] by simp
  moreover have "\<exists>xs ys zs. order = xs @ d # ys @ st_stage_id s # zs"
    if "s \<in> set stages" "d \<in> set (st_depends_on s)" for s d
    using topo_ok_before [OF t(1)] that t(2) by_id_get [OF assms(1) that(1)]
    by (simp add: stage_ids_def deps_of_def)
  ultimately show ?thesis using Inr t by (simp add: topo_ok_def)
qed

lemma sample_stage_ids: "stage_ids sample_stages = [lit ''a'', lit ''b'']"
  by (simp add: stage_ids_def sample_stages_def sample_stage_def)

lemma sample_deps_known: "deps_known sample_stages"
  by (simp add: deps_known_def sample_stage_ids) (simp add: sample_stages_def sample_stage_def)

theorem topological_order_correct_witness:
  "if acyclic (edges (by_id sample_stages))
    then \<exists>order. topological_stage_ids sample_stages = Inr order \<and> distinct order
      \<and> set order = set (stage_ids sample_stages)
      \<and> (\<forall>s \<in> set sample_stages. \<forall>d \<in> set (st_depends_on s).
           \<exists>xs ys zs. order = xs @ d # ys @ st_stage_id s # zs)
    else topological_stage_ids sample_stages = Inl (ValueError ''stage dependency graph contains a cycle'')"
  by (rule topological_order_correct) (simp_all add: sample_stage_ids sample_deps_known)

text \<open>C16. Every stage of a decoded plan has an attempt bound. It is the stage's own number of
  attempts plus, for every dependency, the generations that dependency may have beyond its first one
  (\<open>afterany\<close>) or beyond its own retries (\<open>afterok\<close>); it is never below the stage's own attempts and
  never above 999, the largest attempt number an attempt identity can carry.
\<close>

theorem attempt_bounds_correct:
  assumes "plan_from_dict v = Inr p" and "s \<in> set (pl_stages p)"
  shows "\<exists>m. derived_attempt_bounds (pl_stages p) = Inr m
    \<and> signed_attempt_bound (pl_stages p) (st_stage_id s) = Inr (value_of m (st_stage_id s))
    \<and> value_of m (st_stage_id s) = stage_bound (by_id (pl_stages p)) m s
    \<and> rp_max_attempts (st_retry_policy s) \<le> value_of m (st_stage_id s)
    \<and> value_of m (st_stage_id s) \<le> 999"
proof -
  let ?ss = "pl_stages p" and ?i = "st_stage_id s"
  have g: "?ss \<noteq> []" "distinct (stage_ids ?ss)" "deps_known ?ss"
    using decoded_plan(4) [OF assms(1)] by (simp_all add: graph_ok_def)
  obtain order m where o: "topological_stage_ids ?ss = Inr order" and m: "derived_attempt_bounds ?ss = Inr m"
    and le: "\<forall>(i, b) \<in> set m. b \<le> 999"
    using decoded_plan(4) [OF assms(1)] by (auto simp: graph_ok_def)
  have ok: "bounds_ok (by_id ?ss) m" "dkeys m = set (stage_ids ?ss)"
    using derived_bounds_result [OF g(2,3) o g(1)] m by auto
  have t: "topo_ok (by_id ?ss) order" "set order = dkeys m"
    using topological_result [OF g(2,3)] o ok(2) by simp_all
  have i: "?i \<in> dkeys m" "dget (by_id ?ss) ?i = Some s"
    using ok(2) assms(2) by_id_get [OF g(2) assms(2)] by (simp_all add: stage_ids_def)
  then obtain b where b: "dget m ?i = Some b" "(?i, b) \<in> set m"
    using dget_None_iff [of m ?i] by (cases "dget m ?i") (auto simp: dget_def dest: map_of_SomeD)
  have "\<forall>j \<in> dkeys (by_id ?ss). 1 \<le> own_attempts (by_id ?ss) j"
    using decoded_plan(3) [OF assms(1)] plan_attempts_positive [OF g(2)] by blast
  then have "own_attempts (by_id ?ss) ?i \<le> value_of m ?i" using bounds_lower [OF ok(1) t _ i(1)] by blast
  moreover have "value_of m ?i = stage_bound (by_id ?ss) m s" using ok(1) i unfolding bounds_ok_def by fastforce
  ultimately show ?thesis
    using m b le i by (auto simp: signed_attempt_bound_def value_of_def own_attempts_def)
qed

theorem attempt_bounds_correct_witness:
  "\<exists>m. derived_attempt_bounds sample_stages = Inr m
    \<and> signed_attempt_bound sample_stages (lit ''b'') = Inr (value_of m (lit ''b''))
    \<and> rp_max_attempts sample_retry \<le> value_of m (lit ''b'') \<and> value_of m (lit ''b'') \<le> 999"
  using attempt_bounds_correct [OF sample_decodes, of "sample_stage ''b'' [lit ''a'']"]
  by (auto simp: sample_plan_def sample_stages_def) (auto simp: sample_stage_def)

section \<open>Directories\<close>

text \<open>The receipts of a decoded plan name pairwise different files. Each lies strictly below the
  receipts root, and neither is an ancestor of, equal to, nor below the directory
  \<open>execution\<close> where the engine keeps its own receipts.
\<close>

theorem receipts_confined:
  assumes "plan_from_dict v = Inr p"
  shows "distinct (map (receipt_location p) (all_receipts p))
    \<and> (\<forall>r \<in> set (all_receipts p).
         strict_prefix (comps (cp_receipts_root (pl_paths p))) (comps (receipt_location p r))
         \<and> \<not> prefix (comps (engine_receipts p)) (comps (receipt_location p r))
         \<and> \<not> prefix (comps (receipt_location p r)) (comps (engine_receipts p)))"
proof -
  note ok = decoded_plan(2,3) [OF assms]
  have paths: "paths.canonical (pl_paths p)" using ok(2) by (simp add: plan_sound_def)
  have rs: "receipt.canonical r" if "r \<in> set (all_receipts p)" for r
    using that ok(2) by (rule plan_receipts_canonical)
  have "distinct (map rc_path (all_receipts p))" using ok(1) by (simp add: plan_ok_def)
  then have "distinct (map (receipt_location p) (all_receipts p))"
    by (rule distinct_map_weaker) (blast intro: receipt_location_inj [OF paths rs rs])
  then show ?thesis using receipt_placed_comps [OF paths rs] ok(1) by (simp add: plan_ok_def)
qed

theorem receipts_confined_witness:
  "distinct (map (receipt_location sample_plan) (all_receipts sample_plan))
    \<and> strict_prefix (comps (cp_receipts_root sample_paths)) (comps (receipt_location sample_plan (sample_receipt ''a'')))"
  using receipts_confined [OF sample_decodes] by (simp add: sample_receipts) (simp add: sample_plan_def)

text \<open>C17. When no root of an accepted \<open>CanonicalPaths\<close> begins with two slashes, the work, receipts and
  logs directories lie strictly inside the run directory, and no two of the work, results, receipts
  and logs directories contain one another. Of the results directory only the second part is claimed:
  it may lie outside the run directory.
\<close>

theorem roots_disjoint:
  assumes "paths_post_init x = Inr y"
    and "\<forall>r \<in> {cp_work_root x, cp_results_root x, cp_receipts_root x, cp_logs_root x}. take 2 r \<noteq> [slash, slash]"
  shows "(\<forall>r \<in> {cp_work_root x, cp_receipts_root x, cp_logs_root x}.
            strict_prefix (comps (cp_run_root x)) (comps r))
    \<and> (\<forall>(l, r) \<in> set (root_pairs x). comps l \<parallel> comps r)"
proof -
  note f = paths_fields_ok [OF assms(1)]
  have one: "r = abs_of (comps r)" "\<forall>c \<in> set (comps r). good_comp c"
    if "r \<in> {cp_work_root x, cp_results_root x, cp_receipts_root x, cp_logs_root x}" for r
  proof -
    have ok: "isabs r" "normpath r = r" using that f(2-5) by (auto simp: abs_path_ok_def)
    have "take 2 r \<noteq> [slash, slash]" using that assms(2) by blast
    with single_slash_abs_of [OF ok] show "r = abs_of (comps r)" "\<forall>c \<in> set (comps r). good_comp c" by blast+
  qed
  have within: "strict_prefix (comps (cp_run_root x)) (comps r)"
    if "r \<in> {cp_work_root x, cp_receipts_root x, cp_logs_root x}" for r
  proof -
    have "is_within r (cp_run_root x)" "r = abs_of (comps r)" "\<forall>c \<in> set (comps r). good_comp c"
      using that f(7-9) one [of r] by auto
    then show ?thesis
      using is_within_abs_of [of "comps r" "comps (cp_run_root x)"] paths_run_root [OF assms(1)] by simp
  qed
  have "comps l \<parallel> comps r" if "(l, r) \<in> set (root_pairs x)" for l r
  proof -
    have m: "l \<in> {cp_work_root x, cp_results_root x, cp_receipts_root x, cp_logs_root x}"
      "r \<in> {cp_work_root x, cp_results_root x, cp_receipts_root x, cp_logs_root x}"
      using that by (auto simp: root_pairs_eq)
    have "overlap l r = Inr False" using that f(10) by blast
    then show ?thesis using overlap_abs_of [OF one(2) [OF m(1)] one(2) [OF m(2)]] one(1) [OF m(1)] one(1) [OF m(2)] by auto
  qed
  with within show ?thesis by auto
qed

lemma sample_single_slash:
  "\<forall>r \<in> {cp_work_root sample_paths, cp_results_root sample_paths, cp_receipts_root sample_paths, cp_logs_root sample_paths}.
     take 2 r \<noteq> [slash, slash]"
  by (simp add: sample_paths_def sample_root_def abs_of_def lit_def)

theorem roots_disjoint_witness:
  "comps (cp_logs_root sample_paths) \<parallel> comps (cp_work_root sample_paths)"
  using roots_disjoint [OF sample_paths_ok sample_single_slash] by (simp add: root_pairs_eq)

text \<open>The condition on leading slashes is needed: the constructor accepts paths in which the work
  root and the receipts root are one and the same directory, spelled with two leading slashes,
  although it promises that the roots are distinct and do not overlap.
\<close>

theorem double_slash_roots_overlap:
  "paths_post_init double_slash_paths = Inr double_slash_paths
    \<and> cp_work_root double_slash_paths = cp_receipts_root double_slash_paths"
  by (simp add: double_slash_paths_ok) (simp add: double_slash_paths_def)

end
