(* ===== verification/Run_Properties.thy ===== *)
theory Run_Properties
  imports Run_Ids
begin

text \<open>
  Properties of run identities, storage paths and the numeric order of job ids.
\<close>

section \<open>Facts shared by the proofs\<close>

lemma sort_key_map_snd: "map snd (sort_key fst (map (\<lambda>x. (f x, x)) xs)) = sort_key f xs"
  by (simp add: sort_key_map comp_def)

lemma sort_job_ids_keys:
  assumes "sort_job_ids xs = Inr zs"
  obtains f where "\<forall>x \<in> set xs. job_key x = Inr (f x)" and "zs = sort_key f xs"
proof -
  obtain ks where ks: "mapR (\<lambda>x. bind (job_key x) (\<lambda>k. Inr (k, x))) xs = Inr ks" "zs = map snd (sort_key fst ks)"
    using assms by (auto simp: sort_job_ids_def)
  then obtain f where f: "\<forall>x \<in> set xs. job_key x = Inr (f x)" "ks = map (\<lambda>x. (f x, x)) xs"
    using job_keys_Inr by blast
  have "zs = sort_key f xs" unfolding ks(2) f(2) by (simp add: sort_key_map_snd)
  with f(1) show thesis by (rule that)
qed

lemma sort_job_ids_map:
  "\<forall>x \<in> set xs. job_key x = Inr (f x) \<Longrightarrow> sort_job_ids xs = Inr (sort_key f xs)"
  unfolding sort_job_ids_def by (simp only: mapR_keys_map bind_Inr sort_key_map_snd)

section \<open>Run ids\<close>

text \<open>The campaign and the variant of a run id in the registered form are read back exactly, for
  every list of view suffixes, and the id passes the strict pattern. The campaign must not contain
  two adjacent underscores, and neither part may begin or end with one or contain a line feed.
\<close>

theorem run_id_roundtrip:
  assumes "length d = 8" and "list_all is_nd d" and "length t = 6" and "list_all is_nd t"
    and "c \<noteq> []" and "hd c \<noteq> 95" and "last c \<noteq> 95" and "split_dunder c = None"
    and "v \<noteq> []" and "hd v \<noteq> 95" and "last v \<noteq> 95" and "10 \<notin> set c" and "10 \<notin> set v"
  defines "run_id \<equiv> lit ''RUN_'' @ d @ lit ''T'' @ t @ lit ''Z_'' @ c @ lit ''__'' @ v"
  shows "STRICT_RUN_ID_RE run_id \<and> campaign_of run_id view_suffixes = c \<and> variant_of run_id view_suffixes = v"
proof -
  have u: "lit ''__'' = [95, 95]" by (simp add: lit_def)
  have parts: "run_id_parts b run_id = Some (d @ lit ''T'' @ t @ lit ''Z'', c @ lit ''__'' @ v)" for b
    unfolding run_id_def by (rule run_id_parts_join [OF assms(1-4)])
  have no_lf: "10 \<notin> set (c @ lit ''__'' @ v)" using assms(12,13) u by simp
  then have "takeWhile (\<lambda>x. x \<noteq> 10) (c @ lit ''__'' @ v) = c @ lit ''__'' @ v"
    unfolding takeWhile_eq_all_conv by blast
  then have slug: "snd (parse_run_id run_id) = c @ lit ''__'' @ v"
    using assms(5) unfolding parse_run_id_def parts Let_def by (simp only: option.case prod.case) simp
  have split: "split_dunder (c @ lit ''__'' @ v) = Some (c, v)"
    unfolding u by (rule split_dunder_append [OF assms(8,5,7)])
  have strip: "strip_underscores c = c" "strip_underscores v = v"
    using strip_by_id [of c "\<lambda>c. c = 95"] strip_by_id [of v "\<lambda>c. c = 95"] assms(5-7,9-11)
    by (simp_all add: strip_underscores_def)
  show ?thesis
    using no_lf parts [of True] assms(5) slug split strip
    by (simp add: STRICT_RUN_ID_RE_def campaign_of_def variant_of_def or_uncategorized_def Let_def)
qed

theorem run_id_roundtrip_witness:
  "campaign_of (lit ''RUN_'' @ lit ''20240101'' @ lit ''T'' @ lit ''120000'' @ lit ''Z_'' @ lit ''camp'' @ lit ''__'' @ lit ''v1'') []
     = lit ''camp''"
  using run_id_roundtrip [of "lit ''20240101''" "lit ''120000''" "lit ''camp''" "lit ''v1''" "[]"]
  by (simp add: lit_def is_nd_small)

section \<open>Storage paths\<close>

text \<open>Whatever string a campaign is, the run directory and the three archive files stay exactly two
  levels below a tier root that is a normalised absolute path other than the file-system root and
  does not begin with two slashes, provided the run id is one path component: separators, parent
  references and empty campaigns cannot lead out of the tier.
\<close>

theorem run_paths_confined:
  assumes "abs_path_ok (tier_root l status)" and "take 2 (tier_root l status) \<noteq> [slash, slash]"
    and "abs_path_ok (standby_archive_root l)" and "take 2 (standby_archive_root l) \<noteq> [slash, slash]"
    and "good_comp run_id"
  shows "comps (run_dir l status campaign run_id) = comps (tier_root l status) @ [safe campaign, run_id]
    \<and> comps (archive_tarball l campaign run_id)
        = comps (standby_archive_root l) @ [safe campaign, run_id @ lit ''.tar.zst'']
    \<and> comps (archive_manifest l campaign run_id)
        = comps (standby_archive_root l) @ [safe campaign, run_id @ lit ''.run.json'']
    \<and> comps (archive_checksum l campaign run_id)
        = comps (standby_archive_root l) @ [safe campaign, run_id @ lit ''.tar.zst.sha256'']"
proof -
  have below: "comps (path_join r [safe campaign, x]) = comps r @ [safe campaign, x]"
    if "abs_path_ok r" "take 2 r \<noteq> [slash, slash]" "good_comp x" for r x
  proof -
    have r: "r = abs_of (comps r)" "\<forall>c \<in> set (comps r). good_comp c"
      using single_slash_abs_of [of r] that(1,2) unfolding abs_path_ok_def by blast+
    have "comps r \<noteq> []" using r(1) that(1) by (auto simp: abs_path_ok_def abs_of_def)
    then have "path_join r [safe campaign, x] = abs_of (comps r @ [safe campaign, x])"
      using path_join_abs_of [of "comps r" "[safe campaign, x]"] r safe_good [of campaign] that(3)
      by (metis empty_iff list.set(1) set_ConsD)
    moreover have "\<forall>c \<in> set (comps r @ [safe campaign, x]). good_comp c"
      using r(2) safe_good [of campaign] that(3) by auto
    ultimately show ?thesis using comps_abs_of by simp
  qed
  have "good_comp (run_id @ lit ''.tar.zst'')" "good_comp (run_id @ lit ''.run.json'')"
    "good_comp (run_id @ lit ''.tar.zst.sha256'')"
    using assms(5) by (simp_all add: good_comp_def lit_def append_eq_Cons_conv)
  with assms show ?thesis
    by (simp only: run_dir_def archive_tarball_def archive_manifest_def archive_checksum_def below simp_thms)
qed

lemma run_paths_sample: "abs_path_ok (abs_of [lit ''t''])" "take 2 (abs_of [lit ''t'']) \<noteq> [slash, slash]" "good_comp (lit ''R'')"
proof -
  have "plain_comp (lit ''t'')" by (simp add: plain_comp_def is_ident_char_def is_alnum_def lit_def)
  then show "abs_path_ok (abs_of [lit ''t''])" by (intro abs_path_ok_abs_of) simp_all
qed (simp_all add: abs_of_def good_comp_def lit_def)

theorem run_paths_confined_witness:
  "comps (run_dir \<lparr>scratch_runs_root = abs_of [lit ''t''], group_runs_root = abs_of [lit ''t''],
       standby_archive_root = abs_of [lit ''t''], registry_path = []\<rparr> (lit ''active'') (lit ''../..'') (lit ''R''))
     = comps (abs_of [lit ''t'']) @ [safe (lit ''../..''), lit ''R'']"
  using run_paths_confined [of "\<lparr>scratch_runs_root = abs_of [lit ''t''], group_runs_root = abs_of [lit ''t''],
       standby_archive_root = abs_of [lit ''t''], registry_path = []\<rparr>" "lit ''active''" "lit ''R''" "lit ''../..''"]
  by (simp add: run_paths_sample tier_root_def)

section \<open>Job ids\<close>

text \<open>Sorting job ids does not depend on the order in which a Python set happens to enumerate them,
  as long as no two ids have the same numeric value, and returns each id once in the order of the
  keys.
\<close>

theorem job_ids_sorted:
  assumes "sort_job_ids xs = Inr zs" and "distinct xs" and "distinct ys" and "set ys = set xs"
    and "\<forall>x \<in> set xs. \<forall>y \<in> set xs. job_key x = job_key y \<longrightarrow> x = y"
  shows "sort_job_ids ys = Inr zs \<and> distinct zs \<and> set zs = set xs
    \<and> (\<exists>f. (\<forall>x \<in> set xs. job_key x = Inr (f x)) \<and> sorted (map f zs))"
proof -
  obtain f where f: "\<forall>x \<in> set xs. job_key x = Inr (f x)" and zs: "zs = sort_key f xs"
    using sort_job_ids_keys [OF assms(1)] .
  have "mset ys = mset xs" using assms(2-4) by (metis set_eq_iff_mset_eq_distinct)
  moreover have "inj_on f (set ys)" using assms(4,5) f by (auto simp: inj_on_def)
  ultimately have "sort_key f ys = sort_key f xs" by (rule sort_key_perm_unique)
  moreover have "sort_job_ids ys = Inr (sort_key f ys)" using f assms(4) by (intro sort_job_ids_map) simp
  ultimately show ?thesis using f zs assms(2) by auto
qed

theorem job_ids_sorted_witness:
  "sort_job_ids [lit ''10'', lit ''9''] = sort_job_ids [lit ''9'', lit ''10'']"
proof -
  have s: "\<exists>zs. sort_job_ids [lit ''10'', lit ''9''] = Inr zs"
    by (simp add: sort_job_ids_def job_key_def isdigit_def is_digit_def int_of_digits_def is_nd_small lit_def)
  have "\<forall>x \<in> set [lit ''10'', lit ''9'']. \<forall>y \<in> set [lit ''10'', lit ''9'']. job_key x = job_key y \<longrightarrow> x = y"
    by (simp add: job_key_def isdigit_def is_digit_def int_of_digits_def is_nd_small lit_def nat_of_digits_def nd_value_ascii)
  with s show ?thesis using job_ids_sorted [of "[lit ''10'', lit ''9'']" _ "[lit ''9'', lit ''10'']"] insert_commute
    by fastforce
qed

text \<open>Without that proviso the result depends on the enumeration, which Python leaves open, although
  the registry treats the list as deterministic; and a stray id made of digits without a decimal
  value, such as a superscript two, makes the sort raise although stray ids are documented to be tolerated.
\<close>

theorem job_ids_depend_on_enumeration:
  "sort_job_ids [lit ''01'', lit ''1''] \<noteq> sort_job_ids [lit ''1'', lit ''01'']
    \<and> sort_job_ids [[178]] = Inl (ValueError ''invalid literal for int() with base 10'')"
  by (simp add: sort_job_ids_def job_key_def isdigit_def is_digit_def int_of_digits_def is_nd_small other_digits_def lit_def
      nat_of_digits_def nd_value_ascii)

end
