(* ===== verification/Exec_Models.thy ===== *)
theory Exec_Models
  imports Plan_Stages
begin

text \<open>
  The first half of \<open>runorg/execution_models.py\<close>: the identity of a submission attempt and its
  scheduler comment, planned tasks, the scheduler request with its \<open>sbatch\<close> options, the outcome of
  a submission, and receipt observations.
\<close>

section \<open>SubmissionIdentity\<close>

record submission_identity =
  si_plan_sha256 :: ustr
  si_stage_id :: ustr
  si_attempt :: int

definition identity_post_init :: "submission_identity \<Rightarrow> submission_identity res" where
  "identity_post_init i =
     bind (validate_sha256 (si_plan_sha256 i) ''plan_sha256'') (\<lambda>_.
     bind (validate_identifier (si_stage_id i) ''stage_id'') (\<lambda>_.
     bind (ensure (1 \<le> si_attempt i \<and> si_attempt i \<le> 999)
             (ValueError ''attempt must be an integer between 1 and 999'')) (\<lambda>_.
     Inr i)))"

text \<open>\<open>f"{attempt:03d}"\<close>, of a constructed identity, whose attempt is positive.\<close>

definition attempt_text :: "int \<Rightarrow> ustr" where
  "attempt_text n = fmt03 (nat n)"

definition comment :: "submission_identity \<Rightarrow> ustr" where
  "comment i = lit ''o2plan:v1:'' @ si_plan_sha256 i @ lit '':'' @ si_stage_id i @ lit '':a'' @ attempt_text (si_attempt i)"

text \<open>
  \<open>_COMMENT_RE\<close>: no group can contain a colon, so a match has exactly these five fields. The digit
  class accepts every Unicode decimal digit.
\<close>

definition COMMENT_RE :: "ustr \<Rightarrow> (ustr \<times> ustr \<times> ustr) option" where
  "COMMENT_RE c =
     (case split_on 58 c of
        [p, v, sha, stage, att] \<Rightarrow>
          if p = lit ''o2plan'' \<and> v = lit ''v1'' \<and> SHA256_RE sha \<and> stage \<noteq> [] \<and> list_all is_ident_char stage
             \<and> take 1 att = lit ''a'' \<and> length (drop 1 att) = 3 \<and> list_all is_nd (drop 1 att)
          then Some (sha, stage, drop 1 att) else None
      | _ \<Rightarrow> None)"

definition from_comment :: "ustr \<Rightarrow> submission_identity res" where
  "from_comment c =
     (case COMMENT_RE c of
        None \<Rightarrow> Inl (ValueError ''not a valid o2-mcp execution comment'')
      | Some (sha, stage, digits) \<Rightarrow>
          bind (int_of_digits digits) (\<lambda>n.
          identity_post_init \<lparr>si_plan_sha256 = sha, si_stage_id = stage, si_attempt = int n\<rparr>))"

section \<open>PlannedTask\<close>

record planned_task =
  pt_task_id :: ustr
  pt_array_index :: "int option"
  pt_command :: command_spec
  pt_expected_receipts :: "receipt_spec list"

definition planned_task_post_init :: "planned_task \<Rightarrow> planned_task res" where
  "planned_task_post_init t =
     bind (validate_identifier (pt_task_id t) ''task_id'') (\<lambda>_.
     bind (optR (\<lambda>n. ensure (0 \<le> n) (ValueError ''array_index must be a nonnegative integer or None''))
             (pt_array_index t)) (\<lambda>_.
     bind (ensure (pt_expected_receipts t \<noteq> [])
             (ValueError ''planned task receipts must be a non-empty tuple'')) (\<lambda>_.
     Inr t)))"

section \<open>SubmissionRequest\<close>

record submission_request =
  sr_identity :: submission_identity
  sr_run_id :: ustr
  sr_tasks :: "planned_task list"
  sr_resources :: resource_spec
  sr_dependency_mode :: ustr
  sr_dependency_job_ids :: "ustr list"
  sr_script_path :: ustr
  sr_script_text :: ustr
  sr_stdout_pattern :: ustr
  sr_stderr_pattern :: ustr
  sr_begin_delay_seconds :: int
  sr_ordering_job_ids :: "ustr list"

definition request_post_init :: "submission_request \<Rightarrow> submission_request res" where
  "request_post_init r =
     bind (ensure (sr_tasks r \<noteq> []) (ValueError ''submission request must contain at least one task'')) (\<lambda>_.
     let indices = map pt_array_index (sr_tasks r) in
     bind (ensure (\<not> (list_ex (\<lambda>i. i \<noteq> None) indices \<and> None \<in> set indices))
             (ValueError ''a submission cannot mix array and non-array tasks'')) (\<lambda>_.
     bind (ensure (card (set indices) = length indices)
             (ValueError ''submission task array indices must be unique'')) (\<lambda>_.
     bind (ensure (sr_dependency_mode r \<in> lit ` set DEPENDENCY_MODES)
             (ValueError ''dependency_mode must be afterany or afterok'')) (\<lambda>_.
     bind (ensure (list_all isdigit (sr_dependency_job_ids r))
             (ValueError ''dependency job IDs must be numeric strings'')) (\<lambda>_.
     bind (ensure (card (set (sr_dependency_job_ids r)) = length (sr_dependency_job_ids r))
             (ValueError ''dependency job IDs cannot contain duplicates'')) (\<lambda>_.
     bind (forR (\<lambda>p. ensure (startswith p [slash] \<and> 10 \<notin> set p \<and> 13 \<notin> set p)
             (ValueError ''path must be a single-line absolute path''))
             [sr_script_path r, sr_stdout_pattern r, sr_stderr_pattern r]) (\<lambda>_.
     bind (ensure (0 \<le> sr_begin_delay_seconds r \<and> sr_begin_delay_seconds r \<le> 3600)
             (ValueError ''begin_delay_seconds must be an integer between 0 and 3600'')) (\<lambda>_.
     Inr r))))))))"

definition task_indices :: "submission_request \<Rightarrow> int list" where
  "task_indices r = concat (map (\<lambda>t. case pt_array_index t of None \<Rightarrow> [] | Some i \<Rightarrow> [i]) (sr_tasks r))"

definition opt_arg :: "string \<Rightarrow> ustr option \<Rightarrow> ustr list" where
  "opt_arg k v = (case v of None \<Rightarrow> [] | Some s \<Rightarrow> [lit k @ s])"

definition dependency_clauses :: "submission_request \<Rightarrow> ustr list" where
  "dependency_clauses r =
     (if sr_dependency_job_ids r = [] then []
      else [sr_dependency_mode r @ lit '':'' @ join (lit '':'') (sr_dependency_job_ids r)])
     @ (if sr_ordering_job_ids r = [] then [] else [lit ''afterany:'' @ join (lit '':'') (sr_ordering_job_ids r)])
     @ (if si_attempt (sr_identity r) > 1 then [lit ''singleton''] else [])"

definition job_name :: "submission_identity \<Rightarrow> ustr" where
  "job_name i = lit ''o2p-'' @ take 10 (si_plan_sha256 i) @ lit ''-'' @ si_stage_id i"

definition sbatch_args :: "submission_request \<Rightarrow> ustr list" where
  "sbatch_args r =
     (let res = sr_resources r; idx = task_indices r; clauses = dependency_clauses r in
     [lit ''--comment='' @ comment (sr_identity r),
      lit ''--job-name='' @ job_name (sr_identity r),
      lit ''--partition='' @ rs_partition res,
      lit ''--cpus-per-task='' @ str_int (rs_cpus res),
      lit ''--mem='' @ str_int (rs_memory_mb res) @ lit ''M'',
      lit ''--time='' @ rs_time_limit res,
      lit ''--output='' @ sr_stdout_pattern r,
      lit ''--error='' @ sr_stderr_pattern r]
     @ (if idx = [] then []
        else [lit ''--array='' @ join (lit '','') (map str_int idx) @ lit ''%''
              @ str_int (min (rs_array_parallelism res) (int (length idx)))])
     @ (if clauses = [] then [] else [lit ''--dependency='' @ join (lit '','') clauses])
     @ (if sr_begin_delay_seconds r = 0 then []
        else [lit ''--begin=now+'' @ str_int (sr_begin_delay_seconds r) @ lit ''seconds''])
     @ (if rs_gpus res = 0 then []
        else [lit ''--gres=gpu:''
              @ (case rs_gpu_type res of None \<Rightarrow> [] | Some t \<Rightarrow> if t = [] then [] else t @ lit '':'')
              @ str_int (rs_gpus res)])
     @ opt_arg ''--account='' (rs_account res)
     @ opt_arg ''--qos='' (rs_qos res)
     @ opt_arg ''--constraint='' (rs_constraint res)
     @ (if rs_exclude_nodes res = [] then [] else [lit ''--exclude='' @ join (lit '','') (rs_exclude_nodes res)])
     @ (if rs_licenses res = [] then [] else [lit ''--licenses='' @ join (lit '','') (rs_licenses res)]))"

section \<open>SubmitOutcome\<close>

definition DEFINITELY_NOT_INVOKED :: ustr where
  "DEFINITELY_NOT_INVOKED = lit ''DEFINITELY_NOT_INVOKED''"

definition DEFINITELY_REJECTED :: ustr where
  "DEFINITELY_REJECTED = lit ''DEFINITELY_REJECTED''"

definition ACCEPTED :: ustr where
  "ACCEPTED = lit ''ACCEPTED''"

definition INVOKED_OUTCOME_UNKNOWN :: ustr where
  "INVOKED_OUTCOME_UNKNOWN = lit ''INVOKED_OUTCOME_UNKNOWN''"

record submit_outcome =
  so_status :: ustr
  so_job_id :: "ustr option"
  so_returncode :: "int option"
  so_stdout :: ustr
  so_stderr :: ustr

definition outcome_post_init :: "submit_outcome \<Rightarrow> submit_outcome res" where
  "outcome_post_init s =
     bind (ensure (so_status s \<in> {DEFINITELY_NOT_INVOKED, DEFINITELY_REJECTED, ACCEPTED, INVOKED_OUTCOME_UNKNOWN})
             (ValueError ''submission outcome status is invalid'')) (\<lambda>_.
     bind (optR (\<lambda>j. ensure (isdigit j)
             (ValueError ''submission outcome job_id must be a numeric string or None'')) (so_job_id s)) (\<lambda>_.
     bind (ensure (\<not> (so_status s = ACCEPTED \<and> so_job_id s = None))
             (ValueError ''ACCEPTED submission outcome requires a parsed job ID'')) (\<lambda>_.
     bind (ensure (\<not> (so_status s \<noteq> ACCEPTED \<and> so_job_id s \<noteq> None))
             (ValueError ''only ACCEPTED submission outcome may carry a job ID'')) (\<lambda>_.
     bind (ensure (\<not> (so_status s = DEFINITELY_REJECTED \<and> (so_returncode s = None \<or> so_returncode s = Some 0)))
             (ValueError ''DEFINITELY_REJECTED requires a proven nonzero sbatch return code'')) (\<lambda>_.
     bind (ensure (\<not> (so_status s = DEFINITELY_NOT_INVOKED \<and> so_returncode s \<noteq> None))
             (ValueError ''preparation failure is not an sbatch return code'')) (\<lambda>_.
     Inr s))))))"

section \<open>ReceiptObservation\<close>

record receipt_observation =
  ob_path :: ustr
  ob_exists :: bool
  ob_sha256 :: "ustr option"
  ob_trustworthy :: bool
  ob_error :: "ustr option"

definition observation_post_init :: "receipt_observation \<Rightarrow> receipt_observation res" where
  "observation_post_init b =
     bind (ensure (ob_path b \<noteq> []) (ValueError ''receipt observation path must be non-empty text'')) (\<lambda>_.
     bind (optR (\<lambda>s. validate_sha256 s ''receipt observation sha256'') (ob_sha256 b)) (\<lambda>_.
     bind (ensure (\<not> (ob_exists b \<and> ob_sha256 b = None))
             (ValueError ''an existing receipt observation must include its SHA-256'')) (\<lambda>_.
     bind (if ob_trustworthy b
           then ensure (ob_error b = None)
                  (ValueError ''a trustworthy receipt observation cannot include an error'')
           else bind (ensure (\<not> (ob_exists b \<or> ob_sha256 b \<noteq> None))
                        (ValueError ''an untrustworthy observation cannot assert receipt bytes'')) (\<lambda>_.
                ensure (case ob_error b of None \<Rightarrow> False | Some e \<Rightarrow> strip e \<noteq> [])
                  (ValueError ''an untrustworthy observation must explain the observation failure''))) (\<lambda>_.
     Inr b))))"

section \<open>The comment identifies the attempt\<close>

definition identity_ok :: "submission_identity \<Rightarrow> bool" where
  "identity_ok i \<longleftrightarrow> SHA256_RE (si_plan_sha256 i) \<and> ident_ok (si_stage_id i) \<and> 1 \<le> si_attempt i \<and> si_attempt i \<le> 999"

lemma identity_post_init_iff [simp]: "identity_post_init i = Inr j \<longleftrightarrow> identity_ok i \<and> j = i"
  by (auto simp: identity_post_init_def identity_ok_def)

lemma sha_no_colon: "SHA256_RE s \<Longrightarrow> 58 \<notin> set s"
  by (auto simp: SHA256_RE_def list_all_iff is_lower_hex_def)

lemma ident_no_colon: "list_all is_ident_char s \<Longrightarrow> 58 \<notin> set s"
  using ident_char_bound by (auto simp: list_all_iff)

lemma attempt_text_digits:
  "1 \<le> n \<Longrightarrow> n \<le> 999 \<Longrightarrow> length (attempt_text n) = 3 \<and> list_all is_nd (attempt_text n)
     \<and> 58 \<notin> set (attempt_text n) \<and> nat_of_digits (attempt_text n) = nat n"
  using length_fmt03 [of "nat n"] fmt03_range [of _ "nat n"]
  by (auto simp: attempt_text_def list_all_iff intro: is_nd_ascii)

lemma comment_split:
  assumes "58 \<notin> set sha" and "58 \<notin> set stage" and "58 \<notin> set att"
  shows "split_on 58 (lit ''o2plan:v1:'' @ sha @ lit '':'' @ stage @ lit '':a'' @ att)
    = [lit ''o2plan'', lit ''v1'', sha, stage, 97 # att]"
proof -
  have l: "lit ''o2plan:v1:'' = lit ''o2plan'' @ 58 # lit ''v1'' @ [58]" "lit '':'' = [58]" "lit '':a'' = [58, 97]"
    "58 \<notin> set (lit ''o2plan'')" "58 \<notin> set (lit ''v1'')"
    by (simp_all add: lit_def)
  have "58 \<notin> set (97 # att)" using assms(3) by simp
  then show ?thesis using assms l(4,5) unfolding l(1-3)
    by (simp add: split_on_append split_on_no_sep del: split_on.simps)
qed

lemma from_comment_comment:
  assumes "identity_ok i"
  shows "from_comment (comment i) = Inr i"
proof -
  have ok: "SHA256_RE (si_plan_sha256 i)" "ident_ok (si_stage_id i)" "1 \<le> si_attempt i" "si_attempt i \<le> 999"
    using assms by (simp_all add: identity_ok_def)
  note att = attempt_text_digits [OF ok(3,4)] and st = ident_chars [OF ok(2)]
  have "COMMENT_RE (comment i) = Some (si_plan_sha256 i, si_stage_id i, attempt_text (si_attempt i))"
    unfolding COMMENT_RE_def comment_def
    using comment_split [OF sha_no_colon [OF ok(1)] ident_no_colon, of "si_stage_id i" "attempt_text (si_attempt i)"] st att ok(1)
    by (simp add: lit_def)
  moreover have "attempt_text (si_attempt i) \<noteq> []" using att by auto
  ultimately show ?thesis using att assms ok(3) by (cases i) (simp add: from_comment_def int_of_digits_def)
qed

lemma comment_inj: "identity_ok i \<Longrightarrow> identity_ok j \<Longrightarrow> comment i = comment j \<Longrightarrow> i = j"
  by (metis from_comment_comment sum.inject(2))

end
