(* ===== verification/Exec_Records.thy ===== *)
theory Exec_Records
  imports Exec_Models
begin

text \<open>
  The durable records of \<open>runorg/execution_models.py\<close>: accepted submissions, definitive rejections
  and task verdicts. Each is a value that travels as a JSON object, decoded by the exact-type helpers;
  the comment stored beside an identity has to agree with it.
\<close>

definition EXECUTION_RECEIPT_SCHEMA_VERSION :: int where
  "EXECUTION_RECEIPT_SCHEMA_VERSION = 1"

section \<open>Shared steps of the decoders\<close>

definition identity_from :: "jdict \<Rightarrow> string \<Rightarrow> submission_identity res" where
  "identity_from d label =
     bind (exact_str (jget d ''plan_sha256'') (label @ '' plan_sha256'')) (\<lambda>sha.
     bind (exact_str (jget d ''stage_id'') (label @ '' stage_id'')) (\<lambda>stage.
     bind (exact_int (jget d ''attempt'') (label @ '' attempt'')) (\<lambda>n.
     bind (identity_post_init \<lparr>si_plan_sha256 = sha, si_stage_id = stage, si_attempt = n\<rparr>) (\<lambda>i.
     bind (exact_str (jget d ''comment'') (label @ '' comment'')) (\<lambda>c.
     bind (ensure (c = comment i) (ValueError (label @ '' comment does not match its identity''))) (\<lambda>_.
     Inr i))))))"

definition exact_strs :: "json list \<Rightarrow> string \<Rightarrow> ustr list res" where
  "exact_strs vs label = mapR (\<lambda>v. exact_str v label) vs"

definition exact_ints :: "json list \<Rightarrow> string \<Rightarrow> int list res" where
  "exact_ints vs label = mapR (\<lambda>v. exact_int v label) vs"

definition optional_int :: "json \<Rightarrow> string \<Rightarrow> int option res" where
  "optional_int v label = (if v = JNull then Inr None else bind (exact_int v label) (\<lambda>i. Inr (Some i)))"

definition optional_exact_str :: "json \<Rightarrow> string \<Rightarrow> ustr option res" where
  "optional_exact_str v label = (if v = JNull then Inr None else bind (exact_str v label) (\<lambda>s. Inr (Some s)))"

definition int_json :: "int option \<Rightarrow> json" where
  "int_json v = (case v of None \<Rightarrow> JNull | Some i \<Rightarrow> JInt i)"

text \<open>The checks on task ids and indices that accepted and rejected submissions share.\<close>

definition check_tasks :: "string \<Rightarrow> string \<Rightarrow> string \<Rightarrow> ustr list \<Rightarrow> int list \<Rightarrow> unit res" where
  "check_tasks label task_label array_label ids indices =
     bind (ensure (ids \<noteq> []) (ValueError (label @ '' task_ids must be a non-empty tuple''))) (\<lambda>_.
     bind (forR (\<lambda>t. validate_identifier t task_label) ids) (\<lambda>_.
     bind (ensure (card (set ids) = length ids)
             (ValueError (label @ '' task_ids cannot contain duplicates''))) (\<lambda>_.
     bind (ensure (list_all (\<lambda>n. 0 \<le> n) indices)
             (ValueError (label @ '' task_indices must be nonnegative integers''))) (\<lambda>_.
     bind (ensure (\<not> (indices \<noteq> [] \<and> length indices \<noteq> length ids))
             (ValueError (array_label @ '' must bind one index to every task''))) (\<lambda>_.
     ensure (card (set indices) = length indices)
       (ValueError (label @ '' task_indices cannot contain duplicates'')))))))"

section \<open>SubmissionRecord\<close>

record submission_record =
  sb_identity :: submission_identity
  sb_job_id :: ustr
  sb_task_ids :: "ustr list"
  sb_task_indices :: "int list"
  sb_recovered :: bool
  sb_dependency_mode :: ustr
  sb_dependency_job_ids :: "ustr list"

definition record_post_init :: "submission_record \<Rightarrow> submission_record res" where
  "record_post_init r =
     bind (ensure (isdigit (sb_job_id r)) (ValueError ''submission record job_id must be numeric'')) (\<lambda>_.
     bind (check_tasks ''submission record'' ''submission task_id'' ''array submission'' (sb_task_ids r) (sb_task_indices r)) (\<lambda>_.
     bind (ensure (sb_dependency_mode r \<in> lit ` set DEPENDENCY_MODES)
             (ValueError ''submission record dependency_mode is invalid'')) (\<lambda>_.
     bind (ensure (list_all isdigit (sb_dependency_job_ids r))
             (ValueError ''submission record dependency_job_ids must be numeric strings'')) (\<lambda>_.
     bind (ensure (card (set (sb_dependency_job_ids r)) = length (sb_dependency_job_ids r))
             (ValueError ''submission record dependency_job_ids cannot contain duplicates'')) (\<lambda>_.
     Inr r)))))"

definition record_to_dict :: "submission_record \<Rightarrow> jdict" where
  "record_to_dict r =
     [(lit ''attempt'', JInt (si_attempt (sb_identity r))), (lit ''comment'', JStr (comment (sb_identity r))),
      (lit ''dependency_job_ids'', jstrs (sb_dependency_job_ids r)),
      (lit ''dependency_mode'', JStr (sb_dependency_mode r)), (lit ''job_id'', JStr (sb_job_id r)),
      (lit ''plan_sha256'', JStr (si_plan_sha256 (sb_identity r))), (lit ''recovered'', JBool (sb_recovered r)),
      (lit ''schema_version'', JInt EXECUTION_RECEIPT_SCHEMA_VERSION),
      (lit ''stage_id'', JStr (si_stage_id (sb_identity r))),
      (lit ''task_ids'', jstrs (sb_task_ids r)), (lit ''task_indices'', JArr (map JInt (sb_task_indices r)))]"

definition record_from_dict :: "json \<Rightarrow> submission_record res" where
  "record_from_dict v =
     bind (exact_object v
             {''attempt'', ''comment'', ''dependency_job_ids'', ''dependency_mode'', ''job_id'', ''plan_sha256'',
              ''recovered'', ''schema_version'', ''stage_id'', ''task_ids'', ''task_indices''} ''submission record'') (\<lambda>d.
     bind (exact_int (jget d ''schema_version'') ''submission record schema_version'') (\<lambda>ver.
     bind (ensure (ver = EXECUTION_RECEIPT_SCHEMA_VERSION)
             (ValueError ''submission record has unsupported fields or schema'')) (\<lambda>_.
     bind (identity_from d ''submission record'') (\<lambda>i.
     bind (exact_str (jget d ''job_id'') ''submission record job_id'') (\<lambda>job.
     bind (ensure (isdigit job) (ValueError ''submission record job_id must be numeric'')) (\<lambda>_.
     bind (exact_list (jget d ''task_ids'') ''submission record task_ids'') (\<lambda>ts.
     bind (exact_list (jget d ''task_indices'') ''submission record task_indices'') (\<lambda>ns.
     bind (exact_list (jget d ''dependency_job_ids'') ''submission record dependency_job_ids'') (\<lambda>ds.
     bind (exact_strs ts ''submission record task_id'') (\<lambda>ids.
     bind (exact_ints ns ''submission record task_index'') (\<lambda>indices.
     bind (exact_bool (jget d ''recovered'') ''submission record recovered'') (\<lambda>rec.
     bind (exact_str (jget d ''dependency_mode'') ''submission record dependency_mode'') (\<lambda>mode.
     bind (exact_strs ds ''submission record dependency job_id'') (\<lambda>deps.
     record_post_init \<lparr>sb_identity = i, sb_job_id = job, sb_task_ids = ids, sb_task_indices = indices,
       sb_recovered = rec, sb_dependency_mode = mode, sb_dependency_job_ids = deps\<rparr>))))))))))))))"

section \<open>SubmissionRejectionRecord\<close>

record rejection_record =
  rj_identity :: submission_identity
  rj_task_ids :: "ustr list"
  rj_task_indices :: "int list"
  rj_returncode :: int
  rj_stdout :: ustr
  rj_stderr :: ustr

definition rejection_post_init :: "rejection_record \<Rightarrow> rejection_record res" where
  "rejection_post_init r =
     bind (check_tasks ''submission rejection'' ''submission rejection task_id'' ''array rejection'' (rj_task_ids r) (rj_task_indices r)) (\<lambda>_.
     bind (ensure (rj_returncode r \<noteq> 0)
             (ValueError ''submission rejection requires a proven nonzero sbatch return code'')) (\<lambda>_.
     Inr r))"

definition rejection_to_dict :: "rejection_record \<Rightarrow> jdict" where
  "rejection_to_dict r =
     [(lit ''attempt'', JInt (si_attempt (rj_identity r))), (lit ''comment'', JStr (comment (rj_identity r))),
      (lit ''decision'', JStr (lit ''RETRY_SUBMISSION'')),
      (lit ''plan_sha256'', JStr (si_plan_sha256 (rj_identity r))),
      (lit ''returncode'', JInt (rj_returncode r)),
      (lit ''schema_version'', JInt EXECUTION_RECEIPT_SCHEMA_VERSION),
      (lit ''stage_id'', JStr (si_stage_id (rj_identity r))),
      (lit ''stderr'', JStr (rj_stderr r)), (lit ''stdout'', JStr (rj_stdout r)),
      (lit ''task_ids'', jstrs (rj_task_ids r)), (lit ''task_indices'', JArr (map JInt (rj_task_indices r)))]"

definition rejection_from_dict :: "json \<Rightarrow> rejection_record res" where
  "rejection_from_dict v =
     bind (exact_object v
             {''attempt'', ''comment'', ''decision'', ''plan_sha256'', ''returncode'', ''schema_version'', ''stage_id'',
              ''stderr'', ''stdout'', ''task_ids'', ''task_indices''} ''submission rejection'') (\<lambda>d.
     bind (exact_int (jget d ''schema_version'') ''submission rejection schema_version'') (\<lambda>ver.
     bind (ensure (ver = EXECUTION_RECEIPT_SCHEMA_VERSION)
             (ValueError ''submission rejection has unsupported fields or schema'')) (\<lambda>_.
     bind (exact_str (jget d ''decision'') ''submission rejection decision'') (\<lambda>decision.
     bind (ensure (decision = lit ''RETRY_SUBMISSION'')
             (ValueError ''submission rejection decision is invalid'')) (\<lambda>_.
     bind (identity_from d ''submission rejection'') (\<lambda>i.
     bind (exact_list (jget d ''task_ids'') ''submission rejection task_ids'') (\<lambda>ts.
     bind (exact_list (jget d ''task_indices'') ''submission rejection task_indices'') (\<lambda>ns.
     bind (exact_strs ts ''submission rejection task_id'') (\<lambda>ids.
     bind (exact_ints ns ''submission rejection task_index'') (\<lambda>indices.
     bind (exact_int (jget d ''returncode'') ''submission rejection returncode'') (\<lambda>rc.
     bind (exact_str (jget d ''stdout'') ''submission rejection stdout'') (\<lambda>out.
     bind (exact_str (jget d ''stderr'') ''submission rejection stderr'') (\<lambda>err.
     rejection_post_init \<lparr>rj_identity = i, rj_task_ids = ids, rj_task_indices = indices, rj_returncode = rc,
       rj_stdout = out, rj_stderr = err\<rparr>)))))))))))))"

section \<open>TaskAttemptReceipt\<close>

record task_attempt_receipt =
  ta_identity :: submission_identity
  ta_task_id :: ustr
  ta_array_index :: "int option"
  ta_job_id :: ustr
  ta_slurm_state :: ustr
  ta_exit_code :: "int option"
  ta_receipt_observations :: "receipt_observation list"
  ta_successful :: bool
  ta_retryable :: bool

definition attempt_post_init :: "task_attempt_receipt \<Rightarrow> task_attempt_receipt res" where
  "attempt_post_init t =
     bind (validate_identifier (ta_task_id t) ''task receipt task_id'') (\<lambda>_.
     bind (optR (\<lambda>n. ensure (0 \<le> n) (ValueError ''task receipt array_index must be nonnegative or None''))
             (ta_array_index t)) (\<lambda>_.
     bind (ensure (isdigit (ta_job_id t)) (ValueError ''task receipt job_id must be numeric'')) (\<lambda>_.
     bind (ensure (ta_slurm_state t \<noteq> [] \<and> 10 \<notin> set (ta_slurm_state t) \<and> 13 \<notin> set (ta_slurm_state t))
             (ValueError ''task receipt slurm_state must be a non-empty single-line value'')) (\<lambda>_.
     bind (optR (\<lambda>n. ensure (0 \<le> n) (ValueError ''task receipt exit_code must be nonnegative or None''))
             (ta_exit_code t)) (\<lambda>_.
     bind (ensure (list_all ob_trustworthy (ta_receipt_observations t))
             (ValueError ''task-attempt evidence cannot contain untrustworthy observations'')) (\<lambda>_.
     bind (ensure (\<not> (ta_successful t \<and> ta_retryable t))
             (ValueError ''a successful task receipt cannot also be retryable'')) (\<lambda>_.
     Inr t)))))))"

definition observation_to_dict :: "receipt_observation \<Rightarrow> jdict" where
  "observation_to_dict b =
     [(lit ''exists'', JBool (ob_exists b)), (lit ''path'', JStr (ob_path b)), (lit ''sha256'', opt_json (ob_sha256 b))]"

definition observation_from_dict :: "json \<Rightarrow> receipt_observation res" where
  "observation_from_dict v =
     bind (exact_object v {''exists'', ''path'', ''sha256''} ''task-attempt observation'') (\<lambda>d.
     bind (optional_exact_str (jget d ''sha256'') ''task-attempt observation sha256'') (\<lambda>sha.
     bind (exact_str (jget d ''path'') ''task-attempt observation path'') (\<lambda>p.
     bind (exact_bool (jget d ''exists'') ''task-attempt observation exists'') (\<lambda>e.
     observation_post_init \<lparr>ob_path = p, ob_exists = e, ob_sha256 = sha, ob_trustworthy = True, ob_error = None\<rparr>))))"

definition attempt_to_dict :: "task_attempt_receipt \<Rightarrow> jdict" where
  "attempt_to_dict t =
     [(lit ''array_index'', int_json (ta_array_index t)), (lit ''attempt'', JInt (si_attempt (ta_identity t))),
      (lit ''comment'', JStr (comment (ta_identity t))), (lit ''exit_code'', int_json (ta_exit_code t)),
      (lit ''job_id'', JStr (ta_job_id t)), (lit ''plan_sha256'', JStr (si_plan_sha256 (ta_identity t))),
      (lit ''receipts'', JArr (map (\<lambda>b. JObj (observation_to_dict b)) (ta_receipt_observations t))),
      (lit ''schema_version'', JInt EXECUTION_RECEIPT_SCHEMA_VERSION),
      (lit ''slurm_state'', JStr (ta_slurm_state t)), (lit ''stage_id'', JStr (si_stage_id (ta_identity t))),
      (lit ''successful'', JBool (ta_successful t)), (lit ''retryable'', JBool (ta_retryable t)),
      (lit ''task_id'', JStr (ta_task_id t))]"

definition attempt_from_dict :: "json \<Rightarrow> task_attempt_receipt res" where
  "attempt_from_dict v =
     bind (exact_object v
             {''array_index'', ''attempt'', ''comment'', ''exit_code'', ''job_id'', ''plan_sha256'', ''receipts'',
              ''retryable'', ''schema_version'', ''slurm_state'', ''stage_id'', ''successful'', ''task_id''}
             ''task-attempt receipt'') (\<lambda>d.
     bind (exact_int (jget d ''schema_version'') ''task-attempt schema_version'') (\<lambda>ver.
     bind (ensure (ver = EXECUTION_RECEIPT_SCHEMA_VERSION)
             (ValueError ''task-attempt receipt has unsupported fields or schema'')) (\<lambda>_.
     bind (identity_from d ''task-attempt'') (\<lambda>i.
     bind (exact_list (jget d ''receipts'') ''task-attempt receipts'') (\<lambda>rs.
     bind (mapR observation_from_dict rs) (\<lambda>obs.
     bind (optional_int (jget d ''array_index'') ''task-attempt array_index'') (\<lambda>ai.
     bind (optional_int (jget d ''exit_code'') ''task-attempt exit_code'') (\<lambda>ec.
     bind (exact_str (jget d ''task_id'') ''task-attempt task_id'') (\<lambda>ti.
     bind (exact_str (jget d ''job_id'') ''task-attempt job_id'') (\<lambda>job.
     bind (exact_str (jget d ''slurm_state'') ''task-attempt slurm_state'') (\<lambda>st.
     bind (exact_bool (jget d ''successful'') ''task-attempt successful'') (\<lambda>succ.
     bind (exact_bool (jget d ''retryable'') ''task-attempt retryable'') (\<lambda>retry.
     attempt_post_init \<lparr>ta_identity = i, ta_task_id = ti, ta_array_index = ai, ta_job_id = job, ta_slurm_state = st,
       ta_exit_code = ec, ta_receipt_observations = obs, ta_successful = succ, ta_retryable = retry\<rparr>)))))))))))))"

section \<open>The records decode to themselves\<close>

lemma exact_lists_inv [simp]:
  "exact_strs (map JStr xs) l = Inr xs" "exact_ints (map JInt ns) l = Inr ns"
  by (induction xs) (simp_all add: exact_strs_def exact_ints_def, induction ns, simp_all)

lemma optional_inv [simp]:
  "optional_int (int_json n) l = Inr n" "optional_exact_str (opt_json s) l = Inr s"
  by (cases n; simp add: optional_int_def int_json_def) (cases s; simp add: optional_exact_str_def opt_json_def)

lemma identity_from_inv:
  "identity_ok i \<Longrightarrow> jget d ''plan_sha256'' = JStr (si_plan_sha256 i) \<Longrightarrow> jget d ''stage_id'' = JStr (si_stage_id i) \<Longrightarrow>
   jget d ''attempt'' = JInt (si_attempt i) \<Longrightarrow> jget d ''comment'' = JStr (comment i) \<Longrightarrow> identity_from d l = Inr i"
  by (cases i) (simp add: identity_from_def)

lemma identity_from_ok: "identity_from d l = Inr i \<Longrightarrow> identity_ok i"
  by (auto simp: identity_from_def)

interpretation submission: wire_value record_post_init "\<lambda>r. identity_ok (sb_identity r)" record_to_dict record_from_dict
proof
  show "record_post_init x = Inr y \<Longrightarrow> record_post_init y = Inr y" for x y
    by (auto simp: record_post_init_def)
  show "record_from_dict v = Inr x \<Longrightarrow> identity_ok (sb_identity x) \<and> (\<exists>y. record_post_init y = Inr x)" for v x
  proof
    assume d: "record_from_dict v = Inr x"
    then show "\<exists>y. record_post_init y = Inr x" unfolding record_from_dict_def bind_eq_Inr by blast
    from d show "identity_ok (sb_identity x)"
      by (auto simp: record_from_dict_def record_post_init_def dest: identity_from_ok)
  qed
  show "record_post_init x = Inr x \<Longrightarrow> identity_ok (sb_identity x) \<Longrightarrow> record_from_dict (JObj (record_to_dict x)) = Inr x" for x
  proof -
    assume ok: "record_post_init x = Inr x" and i: "identity_ok (sb_identity x)"
    then have "isdigit (sb_job_id x)" by (auto simp: record_post_init_def)
    moreover have "identity_from (record_to_dict x) l = Inr (sb_identity x)" for l
      by (rule identity_from_inv [OF i]) (simp_all add: record_to_dict_def)
    ultimately show ?thesis using ok
      by (cases x) (simp add: record_from_dict_def record_to_dict_def jstrs_def exact_object_def insert_commute)
  qed
qed

interpretation rejection: wire_value rejection_post_init "\<lambda>r. identity_ok (rj_identity r)" rejection_to_dict rejection_from_dict
proof
  show "rejection_post_init x = Inr y \<Longrightarrow> rejection_post_init y = Inr y" for x y
    by (auto simp: rejection_post_init_def)
  show "rejection_from_dict v = Inr x \<Longrightarrow> identity_ok (rj_identity x) \<and> (\<exists>y. rejection_post_init y = Inr x)" for v x
  proof
    assume d: "rejection_from_dict v = Inr x"
    then show "\<exists>y. rejection_post_init y = Inr x" unfolding rejection_from_dict_def bind_eq_Inr by blast
    from d show "identity_ok (rj_identity x)"
      by (auto simp: rejection_from_dict_def rejection_post_init_def dest: identity_from_ok)
  qed
  show "rejection_post_init x = Inr x \<Longrightarrow> identity_ok (rj_identity x) \<Longrightarrow>
    rejection_from_dict (JObj (rejection_to_dict x)) = Inr x" for x
  proof -
    assume ok: "rejection_post_init x = Inr x" and i: "identity_ok (rj_identity x)"
    have "identity_from (rejection_to_dict x) l = Inr (rj_identity x)" for l
      by (rule identity_from_inv [OF i]) (simp_all add: rejection_to_dict_def)
    then show ?thesis using ok
      by (cases x) (simp add: rejection_from_dict_def rejection_to_dict_def jstrs_def exact_object_def insert_commute)
  qed
qed

text \<open>An observation that a durable verdict may contain.\<close>

definition trusted :: "receipt_observation \<Rightarrow> bool" where
  "trusted b \<longleftrightarrow> observation_post_init b = Inr b \<and> ob_trustworthy b"

lemma observation_roundtrip: "trusted b \<Longrightarrow> observation_from_dict (JObj (observation_to_dict b)) = Inr b"
proof -
  assume b: "trusted b"
  then have "ob_trustworthy b" "ob_error b = None" by (auto simp: trusted_def observation_post_init_def split: if_splits)
  then have "b = \<lparr>ob_path = ob_path b, ob_exists = ob_exists b, ob_sha256 = ob_sha256 b, ob_trustworthy = True, ob_error = None\<rparr>"
    by (cases b) simp
  then show ?thesis using b
    by (simp add: observation_from_dict_def observation_to_dict_def exact_object_def insert_commute trusted_def)
qed

lemma observation_decoded: "observation_from_dict v = Inr b \<Longrightarrow> trusted b"
  by (auto simp: observation_from_dict_def trusted_def observation_post_init_def)

definition attempt_sound :: "task_attempt_receipt \<Rightarrow> bool" where
  "attempt_sound t \<longleftrightarrow> identity_ok (ta_identity t) \<and> (\<forall>b \<in> set (ta_receipt_observations t). trusted b)"

lemma observations_roundtrip:
  "\<forall>b \<in> set bs. trusted b \<Longrightarrow> mapR observation_from_dict (map (\<lambda>b. JObj (observation_to_dict b)) bs) = Inr bs"
  by (induction bs) (simp_all add: observation_roundtrip)

lemma observations_decoded: "mapR observation_from_dict vs = Inr bs \<Longrightarrow> \<forall>b \<in> set bs. trusted b"
  by (induction vs arbitrary: bs) (auto dest: observation_decoded)

interpretation attempt: wire_value attempt_post_init attempt_sound attempt_to_dict attempt_from_dict
proof
  show "attempt_post_init x = Inr y \<Longrightarrow> attempt_post_init y = Inr y" for x y
    by (auto simp: attempt_post_init_def)
  show "attempt_from_dict v = Inr x \<Longrightarrow> attempt_sound x \<and> (\<exists>y. attempt_post_init y = Inr x)" for v x
  proof
    assume d: "attempt_from_dict v = Inr x"
    then show "\<exists>y. attempt_post_init y = Inr x" unfolding attempt_from_dict_def bind_eq_Inr by blast
    from d show "attempt_sound x"
      by (auto simp: attempt_from_dict_def attempt_post_init_def attempt_sound_def
          dest: identity_from_ok observations_decoded)
  qed
  show "attempt_post_init x = Inr x \<Longrightarrow> attempt_sound x \<Longrightarrow> attempt_from_dict (JObj (attempt_to_dict x)) = Inr x" for x
  proof -
    assume ok: "attempt_post_init x = Inr x" and s: "attempt_sound x"
    then have i: "identity_ok (ta_identity x)" and bs: "\<forall>b \<in> set (ta_receipt_observations x). trusted b"
      by (simp_all add: attempt_sound_def)
    have "identity_from (attempt_to_dict x) l = Inr (ta_identity x)" for l
      by (rule identity_from_inv [OF i]) (simp_all add: attempt_to_dict_def)
    then show ?thesis using ok observations_roundtrip [OF bs]
      by (cases x) (simp add: attempt_from_dict_def attempt_to_dict_def exact_object_def insert_commute)
  qed
qed

end
