(* ===== verification/Registry_Outbox.thy ===== *)
theory Registry_Outbox
  imports Exec_Records
begin

text \<open>
  \<open>RegistryUpdate\<close> of \<open>runorg/execution_models.py\<close> and \<open>runorg/registry_outbox.py\<close>: the update that
  describes one stage attempt, its decoder, and the merge of repeated callbacks. The specification of
  the merge is a join: greatest status ranks, union of job ids and of claims.
\<close>

section \<open>Definitions\<close>

definition STAGE_RANK :: "(string \<times> nat) list" where
  "STAGE_RANK = [(''SUBMITTED'', 10), (''WAIT'', 20), (''RETRY_MISSING_ONLY'', 30), (''RETRYING'', 40),
     (''RETRY_SUBMITTED'', 50), (''COMPLETED'', 100), (''FAILED'', 110)]"

definition EXECUTION_RANK :: "(string \<times> nat) list" where
  "EXECUTION_RANK = [(''ACTIVE'', 10), (''SUBMITTED'', 20), (''RUNNING'', 30), (''RETRYING'', 40),
     (''COMPLETED'', 100), (''FAILED'', 110)]"

record registry_update =
  ru_plan_sha256 :: ustr
  ru_stage_id :: ustr
  ru_stage_status :: ustr
  ru_execution_status :: ustr
  ru_job_ids :: "ustr list"
  ru_attempt :: int
  ru_lifecycle_claim_ids :: "ustr list"

text \<open>\<open>[0-9a-f]{64}-[0-9a-f]{64}\<close>.\<close>

definition HOLDER_RE :: "ustr \<Rightarrow> bool" where
  "HOLDER_RE s \<longleftrightarrow> length s = 129 \<and> list_all is_lower_hex (take 64 s) \<and> s ! 64 = 45 \<and> list_all is_lower_hex (drop 65 s)"

text \<open>\<open>sorted(xs, key=int)\<close>.\<close>

definition sorted_by_int :: "ustr list \<Rightarrow> ustr list res" where
  "sorted_by_int xs =
     bind (mapR (\<lambda>x. bind (int_of_digits x) (\<lambda>n. Inr (n, x))) xs) (\<lambda>ks.
     Inr (map snd (sort_key fst ks)))"

definition update_post_init :: "registry_update \<Rightarrow> registry_update res" where
  "update_post_init u =
     bind (validate_sha256 (ru_plan_sha256 u) ''registry plan_sha256'') (\<lambda>_.
     bind (validate_identifier (ru_stage_id u) ''registry stage_id'') (\<lambda>_.
     bind (ensure (ru_stage_status u \<in> lit ` {''SUBMITTED'', ''RETRYING'', ''WAIT'', ''COMPLETED'', ''FAILED'',
               ''RETRY_MISSING_ONLY'', ''RETRY_SUBMITTED''}) (ValueError ''unsupported registry stage_status'')) (\<lambda>_.
     bind (ensure (ru_execution_status u \<in> lit ` {''ACTIVE'', ''SUBMITTED'', ''RUNNING'', ''RETRYING'', ''COMPLETED'',
               ''FAILED''}) (ValueError ''unsupported registry execution_status'')) (\<lambda>_.
     bind (ensure (list_all isdigit (ru_job_ids u))
             (ValueError ''registry job_ids must be an immutable tuple of numeric strings'')) (\<lambda>_.
     bind (ensure (card (set (ru_job_ids u)) = length (ru_job_ids u))
             (ValueError ''registry job_ids cannot contain duplicates'')) (\<lambda>_.
     bind (ensure (1 \<le> ru_attempt u) (ValueError ''registry attempt must be a positive integer'')) (\<lambda>_.
     bind (ensure (list_all HOLDER_RE (ru_lifecycle_claim_ids u))
             (ValueError ''registry lifecycle_claim_ids must contain exact holder identities'')) (\<lambda>_.
     bind (ensure (card (set (ru_lifecycle_claim_ids u)) = length (ru_lifecycle_claim_ids u))
             (ValueError ''registry lifecycle_claim_ids cannot contain duplicates'')) (\<lambda>_.
     bind (sorted_by_int (ru_job_ids u)) (\<lambda>jobs.
     Inr (u\<lparr>ru_job_ids := jobs, ru_lifecycle_claim_ids := sort (remdups (ru_lifecycle_claim_ids u))\<rparr>)))))))))))"

definition update_to_dict :: "registry_update \<Rightarrow> jdict" where
  "update_to_dict u =
     [(lit ''attempt'', JInt (ru_attempt u)), (lit ''execution_status'', JStr (ru_execution_status u)),
      (lit ''job_ids'', jstrs (ru_job_ids u)), (lit ''lifecycle_claim_ids'', jstrs (ru_lifecycle_claim_ids u)),
      (lit ''plan_sha256'', JStr (ru_plan_sha256 u)), (lit ''stage_id'', JStr (ru_stage_id u)),
      (lit ''stage_status'', JStr (ru_stage_status u))]"

text \<open>\<open>decode_registry_update\<close> after the text has been decoded to \<open>v\<close>.\<close>

definition decode_registry_update :: "json \<Rightarrow> registry_update res" where
  "decode_registry_update v =
     (case v of JObj d \<Rightarrow>
        bind (exact_object v
                ({''attempt'', ''execution_status'', ''job_ids'', ''plan_sha256'', ''stage_id'', ''stage_status''}
                 \<union> (if lit ''lifecycle_claim_ids'' \<in> dkeys d then {''lifecycle_claim_ids''} else {})) ''pending registry update'') (\<lambda>_.
        bind (exact_list (jget d ''job_ids'') ''pending registry update job_ids'') (\<lambda>js.
        bind (exact_list (jget_or d ''lifecycle_claim_ids'' (JArr [])) ''pending registry update lifecycle_claim_ids'') (\<lambda>cs.
        bind (exact_str (jget d ''plan_sha256'') ''pending registry update plan_sha256'') (\<lambda>sha.
        bind (exact_str (jget d ''stage_id'') ''pending registry update stage_id'') (\<lambda>stage.
        bind (exact_str (jget d ''stage_status'') ''pending registry update stage_status'') (\<lambda>ss.
        bind (exact_str (jget d ''execution_status'') ''pending registry update execution_status'') (\<lambda>es.
        bind (exact_strs js ''pending registry update job_id'') (\<lambda>jobs.
        bind (exact_int (jget d ''attempt'') ''pending registry update attempt'') (\<lambda>n.
        bind (exact_strs cs ''pending registry update lifecycle claim_id'') (\<lambda>claims.
        update_post_init \<lparr>ru_plan_sha256 = sha, ru_stage_id = stage, ru_stage_status = ss, ru_execution_status = es,
          ru_job_ids = jobs, ru_attempt = n, ru_lifecycle_claim_ids = claims\<rparr>))))))))))
      | _ \<Rightarrow> Inl (ValueError ''pending registry update must be a JSON object''))"

definition rank_in :: "(string \<times> nat) list \<Rightarrow> ustr \<Rightarrow> nat res" where
  "rank_in table s = (case dget (map (\<lambda>(k, n). (lit k, n)) table) s of None \<Rightarrow> Inl (KeyError ''status'') | Some n \<Rightarrow> Inr n)"

text \<open>\<open>max((a, b), key=...)\<close>: the first of equal elements wins.\<close>

definition max_by_rank :: "(string \<times> nat) list \<Rightarrow> ustr \<Rightarrow> ustr \<Rightarrow> ustr res" where
  "max_by_rank table a b =
     bind (rank_in table a) (\<lambda>m. bind (rank_in table b) (\<lambda>n. Inr (if m < n then b else a)))"

definition update_key :: "registry_update \<Rightarrow> ustr \<times> ustr \<times> int" where
  "update_key u = (ru_plan_sha256 u, ru_stage_id u, ru_attempt u)"

text \<open>The parameter \<open>order\<close> is the order in which Python iterates over a set.\<close>

definition merge_registry_updates :: "(ustr set \<Rightarrow> ustr list) \<Rightarrow> registry_update option \<Rightarrow> registry_update
    \<Rightarrow> registry_update res" where
  "merge_registry_updates order current incoming =
     (case current of None \<Rightarrow> Inr incoming
      | Some c \<Rightarrow>
        bind (ensure (update_key c = update_key incoming)
                (ValueError ''registry outbox path contains a different plan/stage/attempt'')) (\<lambda>_.
        bind (max_by_rank STAGE_RANK (ru_stage_status c) (ru_stage_status incoming)) (\<lambda>ss.
        bind (max_by_rank EXECUTION_RANK (ru_execution_status c) (ru_execution_status incoming)) (\<lambda>es.
        bind (sorted_by_int (order (set (ru_job_ids c) \<union> set (ru_job_ids incoming)))) (\<lambda>jobs.
        update_post_init \<lparr>ru_plan_sha256 = ru_plan_sha256 incoming, ru_stage_id = ru_stage_id incoming,
          ru_stage_status = ss, ru_execution_status = es, ru_job_ids = jobs, ru_attempt = ru_attempt incoming,
          ru_lifecycle_claim_ids =
            sort (order (set (ru_lifecycle_claim_ids c) \<union> set (ru_lifecycle_claim_ids incoming)))\<rparr>)))))"

text \<open>The outbox item after a sequence of callbacks.\<close>

definition deliver :: "(ustr set \<Rightarrow> ustr list) \<Rightarrow> registry_update list \<Rightarrow> registry_update option res" where
  "deliver order us = foldR (\<lambda>u acc. bind (merge_registry_updates order acc u) (\<lambda>m. Inr (Some m))) us None"

section \<open>The constructor\<close>

lemma sorted_by_int_iff:
  "sorted_by_int xs = Inr ys \<longleftrightarrow> (\<forall>x \<in> set xs. x \<noteq> [] \<and> list_all is_nd x) \<and> ys = sort_key nat_of_digits xs"
proof -
  have m: "mapR (\<lambda>x. bind (int_of_digits x) (\<lambda>n. Inr (n, x))) xs = Inr ks \<longleftrightarrow>
      (\<forall>x \<in> set xs. x \<noteq> [] \<and> list_all is_nd x) \<and> ks = map (\<lambda>x. (nat_of_digits x, x)) xs" for ks
    by (induction xs arbitrary: ks) (auto simp: int_of_digits_def split: if_splits)
  show ?thesis unfolding sorted_by_int_def bind_eq_Inr m by (auto simp: sort_key_map comp_def)
qed

definition update_ok :: "registry_update \<Rightarrow> bool" where
  "update_ok u \<longleftrightarrow> SHA256_RE (ru_plan_sha256 u) \<and> ident_ok (ru_stage_id u)
     \<and> ru_stage_status u \<in> lit ` fst ` set STAGE_RANK \<and> ru_execution_status u \<in> lit ` fst ` set EXECUTION_RANK
     \<and> (\<forall>j \<in> set (ru_job_ids u). j \<noteq> [] \<and> list_all is_nd j) \<and> distinct (ru_job_ids u) \<and> 1 \<le> ru_attempt u
     \<and> (\<forall>c \<in> set (ru_lifecycle_claim_ids u). HOLDER_RE c) \<and> distinct (ru_lifecycle_claim_ids u)"

definition update_canon :: "registry_update \<Rightarrow> registry_update" where
  "update_canon u = u\<lparr>ru_job_ids := sort_key nat_of_digits (ru_job_ids u),
     ru_lifecycle_claim_ids := sort (ru_lifecycle_claim_ids u)\<rparr>"

lemma nd_isdigit: "x \<noteq> [] \<Longrightarrow> list_all is_nd x \<Longrightarrow> isdigit x"
  by (auto simp: isdigit_def is_digit_def list_all_iff)

lemma update_post_init_iff: "update_post_init u = Inr v \<longleftrightarrow> update_ok u \<and> v = update_canon u"
proof -
  have st: "ru_stage_status u \<in> lit ` {''SUBMITTED'', ''RETRYING'', ''WAIT'', ''COMPLETED'', ''FAILED'',
      ''RETRY_MISSING_ONLY'', ''RETRY_SUBMITTED''} \<longleftrightarrow> ru_stage_status u \<in> lit ` fst ` set STAGE_RANK"
    by (auto simp: STAGE_RANK_def)
  have ex: "ru_execution_status u \<in> lit ` {''ACTIVE'', ''SUBMITTED'', ''RUNNING'', ''RETRYING'', ''COMPLETED'', ''FAILED''}
      \<longleftrightarrow> ru_execution_status u \<in> lit ` fst ` set EXECUTION_RANK"
    by (auto simp: EXECUTION_RANK_def)
  show ?thesis
    unfolding update_post_init_def st ex card_set_distinct ensure_bind_Inr bind_eq_Inr validate_eq_Inr
      sorted_by_int_iff update_ok_def update_canon_def list_all_iff [of isdigit] list_all_iff [of HOLDER_RE]
    using nd_isdigit by (auto simp: distinct_remdups_id)
qed

lemma update_canon_simps [simp]:
  "update_canon (update_canon u) = update_canon u" "update_ok (update_canon u) = update_ok u"
  by (simp_all add: update_canon_def update_ok_def sort_key_id_if_sorted)

interpretation update: wire_value update_post_init "\<lambda>_. True" update_to_dict decode_registry_update
proof
  show "update_post_init x = Inr y \<Longrightarrow> update_post_init y = Inr y" for x y
    by (auto simp: update_post_init_iff)
  show "decode_registry_update v = Inr x \<Longrightarrow> True \<and> (\<exists>y. update_post_init y = Inr x)" for v x
    unfolding decode_registry_update_def by (cases v) auto
  show "update_post_init x = Inr x \<Longrightarrow> decode_registry_update (JObj (update_to_dict x)) = Inr x" for x
    by (cases x) (simp add: decode_registry_update_def update_to_dict_def jstrs_def exact_object_def insert_commute)
qed

section \<open>The merge is a join\<close>

definition stage_rank :: "registry_update \<Rightarrow> nat" where
  "stage_rank u = (case rank_in STAGE_RANK (ru_stage_status u) of Inl e \<Rightarrow> 0 | Inr n \<Rightarrow> n)"

definition execution_rank :: "registry_update \<Rightarrow> nat" where
  "execution_rank u = (case rank_in EXECUTION_RANK (ru_execution_status u) of Inl e \<Rightarrow> 0 | Inr n \<Rightarrow> n)"

text \<open>What a set of updates of one attempt says in total.\<close>

definition summary :: "registry_update set \<Rightarrow> nat \<times> nat \<times> ustr set \<times> ustr set" where
  "summary U = (Max (stage_rank ` U), Max (execution_rank ` U), (\<Union>u \<in> U. set (ru_job_ids u)),
     (\<Union>u \<in> U. set (ru_lifecycle_claim_ids u)))"

definition join_view :: "nat \<times> nat \<times> ustr set \<times> ustr set \<Rightarrow> nat \<times> nat \<times> ustr set \<times> ustr set \<Rightarrow> nat \<times> nat \<times> ustr set \<times> ustr set" where
  "join_view x y = (case x of (a, b, c, d) \<Rightarrow> case y of (a', b', c', d') \<Rightarrow> (max a a', max b b', c \<union> c', d \<union> d'))"

interpretation view: semilattice join_view
  by standard (auto simp: join_view_def split: prod.splits)

lemma summary_insert: "finite U \<Longrightarrow> U \<noteq> {} \<Longrightarrow> summary (insert u U) = join_view (summary {u}) (summary U)"
  by (simp add: summary_def join_view_def)

lemma ranks_inj:
  "rank_in STAGE_RANK s = Inr n \<Longrightarrow> rank_in STAGE_RANK t = Inr n \<Longrightarrow> s = t"
  "rank_in EXECUTION_RANK s = Inr n \<Longrightarrow> rank_in EXECUTION_RANK t = Inr n \<Longrightarrow> s = t"
  by (auto simp: rank_in_def STAGE_RANK_def EXECUTION_RANK_def split: if_splits)

lemma rank_known: "s \<in> lit ` fst ` set table \<longleftrightarrow> (\<exists>n. rank_in table s = Inr n)"
proof -
  have "fst ` (\<lambda>(k, n). (lit k, n)) ` set table = lit ` fst ` set table" by force
  then show ?thesis
    using dget_None_iff [of "map (\<lambda>(k, n). (lit k, n)) table" s]
    by (auto simp: rank_in_def dkeys_def split: option.splits)
qed

lemma canonical_ranks:
  assumes "update_ok u"
  shows "rank_in STAGE_RANK (ru_stage_status u) = Inr (stage_rank u)"
    and "rank_in EXECUTION_RANK (ru_execution_status u) = Inr (execution_rank u)"
  using assms by (auto simp: update_ok_def rank_known stage_rank_def execution_rank_def)

lemma max_by_rank_eq:
  "rank_in table a = Inr m \<Longrightarrow> rank_in table b = Inr n \<Longrightarrow>
   max_by_rank table a b = Inr (if m < n then b else a) \<and> rank_in table (if m < n then b else a) = Inr (max m n)"
  by (auto simp: max_by_rank_def)

text \<open>An update is determined by its key and its view, when numeric values separate the job ids.\<close>

lemma canonical_determined:
  assumes "update.canonical u" and "update.canonical v" and "update_key u = update_key v"
    and "summary {u} = summary {v}" and "inj_on nat_of_digits (set (ru_job_ids u))"
  shows "u = v"
proof -
  have ok: "update_ok u" "update_ok v" and c: "u = update_canon u" "v = update_canon v"
    using assms(1,2) by (auto simp: update.canonical_def update_post_init_iff)
  have view: "stage_rank u = stage_rank v" "execution_rank u = execution_rank v"
    "set (ru_job_ids u) = set (ru_job_ids v)" "set (ru_lifecycle_claim_ids u) = set (ru_lifecycle_claim_ids v)"
    using assms(4) by (simp_all add: summary_def)
  have "ru_stage_status u = ru_stage_status v" "ru_execution_status u = ru_execution_status v"
    using canonical_ranks [OF ok(1)] canonical_ranks [OF ok(2)] view(1,2) ranks_inj by metis+
  moreover have "mset (ru_job_ids u) = mset (ru_job_ids v)" "mset (ru_lifecycle_claim_ids u) = mset (ru_lifecycle_claim_ids v)"
    using ok view(3,4) by (metis update_ok_def set_eq_iff_mset_eq_distinct)+
  then have "sort_key nat_of_digits (ru_job_ids u) = sort_key nat_of_digits (ru_job_ids v)"
    "sort (ru_lifecycle_claim_ids u) = sort (ru_lifecycle_claim_ids v)"
    using assms(5) by (auto intro: sort_key_perm_unique)
  ultimately show ?thesis using assms(3) c by (cases u; cases v) (simp add: update_canon_def update_key_def)
qed

definition set_order :: "(ustr set \<Rightarrow> ustr list) \<Rightarrow> bool" where
  "set_order order \<longleftrightarrow> (\<forall>S. finite S \<longrightarrow> set (order S) = S \<and> distinct (order S))"

lemma set_order_simps:
  "set_order order \<Longrightarrow> finite S \<Longrightarrow> set (order S) = S" "set_order order \<Longrightarrow> finite S \<Longrightarrow> distinct (order S)"
  by (simp_all add: set_order_def)

lemma merge_refines:
  assumes "set_order order" and "update.canonical c" and "update.canonical u" and "update_key c = update_key u"
  shows "\<exists>m. merge_registry_updates order (Some c) u = Inr m \<and> update.canonical m \<and> update_key m = update_key u
    \<and> summary {m} = join_view (summary {c}) (summary {u})"
proof -
  have ok: "update_ok c" "update_ok u" using assms(2,3) by (auto simp: update.canonical_def update_post_init_iff)
  let ?J = "set (ru_job_ids c) \<union> set (ru_job_ids u)" and ?C = "set (ru_lifecycle_claim_ids c) \<union> set (ru_lifecycle_claim_ids u)"
  note fin = set_order_simps [OF assms(1), of ?J, simplified] set_order_simps [OF assms(1), of ?C, simplified]
  let ?s = "if stage_rank c < stage_rank u then ru_stage_status u else ru_stage_status c"
  let ?e = "if execution_rank c < execution_rank u then ru_execution_status u else ru_execution_status c"
  note s = max_by_rank_eq [OF canonical_ranks(1) [OF ok(1)] canonical_ranks(1) [OF ok(2)]]
  note e = max_by_rank_eq [OF canonical_ranks(2) [OF ok(1)] canonical_ranks(2) [OF ok(2)]]
  have j: "sorted_by_int (order ?J) = Inr (sort_key nat_of_digits (order ?J))"
    unfolding sorted_by_int_iff using ok fin(1) by (auto simp: update_ok_def)
  let ?m = "\<lparr>ru_plan_sha256 = ru_plan_sha256 u, ru_stage_id = ru_stage_id u, ru_stage_status = ?s,
    ru_execution_status = ?e, ru_job_ids = sort_key nat_of_digits (order ?J), ru_attempt = ru_attempt u,
    ru_lifecycle_claim_ids = sort (order ?C)\<rparr>"
  have m: "update_ok ?m" using ok fin s e by (auto simp: update_ok_def rank_known)
  then have p: "update_post_init ?m = Inr (update_canon ?m)" by (simp add: update_post_init_iff)
  have same: "update_canon ?m = ?m" by (simp add: update_canon_def sort_key_id_if_sorted)
  have "merge_registry_updates order (Some c) u = Inr ?m"
    using assms(4) s e j p same by (simp add: merge_registry_updates_def)
  moreover have "update.canonical ?m" using p same by (simp add: update.canonical_def)
  moreover have "summary {?m} = join_view (summary {c}) (summary {u})"
    using s e fin by (simp add: summary_def join_view_def stage_rank_def execution_rank_def)
  ultimately show ?thesis by (auto simp: update_key_def)
qed

lemma deliver_refines:
  assumes "set_order order" and "us \<noteq> []" and "\<forall>u \<in> set us. update.canonical u \<and> update_key u = k"
  shows "\<exists>m. deliver order us = Inr (Some m) \<and> update.canonical m \<and> update_key m = k \<and> summary {m} = summary (set us)"
proof -
  let ?step = "\<lambda>u acc. bind (merge_registry_updates order acc u) (\<lambda>m. Inr (Some m))"
  have loop: "update.canonical c \<Longrightarrow> update_key c = k \<Longrightarrow> \<forall>u \<in> set us. update.canonical u \<and> update_key u = k \<Longrightarrow>
      \<exists>m. foldR ?step us (Some c) = Inr (Some m) \<and> update.canonical m \<and> update_key m = k
        \<and> summary {m} = summary (insert c (set us))" for c us
  proof (induction us arbitrary: c)
    case (Cons u us)
    obtain m where m: "merge_registry_updates order (Some c) u = Inr m" "update.canonical m" "update_key m = k"
      "summary {m} = join_view (summary {c}) (summary {u})"
      using merge_refines [OF assms(1) Cons.prems(1), of u] Cons.prems by auto
    obtain m' where m': "foldR ?step us (Some m) = Inr (Some m')" "update.canonical m'" "update_key m' = k"
      "summary {m'} = summary (insert m (set us))"
      using Cons.IH [OF m(2,3)] Cons.prems by auto
    have "summary (insert m (set us)) = summary (insert c (insert u (set us)))"
    proof (cases "us = []")
      case True
      then show ?thesis using m(4) by (simp add: summary_insert)
    next
      case False
      then show ?thesis using m(4) by (simp add: summary_insert view.assoc)
    qed
    with m(1) m' show ?case by auto
  qed auto
  obtain u us' where us: "us = u # us'" using assms(2) by (cases us) auto
  have "merge_registry_updates order None u = Inr u" by (simp add: merge_registry_updates_def)
  with loop [of u us'] assms(3) us show ?thesis by (auto simp: deliver_def)
qed

end
