(* ===== verification/Exec_Paths.thy ===== *)
theory Exec_Paths
  imports Exec_Models Plan_Paths
begin

text \<open>
  \<open>runorg/execution_paths.py\<close>: where the engine keeps its own evidence. Every constructor is a
  \<open>posixpath.join\<close> below the directory \<open>execution\<close> of the receipts root.
\<close>

section \<open>Path constructors\<close>

definition attempt_file :: "int \<Rightarrow> ustr" where
  "attempt_file n = lit ''attempt-'' @ attempt_text n @ lit ''.json''"

definition bound_plan_path :: "execution_plan \<Rightarrow> ustr" where
  "bound_plan_path p = path_join (cp_receipts_root (pl_paths p)) [lit ''execution'', lit ''execution-plan.json'']"

definition submission_record_path :: "execution_plan \<Rightarrow> submission_identity \<Rightarrow> ustr" where
  "submission_record_path p i = path_join (cp_receipts_root (pl_paths p))
     [lit ''execution'', lit ''submissions'', si_stage_id i, attempt_file (si_attempt i)]"

definition submission_intent_path :: "execution_plan \<Rightarrow> submission_identity \<Rightarrow> ustr" where
  "submission_intent_path p i = path_join (cp_receipts_root (pl_paths p))
     [lit ''execution'', lit ''submission-intents'', si_stage_id i, attempt_file (si_attempt i)]"

definition submission_invocation_path :: "execution_plan \<Rightarrow> submission_identity \<Rightarrow> ustr" where
  "submission_invocation_path p i = path_join (cp_receipts_root (pl_paths p))
     [lit ''execution'', lit ''submission-invocations'', si_stage_id i, attempt_file (si_attempt i)]"

definition submission_rejection_path :: "execution_plan \<Rightarrow> submission_identity \<Rightarrow> ustr" where
  "submission_rejection_path p i = path_join (cp_receipts_root (pl_paths p))
     [lit ''execution'', lit ''submission-rejections'', si_stage_id i, attempt_file (si_attempt i)]"

definition reconciler_followup_path :: "execution_plan \<Rightarrow> ustr \<Rightarrow> int \<Rightarrow> ustr" where
  "reconciler_followup_path p stage n = path_join (cp_receipts_root (pl_paths p))
     [lit ''execution'', lit ''reconciler-followups'', stage, attempt_file n]"

definition task_attempt_path :: "execution_plan \<Rightarrow> submission_identity \<Rightarrow> ustr \<Rightarrow> ustr" where
  "task_attempt_path p i task = path_join (cp_receipts_root (pl_paths p))
     [lit ''execution'', lit ''task-attempts'', si_stage_id i, task, attempt_file (si_attempt i)]"

definition reconciliation_path :: "execution_plan \<Rightarrow> ustr \<Rightarrow> int \<Rightarrow> ustr" where
  "reconciliation_path p stage n = path_join (cp_receipts_root (pl_paths p))
     [lit ''execution'', lit ''reconciliations'', stage, attempt_file n]"

definition pending_registry_path :: "execution_plan \<Rightarrow> ustr \<Rightarrow> int \<Rightarrow> ustr" where
  "pending_registry_path p stage n = path_join (cp_receipts_root (pl_paths p))
     [lit ''execution'', lit ''pending-registry'', stage, attempt_file n]"

section \<open>The engine's files\<close>

text \<open>The facts the engine records, as one type.\<close>

datatype engine_file =
    BoundPlan
  | Submission submission_identity
  | Intent submission_identity
  | Invocation submission_identity
  | Rejection submission_identity
  | Followup ustr int
  | Attempt submission_identity ustr
  | Reconciliation ustr int
  | PendingRegistry ustr int

fun file_path :: "execution_plan \<Rightarrow> engine_file \<Rightarrow> ustr" where
  "file_path p BoundPlan = bound_plan_path p"
| "file_path p (Submission i) = submission_record_path p i"
| "file_path p (Intent i) = submission_intent_path p i"
| "file_path p (Invocation i) = submission_invocation_path p i"
| "file_path p (Rejection i) = submission_rejection_path p i"
| "file_path p (Followup s n) = reconciler_followup_path p s n"
| "file_path p (Attempt i t) = task_attempt_path p i t"
| "file_path p (Reconciliation s n) = reconciliation_path p s n"
| "file_path p (PendingRegistry s n) = pending_registry_path p s n"

text \<open>
  Files named by values the engine constructs: identities of one plan, identifiers, and attempt
  numbers from one on.
\<close>

fun file_ok :: "ustr \<Rightarrow> engine_file \<Rightarrow> bool" where
  "file_ok sha BoundPlan = True"
| "file_ok sha (Submission i) = (identity_ok i \<and> si_plan_sha256 i = sha)"
| "file_ok sha (Intent i) = (identity_ok i \<and> si_plan_sha256 i = sha)"
| "file_ok sha (Invocation i) = (identity_ok i \<and> si_plan_sha256 i = sha)"
| "file_ok sha (Rejection i) = (identity_ok i \<and> si_plan_sha256 i = sha)"
| "file_ok sha (Followup s n) = (ident_ok s \<and> 1 \<le> n)"
| "file_ok sha (Attempt i t) = (identity_ok i \<and> si_plan_sha256 i = sha \<and> ident_ok t)"
| "file_ok sha (Reconciliation s n) = (ident_ok s \<and> 1 \<le> n)"
| "file_ok sha (PendingRegistry s n) = (ident_ok s \<and> 1 \<le> n)"

text \<open>The components of a file below the directory \<open>execution\<close>.\<close>

fun file_tail :: "engine_file \<Rightarrow> ustr list" where
  "file_tail BoundPlan = [lit ''execution-plan.json'']"
| "file_tail (Submission i) = [lit ''submissions'', si_stage_id i, attempt_file (si_attempt i)]"
| "file_tail (Intent i) = [lit ''submission-intents'', si_stage_id i, attempt_file (si_attempt i)]"
| "file_tail (Invocation i) = [lit ''submission-invocations'', si_stage_id i, attempt_file (si_attempt i)]"
| "file_tail (Rejection i) = [lit ''submission-rejections'', si_stage_id i, attempt_file (si_attempt i)]"
| "file_tail (Followup s n) = [lit ''reconciler-followups'', s, attempt_file n]"
| "file_tail (Attempt i t) = [lit ''task-attempts'', si_stage_id i, t, attempt_file (si_attempt i)]"
| "file_tail (Reconciliation s n) = [lit ''reconciliations'', s, attempt_file n]"
| "file_tail (PendingRegistry s n) = [lit ''pending-registry'', s, attempt_file n]"

lemma ident_good: "ident_ok s \<Longrightarrow> good_comp s"
proof -
  assume s: "ident_ok s"
  then have "s \<noteq> dot" "s \<noteq> dotdot" using IDENTIFIER_not_dots by (auto simp: ident_ok_def)
  with ident_chars [OF s] ident_char_bound show ?thesis by (auto simp: good_comp_def list_all_iff)
qed

lemma attempt_file_good: "good_comp (attempt_file n)"
proof -
  have "slash \<notin> set (attempt_text n)" using fmt03_range [of slash "nat n"] by (auto simp: attempt_text_def)
  then show ?thesis by (simp add: attempt_file_def good_comp_def lit_def)
qed

lemma attempt_file_inj: "1 \<le> m \<Longrightarrow> 1 \<le> n \<Longrightarrow> attempt_file m = attempt_file n \<longleftrightarrow> m = n"
  by (auto simp: attempt_file_def attempt_text_def)

lemma lit_kinds_good:
  "good_comp (lit ''execution'')" "good_comp (lit ''execution-plan.json'')" "good_comp (lit ''submissions'')"
  "good_comp (lit ''submission-intents'')" "good_comp (lit ''submission-invocations'')"
  "good_comp (lit ''submission-rejections'')" "good_comp (lit ''reconciler-followups'')"
  "good_comp (lit ''task-attempts'')" "good_comp (lit ''reconciliations'')" "good_comp (lit ''pending-registry'')"
  by (simp_all add: good_comp_def lit_def)

lemma identity_parts: "identity_ok i \<Longrightarrow> ident_ok (si_stage_id i) \<and> 1 \<le> si_attempt i"
  by (simp add: identity_ok_def)

lemma file_tail_good: "file_ok sha f \<Longrightarrow> \<forall>c \<in> set (file_tail f). good_comp c"
  by (cases f) (auto simp: lit_kinds_good attempt_file_good ident_good dest: identity_parts)

lemma file_tail_ne: "file_tail f \<noteq> []"
  by (cases f) simp_all

lemma file_path_eq: "file_path p f = path_join (cp_receipts_root (pl_paths p)) (lit ''execution'' # file_tail f)"
  by (cases f) (simp_all add: bound_plan_path_def submission_record_path_def submission_intent_path_def
      submission_invocation_path_def submission_rejection_path_def reconciler_followup_path_def
      task_attempt_path_def reconciliation_path_def pending_registry_path_def del: path_join.simps)

lemma identity_eqI:
  "si_plan_sha256 i = si_plan_sha256 j \<Longrightarrow> si_stage_id i = si_stage_id j \<Longrightarrow> si_attempt i = si_attempt j \<Longrightarrow> i = j"
  for i j :: submission_identity
  by (cases i; cases j) simp

lemma file_tail_inj: "file_ok sha f \<Longrightarrow> file_ok sha g \<Longrightarrow> file_tail f = file_tail g \<Longrightarrow> f = g"
  by (cases f; cases g) (auto simp: attempt_file_inj identity_ok_def intro: identity_eqI)

lemma file_path_comps:
  assumes "r = cp_receipts_root (pl_paths p)" and "r = abs_of (comps r)" and "comps r \<noteq> []"
    and "\<forall>c \<in> set (comps r). good_comp c" and "file_ok sha f"
  shows "comps (file_path p f) = comps r @ lit ''execution'' # file_tail f"
proof -
  let ?t = "lit ''execution'' # file_tail f"
  have g: "\<forall>c \<in> set ?t. good_comp c" using file_tail_good [OF assms(5)] lit_kinds_good(1) by simp
  have "file_path p f = path_join (abs_of (comps r)) ?t" using assms(1,2) file_path_eq by metis
  then have "file_path p f = abs_of (comps r @ ?t)" using path_join_abs_of [OF assms(3,4) g] by simp
  moreover have "\<forall>c \<in> set (comps r @ ?t). good_comp c" using g assms(4) by auto
  ultimately show ?thesis using comps_abs_of by simp
qed

text \<open>Below a valid plan a path names one fact.\<close>

lemma plan_receipts_root:
  assumes "plan_ok p" and "plan_sound p"
  defines "r \<equiv> cp_receipts_root (pl_paths p)"
  shows "r = abs_of (comps r)" "comps r \<noteq> []" "\<forall>c \<in> set (comps r). good_comp c"
proof -
  have paths: "paths.canonical (pl_paths p)" using assms(2) by (simp add: plan_sound_def)
  obtain r0 where r0: "r0 \<in> set (all_receipts p)" using plan_has_receipt [OF assms(1,2)] by (cases "all_receipts p") auto
  then have c0: "receipt.canonical r0" "receipt_placed p r0"
    using assms plan_receipts_canonical by (auto simp: plan_ok_def)
  show "r = abs_of (comps r)" "comps r \<noteq> []" "\<forall>c \<in> set (comps r). good_comp c"
    using receipts_root_single [OF paths c0] by (auto simp: r_def)
qed

lemma file_path_inj:
  assumes "plan_ok p" "plan_sound p" and "file_ok sha f" "file_ok sha g"
  shows "file_path p f = file_path p g \<longleftrightarrow> f = g"
  using file_path_comps [OF refl plan_receipts_root [OF assms(1,2)] assms(3)]
    file_path_comps [OF refl plan_receipts_root [OF assms(1,2)] assms(4)] file_tail_inj [OF assms(3,4)]
  by auto

end
