(* ===== verification/Exec_Properties.thy ===== *)
theory Exec_Properties
  imports Registry_Outbox Exec_Paths Plan_Samples
begin

text \<open>
  Properties of the engine's identities, scheduler requests, durable records, file locations and
  registry outbox.
\<close>

section \<open>Facts shared by the proofs\<close>

definition sample_identity :: submission_identity where
  "sample_identity = \<lparr>si_plan_sha256 = hex64, si_stage_id = lit ''a'', si_attempt = 2\<rparr>"

definition sample_request :: submission_request where
  "sample_request = \<lparr>sr_identity = sample_identity, sr_run_id = sample_run_id, sr_tasks = [], sr_resources = sample_resources,
     sr_dependency_mode = lit ''afterok'', sr_dependency_job_ids = [lit ''7''], sr_script_path = lit ''/s'', sr_script_text = [],
     sr_stdout_pattern = lit ''/o'', sr_stderr_pattern = lit ''/e'', sr_begin_delay_seconds = 0, sr_ordering_job_ids = []\<rparr>"

definition sample_record :: submission_record where
  "sample_record = \<lparr>sb_identity = sample_identity, sb_job_id = lit ''12'', sb_task_ids = [lit ''a''], sb_task_indices = [],
     sb_recovered = True, sb_dependency_mode = lit ''afterok'', sb_dependency_job_ids = [lit ''7'']\<rparr>"

definition sample_rejection :: rejection_record where
  "sample_rejection = \<lparr>rj_identity = sample_identity, rj_task_ids = [lit ''a''], rj_task_indices = [], rj_returncode = 1,
     rj_stdout = [], rj_stderr = []\<rparr>"

definition sample_verdict :: task_attempt_receipt where
  "sample_verdict = \<lparr>ta_identity = sample_identity, ta_task_id = lit ''a'', ta_array_index = None, ta_job_id = lit ''12'',
     ta_slurm_state = lit ''COMPLETED'', ta_exit_code = Some 0,
     ta_receipt_observations = [\<lparr>ob_path = lit ''/r'', ob_exists = True, ob_sha256 = Some hex64, ob_trustworthy = True, ob_error = None\<rparr>],
     ta_successful = True, ta_retryable = False\<rparr>"

definition sample_update :: "string \<Rightarrow> string \<Rightarrow> string \<Rightarrow> registry_update" where
  "sample_update st ex job = \<lparr>ru_plan_sha256 = hex64, ru_stage_id = lit ''a'', ru_stage_status = lit st,
     ru_execution_status = lit ex, ru_job_ids = [lit job], ru_attempt = 1, ru_lifecycle_claim_ids = []\<rparr>"

lemma sample_identity_ok: "identity_ok sample_identity"
  by (simp add: identity_ok_def sample_identity_def)

lemma isdigit_lits: "isdigit (lit ''7'')" "isdigit (lit ''12'')"
  by (simp_all add: isdigit_def is_digit_def is_nd_small lit_def)

lemma check_tasks_one: "ident_ok t \<Longrightarrow> check_tasks l l' l'' [t] [] = Inr ()"
  by (simp add: check_tasks_def)

lemma sample_record_canonical: "submission.canonical sample_record"
  by (simp add: submission.canonical_def record_post_init_def sample_record_def sample_identity_ok isdigit_lits
      check_tasks_one DEPENDENCY_MODES_def)

lemma sample_rejection_canonical: "rejection.canonical sample_rejection"
  by (simp add: rejection.canonical_def rejection_post_init_def sample_rejection_def sample_identity_ok check_tasks_one)

lemma sample_verdict_canonical: "attempt.canonical sample_verdict"
  by (simp add: attempt.canonical_def attempt_post_init_def sample_verdict_def attempt_sound_def sample_identity_ok isdigit_lits
      trusted_def observation_post_init_def) (simp add: lit_def)

lemma subseq_distinct: "subseq xs ys \<Longrightarrow> distinct ys \<Longrightarrow> distinct xs"
  by (induction xs ys rule: list_emb.induct) (auto dest: list_emb_set)

section \<open>Identities\<close>

text \<open>The scheduler comment identifies the attempt: parsing the comment of a constructed identity
  gives the identity back, so no two identities share a comment.
\<close>

theorem comment_identifies:
  assumes "identity_post_init i = Inr i"
  shows "from_comment (comment i) = Inr i
    \<and> (\<forall>j. identity_post_init j = Inr j \<longrightarrow> comment j = comment i \<longrightarrow> j = i)"
  using assms from_comment_comment comment_inj by auto

theorem comment_identifies_witness: "from_comment (comment sample_identity) = Inr sample_identity"
  using comment_identifies [of sample_identity] sample_identity_ok by simp

section \<open>Scheduler requests\<close>

lemma option_names:
  "before_first 61 (lit ''--comment='' @ s) = lit ''--comment''"
  "before_first 61 (lit ''--job-name='' @ s) = lit ''--job-name''"
  "before_first 61 (lit ''--partition='' @ s) = lit ''--partition''"
  "before_first 61 (lit ''--cpus-per-task='' @ s) = lit ''--cpus-per-task''"
  "before_first 61 (lit ''--mem='' @ s) = lit ''--mem''"
  "before_first 61 (lit ''--time='' @ s) = lit ''--time''"
  "before_first 61 (lit ''--output='' @ s) = lit ''--output''"
  "before_first 61 (lit ''--error='' @ s) = lit ''--error''"
  "before_first 61 (lit ''--array='' @ s) = lit ''--array''"
  "before_first 61 (lit ''--dependency='' @ s) = lit ''--dependency''"
  "before_first 61 (lit ''--account='' @ s) = lit ''--account''"
  "before_first 61 (lit ''--qos='' @ s) = lit ''--qos''"
  "before_first 61 (lit ''--constraint='' @ s) = lit ''--constraint''"
  "before_first 61 (lit ''--exclude='' @ s) = lit ''--exclude''"
  "before_first 61 (lit ''--licenses='' @ s) = lit ''--licenses''"
  "before_first 61 (lit ''--begin=now+'' @ s) = lit ''--begin''"
  "before_first 61 (lit ''--gres=gpu:'' @ s) = lit ''--gres''"
  by (simp_all add: before_first_def lit_def)

lemma option_pieces: "map f (if b then [] else [x]) = (if b then [] else [f x])" "map f (opt_arg k v) = (case v of None \<Rightarrow> [] | Some s \<Rightarrow> [f (lit k @ s)])"
  by (simp_all add: opt_arg_def split: option.splits)

lemma subseq_if: "subseq (if b then [] else [x]) [x]" "subseq (case v of None \<Rightarrow> [] | Some s \<Rightarrow> [x]) [x]"
  by (auto split: option.splits)

lemma sbatch_options_subseq:
  "subseq (map (before_first 61) (sbatch_args r))
     (map lit [''--comment'', ''--job-name'', ''--partition'', ''--cpus-per-task'', ''--mem'', ''--time'', ''--output'', ''--error'']
      @ [lit ''--array''] @ [lit ''--dependency''] @ [lit ''--begin''] @ [lit ''--gres''] @ [lit ''--account''] @ [lit ''--qos'']
      @ [lit ''--constraint''] @ [lit ''--exclude''] @ [lit ''--licenses''])"
  unfolding sbatch_args_def Let_def map_append option_pieces option_names list.map
  by (intro list_emb_append_mono subseq_if subseq_order.refl)

text \<open>C18. The \<open>sbatch\<close> options of a request never repeat, so no option can override another. The
  first one carries the comment of the attempt. A retry (attempt above one) always asks the scheduler for the
  \<open>singleton\<close> dependency under a job name that all attempts of the stage share, and the other
  clauses stay in front of it.
\<close>

theorem sbatch_args_sound:
  "distinct (map (before_first 61) (sbatch_args r))
    \<and> sbatch_args r ! 0 = lit ''--comment='' @ comment (sr_identity r)
    \<and> sbatch_args r ! 1 = lit ''--job-name=o2p-'' @ take 10 (si_plan_sha256 (sr_identity r)) @ lit ''-'' @ si_stage_id (sr_identity r)
    \<and> (1 < si_attempt (sr_identity r) \<longrightarrow>
        (\<exists>clauses. lit ''--dependency='' @ join (lit '','') (clauses @ [lit ''singleton'']) \<in> set (sbatch_args r)
           \<and> (sr_dependency_job_ids r \<noteq> [] \<longrightarrow>
                hd clauses = sr_dependency_mode r @ lit '':'' @ join (lit '':'') (sr_dependency_job_ids r))))"
proof (intro conjI impI)
  show "distinct (map (before_first 61) (sbatch_args r))"
    by (rule subseq_distinct [OF sbatch_options_subseq]) simp
  show "sbatch_args r ! 0 = lit ''--comment='' @ comment (sr_identity r)" by (simp add: sbatch_args_def Let_def)
  have "lit ''--job-name=o2p-'' = lit ''--job-name='' @ lit ''o2p-''" by (simp flip: lit_append)
  then show "sbatch_args r ! 1 = lit ''--job-name=o2p-'' @ take 10 (si_plan_sha256 (sr_identity r)) @ lit ''-''
      @ si_stage_id (sr_identity r)"
    by (simp add: sbatch_args_def Let_def job_name_def)
next
  assume "1 < si_attempt (sr_identity r)"
  then obtain clauses where c: "dependency_clauses r = clauses @ [lit ''singleton'']"
    "sr_dependency_job_ids r \<noteq> [] \<longrightarrow> hd clauses = sr_dependency_mode r @ lit '':'' @ join (lit '':'') (sr_dependency_job_ids r)"
    by (simp add: dependency_clauses_def)
  then have "lit ''--dependency='' @ join (lit '','') (clauses @ [lit ''singleton'']) \<in> set (sbatch_args r)"
    by (simp add: sbatch_args_def Let_def del: join.simps)
  with c(2) show "\<exists>clauses. lit ''--dependency='' @ join (lit '','') (clauses @ [lit ''singleton'']) \<in> set (sbatch_args r)
      \<and> (sr_dependency_job_ids r \<noteq> [] \<longrightarrow>
           hd clauses = sr_dependency_mode r @ lit '':'' @ join (lit '':'') (sr_dependency_job_ids r))"
    by blast
qed

theorem sbatch_args_sound_witness:
  "\<exists>clauses. lit ''--dependency='' @ join (lit '','') (clauses @ [lit ''singleton'']) \<in> set (sbatch_args sample_request)"
  using sbatch_args_sound [of sample_request] by (auto simp: sample_request_def sample_identity_def)

section \<open>Durable records\<close>

text \<open>Accepted submissions, rejections and task verdicts that were decoded from JSON are encoded
  to objects that decode to the same values, and the comment in the object is the comment of the
  record's own identity.
\<close>

theorem evidence_roundtrip:
  "(record_from_dict v = Inr r \<longrightarrow> record_from_dict (JObj (record_to_dict r)) = Inr r
      \<and> jget (dict_of v) ''comment'' = JStr (comment (sb_identity r)))
    \<and> (rejection_from_dict v = Inr j \<longrightarrow> rejection_from_dict (JObj (rejection_to_dict j)) = Inr j
      \<and> jget (dict_of v) ''comment'' = JStr (comment (rj_identity j)))
    \<and> (attempt_from_dict v = Inr t \<longrightarrow> attempt_from_dict (JObj (attempt_to_dict t)) = Inr t
      \<and> jget (dict_of v) ''comment'' = JStr (comment (ta_identity t)))"
proof -
  have c: "identity_from d l = Inr i \<Longrightarrow> jget d ''comment'' = JStr (comment i)" for d l i
    by (auto simp: identity_from_def)
  have "jget (dict_of v) ''comment'' = JStr (comment (sb_identity r))" if "record_from_dict v = Inr r"
    using that by (auto simp: record_from_dict_def record_post_init_def dest: c)
  moreover have "jget (dict_of v) ''comment'' = JStr (comment (rj_identity j))" if "rejection_from_dict v = Inr j"
    using that by (auto simp: rejection_from_dict_def rejection_post_init_def dest: c)
  moreover have "jget (dict_of v) ''comment'' = JStr (comment (ta_identity t))" if "attempt_from_dict v = Inr t"
    using that by (auto simp: attempt_from_dict_def attempt_post_init_def dest: c)
  ultimately show ?thesis by (blast intro: submission.reencode rejection.reencode attempt.reencode)
qed

theorem evidence_roundtrip_witness:
  "record_from_dict (JObj (record_to_dict sample_record)) = Inr sample_record
    \<and> rejection_from_dict (JObj (rejection_to_dict sample_rejection)) = Inr sample_rejection
    \<and> attempt_from_dict (JObj (attempt_to_dict sample_verdict)) = Inr sample_verdict"
  using evidence_roundtrip [of "JObj (record_to_dict sample_record)" sample_record]
    evidence_roundtrip [of "JObj (rejection_to_dict sample_rejection)" _ sample_rejection]
    evidence_roundtrip [of "JObj (attempt_to_dict sample_verdict)" _ _ sample_verdict]
    submission.roundtrip [OF sample_record_canonical] rejection.roundtrip [OF sample_rejection_canonical]
    attempt.roundtrip [OF sample_verdict_canonical]
  by blast

text \<open>C19. A task verdict read from disk never counts a task as both done and retryable, never rests on
  an observation the backend could not trust, and has a digest for every receipt it reports as present.
\<close>

theorem verdict_consistent:
  assumes "attempt_from_dict v = Inr t"
  shows "\<not> (ta_successful t \<and> ta_retryable t) \<and> isdigit (ta_job_id t)
    \<and> (\<forall>b \<in> set (ta_receipt_observations t). ob_trustworthy b \<and> ob_error b = None
        \<and> (ob_exists b \<longrightarrow> (\<exists>s. ob_sha256 b = Some s \<and> SHA256_RE s)))"
proof -
  have can: "attempt_post_init t = Inr t" "attempt_sound t"
    using attempt.decoded_canonical [OF assms] by (simp_all add: attempt.canonical_def)
  have "ob_trustworthy b \<and> ob_error b = None \<and> (ob_exists b \<longrightarrow> (\<exists>s. ob_sha256 b = Some s \<and> SHA256_RE s))"
    if "b \<in> set (ta_receipt_observations t)" for b
    using that can(2) by (auto simp: attempt_sound_def trusted_def observation_post_init_def)
  then show ?thesis using can(1) by (auto simp: attempt_post_init_def)
qed

theorem verdict_consistent_witness: "\<not> (ta_successful sample_verdict \<and> ta_retryable sample_verdict)"
  using verdict_consistent [OF attempt.roundtrip [OF sample_verdict_canonical]] by blast

section \<open>The registry outbox\<close>

text \<open>C20. Callbacks for one stage attempt may arrive in any order and any number of times: when no two
  of their job ids have the same numeric value, the outbox item they leave depends only on the set of
  callbacks, whatever the iteration order of Python sets. It has the greatest stage and execution
  ranks and all job ids and claims. Ids such as 01 and 1, which the constructor accepts and the sort
  by number does not separate, are excluded: their order in the item follows the set.
\<close>

theorem outbox_join:
  assumes "set_order order" and "set_order order'" and "us \<noteq> []" and "set vs = set us"
    and "\<forall>u \<in> set us. update_post_init u = Inr u \<and> update_key u = k"
    and "inj_on nat_of_digits (\<Union>u \<in> set us. set (ru_job_ids u))"
  shows "\<exists>m. deliver order us = Inr (Some m) \<and> deliver order' vs = Inr (Some m)
    \<and> update_key m = k \<and> summary {m} = summary (set us)"
proof -
  have c: "\<forall>u \<in> set us. update.canonical u \<and> update_key u = k" using assms(5) by (simp add: update.canonical_def)
  obtain m where m: "deliver order us = Inr (Some m)" "update.canonical m" "update_key m = k" "summary {m} = summary (set us)"
    using deliver_refines [OF assms(1,3) c] by blast
  have "vs \<noteq> []" using assms(3,4) by auto
  moreover have "\<forall>u \<in> set vs. update.canonical u \<and> update_key u = k" using c assms(4) by simp
  ultimately obtain n where n: "deliver order' vs = Inr (Some n)" "update.canonical n" "update_key n = k"
    "summary {n} = summary (set vs)"
    using deliver_refines [OF assms(2)] by blast
  have "set (ru_job_ids m) = (\<Union>u \<in> set us. set (ru_job_ids u))" using m(4) by (simp add: summary_def)
  then have "m = n" using canonical_determined [OF m(2) n(2)] m(3,4) n(3,4) assms(4,6) by simp
  with m n show ?thesis by blast
qed

lemma sample_update_ok:
  "update_post_init (sample_update ''SUBMITTED'' ''SUBMITTED'' ''7'') = Inr (sample_update ''SUBMITTED'' ''SUBMITTED'' ''7'')"
  "update_post_init (sample_update ''FAILED'' ''FAILED'' ''12'') = Inr (sample_update ''FAILED'' ''FAILED'' ''12'')"
  by (simp_all add: update_post_init_iff update_ok_def update_canon_def sample_update_def STAGE_RANK_def EXECUTION_RANK_def)
    (simp_all add: lit_def is_nd_small)

lemma sample_set_order: "set_order sorted_list_of_set"
  by (simp add: set_order_def)

theorem outbox_join_witness:
  "deliver sorted_list_of_set [sample_update ''FAILED'' ''FAILED'' ''12'', sample_update ''SUBMITTED'' ''SUBMITTED'' ''7'']
    = deliver sorted_list_of_set [sample_update ''SUBMITTED'' ''SUBMITTED'' ''7'', sample_update ''FAILED'' ''FAILED'' ''12'',
        sample_update ''SUBMITTED'' ''SUBMITTED'' ''7'']"
proof -
  let ?a = "sample_update ''FAILED'' ''FAILED'' ''12''" and ?b = "sample_update ''SUBMITTED'' ''SUBMITTED'' ''7''"
  have "inj_on nat_of_digits (\<Union>u \<in> set [?a, ?b]. set (ru_job_ids u))"
    by (simp add: sample_update_def inj_on_def nat_of_digits_def nd_value_ascii lit_def)
  moreover have "\<forall>u \<in> set [?a, ?b]. update_post_init u = Inr u \<and> update_key u = (hex64, lit ''a'', 1)"
    using sample_update_ok by (simp add: update_key_def sample_update_def)
  moreover have "set [?b, ?a, ?b] = set [?a, ?b]" by auto
  ultimately show ?thesis
    using outbox_join [OF sample_set_order sample_set_order, of "[?a, ?b]" "[?b, ?a, ?b]" "(hex64, lit ''a'', 1)"] by auto
qed

section \<open>File locations\<close>

text \<open>C21. Below an accepted plan the engine's files never collide: different facts (the bound plan,
  intents, invocations, records and rejections of submissions, follow-ups, verdicts, decisions and
  outbox items of each stage, task and attempt) have different paths, and every one lies below the
  directory \<open>execution\<close>, where no receipt of the pipeline can lie.
\<close>

theorem engine_files_separate:
  assumes "plan_from_dict v = Inr p" and "file_ok sha f" and "file_ok sha g"
  shows "(file_path p f = file_path p g \<longleftrightarrow> f = g)
    \<and> strict_prefix (comps (engine_receipts p)) (comps (file_path p f))
    \<and> (\<forall>r \<in> set (all_receipts p). receipt_location p r \<noteq> file_path p f)"
proof -
  have ok: "plan_ok p" "plan_sound p"
    using plan.decoded_canonical [OF assms(1)] by (simp_all add: plan.canonical_def plan_post_init_iff)
  have paths: "paths.canonical (pl_paths p)" using ok(2) by (simp add: plan_sound_def)
  note root = plan_receipts_root [OF ok]
  note cf = file_path_comps [OF refl root assms(2)] and ce = engine_receipts_comps(1) [OF root]
  have "file_path p f = file_path p g \<longleftrightarrow> f = g" using file_path_inj [OF ok assms(2,3)] .
  moreover have sp: "strict_prefix (comps (engine_receipts p)) (comps (file_path p f))"
    unfolding ce cf using file_tail_ne [of f] by (auto simp: strict_prefix_def prefix_def)
  moreover have "receipt_location p r \<noteq> file_path p f" if "r \<in> set (all_receipts p)" for r
  proof -
    have "receipt.canonical r" "receipt_placed p r" using that ok plan_receipts_canonical by (auto simp: plan_ok_def)
    from receipt_placed_comps(2) [OF paths this] sp show ?thesis by (auto simp: strict_prefix_def)
  qed
  ultimately show ?thesis by blast
qed

theorem engine_files_separate_witness:
  "file_path sample_plan (Intent sample_identity) \<noteq> file_path sample_plan (Invocation sample_identity)"
  using engine_files_separate [OF plan.roundtrip [OF sample_plan_canonical], of hex64 "Intent sample_identity"
      "Invocation sample_identity"] sample_identity_ok
  by (simp add: sample_identity_def)

end
