(* ===== verification/Shell_Text.thy ===== *)
theory Shell_Text
  imports Py_Text
begin

text \<open>
  \<open>shlex.quote\<close> of the standard library and a word splitter for the part of the POSIX shell grammar
  its output uses. The splitter fails on every character that could have another meaning outside
  quotes, so a successful split means that the shell reads exactly these words.
\<close>

section \<open>Quoting\<close>

text \<open>The characters outside \<open>[^\w@%+=:,./-]\<close> with ASCII word characters.\<close>

definition is_shell_safe :: "nat \<Rightarrow> bool" where
  "is_shell_safe c \<longleftrightarrow> 48 \<le> c \<and> c \<le> 57 \<or> 65 \<le> c \<and> c \<le> 90 \<or> 97 \<le> c \<and> c \<le> 122
     \<or> c \<in> set [95, 64, 37, 43, 61, 58, 44, 46, 47, 45]"

definition escape_quotes :: "ustr \<Rightarrow> ustr" where
  "escape_quotes s = concat (map (\<lambda>c. if c = 39 then [39, 34, 39, 34, 39] else [c]) s)"

definition shell_quote :: "ustr \<Rightarrow> ustr" where
  "shell_quote s =
     (if s = [] then [39, 39] else if list_all is_shell_safe s then s else [39] @ escape_quotes s @ [39])"

definition shell_words :: "ustr list \<Rightarrow> ustr" where
  "shell_words xs = join [32] (map shell_quote xs)"

section \<open>Word splitting\<close>

datatype quoting = Plain | Single | Double

definition word_so_far :: "ustr option \<Rightarrow> ustr" where
  "word_so_far w = (case w of None \<Rightarrow> [] | Some x \<Rightarrow> x)"

definition finished :: "ustr option \<Rightarrow> ustr list" where
  "finished w = (case w of None \<Rightarrow> [] | Some x \<Rightarrow> [x])"

fun sh_split :: "quoting \<Rightarrow> ustr option \<Rightarrow> ustr \<Rightarrow> ustr list option" where
  "sh_split Plain w [] = Some (finished w)"
| "sh_split Single w [] = None"
| "sh_split Double w [] = None"
| "sh_split Plain w (c # s) =
     (if c = 32 then map_option ((@) (finished w)) (sh_split Plain None s)
      else if c = 39 then sh_split Single (Some (word_so_far w)) s
      else if c = 34 then sh_split Double (Some (word_so_far w)) s
      else if is_shell_safe c then sh_split Plain (Some (word_so_far w @ [c])) s
      else None)"
| "sh_split Single w (c # s) =
     (if c = 39 then sh_split Plain w s else sh_split Single (Some (word_so_far w @ [c])) s)"
| "sh_split Double w (c # s) =
     (if c = 34 then sh_split Plain w s
      else if c \<in> set [36, 92, 96] then None
      else sh_split Double (Some (word_so_far w @ [c])) s)"

section \<open>Quoted words split to themselves\<close>

lemma word_so_far_Some [simp]: "word_so_far (Some x) = x"
  by (simp add: word_so_far_def)

lemma split_safe:
  "list_all is_shell_safe s \<Longrightarrow> s \<noteq> [] \<Longrightarrow> sh_split Plain w (s @ t) = sh_split Plain (Some (word_so_far w @ s)) t"
proof (induction s arbitrary: w)
  case (Cons c s)
  have "is_shell_safe c" "c \<noteq> 32" "c \<noteq> 39" "c \<noteq> 34" using Cons.prems(1) by (auto simp: is_shell_safe_def)
  then have step: "sh_split Plain w ((c # s) @ t) = sh_split Plain (Some (word_so_far w @ [c])) (s @ t)" by simp
  show ?case
  proof (cases "s = []")
    case True
    with step show ?thesis by simp
  next
    case False
    with Cons.IH [of "Some (word_so_far w @ [c])"] Cons.prems(1) step show ?thesis by simp
  qed
qed simp

lemma split_escaped: "sh_split Single (Some x) (escape_quotes s @ 39 # t) = sh_split Plain (Some (x @ s)) t"
  by (induction s arbitrary: x) (simp_all add: escape_quotes_def)

lemma split_quote: "sh_split Plain w (shell_quote s @ t) = sh_split Plain (Some (word_so_far w @ s)) t"
proof (cases "list_all is_shell_safe s")
  case True
  then show ?thesis using split_safe [of s w t] by (cases "s = []") (simp_all add: shell_quote_def)
next
  case False
  then have "s \<noteq> []" by auto
  with False show ?thesis using split_escaped [of "word_so_far w" s t] by (simp add: shell_quote_def)
qed

lemma split_words: "sh_split Plain None (shell_words xs) = Some xs"
proof (induction xs)
  case (Cons x xs)
  have q: "sh_split Plain None (shell_quote x @ t) = sh_split Plain (Some x) t" for t
    using split_quote [of None x t] by (simp add: word_so_far_def)
  show ?case
  proof (cases xs)
    case Nil
    then show ?thesis using q [of "[]"] by (simp add: shell_words_def finished_def)
  next
    case (Cons y ys)
    then have "shell_words (x # xs) = shell_quote x @ 32 # shell_words xs" by (simp add: shell_words_def)
    then show ?thesis using q Cons.IH by (simp add: finished_def)
  qed
qed (simp add: shell_words_def finished_def)

lemma shell_quote_last: "s \<noteq> [] \<Longrightarrow> shell_quote s \<noteq> [] \<and> (last (shell_quote s) = 39 \<or> is_shell_safe (last (shell_quote s)))"
  by (auto simp: shell_quote_def list_all_iff)

end
