(* ===== verification/Exec_Render.thy ===== *)
theory Exec_Render
  imports Exec_Paths Shell_Text Plan_Encode "HOL-Library.Product_Lexorder"
begin

text \<open>
  \<open>runorg/execution_rendering.py\<close> with the lookups of \<open>runorg/execution_reconcile.py\<close> it uses: selection
  of the tasks of an attempt, the Bash dispatcher, the scheduler request and the intent record.
\<close>

section \<open>Definitions\<close>

definition stage_by_id :: "execution_plan \<Rightarrow> ustr \<Rightarrow> stage_spec res" where
  "stage_by_id p i =
     (case find (\<lambda>s. st_stage_id s = i) (pl_stages p) of
        None \<Rightarrow> Inl (ValueError ''unknown stage_id'') | Some s \<Rightarrow> Inr s)"

text \<open>\<open>signed_attempt_bound(plan, stage)\<close>; a dataclass is compared by its fields.\<close>

definition attempt_bound :: "execution_plan \<Rightarrow> stage_spec \<Rightarrow> int res" where
  "attempt_bound p s =
     bind (stage_by_id p (st_stage_id s)) (\<lambda>planned.
     bind (ensure (planned = s) (ValueError ''stage does not match the immutable execution plan'')) (\<lambda>_.
     signed_attempt_bound (pl_stages p) (st_stage_id s)))"

definition task_sort_key :: "planned_task \<Rightarrow> nat \<times> int \<times> ustr" where
  "task_sort_key t = (case pt_array_index t of Some n \<Rightarrow> (0, n, pt_task_id t) | None \<Rightarrow> (1, 0, pt_task_id t))"

text \<open>The dictionary of the stage's tasks, in the order the comprehension builds it.\<close>

definition available_tasks :: "stage_spec \<Rightarrow> (ustr, planned_task) dict res" where
  "available_tasks s =
     (if st_tasks s \<noteq> [] then
        foldR (\<lambda>t d.
          bind (planned_task_post_init \<lparr>pt_task_id = tk_task_id t, pt_array_index = Some (tk_array_index t),
                  pt_command = tk_command t, pt_expected_receipts = tk_expected_receipts t\<rparr>) (\<lambda>pt.
          Inr (dset (tk_task_id t) pt d))) (st_tasks s) []
      else (case st_command s of
          None \<Rightarrow> Inl AssertionError
        | Some c \<Rightarrow>
            bind (planned_task_post_init \<lparr>pt_task_id = st_stage_id s, pt_array_index = None, pt_command = c,
                    pt_expected_receipts = st_expected_receipts s\<rparr>) (\<lambda>pt.
            Inr [(st_stage_id s, pt)])))"

definition task_at :: "(ustr, planned_task) dict \<Rightarrow> ustr \<Rightarrow> planned_task res" where
  "task_at d i = (case dget d i of None \<Rightarrow> Inl (KeyError ''task_id'') | Some t \<Rightarrow> Inr t)"

definition select_tasks :: "stage_spec \<Rightarrow> ustr list option \<Rightarrow> planned_task list res" where
  "select_tasks s task_ids =
     bind (available_tasks s) (\<lambda>available.
     let selected = (case task_ids of None \<Rightarrow> sort (map fst available) | Some ids \<Rightarrow> ids) in
     bind (ensure (selected \<noteq> [] \<and> card (set selected) = length selected)
             (ValueError ''selected task IDs must be a non-empty unique set'')) (\<lambda>_.
     bind (ensure (set selected \<subseteq> dkeys available) (ValueError ''unknown task IDs for stage'')) (\<lambda>_.
     bind (mapR (task_at available) selected) (\<lambda>ts.
     Inr (sort_key task_sort_key ts)))))"

definition command_lines :: "command_spec \<Rightarrow> ustr list" where
  "command_lines c =
     (let runtime = shell_quote (case cm_runtime_fingerprint_path c of None \<Rightarrow> [] | Some p \<Rightarrow> p);
          expected = shell_quote (cm_runtime_fingerprint_sha256 c);
          environment = shell_words (cm_environment c);
          argv_tail = shell_words (tl (cm_argv c));
          env_prefix = lit ''env -i '' @ (if environment = [] then [] else environment @ [32])
      in [lit ''runtime_copy=$(mktemp '' @ [34] @ lit ''${TMPDIR:-/tmp}/o2mcp-runtime.XXXXXX'' @ [34] @ lit '')'',
          lit ''/bin/cp -p -- '' @ runtime @ [32, 34] @ lit ''$runtime_copy'' @ [34],
          lit ''runtime_sha=$(/usr/bin/sha256sum -- '' @ [34] @ lit ''$runtime_copy'' @ [34] @ lit '')'',
          lit ''runtime_sha=${runtime_sha%% *}'',
          lit ''if [[ '' @ [34] @ lit ''$runtime_sha'' @ [34] @ lit '' != '' @ expected @ lit '' ]]; then rm -f -- ''
            @ [34] @ lit ''$runtime_copy'' @ [34] @ lit ''; echo '' @ [39] @ lit ''runtime fingerprint mismatch'' @ [39]
            @ lit '' >&2; exit 70; fi'',
          lit ''cd -- '' @ shell_quote (cm_working_directory c),
          lit ''set +e'',
          rstrip (env_prefix @ [34] @ lit ''$runtime_copy'' @ [34, 32] @ argv_tail),
          lit ''runtime_status=$?'',
          lit ''set -e'',
          lit ''rm -f -- '' @ [34] @ lit ''$runtime_copy'' @ [34],
          lit ''exit '' @ [34] @ lit ''$runtime_status'' @ [34]])"

definition case_lines :: "planned_task \<Rightarrow> ustr list" where
  "case_lines t =
     [lit ''  '' @ (case pt_array_index t of None \<Rightarrow> lit ''None'' | Some n \<Rightarrow> str_int n) @ lit '')'']
     @ map (\<lambda>l. lit ''    '' @ l) (command_lines (pt_command t)) @ [lit ''    ;;'']"

definition render_dispatcher :: "planned_task list \<Rightarrow> ustr \<Rightarrow> ustr" where
  "render_dispatcher tasks run_root =
     join [10]
       ([lit ''#!/bin/bash'', lit ''set -euo pipefail'',
         lit ''exec 8> '' @ shell_quote (path_join run_root [lit ''.execution-source.lock'']), lit ''flock -s 8'']
        @ (if pt_array_index (hd tasks) = None then command_lines (pt_command (hd tasks))
           else [lit ''case '' @ [34] @ lit ''${SLURM_ARRAY_TASK_ID:?missing array task id}'' @ [34] @ lit '' in'']
             @ concat (map case_lines tasks)
             @ [lit ''  *) echo '' @ [39] @ lit ''unplanned array task index'' @ [39] @ lit '' >&2; exit 64 ;;'', lit ''esac'']))
     @ [10]"

definition build_submission_request :: "execution_plan \<Rightarrow> stage_spec \<Rightarrow> submission_identity \<Rightarrow> planned_task list
    \<Rightarrow> ustr list \<Rightarrow> ustr list \<Rightarrow> submission_request res" where
  "build_submission_request p s i tasks deps ord_ids =
     (let attempt_name = lit ''attempt-'' @ attempt_text (si_attempt i);
          stage_work = path_join (cp_work_root (pl_paths p)) [lit ''execution'', st_stage_id s];
          stage_logs = path_join (cp_logs_root (pl_paths p)) [lit ''execution'', st_stage_id s, attempt_name];
          suffix = (if pt_array_index (hd tasks) \<noteq> None then lit ''%A_%a'' else lit ''%j'')
      in if tasks = [] then Inl IndexError else request_post_init
        \<lparr>sr_identity = i, sr_run_id = pl_run_id p, sr_tasks = tasks, sr_resources = st_resources s,
         sr_dependency_mode = st_dependency_mode s, sr_dependency_job_ids = deps,
         sr_script_path = path_join stage_work [attempt_name @ lit ''.sbatch''],
         sr_script_text = render_dispatcher tasks (cp_run_root (pl_paths p)),
         sr_stdout_pattern = path_join stage_logs [suffix @ lit ''.out''],
         sr_stderr_pattern = path_join stage_logs [suffix @ lit ''.err''],
         sr_begin_delay_seconds = (if si_attempt i > 1 then rp_backoff_seconds (st_retry_policy s) else 0),
         sr_ordering_job_ids = ord_ids\<rparr>)"

definition submission_intent :: "(nat list \<Rightarrow> ustr) \<Rightarrow> submission_request \<Rightarrow> jdict res" where
  "submission_intent sha r =
     bind (encode_utf8 (sr_script_text r)) (\<lambda>b.
     Inr [(lit ''attempt'', JInt (si_attempt (sr_identity r))), (lit ''comment'', JStr (comment (sr_identity r))),
          (lit ''dependency_job_ids'', jstrs (sr_dependency_job_ids r)),
          (lit ''dependency_mode'', JStr (sr_dependency_mode r)),
          (lit ''ordering_job_ids'', jstrs (sr_ordering_job_ids r)),
          (lit ''plan_sha256'', JStr (si_plan_sha256 (sr_identity r))),
          (lit ''sbatch_args'', jstrs (sbatch_args r)), (lit ''schema_version'', JInt 1),
          (lit ''script_path'', JStr (sr_script_path r)), (lit ''script_sha256'', JStr (sha b)),
          (lit ''stage_id'', JStr (si_stage_id (sr_identity r))),
          (lit ''task_ids'', jstrs (map pt_task_id (sr_tasks r))),
          (lit ''task_indices'', JArr (map JInt (task_indices r)))])"

section \<open>Selection of tasks\<close>

definition planned_of :: "task_spec \<Rightarrow> planned_task" where
  "planned_of t = \<lparr>pt_task_id = tk_task_id t, pt_array_index = Some (tk_array_index t), pt_command = tk_command t,
     pt_expected_receipts = tk_expected_receipts t\<rparr>"

text \<open>All tasks a stage can run, in the order of the plan.\<close>

definition stage_planned :: "stage_spec \<Rightarrow> planned_task list" where
  "stage_planned s =
     (if st_tasks s \<noteq> [] then map planned_of (st_tasks s)
      else (case st_command s of None \<Rightarrow> []
        | Some c \<Rightarrow> [\<lparr>pt_task_id = st_stage_id s, pt_array_index = None, pt_command = c,
                       pt_expected_receipts = st_expected_receipts s\<rparr>]))"

lemma planned_of_simps [simp]:
  "pt_task_id (planned_of t) = tk_task_id t" "pt_array_index (planned_of t) = Some (tk_array_index t)"
  "pt_command (planned_of t) = tk_command t" "pt_expected_receipts (planned_of t) = tk_expected_receipts t"
  by (simp_all add: planned_of_def)

lemma task_canonical_planned: "task.canonical t \<Longrightarrow> planned_task_post_init (planned_of t) = Inr (planned_of t)"
  by (auto simp: task.canonical_def task_post_init_def planned_task_post_init_def)

lemma foldR_available:
  assumes "\<forall>t \<in> set ts. task.canonical t" and "distinct (map tk_task_id ts)" and "tk_task_id ` set ts \<inter> dkeys d = {}"
  shows "foldR (\<lambda>t d. bind (planned_task_post_init (planned_of t)) (\<lambda>pt. Inr (dset (tk_task_id t) pt d))) ts d
    = Inr (d @ map (\<lambda>t. (tk_task_id t, planned_of t)) ts)"
  using assms
proof (induction ts arbitrary: d)
  case (Cons t ts)
  have "tk_task_id t \<notin> dkeys d" using Cons.prems(3) by auto
  then have "dset (tk_task_id t) (planned_of t) d = d @ [(tk_task_id t, planned_of t)]"
    unfolding dset_def dkeys_def by (induction d) auto
  moreover have "tk_task_id ` set ts \<inter> dkeys (d @ [(tk_task_id t, planned_of t)]) = {}"
    using Cons.prems(2,3) by auto
  ultimately show ?case using Cons by (simp add: task_canonical_planned)
qed simp

lemma stage_canonical_parts:
  assumes "stage.canonical s"
  shows "stage_ok s" "stage_sound s" "\<forall>t \<in> set (st_tasks s). task.canonical t"
  using assms by (simp_all add: stage.canonical_def stage_post_init_iff stage_sound_def)

lemma available_eq:
  assumes "stage.canonical s"
  shows "available_tasks s = Inr (map (\<lambda>t. (pt_task_id t, t)) (stage_planned s))"
proof (cases "st_tasks s = []")
  case False
  have "distinct (map tk_task_id (st_tasks s))" using stage_canonical_parts(1) [OF assms] by (simp add: stage_ok_def)
  from foldR_available [OF stage_canonical_parts(3) [OF assms] this, of "[]"] False
  show ?thesis by (simp add: available_tasks_def stage_planned_def planned_of_def comp_def)
next
  case True
  then obtain c where c: "st_command s = Some c" using stage_canonical_parts(1) [OF assms] by (auto simp: stage_ok_def)
  have "ident_ok (st_stage_id s)" "st_expected_receipts s \<noteq> []"
    using stage_canonical_parts(1) [OF assms] True by (simp_all add: stage_ok_def)
  with True c show ?thesis by (simp add: available_tasks_def stage_planned_def planned_task_post_init_def)
qed

lemma stage_planned_facts:
  assumes "stage.canonical s"
  shows "stage_planned s \<noteq> []" "distinct (map pt_task_id (stage_planned s))" "distinct (map pt_array_index (stage_planned s))"
    "(\<forall>t \<in> set (stage_planned s). pt_array_index t \<noteq> None) \<or> (\<forall>t \<in> set (stage_planned s). pt_array_index t = None)"
proof -
  have ok: "st_tasks s = [] \<longleftrightarrow> st_command s \<noteq> None" "distinct (map tk_task_id (st_tasks s))"
    "distinct (map tk_array_index (st_tasks s))"
    using stage_canonical_parts(1) [OF assms] unfolding stage_ok_def by blast+
  have "distinct (map (\<lambda>t. Some (tk_array_index t)) (st_tasks s))" using ok(3) by (simp add: distinct_map inj_on_def)
  with ok show "stage_planned s \<noteq> []" "distinct (map pt_task_id (stage_planned s))" "distinct (map pt_array_index (stage_planned s))"
    "(\<forall>t \<in> set (stage_planned s). pt_array_index t \<noteq> None) \<or> (\<forall>t \<in> set (stage_planned s). pt_array_index t = None)"
    by (cases "st_tasks s = []"; auto simp: stage_planned_def comp_def)+
qed

lemma select_tasks_iff:
  assumes "stage.canonical s"
  defines "ids xs \<equiv> (case xs of None \<Rightarrow> sort (map pt_task_id (stage_planned s)) | Some ys \<Rightarrow> ys)"
  shows "select_tasks s xs = Inr ts \<longleftrightarrow> ids xs \<noteq> [] \<and> distinct (ids xs) \<and> set (ids xs) \<subseteq> pt_task_id ` set (stage_planned s)
    \<and> (\<exists>us. mapR (task_at (map (\<lambda>t. (pt_task_id t, t)) (stage_planned s))) (ids xs) = Inr us \<and> ts = sort_key task_sort_key us)"
proof -
  have d: "dkeys (map (\<lambda>t. (pt_task_id t, t)) (stage_planned s)) = pt_task_id ` set (stage_planned s)"
    by (force simp: dkeys_def)
  have k: "map fst (map (\<lambda>t. (pt_task_id t, t)) (stage_planned s)) = map pt_task_id (stage_planned s)" by simp
  show ?thesis
    unfolding select_tasks_def available_eq [OF assms(1)] bind_Inr Let_def k d card_set_distinct ids_def
      bind_eq_Inr sum.inject ensure_eq_Inr
    by blast
qed

lemma task_at_iff:
  assumes "distinct (map pt_task_id ts)"
  shows "task_at (map (\<lambda>t. (pt_task_id t, t)) ts) i = Inr t \<longleftrightarrow> t \<in> set ts \<and> pt_task_id t = i"
proof -
  have d: "distinct (map fst (map (\<lambda>t. (pt_task_id t, t)) ts))" using assms by (simp add: comp_def)
  have "dget (map (\<lambda>t. (pt_task_id t, t)) ts) i = Some t \<longleftrightarrow> (i, t) \<in> set (map (\<lambda>t. (pt_task_id t, t)) ts)"
    unfolding dget_def using map_of_eq_Some_iff [OF d] by blast
  then show ?thesis by (auto simp: task_at_def split: option.splits)
qed

lemma mapR_task_at:
  assumes "distinct (map pt_task_id ts)"
  shows "mapR (task_at (map (\<lambda>t. (pt_task_id t, t)) ts)) is = Inr us \<Longrightarrow> map pt_task_id us = is \<and> set us \<subseteq> set ts"
    and "set is \<subseteq> pt_task_id ` set ts \<Longrightarrow> \<exists>us. mapR (task_at (map (\<lambda>t. (pt_task_id t, t)) ts)) is = Inr us"
proof (induction "is" arbitrary: us)
  case (Cons i "is")
  { case 1 then show ?case using Cons.IH(1) by (auto simp: task_at_iff [OF assms]) }
  { case 2
    then obtain t where "t \<in> set ts" "pt_task_id t = i" by auto
    then have "task_at (map (\<lambda>t. (pt_task_id t, t)) ts) i = Inr t" by (simp add: task_at_iff [OF assms])
    then show ?case using Cons.IH(2) 2 by auto }
qed simp_all

text \<open>The tasks of an attempt: the selected ones, each once, in the order of their array indices.\<close>

lemma select_tasks_result:
  assumes "stage.canonical s" and "select_tasks s xs = Inr ts"
  shows "ts \<noteq> []" "distinct (map pt_task_id ts)" "set ts \<subseteq> set (stage_planned s)" "sorted (map task_sort_key ts)"
    "pt_task_id ` set ts = (case xs of None \<Rightarrow> pt_task_id ` set (stage_planned s) | Some ys \<Rightarrow> set ys)"
proof -
  let ?ids = "case xs of None \<Rightarrow> sort (map pt_task_id (stage_planned s)) | Some ys \<Rightarrow> ys"
  obtain us where ids: "?ids \<noteq> []" "distinct ?ids"
    and us: "mapR (task_at (map (\<lambda>t. (pt_task_id t, t)) (stage_planned s))) ?ids = Inr us" "ts = sort_key task_sort_key us"
    using assms(2) unfolding select_tasks_iff [OF assms(1)] by blast
  have m: "map pt_task_id us = ?ids" "set us \<subseteq> set (stage_planned s)"
    using mapR_task_at(1) [OF stage_planned_facts(2) [OF assms(1)] us(1)] by auto
  show "ts \<noteq> []" using ids(1) m(1) us(2) by (metis sort_key_Nil_iff list.map_disc_iff)
  show "distinct (map pt_task_id ts)" using ids(2) m(1) us(2) by simp
  show "set ts \<subseteq> set (stage_planned s)" "sorted (map task_sort_key ts)" using m(2) us(2) by simp_all
  have "set (map pt_task_id us) = set ?ids" using m(1) by simp
  then show "pt_task_id ` set ts = (case xs of None \<Rightarrow> pt_task_id ` set (stage_planned s) | Some ys \<Rightarrow> set ys)"
    using us(2) by (cases xs) simp_all
qed

lemma select_tasks_all: "stage.canonical s \<Longrightarrow> \<exists>ts. select_tasks s None = Inr ts"
  using mapR_task_at(2) [of "stage_planned s" "sort (map pt_task_id (stage_planned s))"] stage_planned_facts [of s]
  by (auto simp: select_tasks_iff)

end
