(* ===== verification/Render_Properties.thy ===== *)
theory Render_Properties
  imports Exec_Render Plan_Samples
begin

text \<open>
  Properties of the rendered scheduler requests and of the dispatcher script.
\<close>

section \<open>Facts shared by the proofs\<close>

lemma path_join_chars:
  "\<forall>c \<in> set cs. \<not> isabs c \<Longrightarrow> \<exists>t. path_join a cs = a @ t \<and> set t \<subseteq> insert slash (\<Union> (set ` set cs))"
proof (induction cs arbitrary: a)
  case (Cons c cs)
  have n: "\<not> isabs c" "\<forall>c \<in> set cs. \<not> isabs c" using Cons.prems by auto
  let ?a = "if a = [] \<or> last a = slash then a @ c else a @ [slash] @ c"
  obtain t where t: "path_join ?a cs = ?a @ t" "set t \<subseteq> insert slash (\<Union> (set ` set cs))"
    using Cons.IH [OF n(2), of ?a] by blast
  have "path_join a (c # cs) = path_join ?a cs" using n(1) by simp
  with t show ?case by (cases "a = [] \<or> last a = slash") auto
qed simp

definition plain_text :: "ustr \<Rightarrow> bool" where
  "plain_text s \<longleftrightarrow> s \<noteq> [] \<and> \<not> isabs s \<and> 10 \<notin> set s \<and> 13 \<notin> set s"

lemma join_line_ok:
  assumes "abs_path_ok r" and "\<forall>c \<in> set cs. plain_text c"
  shows "startswith (path_join r cs) [slash] \<and> 10 \<notin> set (path_join r cs) \<and> 13 \<notin> set (path_join r cs)"
    and "isabs (path_join r cs)"
proof -
  have r: "isabs r" "10 \<notin> set r" "13 \<notin> set r" using assms(1) by (auto simp: abs_path_ok_def is_single_line_string_def)
  obtain t where t: "path_join r cs = r @ t" "set t \<subseteq> insert slash (\<Union> (set ` set cs))"
    using path_join_chars [of cs r] assms(2) by (auto simp: plain_text_def)
  have "10 \<notin> set t" "13 \<notin> set t" using t(2) assms(2) by (auto simp: plain_text_def)
  moreover obtain u where "r = slash # u" using r(1) by (cases r) (auto simp: isabs_def startswith_def)
  ultimately show "startswith (path_join r cs) [slash] \<and> 10 \<notin> set (path_join r cs) \<and> 13 \<notin> set (path_join r cs)"
    "isabs (path_join r cs)"
    using t(1) r(2,3) by (simp_all add: startswith_def isabs_def)
qed

lemma path_join_append: "path_join a (xs @ ys) = path_join (path_join a xs) ys"
  by (induction a xs rule: path_join.induct) simp_all

lemma ident_plain: "ident_ok s \<Longrightarrow> plain_text s"
  using ident_chars [of s] good_not_abs [OF ident_good [of s]]
  by (auto simp: plain_text_def list_all_iff is_ident_char_def is_alnum_def)

lemma attempt_plain: "plain_text (lit ''attempt-'' @ attempt_text n)" "plain_text (lit ''attempt-'' @ attempt_text n @ lit ''.sbatch'')"
  using fmt03_range [of 10 "nat n"] fmt03_range [of 13 "nat n"]
  by (auto simp: plain_text_def attempt_text_def lit_def)

lemma literal_plain:
  "plain_text (lit ''execution'')" "plain_text (lit ''%A_%a'' @ lit ''.out'')" "plain_text (lit ''%j'' @ lit ''.out'')"
  "plain_text (lit ''%A_%a'' @ lit ''.err'')" "plain_text (lit ''%j'' @ lit ''.err'')"
  by (simp_all add: plain_text_def lit_def)

section \<open>Scheduler requests\<close>

text \<open>C22. Every stage of a decoded plan can be submitted: for a selection of its tasks, an identity and
  distinct numeric dependency jobs, the request builder produces a request its constructor accepts.
  The request runs exactly the selected tasks.
\<close>

theorem requests_are_accepted:
  assumes "plan_from_dict v = Inr p" and "s \<in> set (pl_stages p)" and "identity_ok i"
    and "select_tasks s ids = Inr ts" and "list_all isdigit deps" and "distinct deps"
  shows "\<exists>r. build_submission_request p s i ts deps ord_ids = Inr r \<and> sr_tasks r = ts
    \<and> pt_task_id ` set ts = (case ids of None \<Rightarrow> pt_task_id ` set (stage_planned s) | Some xs \<Rightarrow> set xs)"
proof -
  have snd: "plan_sound p" using plan.decoded_canonical [OF assms(1)] by (simp add: plan.canonical_def)
  then have s: "stage.canonical s" and pp: "paths_post_init (pl_paths p) = Inr (pl_paths p)"
    using assms(2) by (simp_all add: plan_sound_def paths.canonical_def)
  note ts = select_tasks_result [OF s assms(4)] and pl = stage_planned_facts [OF s]
  have "inj_on pt_array_index (set ts)" using pl(3) ts(3) by (meson distinct_map inj_on_subset)
  then have "distinct (map pt_array_index ts)" using ts(2) by (simp add: distinct_map)
  then have idx: "card (set (map pt_array_index ts)) = length (map pt_array_index ts)" by (rule distinct_card)
  have mix: "\<not> (list_ex (\<lambda>i. i \<noteq> None) (map pt_array_index ts) \<and> None \<in> set (map pt_array_index ts))"
    using pl(4) ts(3) by (fastforce simp: list_ex_iff)
  have mode: "st_dependency_mode s \<in> lit ` set DEPENDENCY_MODES" and stage: "ident_ok (st_stage_id s)"
    using stage_canonical_parts(1) [OF s] by (simp_all add: stage_ok_def)
  have "retry.canonical (st_retry_policy s)" using stage_canonical_parts(2) [OF s] by (simp add: stage_sound_def)
  then have delay: "0 \<le> rp_backoff_seconds (st_retry_policy s)" "rp_backoff_seconds (st_retry_policy s) \<le> 3600"
    by (auto simp: retry.canonical_def retry_post_init_def)
  let ?w = "cp_work_root (pl_paths p)" and ?l = "cp_logs_root (pl_paths p)" and ?n = "lit ''attempt-'' @ attempt_text (si_attempt i)"
  note line = join_line_ok(1) [OF paths_fields_ok(2) [OF pp], of "[lit ''execution'', st_stage_id s, ?n @ lit ''.sbatch'']"]
    join_line_ok(1) [OF paths_fields_ok(5) [OF pp], of "[lit ''execution'', st_stage_id s, ?n, x]" for x]
  have lines: "startswith q [slash] \<and> 10 \<notin> set q \<and> 13 \<notin> set q"
    if "q = path_join (path_join ?w [lit ''execution'', st_stage_id s]) [?n @ lit ''.sbatch'']
      \<or> (\<exists>x. plain_text x \<and> q = path_join (path_join ?l [lit ''execution'', st_stage_id s, ?n]) [x])" for q
    using that line ident_plain [OF stage] attempt_plain literal_plain(1)
    unfolding path_join_append [symmetric] by (auto simp del: path_join.simps)
  have script: "startswith (path_join (path_join ?w [lit ''execution'', st_stage_id s]) [?n @ lit ''.sbatch'']) [slash]
      \<and> 10 \<notin> set (path_join (path_join ?w [lit ''execution'', st_stage_id s]) [?n @ lit ''.sbatch''])
      \<and> 13 \<notin> set (path_join (path_join ?w [lit ''execution'', st_stage_id s]) [?n @ lit ''.sbatch''])"
    using lines by blast
  have logs: "startswith q [slash] \<and> 10 \<notin> set q \<and> 13 \<notin> set q"
    if "q = path_join (path_join ?l [lit ''execution'', st_stage_id s, ?n]) [x @ y]" "x \<in> {lit ''%A_%a'', lit ''%j''}"
      "y \<in> {lit ''.out'', lit ''.err''}" for q x y
    using lines [of q] that literal_plain(2-5) by blast
  show ?thesis
    using ts(1,5) idx mix mode assms(5,6) delay script logs
    by (simp add: build_submission_request_def request_post_init_def Let_def distinct_card del: path_join.simps)
qed

definition sample_identity_a :: submission_identity where
  "sample_identity_a = \<lparr>si_plan_sha256 = hex64, si_stage_id = lit ''a'', si_attempt = 2\<rparr>"

theorem requests_are_accepted_witness:
  "\<exists>ts r. select_tasks (sample_stage ''a'' []) None = Inr ts
     \<and> build_submission_request sample_plan (sample_stage ''a'' []) sample_identity_a ts [lit ''7''] [] = Inr r \<and> sr_tasks r = ts"
proof -
  have s: "sample_stage ''a'' [] \<in> set (pl_stages sample_plan)" by (simp add: sample_plan_def sample_stages_def)
  obtain ts where ts: "select_tasks (sample_stage ''a'' []) None = Inr ts"
    using select_tasks_all [of "sample_stage ''a'' []"] sample_stage_ok by auto
  have "identity_ok sample_identity_a" by (simp add: identity_ok_def sample_identity_a_def)
  moreover have "list_all isdigit [lit ''7'']" by (simp add: isdigit_def is_digit_def is_nd_small lit_def)
  ultimately show ?thesis
    using requests_are_accepted [OF plan.roundtrip [OF sample_plan_canonical] s _ ts, of sample_identity_a "[lit ''7'']" "[]"] ts
    by auto
qed

section \<open>The dispatcher script\<close>

lemma quote_end: "shell_quote s \<noteq> [] \<and> \<not> is_space (last (shell_quote s))"
  using shell_quote_last [of s] by (cases "s = []") (auto simp: shell_quote_def is_space_def is_shell_safe_def)

lemma words_end: "xs \<noteq> [] \<Longrightarrow> shell_words xs \<noteq> [] \<and> \<not> is_space (last (shell_words xs))"
proof (induction xs)
  case (Cons x xs)
  then show ?case using quote_end [of x] by (cases xs) (auto simp: shell_words_def)
qed simp

lemma rstrip_id: "s \<noteq> [] \<Longrightarrow> \<not> is_space (last s) \<Longrightarrow> rstrip s = s"
  by (cases s rule: rev_cases) (simp_all add: rstrip_def)

lemma split_words_blank: "sh_split Plain None (shell_words xs @ (if xs = [] then [] else [32])) = Some xs"
proof (induction xs)
  case (Cons x xs)
  have q: "sh_split Plain None (shell_quote x @ t) = sh_split Plain (Some x) t" for t
    using split_quote [of None x t] by (simp add: word_so_far_def)
  show ?case
  proof (cases xs)
    case Nil
    then show ?thesis using q [of "[32]"] by (simp add: shell_words_def finished_def)
  next
    case (Cons y ys)
    then have "shell_words (x # xs) @ [32] = shell_quote x @ 32 # (shell_words xs @ [32])" by (simp add: shell_words_def)
    then show ?thesis using q Cons.IH Cons by (simp add: finished_def)
  qed
qed (simp add: shell_words_def finished_def)

definition runtime_copy :: ustr where
  "runtime_copy = [34] @ lit ''$runtime_copy'' @ [34]"

text \<open>The line that runs the command: the environment words, the private copy, the argument words.\<close>

lemma exec_line:
  "command_lines c ! 7 = lit ''env -i '' @ (shell_words (cm_environment c) @ (if cm_environment c = [] then [] else [32]))
     @ runtime_copy @ (if tl (cm_argv c) = [] then [] else 32 # shell_words (tl (cm_argv c)))"
proof -
  let ?E = "shell_words (cm_environment c) @ (if cm_environment c = [] then [] else [32])"
  let ?H = "lit ''env -i '' @ ?E @ runtime_copy"
  have e: "(if shell_words xs = [] then [] else shell_words xs @ [32]) = shell_words xs @ (if xs = [] then [] else [32])" for xs
    using words_end [of xs] by (cases "xs = []") (auto simp: shell_words_def)
  have line: "command_lines c ! 7 = rstrip (?H @ 32 # shell_words (tl (cm_argv c)))"
    by (simp add: command_lines_def Let_def e runtime_copy_def del: lit_append)
  have last: "?H \<noteq> [] \<and> \<not> is_space (last ?H)" by (simp add: runtime_copy_def is_space_def)
  show ?thesis
  proof (cases "tl (cm_argv c) = []")
    case True
    have "rstrip (?H @ [32]) = rstrip ?H" by (simp add: rstrip_def is_space_def)
    with line True last rstrip_id [of ?H] show ?thesis by (simp add: shell_words_def)
  next
    case False
    with words_end [of "tl (cm_argv c)"] have "rstrip (?H @ 32 # shell_words (tl (cm_argv c))) = ?H @ 32 # shell_words (tl (cm_argv c))"
      by (intro rstrip_id) auto
    with line False show ?thesis by simp
  qed
qed

text \<open>C23. No text of a command is interpreted by the shell. The dispatcher copies the fingerprinted
  runtime, compares the digest of the copy with the signed one before anything else, changes into the
  working directory and runs the copy: each variable part of these lines is one run of shell words,
  delimited by blanks, that splits into exactly the strings of the command.
\<close>

theorem dispatcher_quotes:
  "\<exists>rt sha wd e a.
     command_lines c ! 1 = lit ''/bin/cp -p -- '' @ rt @ [32] @ runtime_copy
     \<and> sh_split Plain None rt = Some [case cm_runtime_fingerprint_path c of None \<Rightarrow> [] | Some p \<Rightarrow> p]
     \<and> command_lines c ! 4 = lit ''if [[ '' @ [34] @ lit ''$runtime_sha'' @ [34] @ lit '' != '' @ sha
         @ lit '' ]]; then rm -f -- '' @ runtime_copy @ lit ''; echo '' @ [39] @ lit ''runtime fingerprint mismatch'' @ [39]
         @ lit '' >&2; exit 70; fi''
     \<and> sh_split Plain None sha = Some [cm_runtime_fingerprint_sha256 c]
     \<and> command_lines c ! 5 = lit ''cd -- '' @ wd \<and> sh_split Plain None wd = Some [cm_working_directory c]
     \<and> command_lines c ! 7 = lit ''env -i '' @ e @ runtime_copy @ a
     \<and> (e = [] \<or> last e = 32) \<and> sh_split Plain None e = Some (cm_environment c)
     \<and> (a = [] \<or> hd a = 32) \<and> sh_split Plain None a = Some (tl (cm_argv c))"
proof -
  have q: "sh_split Plain None (shell_quote x) = Some [x]" for x
    using split_words [of "[x]"] by (simp add: shell_words_def)
  have a: "sh_split Plain None (if tl (cm_argv c) = [] then [] else 32 # shell_words (tl (cm_argv c))) = Some (tl (cm_argv c))"
    by (simp add: split_words finished_def option.map_ident)
  let ?e = "shell_words (cm_environment c) @ (if cm_environment c = [] then [] else [32])"
  have e: "sh_split Plain None ?e = Some (cm_environment c)" "?e = [] \<or> last ?e = 32"
    by (rule split_words_blank) (simp add: shell_words_def)
  show ?thesis
    apply (rule exI [of _ "shell_quote (case cm_runtime_fingerprint_path c of None \<Rightarrow> [] | Some p \<Rightarrow> p)"])
    apply (rule exI [of _ "shell_quote (cm_runtime_fingerprint_sha256 c)"])
    apply (rule exI [of _ "shell_quote (cm_working_directory c)"])
    apply (rule exI [of _ ?e])
    apply (rule exI [of _ "if tl (cm_argv c) = [] then [] else 32 # shell_words (tl (cm_argv c))"])
    using exec_line [of c] e q a by (simp add: command_lines_def Let_def runtime_copy_def del: lit_append)
qed

end
