(* ===== verification/Json_Parse.thy ===== *)
theory Json_Parse
  imports Json_Text
begin

text \<open>
  The text decoder \<open>json.loads\<close> as \<open>runorg/strict_json.py\<close> uses it, and the indented text
  \<open>canonical_json\<close> of \<open>runorg/execution_models.py\<close>. The conversion of a float literal is a
  parameter; every recursive call of the scanner works on a shorter text, so the decoder is total.
  CPython's limits on nesting depth and on the digits of an integer literal are not modelled.
  The main result is that the decoder inverts both texts the package writes.
\<close>

section \<open>Scanning\<close>

definition malformed :: pyerr where
  "malformed = ValueError ''malformed JSON''"

definition skip_ws :: "ustr \<Rightarrow> ustr" where
  "skip_ws s = dropWhile (\<lambda>c. c = 32 \<or> c = 9 \<or> c = 10 \<or> c = 13) s"

definition is_hex :: "nat \<Rightarrow> bool" where
  "is_hex c \<longleftrightarrow> 48 \<le> c \<and> c \<le> 57 \<or> 65 \<le> c \<and> c \<le> 70 \<or> 97 \<le> c \<and> c \<le> 102"

definition hex_val :: "nat \<Rightarrow> nat" where
  "hex_val c = (if c \<le> 57 then c - 48 else if c \<le> 70 then c - 55 else c - 87)"

text \<open>The four hexadecimal digits at the start of a text.\<close>

definition hex4 :: "ustr \<Rightarrow> nat option" where
  "hex4 s =
     (if 4 \<le> length s \<and> list_all is_hex (take 4 s) then Some (foldl (\<lambda>n c. 16 * n + hex_val c) 0 (take 4 s)) else None)"

definition simple_escape :: "nat \<Rightarrow> nat option" where
  "simple_escape c = map_of [(34, 34), (92, 92), (47, 47), (98, 8), (102, 12), (110, 10), (114, 13), (116, 9)] c"

text \<open>A string literal after its opening quote: the string and the text behind the closing quote.
  A high surrogate followed by the escape of a low one is one code point.\<close>

definition is_high :: "nat \<Rightarrow> bool" where
  "is_high c \<longleftrightarrow> 55296 \<le> c \<and> c \<le> 56319"

definition is_low :: "nat \<Rightarrow> bool" where
  "is_low c \<longleftrightarrow> 56320 \<le> c \<and> c \<le> 57343"

text \<open>One character of a string literal.\<close>

definition scan_escape :: "ustr \<Rightarrow> (nat \<times> ustr) res" where
  "scan_escape q =
     (case hex4 q of
        None \<Rightarrow> Inl malformed
      | Some u \<Rightarrow>
          if is_high u \<and> take 2 (drop 4 q) = [92, 117] then
            (case hex4 (drop 6 q) of
               None \<Rightarrow> Inl malformed
             | Some l \<Rightarrow>
                 if is_low l then Inr (65536 + (u - 55296) * 1024 + (l - 56320), drop 10 q) else Inr (u, drop 4 q))
          else Inr (u, drop 4 q))"

definition scan_char :: "ustr \<Rightarrow> (nat \<times> ustr) res" where
  "scan_char s =
     (case s of
        [] \<Rightarrow> Inl malformed
      | c # r \<Rightarrow>
          if c = 92 then
            (case r of
               [] \<Rightarrow> Inl malformed
             | e # q \<Rightarrow>
                 if e = 117 then scan_escape q
                 else (case simple_escape e of None \<Rightarrow> Inl malformed | Some x \<Rightarrow> Inr (x, q)))
          else if c < 32 then Inl malformed
          else Inr (c, r))"

lemma scan_char_length: "scan_char s = Inr (c, r) \<Longrightarrow> length r < length s"
  by (auto simp: scan_char_def scan_escape_def split: list.splits option.splits if_splits)

function scanstring :: "ustr \<Rightarrow> (ustr \<times> ustr) res" where
  "scanstring s =
     (if take 1 s = [34] then Inr ([], drop 1 s)
      else (case scan_char s of
          Inl e \<Rightarrow> Inl e
        | Inr (c, r) \<Rightarrow> (case scanstring r of Inl e \<Rightarrow> Inl e | Inr (t, z) \<Rightarrow> Inr (c # t, z))))"
  by pat_completeness auto
termination by (relation "measure length") (auto dest: scan_char_length)

declare scanstring.simps [simp del]

text \<open>A number literal: an optional sign, an integer part without leading zeros, then an optional
  fraction and exponent, which make it a float.\<close>

definition digits :: "ustr \<Rightarrow> ustr" where
  "digits s = takeWhile (\<lambda>c. 48 \<le> c \<and> c \<le> 57) s"

definition integer_part :: "ustr \<Rightarrow> ustr" where
  "integer_part s = (case s of [] \<Rightarrow> [] | c # r \<Rightarrow> if c = 48 then [48] else digits s)"

definition fraction_part :: "ustr \<Rightarrow> ustr" where
  "fraction_part s = (case s of [] \<Rightarrow> [] | c # r \<Rightarrow> if c = 46 \<and> digits r \<noteq> [] then 46 # digits r else [])"

definition exponent_part :: "ustr \<Rightarrow> ustr" where
  "exponent_part s =
     (case s of
        [] \<Rightarrow> []
      | c # r \<Rightarrow>
          if c = 101 \<or> c = 69 then
            (let sign = (case r of [] \<Rightarrow> [] | d # q \<Rightarrow> if d = 43 \<or> d = 45 then [d] else []);
                 ds = digits (drop (length sign) r)
             in if ds = [] then [] else c # sign @ ds)
          else [])"

definition scan_number :: "(ustr \<Rightarrow> pyfloat) \<Rightarrow> ustr \<Rightarrow> (json \<times> ustr) res" where
  "scan_number fl s =
     (let sign = (if take 1 s = [45] then [45] else []);
          s1 = drop (length sign) s;
          ip = integer_part s1;
          s2 = drop (length ip) s1;
          fp = fraction_part s2;
          s3 = drop (length fp) s2;
          ep = exponent_part s3;
          rest = drop (length ep) s3
      in if ip = [] then Inl malformed
         else if fp = [] \<and> ep = [] then
           Inr (JInt (if sign = [] then int (nat_of_digits ip) else - int (nat_of_digits ip)), rest)
         else Inr (JFloat (fl (sign @ ip @ fp @ ep)), rest))"

lemma skip_ws_length: "length (skip_ws s) \<le> length s"
  by (simp add: skip_ws_def length_dropWhile_le)

lemma scanstring_length: "scanstring s = Inr (t, r) \<Longrightarrow> length r < length s"
proof (induction s arbitrary: t r rule: scanstring.induct)
  case (1 s)
  show ?case
  proof (cases "take 1 s = [34]")
    case True
    with 1(2) have "r = drop 1 s" "s \<noteq> []" by (auto simp: scanstring.simps [of s])
    then show ?thesis by (cases s) simp_all
  next
    case False
    with 1(2) obtain c q u where q: "scan_char s = Inr (c, q)" "scanstring q = Inr (u, r)"
      by (auto simp: scanstring.simps [of s] split: sum.splits)
    with 1(1) [OF False] scan_char_length [of s c q] show ?thesis by force
  qed
qed

lemma member_value_shorter:
  assumes "take 1 s = [34]" and "scanstring (drop 1 s) = Inr (k, r)"
  shows "length (skip_ws (drop (Suc 0) (skip_ws r))) < length s"
proof -
  have "length (skip_ws (drop 1 (skip_ws r))) \<le> length r"
    using skip_ws_length [of r] skip_ws_length [of "drop 1 (skip_ws r)"] by simp
  moreover have "length r < length s" using assms(1) scanstring_length [OF assms(2)] by (cases s) simp_all
  ultimately show ?thesis by simp
qed

section \<open>Values\<close>

text \<open>
  The hooks of a decoder: the conversion of float literals, \<open>object_pairs_hook\<close> and \<open>parse_constant\<close>. The strict
  decoder of the package refuses repeated names and the constants; plain \<open>json.loads\<close> keeps the last value of a
  repeated name and accepts the constants.
\<close>

record decoder =
  dc_float :: "ustr \<Rightarrow> pyfloat"
  dc_object :: "(ustr \<times> json) list \<Rightarrow> jdict res"
  dc_constant :: "pyfloat \<Rightarrow> json res"

definition strict :: "(ustr \<Rightarrow> pyfloat) \<Rightarrow> decoder" where
  "strict fl = \<lparr>dc_float = fl, dc_object = object_without_duplicates, dc_constant = \<lambda>_. Inl malformed\<rparr>"

definition plain_json :: "(ustr \<Rightarrow> pyfloat) \<Rightarrow> decoder" where
  "plain_json fl = \<lparr>dc_float = fl, dc_object = \<lambda>ps. Inr (foldl (\<lambda>d (k, v). dset k v d) [] ps), dc_constant = \<lambda>c. Inr (JFloat c)\<rparr>"

definition parse_constant :: "decoder \<Rightarrow> string \<Rightarrow> pyfloat \<Rightarrow> ustr \<Rightarrow> (json \<times> ustr) res" where
  "parse_constant dc w c s = bind (dc_constant dc c) (\<lambda>v. Inr (v, drop (length w) s))"

text \<open>The literal \<open>w\<close> at the start of a text.\<close>

definition literal :: "string \<Rightarrow> json \<Rightarrow> ustr \<Rightarrow> (json \<times> ustr) res" where
  "literal w v s = (if startswith s (lit w) then Inr (v, drop (length w) s) else Inl malformed)"

text \<open>
  \<open>scan_once\<close> on a text without leading blanks, and the loops over the elements of an array and
  the members of an object. The test that the text got shorter always succeeds.
\<close>

function scan_once :: "decoder \<Rightarrow> ustr \<Rightarrow> (json \<times> ustr) res"
  and scan_items :: "decoder \<Rightarrow> ustr \<Rightarrow> (json list \<times> ustr) res"
  and scan_members :: "decoder \<Rightarrow> ustr \<Rightarrow> ((ustr \<times> json) list \<times> ustr) res"
where
  "scan_once dc s =
     (case s of
        [] \<Rightarrow> Inl malformed
      | c # r \<Rightarrow>
          if c = 34 then (case scanstring r of Inl e \<Rightarrow> Inl e | Inr (t, z) \<Rightarrow> Inr (JStr t, z))
          else if c = 123 then
            (if take 1 (skip_ws r) = [125] then Inr (JObj [], drop 1 (skip_ws r))
             else (case scan_members dc (skip_ws r) of
                 Inl e \<Rightarrow> Inl e
               | Inr (ps, z) \<Rightarrow> bind (dc_object dc ps) (\<lambda>d. Inr (JObj d, z))))
          else if c = 91 then
            (if take 1 (skip_ws r) = [93] then Inr (JArr [], drop 1 (skip_ws r))
             else (case scan_items dc (skip_ws r) of Inl e \<Rightarrow> Inl e | Inr (xs, z) \<Rightarrow> Inr (JArr xs, z)))
          else if c = 110 then literal ''null'' JNull s
          else if c = 116 then literal ''true'' (JBool True) s
          else if c = 102 then literal ''false'' (JBool False) s
          else if startswith s (lit ''NaN'') then parse_constant dc ''NaN'' NaN s
          else if startswith s (lit ''Infinity'') then parse_constant dc ''Infinity'' PosInf s
          else if startswith s (lit ''-Infinity'') then parse_constant dc ''-Infinity'' NegInf s
          else scan_number (dc_float dc) s)"
| "scan_items dc s =
     (case scan_once dc s of
        Inl e \<Rightarrow> Inl e
      | Inr (v, r) \<Rightarrow>
          (case skip_ws r of
             [] \<Rightarrow> Inl malformed
           | c # q \<Rightarrow>
               if c = 93 then Inr ([v], q)
               else if c = 44 \<and> length q < length s then
                 (case scan_items dc (skip_ws q) of Inl e \<Rightarrow> Inl e | Inr (vs, z) \<Rightarrow> Inr (v # vs, z))
               else Inl malformed))"
| "scan_members dc s =
     (if take 1 s \<noteq> [34] then Inl malformed
      else (case scanstring (drop 1 s) of
          Inl e \<Rightarrow> Inl e
        | Inr (k, r) \<Rightarrow>
            if take 1 (skip_ws r) \<noteq> [58] then Inl malformed
            else (case scan_once dc (skip_ws (drop 1 (skip_ws r))) of
                Inl e \<Rightarrow> Inl e
              | Inr (v, t) \<Rightarrow>
                  (case skip_ws t of
                     [] \<Rightarrow> Inl malformed
                   | c # q \<Rightarrow>
                       if c = 125 then Inr ([(k, v)], q)
                       else if c = 44 \<and> length q < length s then
                         (case scan_members dc (skip_ws q) of Inl e \<Rightarrow> Inl e | Inr (ps, z) \<Rightarrow> Inr ((k, v) # ps, z))
                       else Inl malformed))))"
  by pat_completeness auto
termination
  by (relation "measures [\<lambda>x. case x of Inl (dc, s) \<Rightarrow> length s | Inr (Inl (dc, s)) \<Rightarrow> length s | Inr (Inr (dc, s)) \<Rightarrow> length s,
      \<lambda>x. case x of Inl _ \<Rightarrow> 0 | _ \<Rightarrow> 1]")
    (auto intro: le_less_trans [OF skip_ws_length] simp: member_value_shorter)



declare scan_once.simps [simp del] scan_items.simps [simp del] scan_members.simps [simp del]

definition loads :: "decoder \<Rightarrow> ustr \<Rightarrow> json res" where
  "loads dc s =
     (if take 1 s = [65279] then Inl malformed
      else bind (scan_once dc (skip_ws s)) (\<lambda>(v, r). if skip_ws r = [] then Inr v else Inl malformed))"

definition strict_json_value :: "(ustr \<Rightarrow> pyfloat) \<Rightarrow> ustr \<Rightarrow> string \<Rightarrow> json res" where
  "strict_json_value fl s label =
     (case loads (strict fl) s of Inl e \<Rightarrow> Inl (ValueError (label @ '' is malformed JSON'')) | Inr v \<Rightarrow> Inr v)"

definition strict_json_object :: "(ustr \<Rightarrow> pyfloat) \<Rightarrow> ustr \<Rightarrow> string \<Rightarrow> jdict res" where
  "strict_json_object fl s label =
     bind (strict_json_value fl s label) (\<lambda>v.
     case v of JObj d \<Rightarrow> Inr d | _ \<Rightarrow> Inl (ValueError (label @ '' must be a JSON object'')))"

section \<open>Indented text\<close>

definition newline :: "nat \<Rightarrow> ustr" where
  "newline n = 10 # replicate (2 * n) 32"

text \<open>The text of \<open>json.dumps(..., indent=2)\<close> at nesting level \<open>n\<close>.\<close>

fun render_indent :: "nat \<Rightarrow> json \<Rightarrow> ustr" where
  "render_indent n (JArr xs) =
     (if xs = [] then [91, 93]
      else [91] @ newline (Suc n) @ join (44 # newline (Suc n)) (map (render_indent (Suc n)) xs) @ newline n @ [93])"
| "render_indent n (JObj d) =
     (if d = [] then [123, 125]
      else [123] @ newline (Suc n)
        @ join (44 # newline (Suc n)) (map (\<lambda>(k, v). json_string k @ [58, 32] @ render_indent (Suc n) v) d)
        @ newline n @ [125])"
| "render_indent n v = render v"

definition dumps_indent :: "json \<Rightarrow> ustr res" where
  "dumps_indent v =
     (case floats (sorted_members v) of
        [] \<Rightarrow> Inr (render_indent 0 (sorted_members v))
      | Fin r # _ \<Rightarrow> Inl (ValueError ''the text of a float is not modelled'')
      | _ # _ \<Rightarrow> Inl (ValueError ''Out of range float values are not JSON compliant''))"

definition canonical_json :: "jdict \<Rightarrow> ustr res" where
  "canonical_json d = bind (dumps_indent (JObj d)) (\<lambda>t. Inr (t @ [10]))"

section \<open>The decoder inverts the texts\<close>

text \<open>Strings.\<close>

lemma hex_digit_val: "n < 16 \<Longrightarrow> is_hex (hex_digit n) \<and> hex_val (hex_digit n) = n"
  by (auto simp: is_hex_def hex_val_def hex_digit_def)

lemma hex4_control:
  assumes "c < 32" shows "hex4 (48 # 48 # hex_digit (c div 16) # hex_digit (c mod 16) # x) = Some c"
proof -
  have "is_hex 48 \<and> hex_val 48 = 0" by (simp add: is_hex_def hex_val_def)
  then show ?thesis using hex_digit_val [of "c div 16"] hex_digit_val [of "c mod 16"] assms by (simp add: hex4_def)
qed

lemma scan_char_escape: "scan_char (escape_char c @ x) = Inr (c, x)"
proof (cases "c < 32 \<and> c \<notin> {8, 9, 10, 12, 13}")
  case True
  then have "escape_char c = [92, 117, 48, 48, hex_digit (c div 16), hex_digit (c mod 16)]" by (auto simp: escape_char_def)
  then show ?thesis using True hex4_control [of c x] by (simp add: scan_char_def scan_escape_def is_high_def)
next
  case False
  then show ?thesis by (auto simp: escape_char_def scan_char_def simple_escape_def)
qed

lemma scanstring_inverse: "scanstring (concat (map escape_char s) @ 34 # z) = Inr (s, z)"
proof (induction s)
  case Nil
  then show ?case by (simp add: scanstring.simps)
next
  case (Cons c s)
  let ?x = "concat (map escape_char s) @ 34 # z"
  have "take 1 (escape_char c @ ?x) \<noteq> [34]" using escape_char_hd [of c ?x] by (cases "escape_char c") auto
  then show ?case using Cons scan_char_escape [of c ?x] by (simp add: scanstring.simps [of "escape_char c @ ?x"])
qed

text \<open>Numbers. \<open>ends\<close> is what may follow a value in the texts.\<close>

definition ends :: "ustr \<Rightarrow> bool" where
  "ends s \<longleftrightarrow> s = [] \<or> hd s \<in> {10, 44, 93, 125}"

lemma dec_digits_zero: "hd (dec_digits n) = 48 \<longleftrightarrow> n = 0"
proof (induction n rule: dec_digits.induct)
  case (1 n)
  show ?case
  proof (cases "n < 10")
    case False
    with 1 have "hd (dec_digits n) = hd (dec_digits (n div 10))" by (simp add: dec_digits.simps [of n])
    with 1 False show ?thesis by auto
  qed (simp add: dec_digits.simps [of n])
qed

lemma digits_inverse: "ends z \<Longrightarrow> digits (dec_digits n @ z) = dec_digits n"
proof -
  assume "ends z"
  then have "takeWhile (\<lambda>c. 48 \<le> c \<and> c \<le> 57) z = []" by (cases z) (auto simp: ends_def)
  then show ?thesis using dec_digits_range [of _ n] by (subst digits_def, subst takeWhile_append2) force+
qed

lemma integer_inverse: "ends z \<Longrightarrow> integer_part (dec_digits n @ z) = dec_digits n"
proof (cases "n = 0")
  case True
  have "dec_digits 0 = [48]" by (simp add: dec_digits.simps [of 0])
  with True show ?thesis by (simp add: integer_part_def)
next
  case False
  assume "ends z"
  then show ?thesis using False dec_digits_zero [of n] digits_inverse [of z n]
    by (cases "dec_digits n") (auto simp: integer_part_def)
qed

lemma scan_number_inverse: "ends z \<Longrightarrow> scan_number fl (str_int i @ z) = Inr (JInt i, z)"
proof -
  assume z: "ends z"
  have "fraction_part z = []" "exponent_part z = []" using z by (cases z; auto simp: ends_def fraction_part_def exponent_part_def)+
  moreover have "take 1 (dec_digits n @ z) \<noteq> [45]" for n using dec_digits_hd [of n] by (cases "dec_digits n") auto
  ultimately show ?thesis using integer_inverse [OF z] by (simp add: scan_number_def str_int_def Let_def)
qed

text \<open>Blanks between the parts of a text.\<close>

definition blank :: "ustr \<Rightarrow> bool" where
  "blank w \<longleftrightarrow> list_all (\<lambda>c. c = 32 \<or> c = 9 \<or> c = 10 \<or> c = 13) w"

definition solid :: "ustr \<Rightarrow> bool" where
  "solid s \<longleftrightarrow> s \<noteq> [] \<and> hd s \<notin> {32, 9, 10, 13, 93, 125, 65279}"

lemma skip_solid [simp]: "solid s \<Longrightarrow> skip_ws (s @ z) = s @ z"
  by (cases s) (auto simp: solid_def skip_ws_def)

lemma skip_blank: "blank w \<Longrightarrow> skip_ws (w @ s) = skip_ws s"
  by (simp add: blank_def skip_ws_def list_all_iff)

lemma skip_char [simp]: "c \<notin> {32, 9, 10, 13} \<Longrightarrow> skip_ws (c # s) = c # s"
  by (auto simp: skip_ws_def)

lemma blank_newline [simp]: "blank (newline n)" "blank []" "blank [32]"
  by (simp_all add: blank_def newline_def list_all_iff)

lemma ends_simps [simp]: "ends (44 # s)" "ends (93 # s)" "ends (125 # s)" "ends (newline n @ s)" "ends [10]"
  by (simp_all add: ends_def newline_def)

text \<open>A string literal the decoder reads back.\<close>

definition spells :: "(ustr \<Rightarrow> ustr) \<Rightarrow> ustr \<Rightarrow> bool" where
  "spells js s \<longleftrightarrow> (\<exists>b. js s = 34 # b \<and> (\<forall>z. scanstring (b @ z) = Inr (s, z)))"

lemma spells_json_string: "spells json_string s"
  using scanstring_inverse [of s] by (simp add: spells_def json_string_def)

lemma solid_spells: "spells js s \<Longrightarrow> solid (js s @ z)"
  by (auto simp: solid_def spells_def)

lemma solid_append: "solid s \<Longrightarrow> solid (s @ z)"
  by (simp add: solid_def)

lemma items_inverse:
  assumes "\<And>x z. x \<in> set xs \<Longrightarrow> ends z \<Longrightarrow> scan_once dc (f x @ z) = Inr (x, z)"
    and "\<And>x. x \<in> set xs \<Longrightarrow> solid (f x)" and "blank w" and "blank w'" and "ends (w' @ 93 # z)" and "xs \<noteq> []"
  shows "scan_items dc (join (44 # w) (map f xs) @ w' @ 93 # z) = Inr (xs, z)"
  using assms(1,2,6)
proof (induction xs)
  case (Cons x xs)
  show ?case
  proof (cases xs)
    case Nil
    then have "scan_once dc (f x @ w' @ 93 # z) = Inr (x, w' @ 93 # z)" using Cons.prems(1) [of x] assms(5) by simp
    then show ?thesis using Nil skip_blank [OF assms(4)] by (simp add: scan_items.simps [of dc "f x @ w' @ 93 # z"])
  next
    case (Cons y ys)
    let ?r = "join (44 # w) (map f xs) @ w' @ 93 # z"
    let ?t = "f x @ 44 # w @ ?r"
    have t: "join (44 # w) (map f (x # xs)) @ w' @ 93 # z = ?t" using Cons by simp
    have "scan_once dc ?t = Inr (x, 44 # w @ ?r)" using Cons.prems(1) [of x "44 # w @ ?r"] by simp
    moreover have "solid (f y)" using Cons Cons.prems(2) by simp
    then have "skip_ws (w @ ?r) = ?r" unfolding skip_blank [OF assms(3)] using Cons by (cases ys) simp_all
    moreover have "scan_items dc ?r = Inr (xs, z)" using Cons.IH Cons.prems Cons by simp
    moreover have "f x \<noteq> []" using Cons.prems(2) [of x] by (simp add: solid_def)
    ultimately show ?thesis unfolding t by (simp add: scan_items.simps [of dc ?t])
  qed
qed simp

lemma members_inverse:
  assumes "\<And>k v z. (k, v) \<in> set d \<Longrightarrow> ends z \<Longrightarrow> scan_once dc (f v @ z) = Inr (v, z)"
    and "\<And>k v. (k, v) \<in> set d \<Longrightarrow> solid (f v) \<and> spells js k"
    and "blank b" "blank w" and "blank w'" and "ends (w' @ 125 # z)" and "d \<noteq> []"
  shows "scan_members dc (join (44 # w) (map (\<lambda>(k, v). js k @ 58 # b @ f v) d) @ w' @ 125 # z) = Inr (d, z)"
  using assms(1,2,7)
proof (induction d)
  case (Cons p d)
  obtain k v where p: "p = (k, v)" by fastforce
  let ?g = "\<lambda>(k, v). js k @ 58 # b @ f v"
  have step: "scan_members dc (js k @ 58 # b @ f v @ u) =
      (case skip_ws u of [] \<Rightarrow> Inl malformed
       | c # q \<Rightarrow> if c = 125 then Inr ([(k, v)], q)
           else if c = 44 \<and> length q < length (js k @ 58 # b @ f v @ u) then
             (case scan_members dc (skip_ws q) of Inl e \<Rightarrow> Inl e | Inr (ps, z) \<Rightarrow> Inr ((k, v) # ps, z))
           else Inl malformed)" if u: "ends u" for u
  proof -
    let ?s = "js k @ 58 # b @ f v @ u"
    have "scanstring (drop 1 ?s) = Inr (k, 58 # b @ f v @ u)" "take 1 ?s = [34]"
      using Cons.prems(2) [of k v] p by (auto simp: spells_def)
    moreover have "skip_ws (drop 1 (skip_ws (58 # b @ f v @ u))) = f v @ u"
      using Cons.prems(2) [of k v] p skip_blank [OF assms(3)] by simp
    moreover have "scan_once dc (f v @ u) = Inr (v, u)" using Cons.prems(1) [of k v u] p u by simp
    ultimately show ?thesis by (simp add: scan_members.simps [of dc ?s])
  qed
  show ?case
  proof (cases d)
    case Nil
    then show ?thesis using p step [of "w' @ 125 # z"] assms(6) skip_blank [OF assms(5)] by simp
  next
    case (Cons q e)
    let ?r = "join (44 # w) (map ?g d) @ w' @ 125 # z"
    have "spells js (fst q)" using Cons.prems(2) [of "fst q" "snd q"] Cons by simp
    then have "skip_ws (w @ ?r) = ?r" unfolding skip_blank [OF assms(4)]
      using Cons by (cases q; cases e) (auto simp: spells_def)
    moreover have "scan_members dc ?r = Inr (d, z)"
    proof (rule Cons.IH)
      show "scan_once dc (f v @ z) = Inr (v, z)" if "(k, v) \<in> set d" "ends z" for k v z
        using Cons.prems(1) [of k v z] that by simp
      show "solid (f v) \<and> spells js k" if "(k, v) \<in> set d" for k v using Cons.prems(2) [of k v] that by simp
    qed (use Cons in simp)
    ultimately show ?thesis using p Cons step [of "44 # w @ ?r"] by simp
  qed
qed simp

text \<open>A value the decoder can return from the texts: no floats, and no object repeats a name.\<close>

fun loadable :: "json \<Rightarrow> bool" where
  "loadable (JFloat f) = False"
| "loadable (JArr xs) = list_all loadable xs"
| "loadable (JObj d) = (distinct (map fst d) \<and> list_all (\<lambda>(k, v). loadable v) d)"
| "loadable _ = True"

text \<open>The strings and names of a value satisfy \<open>ok\<close>.\<close>

fun spelled :: "(ustr \<Rightarrow> bool) \<Rightarrow> json \<Rightarrow> bool" where
  "spelled ok (JStr s) = ok s"
| "spelled ok (JArr xs) = list_all (spelled ok) xs"
| "spelled ok (JObj d) = list_all (\<lambda>(k, v). ok k \<and> spelled ok v) d"
| "spelled ok _ = True"

lemma spelled_all: "(\<And>s. ok s) \<Longrightarrow> spelled ok v"
  by (induction ok v rule: spelled.induct) (auto simp: list_all_iff)

lemma scan_scalars:
  "scan_once dc (lit ''null'' @ z) = Inr (JNull, z)"
  "scan_once dc (lit ''true'' @ z) = Inr (JBool True, z)"
  "scan_once dc (lit ''false'' @ z) = Inr (JBool False, z)"
  "scan_once dc (91 # 93 # z) = Inr (JArr [], z)" "scan_once dc (123 # 125 # z) = Inr (JObj [], z)"
  by (simp_all add: scan_once.simps literal_def startswith_def lit_def)

lemma scan_string: "spells js s \<Longrightarrow> scan_once dc (js s @ z) = Inr (JStr s, z)"
  by (auto simp: spells_def scan_once.simps)

lemma scan_int: "ends z \<Longrightarrow> scan_once dc (str_int i @ z) = Inr (JInt i, z)"
proof -
  assume z: "ends z"
  obtain d ds where n: "dec_digits (nat \<bar>i\<bar>) = d # ds" "48 \<le> d" "d < 58"
    using dec_digits_hd [of "nat \<bar>i\<bar>"] by (cases "dec_digits (nat \<bar>i\<bar>)") auto
  then have "str_int i = (if i < 0 then 45 # d # ds else d # ds)" by (auto simp: str_int_def)
  then have "scan_once dc (str_int i @ z) = scan_number (dc_float dc) (str_int i @ z)"
    using n(2,3) by (simp add: scan_once.simps startswith_def lit_def)
  then show ?thesis using scan_number_inverse [OF z] by simp
qed

lemma scan_array:
  assumes "scan_items dc (s @ z) = Inr (xs, q)" and "blank w" and "solid s"
  shows "scan_once dc (91 # w @ s @ z) = Inr (JArr xs, q)"
proof -
  have "skip_ws (w @ s @ z) = s @ z" using assms(2,3) by (simp add: skip_blank)
  moreover have "take 1 (s @ z) \<noteq> [93]" using assms(3) by (cases s) (auto simp: solid_def)
  ultimately show ?thesis using assms(1) by (simp add: scan_once.simps [of dc "91 # w @ s @ z"])
qed

lemma scan_object:
  assumes "scan_members dc (s @ z) = Inr (d, q)" and "blank w" and "solid s" and "dc_object dc d = Inr d"
  shows "scan_once dc (123 # w @ s @ z) = Inr (JObj d, q)"
proof -
  have "skip_ws (w @ s @ z) = s @ z" using assms(2,3) by (simp add: skip_blank)
  moreover have "take 1 (s @ z) \<noteq> [125]" using assms(3) by (cases s) (auto simp: solid_def)
  ultimately show ?thesis using assms(1,4)
    by (simp add: scan_once.simps [of dc "123 # w @ s @ z"])
qed

lemma solid_join: "xs \<noteq> [] \<Longrightarrow> (\<And>x. x \<in> set xs \<Longrightarrow> solid (f x)) \<Longrightarrow> solid (join sep (map f xs))"
  by (induction sep "map f xs" arbitrary: xs rule: join.induct) (auto simp: solid_append)

lemma solid_int: "solid (str_int i)"
  using dec_digits_hd [of "nat i"] by (auto simp: str_int_def solid_def)

text \<open>No object of a value repeats a name.\<close>

fun unrepeated :: "json \<Rightarrow> bool" where
  "unrepeated (JArr xs) = list_all unrepeated xs"
| "unrepeated (JObj d) = (distinct (map fst d) \<and> list_all (\<lambda>(k, v). unrepeated v) d)"
| "unrepeated _ = True"

lemma loadable_iff: "loadable v \<longleftrightarrow> unrepeated v \<and> floats v = []"
  by (induction v rule: loadable.induct) (auto simp: list_all_iff)

lemma keep_members: "distinct (map fst acc @ map fst ps) \<Longrightarrow> foldl (\<lambda>d (k, v). dset k v d) acc ps = acc @ ps"
proof (induction ps arbitrary: acc)
  case (Cons p ps)
  then have "dset (fst p) (snd p) acc = acc @ [p]"
    by (induction acc) (auto simp: dset_def)
  with Cons show ?case by (cases p) simp
qed simp

lemma decoder_objects:
  "distinct (map fst d) \<Longrightarrow> dc_object (strict fl) d = Inr d" "distinct (map fst d) \<Longrightarrow> dc_object (plain_json fl) d = Inr d"
  using keep_members [of "[]" d] by (simp_all add: strict_def plain_json_def object_without_duplicates)

text \<open>
  What the writers of JSON text share, and a decoder that reads them. A writer spells the strings \<open>ok\<close> as literals \<open>js\<close> and
  the floats \<open>num\<close> as number literals, puts blanks \<open>w n\<close> in front of the parts of a value at nesting level \<open>n\<close>, \<open>g\<close> behind
  a colon and \<open>w' n\<close> in front of a closing bracket.
\<close>

locale json_writer =
  fixes dc :: decoder and num :: "pyfloat \<Rightarrow> bool" and ok :: "ustr \<Rightarrow> bool" and js :: "ustr \<Rightarrow> ustr" and w w' s :: "nat \<Rightarrow> ustr"
    and g :: ustr and wr :: "nat \<Rightarrow> json \<Rightarrow> ustr"
  assumes objects: "distinct (map fst d) \<Longrightarrow> dc_object dc d = Inr d"
    and numbers: "num f \<Longrightarrow> solid (wr n (JFloat f)) \<and> (ends z \<longrightarrow> scan_once dc (wr n (JFloat f) @ z) = Inr (JFloat f, z))"
    and spelling: "ok t \<Longrightarrow> spells js t"
    and blanks: "blank (w n)" "blank (w' n)" "blank (s n)" "blank g"
    and closing: "ends (w' n @ 93 # z)" "ends (w' n @ 125 # z)"
    and write_null: "wr n JNull = lit ''null''"
    and write_bool: "wr n (JBool b) = lit (if b then ''true'' else ''false'')"
    and write_int: "wr n (JInt i) = str_int i"
    and write_str: "wr n (JStr t) = js t"
    and write_array: "wr n (JArr xs) = (if xs = [] then [91, 93]
      else 91 # w n @ join (44 # s n) (map (wr (Suc n)) xs) @ w' n @ [93])"
    and write_object: "wr n (JObj d) = (if d = [] then [123, 125]
      else 123 # w n @ join (44 # s n) (map (\<lambda>(k, v). js k @ 58 # g @ wr (Suc n) v) d) @ w' n @ [125])"
begin

lemmas write_simps = write_null write_bool write_int write_str write_array write_object

text \<open>The values that survive.\<close>

definition writable :: "json \<Rightarrow> bool" where
  "writable v \<longleftrightarrow> unrepeated v \<and> spelled ok v \<and> list_all num (floats v)"

lemma writable_simps: "writable (JFloat f) \<longleftrightarrow> num f" "writable (JStr t) \<longleftrightarrow> ok t" "writable (JArr xs) \<longleftrightarrow> list_all writable xs"
  "writable (JObj d) \<longleftrightarrow> distinct (map fst d) \<and> list_all (\<lambda>(k, v). ok k \<and> writable v) d"
  by (auto simp: writable_def list_all_iff)

lemma solid_write: "writable v \<Longrightarrow> solid (wr n v)"
  using solid_spells [OF spelling, of _ "[]"]
  by (cases v) (auto simp: write_simps writable_simps numbers solid_int, auto simp: solid_def lit_def)

lemma scan_write: "writable v \<Longrightarrow> ends z \<Longrightarrow> scan_once dc (wr n v @ z) = Inr (v, z)"
proof (induction v arbitrary: n z rule: loadable.induct)
  case (1 f)
  then show ?case using numbers by (simp add: writable_simps)
next
  case (2 xs)
  show ?case
  proof (cases "xs = []")
    case False
    let ?b = "join (44 # s n) (map (wr (Suc n)) xs)"
    have l: "x \<in> set xs \<Longrightarrow> writable x" for x using 2(2) by (simp add: writable_simps list_all_iff)
    have "scan_items dc (?b @ w' n @ 93 # z) = Inr (xs, z)"
      by (rule items_inverse) (use False 2(1) l in \<open>auto simp: solid_write blanks closing\<close>)
    moreover have "solid ?b" using False l by (intro solid_join) (auto simp: solid_write)
    ultimately show ?thesis
      using False scan_array [of dc ?b "w' n @ 93 # z" xs z "w n"] by (simp add: write_simps blanks)
  qed (simp add: scan_scalars write_simps)
next
  case (3 d)
  show ?case
  proof (cases "d = []")
    case False
    let ?b = "join (44 # s n) (map (\<lambda>(k, v). js k @ 58 # g @ wr (Suc n) v) d)"
    have l: "(k, v) \<in> set d \<Longrightarrow> writable v \<and> ok k" for k v using 3(2) by (auto simp: writable_simps list_all_iff)
    have "scan_members dc (?b @ w' n @ 125 # z) = Inr (d, z)"
      by (rule members_inverse) (use False 3(1,3) l in \<open>fastforce simp: solid_write spelling blanks closing\<close>)+
    moreover have "solid ?b" using False l spelling by (intro solid_join) (auto simp: solid_spells)
    moreover have "dc_object dc d = Inr d" using 3(2) objects by (simp add: writable_simps)
    ultimately show ?thesis
      using False scan_object [of dc ?b "w' n @ 125 # z" d z "w n"] by (simp add: write_simps blanks)
  qed (simp add: scan_scalars write_simps)
qed (use scan_string [OF spelling] in \<open>simp_all add: scan_scalars scan_int write_simps writable_simps\<close>)

lemma loads_writable:
  assumes "writable v" and "z = [] \<or> z = [10]"
  shows "loads dc (wr n v @ z) = Inr v"
proof -
  have "solid (wr n v)" using assms(1) by (rule solid_write)
  then have "skip_ws (wr n v @ z) = wr n v @ z" "take 1 (wr n v @ z) \<noteq> [65279]"
    by (simp, cases "wr n v") (auto simp: solid_def)
  moreover have "skip_ws z = []" "ends z" using assms(2) by (auto simp: skip_ws_def ends_def)
  ultimately show ?thesis using scan_write [OF assms(1)] by (simp add: loads_def)
qed

lemma loads_write: "loadable v \<Longrightarrow> spelled ok v \<Longrightarrow> z = [] \<or> z = [10] \<Longrightarrow> loads dc (wr n v @ z) = Inr v"
  by (rule loads_writable) (simp_all add: writable_def loadable_iff)

end

text \<open>The compact and the indented text.\<close>

interpretation compact: json_writer "strict fl" "\<lambda>_. False" "\<lambda>_. True" json_string "\<lambda>_. []" "\<lambda>_. []" "\<lambda>_. []" "[]" "\<lambda>_. render" for fl
  by unfold_locales (simp_all add: spells_json_string decoder_objects)

interpretation indented: json_writer "strict fl" "\<lambda>_. False" "\<lambda>_. True" json_string "\<lambda>n. newline (Suc n)" newline "\<lambda>n. newline (Suc n)"
    "[32]" render_indent for fl
  by unfold_locales (simp_all add: spells_json_string decoder_objects)

section \<open>Files\<close>

lemma loadable_floats: "loadable v \<Longrightarrow> floats v = []"
  by (induction v rule: loadable.induct) (auto simp: list_all_iff)

lemma loadable_sorted: "loadable v \<Longrightarrow> loadable (sorted_members v)"
proof (induction v rule: loadable.induct)
  case (3 d)
  let ?e = "map (\<lambda>(k, v). (k, sorted_members v)) d"
  have "map fst ?e = map fst d" by auto
  then have "map fst (sort_key fst ?e) = sort (map fst d)" by (metis sort_key_map [of "\<lambda>x. x" fst ?e])
  then have "distinct (map fst (sort_key fst ?e))" using 3(2) by simp
  moreover have "\<forall>(k, v) \<in> set ?e. loadable v" using 3 by (fastforce simp: list_all_iff)
  ultimately show ?case by (auto simp: list_all_iff)
qed (auto simp: list_all_iff)

text \<open>The object a file with canonical text holds: the members in the order of their names.\<close>

definition stored :: "jdict \<Rightarrow> jdict" where
  "stored d = dict_of (sorted_members (JObj d))"

text \<open>A canonical file decodes to the object that was written.\<close>

lemma canonical_file:
  assumes "loadable (JObj d)"
  shows "\<exists>t. canonical_json d = Inr t \<and> strict_json_object fl t l = Inr (stored d)"
proof -
  have s: "loadable (sorted_members (JObj d))" using loadable_sorted [OF assms] .
  have "canonical_json d = Inr (render_indent 0 (sorted_members (JObj d)) @ [10])"
    by (simp only: canonical_json_def dumps_indent_def loadable_floats [OF s] list.case bind_Inr)
  moreover have "loads (strict fl) (render_indent 0 (sorted_members (JObj d)) @ [10]) = Inr (JObj (stored d))"
    using indented.loads_write [OF s spelled_all] by (simp add: stored_def)
  ultimately show ?thesis by (simp add: strict_json_object_def strict_json_value_def)
qed

end
