(* ===== verification/Reconciliation.thy ===== *)
theory Reconciliation
  imports Exec_Render Exec_Records
begin

text \<open>
  The pure part of reconciliation: scheduler states and retry policy
  (\<open>runorg/execution_reconcile.py\<close>, \<open>SlurmTaskState\<close>), receipt matching
  (\<open>runorg/execution_backend.py\<close>), recomputed task verdicts (\<open>runorg/execution_evidence.py\<close>) and the
  reconciliation receipt with its strict decoder (\<open>runorg/reconciliation_receipts.py\<close>).
\<close>

section \<open>Scheduler states\<close>

record slurm_task_state =
  sl_array_index :: "int option"
  sl_state :: ustr
  sl_exit_code :: "int option"

text \<open>\<open>str.upper\<close>: ASCII letters here, every other code point by the Unicode table \<open>up\<close>.\<close>

definition upper :: "(nat \<Rightarrow> ustr) \<Rightarrow> ustr \<Rightarrow> ustr" where
  "upper up s = concat (map (\<lambda>c. if 97 \<le> c \<and> c \<le> 122 then [c - 32] else if c < 128 then [c] else up c) s)"

definition rstrip_char :: "nat \<Rightarrow> ustr \<Rightarrow> ustr" where
  "rstrip_char c s = rev (dropWhile (\<lambda>x. x = c) (rev s))"

definition SUCCESS_SLURM_STATES :: "string list" where
  "SUCCESS_SLURM_STATES = [''COMPLETED'']"

definition TERMINAL_SLURM_STATES :: "string list" where
  "TERMINAL_SLURM_STATES =
     [''BOOT_FAIL'', ''CANCELLED'', ''COMPLETED'', ''DEADLINE'', ''FAILED'', ''NODE_FAIL'', ''OUT_OF_MEMORY'',
      ''PREEMPTED'', ''REVOKED'', ''TIMEOUT'']"

definition normalized_state :: "(nat \<Rightarrow> ustr) \<Rightarrow> slurm_task_state \<Rightarrow> ustr res" where
  "normalized_state up s =
     (case split_ws (sl_state s) of [] \<Rightarrow> Inl IndexError | w # _ \<Rightarrow> Inr (upper up (rstrip_char 43 w)))"

definition task_state :: "(nat \<Rightarrow> ustr) \<Rightarrow> planned_task \<Rightarrow> slurm_task_state list \<Rightarrow> slurm_task_state option res" where
  "task_state up t states =
     (case find (\<lambda>s. sl_array_index s = pt_array_index t) states of
        Some s \<Rightarrow> Inr (Some s)
      | None \<Rightarrow>
          let roots = filter (\<lambda>s. sl_array_index s = None) states in
          if pt_array_index t \<noteq> None \<and> roots \<noteq> [] then
            bind (normalized_state up (last roots)) (\<lambda>n.
            if n \<in> lit ` set TERMINAL_SLURM_STATES then
              if n = lit ''COMPLETED''
              then Inr (Some \<lparr>sl_array_index = pt_array_index t, sl_state = lit ''MISSING'', sl_exit_code = None\<rparr>)
              else Inr (Some \<lparr>sl_array_index = pt_array_index t, sl_state = n, sl_exit_code = sl_exit_code (last roots)\<rparr>)
            else Inr None)
          else Inr None)"

definition is_retryable :: "stage_spec \<Rightarrow> ustr \<Rightarrow> int option \<Rightarrow> bool \<Rightarrow> bool" where
  "is_retryable s state exit_code receipts_valid \<longleftrightarrow>
     (state \<in> set (rp_retryable_slurm_states (st_retry_policy s))
      \<or> (case exit_code of None \<Rightarrow> False | Some c \<Rightarrow> c \<in> set (rp_retryable_exit_codes (st_retry_policy s))))
     \<or> (state = lit ''MISSING'' \<and> \<not> receipts_valid \<and> rp_retry_missing_receipts (st_retry_policy s))"

section \<open>Receipts\<close>

definition receipt_matches :: "receipt_spec \<Rightarrow> receipt_observation \<Rightarrow> bool" where
  "receipt_matches spec b \<longleftrightarrow>
     (if \<not> ob_trustworthy b then False
      else if \<not> ob_exists b then \<not> rc_required spec
      else rc_sha256 spec = None \<or> rc_sha256 spec = ob_sha256 b)"

definition all_match :: "receipt_spec list \<Rightarrow> receipt_observation list \<Rightarrow> bool" where
  "all_match specs obs \<longleftrightarrow> list_all (\<lambda>(spec, b). receipt_matches spec b) (zip specs obs)"

definition authenticated_task_verdict :: "(nat \<Rightarrow> ustr) \<Rightarrow> stage_spec \<Rightarrow> planned_task \<Rightarrow> task_attempt_receipt \<Rightarrow> (bool \<times> bool) res" where
  "authenticated_task_verdict up s t r =
     bind (ensure (map ob_path (ta_receipt_observations r) = map rc_path (pt_expected_receipts t))
             (ValueError ''task-attempt receipt observations differ from the signed receipt scope'')) (\<lambda>_.
     let receipts_valid = all_match (pt_expected_receipts t) (ta_receipt_observations r);
         normalized = before_first 43 (upper up (strip (ta_slurm_state r)));
         successful = (normalized \<in> lit ` set SUCCESS_SLURM_STATES \<and> ta_exit_code r = Some 0 \<and> receipts_valid);
         retryable = (\<not> successful \<and> is_retryable s normalized (ta_exit_code r) receipts_valid)
     in bind (ensure (ta_successful r = successful \<and> ta_retryable r = retryable)
               (ValueError ''task-attempt receipt verdict contradicts scheduler, receipts, or signed retry policy'')) (\<lambda>_.
        Inr (successful, retryable)))"

section \<open>ReconciliationReceipt\<close>

record reconciliation_receipt =
  rr_plan_sha256 :: ustr
  rr_stage_id :: ustr
  rr_attempt :: int
  rr_decision :: ustr
  rr_successful :: "ustr list"
  rr_retry :: "ustr list"
  rr_failed :: "ustr list"
  rr_active :: "ustr list"
  rr_schema_version :: int

definition STAGE_RECEIPTS_SENTINEL :: ustr where
  "STAGE_RECEIPTS_SENTINEL = lit ''__stage_receipts__''"

definition RECONCILE_WAIT :: ustr where
  "RECONCILE_WAIT = lit ''WAIT''"

definition RECONCILE_COMPLETE :: ustr where
  "RECONCILE_COMPLETE = lit ''COMPLETED''"

definition RECONCILE_RETRY :: ustr where
  "RECONCILE_RETRY = lit ''RETRY_MISSING_ONLY''"

definition RECONCILE_RETRY_SUBMITTED :: ustr where
  "RECONCILE_RETRY_SUBMITTED = lit ''RETRY_SUBMITTED''"

definition RECONCILE_FAILED :: ustr where
  "RECONCILE_FAILED = lit ''FAILED''"

lemmas reconcile_names = RECONCILE_WAIT_def RECONCILE_COMPLETE_def RECONCILE_RETRY_def RECONCILE_RETRY_SUBMITTED_def
  RECONCILE_FAILED_def

definition strict_identifier_list :: "json \<Rightarrow> string \<Rightarrow> ustr list res" where
  "strict_identifier_list v field_name =
     (let ids = map str_of (list_of v) in
      bind (ensure (is_list v \<and> list_all is_str (list_of v)) (ValueError ''reconciliation field must be an array of strings'')) (\<lambda>_.
      bind (ensure (ids = sort ids \<and> card (set ids) = length ids) (ValueError ''reconciliation field must be sorted and unique'')) (\<lambda>_.
      bind (forR (\<lambda>i. if i = STAGE_RECEIPTS_SENTINEL \<and> field_name = ''failed_task_ids'' then Inr ()
                      else validate_identifier i ''reconciliation field'') ids) (\<lambda>_.
      Inr ids))))"

definition reconciliation_post_init :: "reconciliation_receipt \<Rightarrow> reconciliation_receipt res" where
  "reconciliation_post_init r =
     bind (validate_sha256 (rr_plan_sha256 r) ''reconciliation plan_sha256'') (\<lambda>_.
     bind (validate_identifier (rr_stage_id r) ''reconciliation stage_id'') (\<lambda>_.
     bind (ensure (\<not> rr_attempt r < 1) (ValueError ''reconciliation attempt must be a positive integer'')) (\<lambda>_.
     bind (ensure (rr_decision r \<in> {RECONCILE_COMPLETE, RECONCILE_FAILED, RECONCILE_RETRY})
             (ValueError ''reconciliation decision must be terminal'')) (\<lambda>_.
     bind (ensure (rr_schema_version r = 1) (ValueError ''unsupported reconciliation schema version'')) (\<lambda>_.
     bind (ensure (rr_active r = []) (ValueError ''immutable reconciliation evidence cannot contain active tasks'')) (\<lambda>_.
     let actual = filter (\<lambda>i. i \<noteq> STAGE_RECEIPTS_SENTINEL) (rr_successful r @ rr_retry r @ rr_failed r) in
     bind (ensure (length actual = card (set actual))
             (ValueError ''a task cannot appear in multiple reconciliation categories'')) (\<lambda>_.
     Inr r)))))))"

definition stage_task_ids :: "stage_spec \<Rightarrow> ustr set" where
  "stage_task_ids s = (if st_tasks s \<noteq> [] then tk_task_id ` set (st_tasks s) else {st_stage_id s})"

definition validate_stage_coverage :: "reconciliation_receipt \<Rightarrow> stage_spec \<Rightarrow> unit res" where
  "validate_stage_coverage r s =
     (let expected = stage_task_ids s;
          actual_failed = set (rr_failed r) - {STAGE_RECEIPTS_SENTINEL};
          classified = set (rr_successful r) \<union> set (rr_retry r) \<union> actual_failed
      in bind (ensure (classified = expected)
                (ValueError ''reconciliation receipt does not cover the exact stage task scope'')) (\<lambda>_.
         if rr_decision r = RECONCILE_COMPLETE then
           ensure (\<not> (set (rr_successful r) \<noteq> expected \<or> rr_retry r \<noteq> [] \<or> rr_failed r \<noteq> []))
             (ValueError ''completed reconciliation must classify every task as successful'')
         else if rr_decision r = RECONCILE_RETRY then
           ensure (\<not> (rr_retry r = [] \<or> rr_failed r \<noteq> []))
             (ValueError ''retry reconciliation requires retry tasks and no terminal failures'')
         else if rr_decision r = RECONCILE_FAILED then
           bind (ensure (\<not> (rr_failed r = [] \<or> rr_retry r \<noteq> []))
                   (ValueError ''failed reconciliation requires terminal failure evidence'')) (\<lambda>_.
           ensure (\<not> (STAGE_RECEIPTS_SENTINEL \<in> set (rr_failed r) \<and> set (rr_successful r) \<noteq> expected))
             (ValueError ''stage-receipt failure is valid only after all tasks succeeded''))
         else Inr ()))"

definition reconciliation_from_dict :: "ustr \<Rightarrow> stage_spec \<Rightarrow> int \<Rightarrow> json \<Rightarrow> reconciliation_receipt res" where
  "reconciliation_from_dict h s attempt v =
     bind (ensure (is_dict v) (ValueError ''reconciliation receipt must be a JSON object'')) (\<lambda>_.
     let d = dict_of v in
     bind (ensure (dkeys d = lit ` {''active_task_ids'', ''attempt'', ''decision'', ''failed_task_ids'', ''plan_sha256'',
              ''retry_task_ids'', ''schema_version'', ''stage_id'', ''successful_task_ids''})
             (ValueError ''reconciliation receipt has unsupported or missing fields'')) (\<lambda>_.
     bind (ensure (jget d ''plan_sha256'' = JStr h) (ValueError ''reconciliation receipt plan SHA mismatch'')) (\<lambda>_.
     bind (ensure (jget d ''stage_id'' = JStr (st_stage_id s)) (ValueError ''reconciliation receipt stage mismatch'')) (\<lambda>_.
     bind (ensure (jget d ''attempt'' = JInt attempt) (ValueError ''reconciliation receipt attempt mismatch'')) (\<lambda>_.
     bind (ensure (jget d ''schema_version'' = JInt 1) (ValueError ''unsupported reconciliation schema version'')) (\<lambda>_.
     bind (ensure (is_str (jget d ''decision'')) (ValueError ''reconciliation decision must be text'')) (\<lambda>_.
     bind (strict_identifier_list (jget d ''successful_task_ids'') ''successful_task_ids'') (\<lambda>successful.
     bind (strict_identifier_list (jget d ''retry_task_ids'') ''retry_task_ids'') (\<lambda>retry.
     bind (strict_identifier_list (jget d ''failed_task_ids'') ''failed_task_ids'') (\<lambda>failed.
     bind (strict_identifier_list (jget d ''active_task_ids'') ''active_task_ids'') (\<lambda>active.
     bind (reconciliation_post_init
             \<lparr>rr_plan_sha256 = h, rr_stage_id = st_stage_id s, rr_attempt = attempt,
              rr_decision = str_of (jget d ''decision''), rr_successful = successful, rr_retry = retry, rr_failed = failed,
              rr_active = active, rr_schema_version = 1\<rparr>) (\<lambda>r.
     bind (validate_stage_coverage r s) (\<lambda>_.
     Inr r)))))))))))))"

definition reconciliation_to_dict :: "reconciliation_receipt \<Rightarrow> jdict" where
  "reconciliation_to_dict r =
     [(lit ''active_task_ids'', jstrs (rr_active r)), (lit ''attempt'', JInt (rr_attempt r)),
      (lit ''decision'', JStr (rr_decision r)), (lit ''failed_task_ids'', jstrs (rr_failed r)),
      (lit ''plan_sha256'', JStr (rr_plan_sha256 r)), (lit ''retry_task_ids'', jstrs (rr_retry r)),
      (lit ''schema_version'', JInt (rr_schema_version r)), (lit ''stage_id'', JStr (rr_stage_id r)),
      (lit ''successful_task_ids'', jstrs (rr_successful r))]"

section \<open>The receipt decodes to itself\<close>

definition id_list_ok :: "string \<Rightarrow> ustr list \<Rightarrow> bool" where
  "id_list_ok field_name ids \<longleftrightarrow> sorted ids \<and> distinct ids
     \<and> (\<forall>i \<in> set ids. ident_ok i \<or> i = STAGE_RECEIPTS_SENTINEL \<and> field_name = ''failed_task_ids'')"

lemma strict_identifier_list_iff:
  "strict_identifier_list v f = Inr ids \<longleftrightarrow> v = jstrs ids \<and> id_list_ok f ids"
proof -
  have v: "is_list v \<and> list_all is_str (list_of v) \<and> ids = map str_of (list_of v) \<longleftrightarrow> v = jstrs ids"
  proof (cases v)
    case (JArr xs)
    have "list_all is_str xs \<and> ids = map str_of xs \<longleftrightarrow> xs = map JStr ids"
    proof (induction xs arbitrary: ids)
      case (Cons x xs)
      then show ?case by (cases x; cases ids) auto
    qed auto
    with JArr show ?thesis by (simp add: jstrs_def)
  qed (simp_all add: jstrs_def)
  have "ids = sort ids \<longleftrightarrow> sorted ids" by (metis sorted_sort sorted_sort_id)
  moreover have "card (set ids) = length ids \<longleftrightarrow> distinct ids" by (metis card_distinct distinct_card)
  moreover have "strict_identifier_list v f = Inr ids \<longleftrightarrow> is_list v \<and> list_all is_str (list_of v)
      \<and> ids = map str_of (list_of v) \<and> ids = sort ids \<and> card (set ids) = length ids
      \<and> (\<forall>i \<in> set ids. ident_ok i \<or> i = STAGE_RECEIPTS_SENTINEL \<and> f = ''failed_task_ids'')"
    unfolding strict_identifier_list_def Let_def bind_eq_Inr ensure_eq_Inr forR_eq_Inr sum.inject
    by (auto split: if_splits simp del: set_map)
  ultimately show ?thesis using v by (auto simp: id_list_ok_def)
qed

definition reconciliation_ok :: "reconciliation_receipt \<Rightarrow> bool" where
  "reconciliation_ok r \<longleftrightarrow>
     SHA256_RE (rr_plan_sha256 r) \<and> ident_ok (rr_stage_id r) \<and> 1 \<le> rr_attempt r
     \<and> rr_decision r \<in> {RECONCILE_COMPLETE, RECONCILE_FAILED, RECONCILE_RETRY} \<and> rr_schema_version r = 1 \<and> rr_active r = []
     \<and> distinct (filter (\<lambda>i. i \<noteq> STAGE_RECEIPTS_SENTINEL) (rr_successful r @ rr_retry r @ rr_failed r))"

lemma reconciliation_post_init_iff [simp]:
  "reconciliation_post_init r = Inr r' \<longleftrightarrow> r' = r \<and> reconciliation_ok r"
proof -
  have d: "length xs = card (set xs) \<longleftrightarrow> distinct xs" for xs :: "ustr list" by (metis card_distinct distinct_card)
  show ?thesis
    unfolding reconciliation_post_init_def reconciliation_ok_def Let_def bind_eq_Inr sum.inject ensure_eq_Inr d
      validate_eq_Inr not_less by blast
qed

text \<open>What the decoder checks beyond the constructor.\<close>

definition reconciliation_sound :: "ustr \<Rightarrow> stage_spec \<Rightarrow> int \<Rightarrow> reconciliation_receipt \<Rightarrow> bool" where
  "reconciliation_sound h s n r \<longleftrightarrow>
     rr_plan_sha256 r = h \<and> rr_stage_id r = st_stage_id s \<and> rr_attempt r = n
     \<and> id_list_ok ''successful_task_ids'' (rr_successful r) \<and> id_list_ok ''retry_task_ids'' (rr_retry r)
     \<and> id_list_ok ''failed_task_ids'' (rr_failed r) \<and> validate_stage_coverage r s = Inr ()"

interpretation reconciliation: wire_value reconciliation_post_init "reconciliation_sound h s n" reconciliation_to_dict
  "reconciliation_from_dict h s n" for h s n
proof
  show "reconciliation_post_init x = Inr y \<Longrightarrow> reconciliation_post_init y = Inr y" for x y by simp
  show "reconciliation_from_dict h s n v = Inr x \<Longrightarrow> reconciliation_sound h s n x \<and> (\<exists>y. reconciliation_post_init y = Inr x)" for v x
    unfolding reconciliation_from_dict_def Let_def bind_eq_Inr ensure_eq_Inr strict_identifier_list_iff sum.inject
      reconciliation_post_init_iff reconciliation_sound_def
    by fastforce
  show "reconciliation_from_dict h s n (JObj (reconciliation_to_dict x)) = Inr x"
    if ok: "reconciliation_post_init x = Inr x" and snd: "reconciliation_sound h s n x" for x
  proof -
    have lists: "strict_identifier_list (jstrs (rr_successful x)) ''successful_task_ids'' = Inr (rr_successful x)"
      "strict_identifier_list (jstrs (rr_retry x)) ''retry_task_ids'' = Inr (rr_retry x)"
      "strict_identifier_list (jstrs (rr_failed x)) ''failed_task_ids'' = Inr (rr_failed x)"
      "strict_identifier_list (jstrs (rr_active x)) ''active_task_ids'' = Inr (rr_active x)"
      "rr_schema_version x = 1"
      using snd ok by (simp_all add: strict_identifier_list_iff reconciliation_sound_def reconciliation_ok_def id_list_ok_def)
    then have x: "\<lparr>rr_plan_sha256 = h, rr_stage_id = st_stage_id s, rr_attempt = n, rr_decision = rr_decision x,
      rr_successful = rr_successful x, rr_retry = rr_retry x, rr_failed = rr_failed x, rr_active = rr_active x, rr_schema_version = 1\<rparr> = x"
      using snd by (cases x) (simp add: reconciliation_sound_def)
    show ?thesis using ok snd
      by (simp add: reconciliation_from_dict_def reconciliation_to_dict_def lists x) (simp add: reconciliation_sound_def insert_commute)
  qed
qed

end
