(* ===== verification/Exec_Files.thy ===== *)
theory Exec_Files
  imports Json_Parse Reconciliation
begin

text \<open>
  The durable records as files: each record class writes \<open>canonical_json(record.to_dict())\<close>, and its
  reader decodes the text strictly and rebuilds the record. One locale holds the contract of such a
  class; it is interpreted for submission, rejection, task-attempt and reconciliation records.
\<close>

section \<open>Objects in files\<close>

lemma stored_keys [simp]: "dkeys (stored d) = dkeys d"
  by (force simp: stored_def dkeys_def image_image)

lemma stored_get:
  assumes "dict_ok d" shows "jget (stored d) k = sorted_members (jget d k)"
proof -
  let ?f = "\<lambda>(k, v). (k, sorted_members v)"
  have f: "map fst (map ?f d) = map fst d" by auto
  have "distinct (map fst (sort_key fst (map ?f d)))"
    using assms f sort_key_map [of "\<lambda>x. x" fst "map ?f d"] by (metis dict_ok_def distinct_sort)
  then have "map_of (sort_key fst (map ?f d)) = map_of (map ?f d)"
    using map_of_inject_set [of "sort_key fst (map ?f d)" "map ?f d"] assms f by (simp add: dict_ok_def)
  moreover have "map_of (map ?f d) x = map_option sorted_members (map_of d x)" for x by (induction d) auto
  ultimately show ?thesis by (auto simp: stored_def jget_def dget_def split: option.splits)
qed

lemma sorted_members_simps [simp]:
  "sorted_members (jstrs xs) = jstrs xs" "sorted_members (JArr (map JInt ns)) = JArr (map JInt ns)"
  "sorted_members (opt_json s) = opt_json s" "sorted_members (int_json n) = int_json n"
  by (simp_all add: jstrs_def comp_def opt_json_def int_json_def split: option.splits)

lemma loadable_simps [simp]:
  "loadable (jstrs xs)" "list_all loadable (map JInt ns)" "loadable (opt_json s)" "loadable (int_json n)"
  by (simp_all add: jstrs_def comp_def list_all_iff opt_json_def int_json_def split: option.splits)

section \<open>Record classes with files\<close>

locale file_record = wire_value post_init sound to_dict from_dict
  for post_init :: "'a \<Rightarrow> 'a res" and sound :: "'a \<Rightarrow> bool" and to_dict :: "'a \<Rightarrow> jdict" and from_dict :: "json \<Rightarrow> 'a res" +
  assumes storable: "loadable (JObj (to_dict x))"
    and order_free: "from_dict (JObj (stored (to_dict x))) = from_dict (JObj (to_dict x))"
begin

text \<open>The file a record is written to reads back as the record.\<close>

lemma file_roundtrip:
  assumes "canonical x"
  shows "\<exists>t. canonical_json (to_dict x) = Inr t \<and> bind (strict_json_object fl t l) (\<lambda>d. from_dict (JObj d)) = Inr x"
  using canonical_file [OF storable [of x], of fl l] roundtrip [OF assms] order_free [of x] by auto

lemma file_inj: "canonical x \<Longrightarrow> canonical y \<Longrightarrow> canonical_json (to_dict x) = canonical_json (to_dict y) \<Longrightarrow> x = y"
  using file_roundtrip [of x] file_roundtrip [of y] by (metis sum.inject(2))

end

interpretation submission_file: file_record record_post_init "\<lambda>r. identity_ok (sb_identity r)" record_to_dict record_from_dict
proof
  show "loadable (JObj (record_to_dict x))" for x by (simp add: record_to_dict_def comp_def)
  have ok: "dict_ok (record_to_dict x)" for x by (simp add: record_to_dict_def dict_ok_def)
  show "record_from_dict (JObj (stored (record_to_dict x))) = record_from_dict (JObj (record_to_dict x))" for x
    by (simp add: record_from_dict_def identity_from_def exact_object_def stored_get [OF ok])
      (simp add: record_to_dict_def comp_def)
qed

interpretation rejection_file: file_record rejection_post_init "\<lambda>r. identity_ok (rj_identity r)" rejection_to_dict rejection_from_dict
proof
  show "loadable (JObj (rejection_to_dict x))" for x by (simp add: rejection_to_dict_def comp_def)
  have ok: "dict_ok (rejection_to_dict x)" for x by (simp add: rejection_to_dict_def dict_ok_def)
  show "rejection_from_dict (JObj (stored (rejection_to_dict x))) = rejection_from_dict (JObj (rejection_to_dict x))" for x
    by (simp add: rejection_from_dict_def identity_from_def exact_object_def stored_get [OF ok])
      (simp add: rejection_to_dict_def comp_def)
qed

lemma observation_sorted [simp]: "sorted_members (JObj (observation_to_dict b)) = JObj (observation_to_dict b)"
  by (simp add: observation_to_dict_def) (simp add: lit_def)

interpretation attempt_file: file_record attempt_post_init attempt_sound attempt_to_dict attempt_from_dict
proof
  show "loadable (JObj (attempt_to_dict x))" for x
    by (simp add: attempt_to_dict_def list_all_iff observation_to_dict_def)
  have ok: "dict_ok (attempt_to_dict x)" for x by (simp add: attempt_to_dict_def dict_ok_def)
  show "attempt_from_dict (JObj (stored (attempt_to_dict x))) = attempt_from_dict (JObj (attempt_to_dict x))" for x
    by (simp add: attempt_from_dict_def identity_from_def exact_object_def stored_get [OF ok])
      (simp add: attempt_to_dict_def comp_def del: sorted_members.simps(2))
qed

interpretation reconciliation_file: file_record reconciliation_post_init "reconciliation_sound h s n" reconciliation_to_dict
  "reconciliation_from_dict h s n" for h s n
proof
  show "loadable (JObj (reconciliation_to_dict x))" for x by (simp add: reconciliation_to_dict_def)
  have ok: "dict_ok (reconciliation_to_dict x)" for x by (simp add: reconciliation_to_dict_def dict_ok_def)
  show "reconciliation_from_dict h s n (JObj (stored (reconciliation_to_dict x)))
      = reconciliation_from_dict h s n (JObj (reconciliation_to_dict x))" for x
    by (simp add: reconciliation_from_dict_def stored_get [OF ok]) (simp add: reconciliation_to_dict_def)
qed

end
