(* ===== verification/Exec_Evidence.thy ===== *)
theory Exec_Evidence
  imports Exec_Files Exec_Paths
begin

text \<open>
  \<open>runorg/execution_evidence.py\<close>: the strict readers of the engine's evidence files. The store is a map
  from paths to texts. The readers call each other: the records of a stage rest on the receipts of
  its earlier attempts and on the records of its dependencies. The knot is
  \<open>read_plan_submission_records\<close>; the other readers take it as an argument \<open>recs\<close>. \<open>h\<close> is the digest
  \<open>plan.plan_sha256\<close>.
\<close>

section \<open>Standard library and store\<close>

text \<open>SHA-256 in hexadecimal, the conversion of float literals and the Unicode upper-case table.\<close>

record library =
  lb_sha :: "nat list \<Rightarrow> ustr"
  lb_float :: "ustr \<Rightarrow> pyfloat"
  lb_upper :: "nat \<Rightarrow> ustr"

type_synonym files = "ustr \<Rightarrow> ustr option"
type_synonym record_reader = "stage_spec \<Rightarrow> int option \<Rightarrow> submission_record list res"

text \<open>\<open>except (KeyError, TypeError, ValueError) as exc: raise ValueError(...) from exc\<close>.\<close>

definition rewrap :: "string \<Rightarrow> 'a res \<Rightarrow> 'a res" where
  "rewrap msg m =
     (case m of
        Inl e \<Rightarrow> (case e of ValueError _ \<Rightarrow> Inl (ValueError msg) | TypeError _ \<Rightarrow> Inl (ValueError msg)
                  | KeyError _ \<Rightarrow> Inl (ValueError msg) | _ \<Rightarrow> Inl e)
      | Inr x \<Rightarrow> Inr x)"

definition concatR :: "'a list list res \<Rightarrow> 'a list res" where
  "concatR m = bind m (\<lambda>xss. Inr (concat xss))"

definition make_identity :: "ustr \<Rightarrow> stage_spec \<Rightarrow> int \<Rightarrow> submission_identity res" where
  "make_identity h s n = identity_post_init \<lparr>si_plan_sha256 = h, si_stage_id = st_stage_id s, si_attempt = n\<rparr>"

section \<open>Single files\<close>

definition read_strict_json :: "library \<Rightarrow> files \<Rightarrow> ustr \<Rightarrow> string \<Rightarrow> jdict res" where
  "read_strict_json lb fs path label =
     (case fs path of
        None \<Rightarrow> Inl (ValueError (label @ '' is missing''))
      | Some t \<Rightarrow>
          if t = [] then Inl (ValueError (label @ '' is missing''))
          else rewrap (label @ '' is malformed'') (strict_json_object (lb_float lb) t label))"

definition expect :: "'a option \<Rightarrow> 'a \<Rightarrow> string \<Rightarrow> unit res" where
  "expect e x label =
     ensure (e = None \<or> e = Some x) (ValueError (''submission record '' @ label @ '' do not match its authorized path contract''))"

definition read_submission_record :: "library \<Rightarrow> files \<Rightarrow> ustr \<Rightarrow> submission_identity option \<Rightarrow> ustr list option
    \<Rightarrow> int list option \<Rightarrow> ustr option \<Rightarrow> ustr list option \<Rightarrow> submission_record option res" where
  "read_submission_record lb fs path i ids indices mode deps =
     (case fs path of
        None \<Rightarrow> Inr None
      | Some t \<Rightarrow>
          rewrap ''invalid immutable submission record''
            (bind (strict_json_object (lb_float lb) t ''submission record'') (\<lambda>v.
             bind (record_from_dict (JObj v)) (\<lambda>r.
             bind (expect i (sb_identity r) ''identity'') (\<lambda>_.
             bind (expect ids (sb_task_ids r) ''task IDs'') (\<lambda>_.
             bind (expect indices (sb_task_indices r) ''task indices'') (\<lambda>_.
             bind (expect mode (sb_dependency_mode r) ''dependency mode'') (\<lambda>_.
             bind (expect deps (sb_dependency_job_ids r) ''dependency job IDs'') (\<lambda>_.
             Inr (Some r))))))))))"

definition read_submission_rejection :: "library \<Rightarrow> files \<Rightarrow> ustr \<Rightarrow> rejection_record option res" where
  "read_submission_rejection lb fs path =
     (case fs path of
        None \<Rightarrow> Inr None
      | Some t \<Rightarrow>
          rewrap ''invalid immutable submission rejection''
            (bind (strict_json_object (lb_float lb) t ''submission rejection'') (\<lambda>v.
             bind (rejection_from_dict (JObj v)) (\<lambda>r. Inr (Some r)))))"

definition CLAIM_ID_RE :: "ustr \<Rightarrow> bool" where
  "CLAIM_ID_RE c \<longleftrightarrow> length c = 129 \<and> SHA256_RE (take 64 c) \<and> c ! 64 = 45 \<and> SHA256_RE (drop 65 c)"

definition claim_name :: "ustr \<Rightarrow> ustr res" where
  "claim_name c =
     bind (ensure (CLAIM_ID_RE c) (ValueError ''lifecycle claim ID is invalid'')) (\<lambda>_.
     Inr (lit ''claim-'' @ c @ lit ''.json''))"

definition submit_operation :: "submission_identity \<Rightarrow> ustr" where
  "submit_operation i = lit ''submit:'' @ si_plan_sha256 i @ lit '':'' @ si_stage_id i @ lit '':'' @ str_int (si_attempt i)"

definition read_submission_invocation_claim_id :: "library \<Rightarrow> files \<Rightarrow> execution_plan \<Rightarrow> submission_identity \<Rightarrow> ustr option res" where
  "read_submission_invocation_claim_id lb fs p i =
     (case fs (submission_invocation_path p i) of
        None \<Rightarrow> Inr None
      | Some t \<Rightarrow>
          bind (strict_json_object (lb_float lb) t ''submission invocation'') (\<lambda>d.
          bind (ensure (dkeys d = lit ` {''attempt'', ''comment'', ''intent_sha256'', ''lifecycle_claim_id'', ''plan_sha256'',
                   ''schema_version'', ''stage_id''}) (ValueError ''submission invocation has unsupported fields'')) (\<lambda>_.
          let claim_id = jget d ''lifecycle_claim_id''; bad = ValueError ''submission invocation is malformed or foreign'' in
          bind (ensure (jget d ''schema_version'' = JInt 1 \<and> jget d ''attempt'' = JInt (si_attempt i)
                  \<and> jget d ''comment'' = JStr (comment i) \<and> jget d ''plan_sha256'' = JStr (si_plan_sha256 i)
                  \<and> jget d ''stage_id'' = JStr (si_stage_id i)
                  \<and> is_str (jget d ''intent_sha256'') \<and> SHA256_RE (str_of (jget d ''intent_sha256''))) bad) (\<lambda>_.
          case fs (submission_intent_path p i) of
            None \<Rightarrow> Inl bad
          | Some intent \<Rightarrow>
              bind (encode_utf8 intent) (\<lambda>b.
              bind (ensure (str_of (jget d ''intent_sha256'') = lb_sha lb b \<and> is_str claim_id) bad) (\<lambda>_.
              if str_of claim_id \<noteq> [] then
                bind (claim_name (str_of claim_id)) (\<lambda>_.
                bind (encode_utf8 (submit_operation i)) (\<lambda>o'.
                bind (ensure (startswith (str_of claim_id) (lb_sha lb o' @ [45]))
                        (ValueError ''submission invocation claim belongs to another operation'')) (\<lambda>_.
                Inr (Some (str_of claim_id)))))
              else Inr (Some (str_of claim_id))))))))"

text \<open>Equality of a decoded value with a Python integer: \<open>True == 1\<close> and \<open>1.0 == 1\<close> hold.\<close>

definition equals_int :: "json \<Rightarrow> int \<Rightarrow> bool" where
  "equals_int v n \<longleftrightarrow> num_of v = Some (of_int n)"

definition intent_contract :: "library \<Rightarrow> files \<Rightarrow> ustr \<Rightarrow> execution_plan \<Rightarrow> stage_spec \<Rightarrow> int
    \<Rightarrow> (ustr list \<times> ustr list) option res" where
  "intent_contract lb fs h p s n =
     bind (make_identity h s n) (\<lambda>i.
     case fs (submission_intent_path p i) of
       None \<Rightarrow> Inr None
     | Some _ \<Rightarrow>
         bind (read_strict_json lb fs (submission_intent_path p i) ''submission intent'') (\<lambda>d.
         let ids = jget d ''task_ids''; deps = jget d ''dependency_job_ids'' in
         bind (ensure (equals_int (jget d ''schema_version'') 1 \<and> jget d ''plan_sha256'' = JStr h
                 \<and> jget d ''stage_id'' = JStr (st_stage_id s) \<and> equals_int (jget d ''attempt'') n
                 \<and> is_list ids \<and> list_all is_str (list_of ids) \<and> is_list deps \<and> list_all is_str (list_of deps))
                 (ValueError ''submission intent is malformed or foreign'')) (\<lambda>_.
         Inr (Some (map str_of (list_of ids), map str_of (list_of deps))))))"

definition followup_exists :: "files \<Rightarrow> execution_plan \<Rightarrow> stage_spec \<Rightarrow> int \<Rightarrow> bool" where
  "followup_exists fs p s n \<longleftrightarrow> fs (reconciler_followup_path p (st_stage_id s) n) \<noteq> None"

section \<open>Readers that rest on submission records\<close>

definition authenticate_followup_authorization :: "library \<Rightarrow> files \<Rightarrow> record_reader \<Rightarrow> ustr \<Rightarrow> execution_plan \<Rightarrow> stage_spec \<Rightarrow> int
    \<Rightarrow> ustr list option \<Rightarrow> ustr list res" where
  "authenticate_followup_authorization lb fs recs h p s n expected =
     bind (read_strict_json lb fs (reconciler_followup_path p (st_stage_id s) n) ''reconciler follow-up authorization'') (\<lambda>d.
     bind (ensure (dkeys d = lit ` {''attempt'', ''dependency_job_ids'', ''plan_sha256'', ''schema_version'', ''stage_id'',
              ''trigger_job_id'', ''trigger_stage_id''})
             (ValueError ''reconciler follow-up authorization has unsupported fields'')) (\<lambda>_.
     let deps = list_of (jget d ''dependency_job_ids''); ids = map str_of deps;
         trigger_stage = jget d ''trigger_stage_id''; trigger_job = jget d ''trigger_job_id'' in
     bind (ensure (jget d ''schema_version'' = JInt 1 \<and> jget d ''plan_sha256'' = JStr h
             \<and> jget d ''stage_id'' = JStr (st_stage_id s) \<and> jget d ''attempt'' = JInt n
             \<and> is_list (jget d ''dependency_job_ids'') \<and> list_all (\<lambda>v. is_str v \<and> isdigit (str_of v)) deps
             \<and> length ids = length (st_depends_on s) \<and> card (set ids) = length ids)
             (ValueError ''reconciler follow-up authorization is malformed or foreign'')) (\<lambda>_.
     bind (ensure (expected = None \<or> expected = Some ids)
             (ValueError ''follow-up dependencies differ from the currently authorized signed DAG jobs'')) (\<lambda>_.
     bind (ensure (is_str trigger_stage \<and> str_of trigger_stage \<in> set (st_depends_on s))
             (ValueError ''follow-up trigger stage is not a signed dependency'')) (\<lambda>_.
     bind (ensure (is_str trigger_job \<and> isdigit (str_of trigger_job)) (ValueError ''follow-up trigger job is invalid'')) (\<lambda>_.
     bind (forR (\<lambda>(dependency, job).
             bind (stage_at (by_id (pl_stages p)) dependency) (\<lambda>ds.
             bind (recs ds None) (\<lambda>records.
             let matches = filter (\<lambda>r. sb_job_id r = job) records in
             bind (ensure (length matches = 1) (ValueError ''follow-up dependency job is not authenticated for stage'')) (\<lambda>_.
             ensure (\<not> (dependency = str_of trigger_stage
                 \<and> (job \<noteq> str_of trigger_job \<or> si_attempt (sb_identity (hd matches)) \<le> 1)))
               (ValueError ''follow-up trigger must be the authenticated retry job for its dependency'')))))
             (zip (st_depends_on s) ids)) (\<lambda>_.
     Inr ids)))))))"

definition validate_record_dependencies :: "record_reader \<Rightarrow> execution_plan \<Rightarrow> stage_spec \<Rightarrow> submission_record
    \<Rightarrow> ustr list option \<Rightarrow> unit res" where
  "validate_record_dependencies recs p s r followup =
     bind (ensure (length (sb_dependency_job_ids r) = length (st_depends_on s))
             (ValueError ''submission record dependency cardinality differs from the signed DAG'')) (\<lambda>_.
     bind (forR (\<lambda>(dependency, job).
             bind (stage_at (by_id (pl_stages p)) dependency) (\<lambda>ds.
             bind (recs ds None) (\<lambda>records.
             ensure (job \<in> sb_job_id ` set records)
               (ValueError ''submission dependency job is not authenticated evidence for stage''))))
             (zip (st_depends_on s) (sb_dependency_job_ids r))) (\<lambda>_.
     bind (ensure (followup = None \<or> followup = Some (sb_dependency_job_ids r))
             (ValueError ''submission record differs from its exact follow-up dependency authorization'')) (\<lambda>_.
     ensure (\<not> (st_depends_on s \<noteq> [] \<and> sb_dependency_job_ids r = []))
       (ValueError ''dependent submission record cannot omit authorized dependencies''))))"

text \<open>The authenticated verdicts of one task, in the order of the attempts.\<close>

definition attempt_evidence :: "library \<Rightarrow> files \<Rightarrow> execution_plan \<Rightarrow> stage_spec \<Rightarrow> planned_task \<Rightarrow> submission_record
    \<Rightarrow> (task_attempt_receipt \<times> bool \<times> bool) list res" where
  "attempt_evidence lb fs p s t r =
     (if pt_task_id t \<notin> set (sb_task_ids r) then Inr []
      else (case fs (task_attempt_path p (sb_identity r) (pt_task_id t)) of
          None \<Rightarrow> Inr []
        | Some text \<Rightarrow>
            bind (rewrap ''invalid task-attempt evidence''
                    (bind (strict_json_object (lb_float lb) text ''task-attempt evidence'') (\<lambda>v. attempt_from_dict (JObj v)))) (\<lambda>item.
            bind (ensure (ta_identity item = sb_identity r \<and> ta_task_id item = pt_task_id t
                    \<and> ta_array_index item = pt_array_index t \<and> ta_job_id item = sb_job_id r)
                    (ValueError ''task-attempt evidence identity mismatch'')) (\<lambda>_.
            bind (rewrap ''task-attempt evidence verdict mismatch'' (authenticated_task_verdict (lb_upper lb) s t item)) (\<lambda>verdict.
            Inr [(item, verdict)])))))"

datatype category = Success | Retry | Failed

definition check_category :: "library \<Rightarrow> files \<Rightarrow> execution_plan \<Rightarrow> stage_spec \<Rightarrow> submission_record list
    \<Rightarrow> (ustr, planned_task) dict \<Rightarrow> ustr \<times> category \<Rightarrow> (ustr \<times> bool \<times> bool) res" where
  "check_category lb fs p s records tasks c =
     (case c of (task_id, cat) \<Rightarrow>
        bind (task_at tasks task_id) (\<lambda>t.
        bind (concatR (mapR (attempt_evidence lb fs p s t) records)) (\<lambda>evidence.
        bind (ensure (evidence \<noteq> []) (ValueError ''reconciliation task has no immutable attempt evidence'')) (\<lambda>_.
        let latest = fst (last evidence) in
        bind (case cat of
            Success \<Rightarrow> ensure (list_ex (\<lambda>(item, _). ta_successful item) evidence)
              (ValueError ''reconciliation success lacks successful evidence'')
          | Retry \<Rightarrow> ensure (\<not> (ta_successful latest \<or> \<not> ta_retryable latest))
              (ValueError ''reconciliation retry lacks retryable evidence'')
          | Failed \<Rightarrow> ensure (\<not> ta_successful latest) (ValueError ''reconciliation failure lacks terminal evidence'')) (\<lambda>_.
        Inr (task_id, snd (last evidence)))))))"

definition receipt_categories :: "reconciliation_receipt \<Rightarrow> (ustr \<times> category) list" where
  "receipt_categories r =
     map (\<lambda>i. (i, Success)) (rr_successful r) @ map (\<lambda>i. (i, Retry)) (rr_retry r)
     @ map (\<lambda>i. (i, Failed)) (filter (\<lambda>i. i \<noteq> STAGE_RECEIPTS_SENTINEL) (rr_failed r))"

definition validate_task_evidence :: "library \<Rightarrow> files \<Rightarrow> record_reader \<Rightarrow> execution_plan \<Rightarrow> stage_spec
    \<Rightarrow> reconciliation_receipt \<Rightarrow> unit res" where
  "validate_task_evidence lb fs recs p s r =
     bind (select_tasks s None) (\<lambda>ts.
     bind (recs s (Some (rr_attempt r))) (\<lambda>records.
     bind (mapR (check_category lb fs p s records (map (\<lambda>t. (pt_task_id t, t)) ts)) (receipt_categories r)) (\<lambda>verdicts.
     if rr_decision r = RECONCILE_FAILED then
       let failed_tasks = set (rr_failed r) - {STAGE_RECEIPTS_SENTINEL};
           retryable_failures = {i \<in> failed_tasks. map_of verdicts i = Some (False, True)};
           terminal_failures = {i \<in> failed_tasks. map_of verdicts i = Some (False, False)} in
       if retryable_failures \<noteq> {} \<and> terminal_failures = {} then
         bind (attempt_bound p s) (\<lambda>bound.
         ensure (\<not> rr_attempt r < bound)
           (ValueError ''reconciliation failure contains retryable tasks before the signed attempt bound''))
       else Inr ()
     else Inr ())))"

definition read_reconciliation_receipt :: "library \<Rightarrow> files \<Rightarrow> record_reader \<Rightarrow> ustr \<Rightarrow> execution_plan \<Rightarrow> stage_spec \<Rightarrow> int
    \<Rightarrow> reconciliation_receipt option res" where
  "read_reconciliation_receipt lb fs recs h p s n =
     (case fs (reconciliation_path p (st_stage_id s) n) of
        None \<Rightarrow> Inr None
      | Some t \<Rightarrow>
          bind (rewrap ''invalid immutable reconciliation receipt''
                  (bind (strict_json_object (lb_float lb) t ''reconciliation receipt'') (\<lambda>v.
                   reconciliation_from_dict h s n (JObj v)))) (\<lambda>r.
          bind (validate_task_evidence lb fs recs p s r) (\<lambda>_.
          Inr (Some r))))"

definition rejected_task_ids :: "library \<Rightarrow> files \<Rightarrow> ustr \<Rightarrow> execution_plan \<Rightarrow> stage_spec \<Rightarrow> int \<Rightarrow> ustr list option res" where
  "rejected_task_ids lb fs h p s n =
     bind (make_identity h s n) (\<lambda>i.
     bind (read_submission_rejection lb fs (submission_rejection_path p i)) (\<lambda>rejection.
     case rejection of
       None \<Rightarrow> Inr None
     | Some r \<Rightarrow> Inr (if rj_identity r \<noteq> i then None else Some (rj_task_ids r))))"

definition ordinary_retry_task_ids :: "library \<Rightarrow> files \<Rightarrow> record_reader \<Rightarrow> ustr \<Rightarrow> execution_plan \<Rightarrow> stage_spec \<Rightarrow> int
    \<Rightarrow> ustr list option res" where
  "ordinary_retry_task_ids lb fs recs h p s n =
     bind (read_reconciliation_receipt lb fs recs h p s (n - 1)) (\<lambda>previous.
     case previous of
       Some r \<Rightarrow>
         (if rr_decision r = RECONCILE_RETRY then Inr (Some (rr_retry r)) else rejected_task_ids lb fs h p s (n - 1))
     | None \<Rightarrow> rejected_task_ids lb fs h p s (n - 1))"

definition committed_attempt_contract :: "library \<Rightarrow> files \<Rightarrow> record_reader \<Rightarrow> ustr \<Rightarrow> execution_plan \<Rightarrow> stage_spec \<Rightarrow> int
    \<Rightarrow> (ustr list \<times> ustr list option) res" where
  "committed_attempt_contract lb fs recs h p s n =
     bind (select_tasks s None) (\<lambda>ts.
     let all_task_ids = map pt_task_id ts in
     bind (if n > 1 \<and> st_depends_on s \<noteq> [] \<and> followup_exists fs p s n then
             bind (authenticate_followup_authorization lb fs recs h p s n None) (\<lambda>deps.
             bind (ensure (length deps = length (st_depends_on s))
                     (ValueError ''follow-up dependency cardinality differs from the signed DAG'')) (\<lambda>_.
             Inr (Some deps)))
           else Inr None) (\<lambda>followup.
     bind (if n = 1 then Inr (Some all_task_ids) else ordinary_retry_task_ids lb fs recs h p s n) (\<lambda>ordinary.
     bind (ensure (\<not> (followup = None \<and> ordinary = None))
             (ValueError ''submission record lacks its signed retry authorization'')) (\<lambda>_.
     bind (intent_contract lb fs h p s n) (\<lambda>intent.
     case intent of
       None \<Rightarrow>
         (case followup of
            Some deps \<Rightarrow> Inr (all_task_ids, Some deps)
          | None \<Rightarrow> (case ordinary of None \<Rightarrow> Inl AssertionError | Some ids \<Rightarrow> Inr (ids, None)))
     | Some (intent_ids, intent_deps) \<Rightarrow>
         if followup \<noteq> None \<and> intent_ids = all_task_ids \<and> Some intent_deps = followup then Inr (all_task_ids, followup)
         else if ordinary = Some intent_ids then Inr (intent_ids, None)
         else Inl (ValueError ''submission intent matches no authorization signed for this attempt''))))))"

definition followup_owns_attempt :: "library \<Rightarrow> files \<Rightarrow> record_reader \<Rightarrow> ustr \<Rightarrow> execution_plan \<Rightarrow> stage_spec \<Rightarrow> int \<Rightarrow> bool res" where
  "followup_owns_attempt lb fs recs h p s n =
     bind (intent_contract lb fs h p s n) (\<lambda>intent.
     if intent = None then Inr True
     else bind (committed_attempt_contract lb fs recs h p s n) (\<lambda>c. Inr (snd c \<noteq> None)))"

text \<open>The record of one attempt, if its file exists.\<close>

definition read_attempt_record :: "library \<Rightarrow> files \<Rightarrow> record_reader \<Rightarrow> ustr \<Rightarrow> execution_plan \<Rightarrow> stage_spec \<Rightarrow> int
    \<Rightarrow> submission_record list res" where
  "read_attempt_record lb fs recs h p s n =
     bind (make_identity h s n) (\<lambda>i.
     if fs (submission_record_path p i) = None then Inr []
     else
       bind (committed_attempt_contract lb fs recs h p s n) (\<lambda>(task_ids, followup).
       bind (select_tasks s (Some task_ids)) (\<lambda>ts.
       bind (read_submission_record lb fs (submission_record_path p i) (Some i) (Some (map pt_task_id ts))
               (Some (concat (map (\<lambda>t. case pt_array_index t of None \<Rightarrow> [] | Some k \<Rightarrow> [k]) ts)))
               (Some (st_dependency_mode s)) None) (\<lambda>record.
       case record of
         None \<Rightarrow> Inl AssertionError
       | Some r \<Rightarrow> bind (validate_record_dependencies recs p s r followup) (\<lambda>_. Inr [r])))))"

definition records_step :: "library \<Rightarrow> files \<Rightarrow> ustr \<Rightarrow> execution_plan \<Rightarrow> record_reader \<Rightarrow> record_reader" where
  "records_step lb fs h p recs s through =
     bind (attempt_bound p s) (\<lambda>bound.
     let through' = (case through of None \<Rightarrow> bound | Some n \<Rightarrow> if n = 0 then bound else n) in
     concatR (mapR (read_attempt_record lb fs recs h p s) [1..min through' bound]))"

text \<open>The recursion unfolded \<open>n\<close> times; \<open>base\<close> answers the calls below.\<close>

primrec records_from :: "library \<Rightarrow> files \<Rightarrow> ustr \<Rightarrow> execution_plan \<Rightarrow> record_reader \<Rightarrow> nat \<Rightarrow> record_reader" where
  "records_from lb fs h p base 0 = base"
| "records_from lb fs h p base (Suc n) = records_step lb fs h p (records_from lb fs h p base n)"

text \<open>Enough unfoldings for every call: the sum of the attempt bounds of all stages.\<close>

definition evidence_fuel :: "execution_plan \<Rightarrow> nat" where
  "evidence_fuel p =
     (case derived_attempt_bounds (pl_stages p) of
        Inl _ \<Rightarrow> 1 | Inr m \<Rightarrow> Suc (\<Sum>i \<leftarrow> stage_ids (pl_stages p). nat (value_of m i)))"

definition read_plan_submission_records :: "library \<Rightarrow> files \<Rightarrow> ustr \<Rightarrow> execution_plan \<Rightarrow> record_reader" where
  "read_plan_submission_records lb fs h p = records_from lb fs h p (\<lambda>_ _. Inl RecursionError) (evidence_fuel p)"

section \<open>Readers over all attempts\<close>

fun next_unrejected_loop :: "library \<Rightarrow> files \<Rightarrow> record_reader \<Rightarrow> ustr \<Rightarrow> execution_plan \<Rightarrow> stage_spec \<Rightarrow> ustr list \<Rightarrow> int \<Rightarrow> int list
    \<Rightarrow> (int \<times> submission_identity list) res" where
  "next_unrejected_loop lb fs recs h p s expected n [] = Inr (n, [])"
| "next_unrejected_loop lb fs recs h p s expected n (a # as) =
     bind (make_identity h s a) (\<lambda>i.
     bind (read_submission_rejection lb fs (submission_rejection_path p i)) (\<lambda>rejection.
     case rejection of
       None \<Rightarrow> Inr (a, [])
     | Some r \<Rightarrow>
         bind (committed_attempt_contract lb fs recs h p s a) (\<lambda>(authorized, _).
         bind (ensure (\<not> (rj_identity r \<noteq> i \<or> rj_task_ids r \<noteq> expected \<or> authorized \<noteq> expected))
                 (ValueError ''submission rejection differs from its signed retry authorization'')) (\<lambda>_.
         bind (next_unrejected_loop lb fs recs h p s expected (a + 1) as) (\<lambda>(n', is).
         Inr (n', i # is))))))"

definition next_unrejected_attempt :: "library \<Rightarrow> files \<Rightarrow> record_reader \<Rightarrow> ustr \<Rightarrow> execution_plan \<Rightarrow> stage_spec \<Rightarrow> int \<Rightarrow> ustr list
    \<Rightarrow> (int \<times> submission_identity list) res" where
  "next_unrejected_attempt lb fs recs h p s after expected =
     (if expected = [] then Inr (after + 1, [])
      else bind (attempt_bound p s) (\<lambda>bound. next_unrejected_loop lb fs recs h p s expected (after + 1) [after + 1..bound]))"

fun latest_followup_loop :: "library \<Rightarrow> files \<Rightarrow> record_reader \<Rightarrow> ustr \<Rightarrow> execution_plan \<Rightarrow> stage_spec \<Rightarrow> int list \<Rightarrow> int option res" where
  "latest_followup_loop lb fs recs h p s [] = Inr None"
| "latest_followup_loop lb fs recs h p s (a # as) =
     (if \<not> followup_exists fs p s a then latest_followup_loop lb fs recs h p s as
      else
        bind (authenticate_followup_authorization lb fs recs h p s a None) (\<lambda>_.
        bind (followup_owns_attempt lb fs recs h p s a) (\<lambda>owns.
        if owns then Inr (Some a) else latest_followup_loop lb fs recs h p s as)))"

definition latest_followup_attempt :: "library \<Rightarrow> files \<Rightarrow> record_reader \<Rightarrow> ustr \<Rightarrow> execution_plan \<Rightarrow> stage_spec \<Rightarrow> int option res" where
  "latest_followup_attempt lb fs recs h p s =
     bind (attempt_bound p s) (\<lambda>bound. latest_followup_loop lb fs recs h p s (rev [2..bound]))"

fun latest_receipt_loop :: "library \<Rightarrow> files \<Rightarrow> record_reader \<Rightarrow> ustr \<Rightarrow> execution_plan \<Rightarrow> stage_spec \<Rightarrow> int option \<Rightarrow> int list
    \<Rightarrow> reconciliation_receipt option res" where
  "latest_receipt_loop lb fs recs h p s followup [] = Inr None"
| "latest_receipt_loop lb fs recs h p s followup (a # as) =
     bind (read_reconciliation_receipt lb fs recs h p s a) (\<lambda>receipt.
     if followup = Some a \<or> receipt \<noteq> None then Inr receipt else latest_receipt_loop lb fs recs h p s followup as)"

definition latest_reconciliation_receipt :: "library \<Rightarrow> files \<Rightarrow> record_reader \<Rightarrow> ustr \<Rightarrow> execution_plan \<Rightarrow> stage_spec
    \<Rightarrow> reconciliation_receipt option res" where
  "latest_reconciliation_receipt lb fs recs h p s =
     bind (latest_followup_attempt lb fs recs h p s) (\<lambda>followup.
     bind (attempt_bound p s) (\<lambda>bound. latest_receipt_loop lb fs recs h p s followup (rev [1..bound])))"

text \<open>\<open>observe\<close> is \<open>backend.observe_receipt\<close> below the run root.\<close>

fun receipts_status_loop :: "(receipt_spec \<Rightarrow> receipt_observation) \<Rightarrow> planned_task list \<Rightarrow> bool option" where
  "receipts_status_loop observe [] = Some True"
| "receipts_status_loop observe (t # ts) =
     (let observations = map observe (pt_expected_receipts t) in
      if list_ex (\<lambda>b. \<not> ob_trustworthy b) observations then None
      else if \<not> all_match (pt_expected_receipts t) observations then Some False
      else receipts_status_loop observe ts)"

definition current_task_receipts_status :: "(receipt_spec \<Rightarrow> receipt_observation) \<Rightarrow> stage_spec \<Rightarrow> bool option res" where
  "current_task_receipts_status observe s = bind (select_tasks s None) (\<lambda>ts. Inr (receipts_status_loop observe ts))"

definition current_task_receipts_valid :: "(receipt_spec \<Rightarrow> receipt_observation) \<Rightarrow> stage_spec \<Rightarrow> bool res" where
  "current_task_receipts_valid observe s = bind (current_task_receipts_status observe s) (\<lambda>v. Inr (v = Some True))"

end
