(* ===== verification/Exec_World.thy ===== *)
theory Exec_World
  imports Exec_Evidence
begin

text \<open>
  The state the engine works on: the evidence files of a run, the marker of a destructive transition,
  the holder claims of the run and the jobs of the scheduler. An operation returns a value or raises,
  and the state it leaves behind survives a raise. The file operations are those of the remote program
  in \<open>runorg/execution_remote_fs.py\<close>, seen from the coordinator.
\<close>

section \<open>Operations\<close>

record world =
  wd_files :: files
  wd_transition :: bool
  wd_claims :: "ustr list"
  wd_jobs :: "(ustr \<times> ustr) list"

type_synonym 'a op = "world \<Rightarrow> 'a res \<times> world"

definition ret :: "'a \<Rightarrow> 'a op" where
  "ret x w = (Inr x, w)"

definition raise :: "pyerr \<Rightarrow> 'a op" where
  "raise e w = (Inl e, w)"

definition lift :: "'a res \<Rightarrow> 'a op" where
  "lift m w = (m, w)"

definition andthen :: "'a op \<Rightarrow> ('a \<Rightarrow> 'b op) \<Rightarrow> 'b op" where
  "andthen m f w = (case m w of (Inl e, w') \<Rightarrow> (Inl e, w') | (Inr x, w') \<Rightarrow> f x w')"

definition gets :: "(world \<Rightarrow> 'a) \<Rightarrow> 'a op" where
  "gets f w = (Inr (f w), w)"

definition reads :: "(files \<Rightarrow> 'a res) \<Rightarrow> 'a op" where
  "reads f w = (f (wd_files w), w)"

fun mapM :: "('a \<Rightarrow> 'b op) \<Rightarrow> 'a list \<Rightarrow> 'b list op" where
  "mapM f [] = ret []"
| "mapM f (x # xs) = andthen (f x) (\<lambda>y. andthen (mapM f xs) (\<lambda>ys. ret (y # ys)))"

lemma op_simps [simp]:
  "ret x w = (Inr x, w)" "raise e w = (Inl e, w)" "lift m w = (m, w)" "gets g w = (Inr (g w), w)"
  "reads f w = (f (wd_files w), w)"
  by (simp_all add: ret_def raise_def lift_def gets_def reads_def)

lemma andthen_eq_Inr: "andthen m f w = (Inr y, w'') \<longleftrightarrow> (\<exists>x w'. m w = (Inr x, w') \<and> f x w' = (Inr y, w''))"
  by (auto simp: andthen_def split: prod.splits sum.splits)

lemma andthen_Inr [simp]: "m w = (Inr x, w') \<Longrightarrow> andthen m f w = f x w'"
  by (simp add: andthen_def)

lemma andthen_Inl [simp]: "m w = (Inl e, w') \<Longrightarrow> andthen m f w = (Inl e, w')"
  by (simp add: andthen_def)

section \<open>Files\<close>

text \<open>Publication of immutable bytes under the transition lock: \<open>True\<close> only for the creator.\<close>

definition write_immutable_text :: "ustr \<Rightarrow> ustr \<Rightarrow> bool op" where
  "write_immutable_text path t w =
     (if wd_transition w then (Inl (RuntimeError ''run lifecycle transition is in progress''), w)
      else (case wd_files w path of
          None \<Rightarrow> (Inr True, w\<lparr>wd_files := (wd_files w)(path \<mapsto> t)\<rparr>)
        | Some old \<Rightarrow>
            if old = t then (Inr False, w)
            else (Inl (RuntimeError ''immutable receipt already exists with different bytes''), w)))"

text \<open>Exact compare-and-swap; \<open>None\<close> is absence.\<close>

definition compare_and_swap_text :: "ustr \<Rightarrow> ustr option \<Rightarrow> ustr option \<Rightarrow> bool op" where
  "compare_and_swap_text path expected replacement w =
     (if wd_transition w then (Inl (RuntimeError ''run lifecycle transition is in progress''), w)
      else if wd_files w path = expected
      then (Inr True, w\<lparr>wd_files := (wd_files w)(path := replacement)\<rparr>)
      else (Inr False, w))"

text \<open>Immutable files are only added.\<close>

definition extends :: "files \<Rightarrow> files \<Rightarrow> bool" where
  "extends fs gs \<longleftrightarrow> (\<forall>q t. fs q = Some t \<longrightarrow> gs q = Some t)"

lemma extends_refl [simp]: "extends fs fs"
  by (simp add: extends_def)

lemma extends_trans: "extends f g \<Longrightarrow> extends g h \<Longrightarrow> extends f h"
  by (simp add: extends_def)

lemma write_extends: "write_immutable_text q t w = (r, w') \<Longrightarrow> extends (wd_files w) (wd_files w')"
  by (auto simp: write_immutable_text_def extends_def split: if_splits option.splits)

lemma write_result: "write_immutable_text q t w = (Inr b, w') \<Longrightarrow> wd_files w' q = Some t"
  by (auto simp: write_immutable_text_def split: if_splits option.splits)

end
