(* ===== verification/Engine_Prog.thy ===== *)
theory Engine_Prog
  imports Exec_World Registry_Outbox
begin

text \<open>
  Programs of the execution engine. A coordinator is a program whose steps are the calls of
  \<open>runorg/execution_backend.py\<close> and of the registry; between two calls it computes, and other
  coordinators may act. A program has two readings: \<open>run\<close> executes it alone on a world, and
  \<open>wp\<close> is a rule for what it may do whatever the calls answer.
\<close>

section \<open>Programs\<close>

datatype 'a prog =
    Done "'a res"
  | Look "files res \<Rightarrow> 'a prog"
  | Observe "(receipt_spec \<Rightarrow> receipt_observation) res \<Rightarrow> 'a prog"
  | States ustr "slurm_task_state list res \<Rightarrow> 'a prog"
  | Publish ustr ustr "bool res \<Rightarrow> 'a prog"
  | Swap ustr "ustr option" "ustr option" "bool res \<Rightarrow> 'a prog"
  | Find ustr "ustr list res \<Rightarrow> 'a prog"
  | Prepare submission_request "submit_outcome option res \<Rightarrow> 'a prog"
  | Invoke submission_request "submit_outcome res \<Rightarrow> 'a prog"
  | Acquire ustr "ustr option res \<Rightarrow> 'a prog"
  | Release ustr "unit res \<Rightarrow> 'a prog"
  | Matching ustr "ustr list res \<Rightarrow> 'a prog"
  | ValidatePlan "bool res \<Rightarrow> 'a prog"
  | Synchronize registry_update "bool res \<Rightarrow> 'a prog"

primrec bindp :: "'a prog \<Rightarrow> ('a \<Rightarrow> 'b prog) \<Rightarrow> 'b prog" where
  "bindp (Done r) f = (case r of Inl e \<Rightarrow> Done (Inl e) | Inr x \<Rightarrow> f x)"
| "bindp (Look k) f = Look (\<lambda>x. bindp (k x) f)"
| "bindp (Observe k) f = Observe (\<lambda>x. bindp (k x) f)"
| "bindp (States j k) f = States j (\<lambda>x. bindp (k x) f)"
| "bindp (Publish q t k) f = Publish q t (\<lambda>x. bindp (k x) f)"
| "bindp (Swap q a b k) f = Swap q a b (\<lambda>x. bindp (k x) f)"
| "bindp (Find c k) f = Find c (\<lambda>x. bindp (k x) f)"
| "bindp (Prepare r k) f = Prepare r (\<lambda>x. bindp (k x) f)"
| "bindp (Invoke r k) f = Invoke r (\<lambda>x. bindp (k x) f)"
| "bindp (Acquire c k) f = Acquire c (\<lambda>x. bindp (k x) f)"
| "bindp (Release c k) f = Release c (\<lambda>x. bindp (k x) f)"
| "bindp (Matching c k) f = Matching c (\<lambda>x. bindp (k x) f)"
| "bindp (ValidatePlan k) f = ValidatePlan (\<lambda>x. bindp (k x) f)"
| "bindp (Synchronize u k) f = Synchronize u (\<lambda>x. bindp (k x) f)"

text \<open>\<open>try\<close>/\<open>except\<close> with the outcome of the body: \<open>attempt\<close> turns an exception into a value.\<close>

primrec attempt :: "'a prog \<Rightarrow> 'a res prog" where
  "attempt (Done r) = Done (Inr r)"
| "attempt (Look k) = Look (\<lambda>x. attempt (k x))"
| "attempt (Observe k) = Observe (\<lambda>x. attempt (k x))"
| "attempt (States j k) = States j (\<lambda>x. attempt (k x))"
| "attempt (Publish q t k) = Publish q t (\<lambda>x. attempt (k x))"
| "attempt (Swap q a b k) = Swap q a b (\<lambda>x. attempt (k x))"
| "attempt (Find c k) = Find c (\<lambda>x. attempt (k x))"
| "attempt (Prepare r k) = Prepare r (\<lambda>x. attempt (k x))"
| "attempt (Invoke r k) = Invoke r (\<lambda>x. attempt (k x))"
| "attempt (Acquire c k) = Acquire c (\<lambda>x. attempt (k x))"
| "attempt (Release c k) = Release c (\<lambda>x. attempt (k x))"
| "attempt (Matching c k) = Matching c (\<lambda>x. attempt (k x))"
| "attempt (ValidatePlan k) = ValidatePlan (\<lambda>x. attempt (k x))"
| "attempt (Synchronize u k) = Synchronize u (\<lambda>x. attempt (k x))"

definition catch :: "'a prog \<Rightarrow> (pyerr \<Rightarrow> 'a prog) \<Rightarrow> 'a prog" where
  "catch m handler = bindp (attempt m) (\<lambda>r. case r of Inl e \<Rightarrow> handler e | Inr x \<Rightarrow> Done (Inr x))"

definition look :: "(files \<Rightarrow> 'a res) \<Rightarrow> 'a prog" where
  "look f = Look (\<lambda>x. Done (bind x f))"

definition give :: "'a \<Rightarrow> 'a prog" where
  "give x = Done (Inr x)"

definition fail :: "pyerr \<Rightarrow> 'a prog" where
  "fail e = Done (Inl e)"

definition check :: "bool \<Rightarrow> pyerr \<Rightarrow> unit prog" where
  "check b e = Done (ensure b e)"

primrec each :: "('a \<Rightarrow> 'b prog) \<Rightarrow> 'a list \<Rightarrow> 'b list prog" where
  "each f [] = give []"
| "each f (x # xs) = bindp (f x) (\<lambda>y. bindp (each f xs) (\<lambda>ys. give (y # ys)))"

section \<open>Running a program alone\<close>

text \<open>The parts of a backend that are not files, jobs or claims.\<close>

record backend =
  bk_observe :: "receipt_spec \<Rightarrow> receipt_observation"
  bk_states :: "ustr \<Rightarrow> slurm_task_state list"
  bk_prepare :: "submission_request \<Rightarrow> submit_outcome option"
  bk_invoke :: "submission_request \<Rightarrow> ustr list \<Rightarrow> submit_outcome"
  bk_claim :: "ustr \<Rightarrow> ustr list \<Rightarrow> ustr"
  bk_validate :: bool
  bk_synchronize :: "registry_update \<Rightarrow> bool"

text \<open>The calls on claims: acquisition is refused during a transition, release forgets the claim.\<close>

definition acquire_claim :: "backend \<Rightarrow> ustr \<Rightarrow> ustr option op" where
  "acquire_claim b operation w =
     (if wd_transition w then (Inr None, w)
      else let c = bk_claim b operation (wd_claims w) in (Inr (Some c), w\<lparr>wd_claims := c # wd_claims w\<rparr>))"

definition release_claim :: "ustr \<Rightarrow> unit op" where
  "release_claim c w =
     (case claim_name c of Inl e \<Rightarrow> (Inl e, w) | Inr _ \<Rightarrow> (Inr (), w\<lparr>wd_claims := filter (\<lambda>x. x \<noteq> c) (wd_claims w)\<rparr>))"

definition matching_claims :: "(ustr \<Rightarrow> ustr res) \<Rightarrow> ustr \<Rightarrow> ustr list op" where
  "matching_claims digest operation w =
     (case digest operation of
        Inl e \<Rightarrow> (Inl e, w)
      | Inr d \<Rightarrow> (Inr (sort (filter (\<lambda>c. startswith c (d @ [45])) (wd_claims w))), w))"

text \<open>A scheduler that runs one \<open>sbatch\<close>: a job exists exactly when the outcome is \<open>ACCEPTED\<close>.\<close>

definition submit_job :: "backend \<Rightarrow> submission_request \<Rightarrow> submit_outcome op" where
  "submit_job b r w =
     (let out = bk_invoke b r (map snd (wd_jobs w)) in
      (Inr out, case so_job_id out of None \<Rightarrow> w | Some j \<Rightarrow> w\<lparr>wd_jobs := (comment (sr_identity r), j) # wd_jobs w\<rparr>))"

definition listed_jobs :: "ustr \<Rightarrow> world \<Rightarrow> ustr list" where
  "listed_jobs c w = map snd (filter (\<lambda>(c', _). c' = c) (wd_jobs w))"

primrec run :: "(ustr \<Rightarrow> ustr res) \<Rightarrow> backend \<Rightarrow> 'a prog \<Rightarrow> 'a op" where
  "run dg b (Done r) = (\<lambda>w. (r, w))"
| "run dg b (Look k) = (\<lambda>w. run dg b (k (Inr (wd_files w))) w)"
| "run dg b (Observe k) = (\<lambda>w. run dg b (k (Inr (bk_observe b))) w)"
| "run dg b (States j k) = (\<lambda>w. run dg b (k (Inr (bk_states b j))) w)"
| "run dg b (Publish q t k) = (\<lambda>w. case write_immutable_text q t w of (r, w') \<Rightarrow> run dg b (k r) w')"
| "run dg b (Swap q x y k) = (\<lambda>w. case compare_and_swap_text q x y w of (r, w') \<Rightarrow> run dg b (k r) w')"
| "run dg b (Find c k) = (\<lambda>w. run dg b (k (Inr (listed_jobs c w))) w)"
| "run dg b (Prepare r k) = (\<lambda>w. run dg b (k (Inr (bk_prepare b r))) w)"
| "run dg b (Invoke r k) = (\<lambda>w. case submit_job b r w of (x, w') \<Rightarrow> run dg b (k x) w')"
| "run dg b (Acquire c k) = (\<lambda>w. case acquire_claim b c w of (r, w') \<Rightarrow> run dg b (k r) w')"
| "run dg b (Release c k) = (\<lambda>w. case release_claim c w of (r, w') \<Rightarrow> run dg b (k r) w')"
| "run dg b (Matching c k) = (\<lambda>w. case matching_claims dg c w of (r, w') \<Rightarrow> run dg b (k r) w')"
| "run dg b (ValidatePlan k) = (\<lambda>w. run dg b (k (Inr (bk_validate b))) w)"
| "run dg b (Synchronize u k) = (\<lambda>w. run dg b (k (Inr (bk_synchronize b u))) w)"

lemma run_bindp [simp]: "run dg b (bindp m f) = andthen (run dg b m) (\<lambda>x. run dg b (f x))"
  by (induction m) (auto simp: andthen_def fun_eq_iff split: sum.splits prod.splits)

lemma run_attempt [simp]: "run dg b (attempt m) w = (case run dg b m w of (r, w') \<Rightarrow> (Inr r, w'))"
  by (induction m arbitrary: w) (auto split: prod.splits)

lemma run_primitives [simp]:
  "run dg b (look f) = reads f" "run dg b (give x) = ret x" "run dg b (fail e) = raise e" "run dg b (check c e) = lift (ensure c e)"
  by (simp_all add: look_def give_def fail_def check_def fun_eq_iff)

lemma run_each [simp]: "run dg b (each f xs) = mapM (\<lambda>x. run dg b (f x)) xs"
  by (induction xs) simp_all

lemma bindp_assoc: "bindp (bindp m f) g = bindp m (\<lambda>x. bindp (f x) g)"
  by (induction m) (auto split: sum.splits)

end
