(* ===== verification/Engine_Reads.thy ===== *)
theory Engine_Reads
  imports Engine_Prog
begin

text \<open>
  What the engine derives from the durable evidence before it acts: the helpers of
  \<open>runorg/execution_engine.py\<close> that only read, the authorization of an attempt
  (\<open>runorg/execution_authorization.py\<close>) and the searches of \<open>runorg/execution_followups.py\<close>.
\<close>

text \<open>\<open>_submission_records\<close>: the readers start from the same recursive reader of submission records.\<close>

definition submission_records :: "library \<Rightarrow> files \<Rightarrow> ustr \<Rightarrow> execution_plan \<Rightarrow> record_reader" where
  "submission_records lb fs h p = read_plan_submission_records lb fs h p"

abbreviation attempt_of :: "submission_record \<Rightarrow> int" where
  "attempt_of r \<equiv> si_attempt (sb_identity r)"

text \<open>\<open>any\<close> over a generator stops at the first hit.\<close>

fun anyR :: "('a \<Rightarrow> bool res) \<Rightarrow> 'a list \<Rightarrow> bool res" where
  "anyR f [] = Inr False"
| "anyR f (x # xs) = bind (f x) (\<lambda>b. if b then Inr True else anyR f xs)"

section \<open>Dependencies\<close>

definition dependency_jobs :: "library \<Rightarrow> files \<Rightarrow> ustr \<Rightarrow> execution_plan \<Rightarrow> stage_spec \<Rightarrow> ustr list res" where
  "dependency_jobs lb fs h p s =
     mapR (\<lambda>d.
       bind (stage_by_id p d) (\<lambda>ds.
       bind (submission_records lb fs h p ds None) (\<lambda>records.
       bind (ensure (records \<noteq> []) (ValueError ''dependency stage has no submitted job'')) (\<lambda>_.
       Inr (sb_job_id (last records)))))) (st_depends_on s)"

definition stage_receipts_valid :: "(receipt_spec \<Rightarrow> receipt_observation) \<Rightarrow> stage_spec \<Rightarrow> bool option" where
  "stage_receipts_valid observe s =
     (let observations = map observe (st_expected_receipts s) in
      if list_ex (\<lambda>b. \<not> ob_trustworthy b) observations then None
      else Some (all_match (st_expected_receipts s) observations))"

definition latest_reconciliation_decision :: "library \<Rightarrow> files \<Rightarrow> ustr \<Rightarrow> execution_plan \<Rightarrow> stage_spec \<Rightarrow> ustr option res" where
  "latest_reconciliation_decision lb fs h p s =
     bind (latest_reconciliation_receipt lb fs (submission_records lb fs h p) h p s) (\<lambda>receipt.
     Inr (map_option rr_decision receipt))"

definition has_completed_reconciliation :: "library \<Rightarrow> files \<Rightarrow> (receipt_spec \<Rightarrow> receipt_observation) \<Rightarrow> ustr \<Rightarrow> execution_plan
    \<Rightarrow> stage_spec \<Rightarrow> bool res" where
  "has_completed_reconciliation lb fs observe h p s =
     bind (latest_reconciliation_decision lb fs h p s) (\<lambda>decision.
     if decision \<noteq> Some RECONCILE_COMPLETE then Inr False
     else bind (current_task_receipts_valid observe s) (\<lambda>valid.
       Inr (valid \<and> stage_receipts_valid observe s = Some True)))"

definition validate_afterok_dependencies :: "library \<Rightarrow> files \<Rightarrow> (receipt_spec \<Rightarrow> receipt_observation) \<Rightarrow> ustr \<Rightarrow> execution_plan
    \<Rightarrow> stage_spec \<Rightarrow> unit res" where
  "validate_afterok_dependencies lb fs observe h p s =
     (if st_dependency_mode s \<noteq> lit ''afterok'' then Inr ()
      else bind (mapR (\<lambda>d. bind (stage_by_id p d) (\<lambda>ds. has_completed_reconciliation lb fs observe h p ds)) (st_depends_on s)) (\<lambda>complete.
        ensure (list_all id complete)
          (ValueError ''afterok dependencies lack authenticated COMPLETED reconciliation receipts'')))"

text \<open>Whether one resolved prerequisite job is certified.\<close>

definition certified_job :: "library \<Rightarrow> files \<Rightarrow> (receipt_spec \<Rightarrow> receipt_observation) \<Rightarrow> ustr \<Rightarrow> execution_plan
    \<Rightarrow> ustr \<times> ustr \<Rightarrow> bool res" where
  "certified_job lb fs observe h p dj =
     (case dj of (d, job) \<Rightarrow>
        bind (stage_by_id p d) (\<lambda>ds.
        bind (latest_reconciliation_receipt lb fs (submission_records lb fs h p) h p ds) (\<lambda>receipt.
        bind (submission_records lb fs h p ds None) (\<lambda>records.
        case (receipt, find (\<lambda>r. sb_job_id r = job) records) of
          (Some q, Some r) \<Rightarrow>
            if rr_decision q \<noteq> RECONCILE_COMPLETE \<or> rr_attempt q \<noteq> attempt_of r then Inr False
            else has_completed_reconciliation lb fs observe h p ds
        | _ \<Rightarrow> Inr False))))"

definition validate_afterok_dependency_jobs :: "library \<Rightarrow> files \<Rightarrow> (receipt_spec \<Rightarrow> receipt_observation) \<Rightarrow> ustr \<Rightarrow> execution_plan
    \<Rightarrow> stage_spec \<Rightarrow> ustr list \<Rightarrow> unit res" where
  "validate_afterok_dependency_jobs lb fs observe h p s jobs =
     (if st_dependency_mode s \<noteq> lit ''afterok'' then Inr ()
      else bind (mapR (certified_job lb fs observe h p) (zip (st_depends_on s) jobs)) (\<lambda>certified.
        ensure (list_all id certified)
          (ValueError ''afterok dependencies resolve to jobs without authenticated COMPLETED reconciliation'')))"

section \<open>Generations of a stage\<close>

definition attempt_has_durable_evidence :: "library \<Rightarrow> files \<Rightarrow> ustr \<Rightarrow> execution_plan \<Rightarrow> stage_spec \<Rightarrow> int \<Rightarrow> bool res" where
  "attempt_has_durable_evidence lb fs h p s n =
     bind (submission_records lb fs h p s None) (\<lambda>records.
     if list_ex (\<lambda>r. attempt_of r = n) records then Inr True
     else bind (make_identity h s n) (\<lambda>i.
       bind (read_submission_rejection lb fs (submission_rejection_path p i)) (\<lambda>rejection.
       Inr (rejection \<noteq> None))))"

definition prior_generation_jobs :: "library \<Rightarrow> files \<Rightarrow> ustr \<Rightarrow> execution_plan \<Rightarrow> stage_spec \<Rightarrow> int \<Rightarrow> ustr list res" where
  "prior_generation_jobs lb fs h p s n =
     bind (submission_records lb fs h p s None) (\<lambda>records.
     Inr (map sb_job_id (filter (\<lambda>r. attempt_of r < n) records)))"

definition committed_ordering_jobs :: "library \<Rightarrow> files \<Rightarrow> ustr \<Rightarrow> execution_plan \<Rightarrow> stage_spec \<Rightarrow> submission_identity
    \<Rightarrow> ustr list res" where
  "committed_ordering_jobs lb fs h p s i =
     (case fs (submission_intent_path p i) of
        None \<Rightarrow> prior_generation_jobs lb fs h p s (si_attempt i)
      | Some t \<Rightarrow>
          bind (strict_json_object (lb_float lb) t ''submission intent'') (\<lambda>d.
          let value = jget_or d ''ordering_job_ids'' (JArr []); committed = map str_of (list_of value) in
          bind (ensure (is_list value \<and> list_all is_str (list_of value))
                  (ValueError ''submission intent ordering job IDs are malformed'')) (\<lambda>_.
          bind (ensure (card (set committed) = length committed)
                  (ValueError ''submission intent ordering job IDs contain duplicates'')) (\<lambda>_.
          bind (prior_generation_jobs lb fs h p s (si_attempt i)) (\<lambda>admissible.
          bind (ensure (set committed \<subseteq> set admissible)
                  (ValueError ''submission intent orders against a job that is not an earlier generation'')) (\<lambda>_.
          Inr committed))))))"

text \<open>All job ids of the run; \<open>ord_set\<close> is the iteration order of a Python set.\<close>

definition all_recorded_job_ids :: "library \<Rightarrow> files \<Rightarrow> (ustr set \<Rightarrow> ustr list) \<Rightarrow> ustr \<Rightarrow> execution_plan \<Rightarrow> ustr list res" where
  "all_recorded_job_ids lb fs ord_set h p =
     bind (mapR (\<lambda>s. submission_records lb fs h p s None) (pl_stages p)) (\<lambda>records.
     sorted_by_int (ord_set (set (map sb_job_id (concat records)))))"

definition execution_status :: "library \<Rightarrow> files \<Rightarrow> (receipt_spec \<Rightarrow> receipt_observation) \<Rightarrow> ustr \<Rightarrow> execution_plan \<Rightarrow> ustr \<Rightarrow> ustr res" where
  "execution_status lb fs observe h p decision =
     (if decision = RECONCILE_FAILED then Inr (lit ''FAILED'')
      else if decision \<in> {RECONCILE_RETRY, RECONCILE_RETRY_SUBMITTED} then Inr (lit ''RETRYING'')
      else if decision = RECONCILE_WAIT then Inr (lit ''RUNNING'')
      else if decision \<noteq> RECONCILE_COMPLETE then Inr (lit ''ACTIVE'')
      else
        bind (anyR (\<lambda>s. bind (latest_reconciliation_decision lb fs h p s) (\<lambda>d. Inr (d = Some RECONCILE_FAILED))) (pl_stages p)) (\<lambda>failed.
        if failed then Inr (lit ''FAILED'')
        else bind (anyR (\<lambda>s. bind (has_completed_reconciliation lb fs observe h p s) (\<lambda>c. Inr (\<not> c))) (pl_stages p)) (\<lambda>incomplete.
          Inr (if incomplete then lit ''ACTIVE'' else lit ''COMPLETED''))))"

section \<open>Authorization of an attempt\<close>

fun latest_owned_followup :: "library \<Rightarrow> files \<Rightarrow> ustr \<Rightarrow> execution_plan \<Rightarrow> stage_spec \<Rightarrow> int list \<Rightarrow> (int \<times> ustr list) option res" where
  "latest_owned_followup lb fs h p s [] = Inr None"
| "latest_owned_followup lb fs h p s (a # as) =
     (if fs (reconciler_followup_path p (st_stage_id s) a) = None then latest_owned_followup lb fs h p s as
      else bind (followup_owns_attempt lb fs (submission_records lb fs h p) h p s a) (\<lambda>owns.
        if \<not> owns then latest_owned_followup lb fs h p s as
        else bind (authenticate_followup_authorization lb fs (submission_records lb fs h p) h p s a None) (\<lambda>deps.
          Inr (Some (a, deps)))))"

definition ordinary_retry_dependencies :: "library \<Rightarrow> files \<Rightarrow> ustr \<Rightarrow> execution_plan \<Rightarrow> stage_spec \<Rightarrow> int \<Rightarrow> ustr list \<Rightarrow> ustr list res" where
  "ordinary_retry_dependencies lb fs h p s n current =
     (if st_depends_on s = [] then Inr []
      else
        bind (submission_records lb fs h p s (Some (n - 1))) (\<lambda>records.
        let latest_record = (if records = [] then None else Some (last records)) in
        bind (latest_owned_followup lb fs h p s (rev [2..n - 1])) (\<lambda>followup.
        case (followup, latest_record) of
          (Some (a, deps), None) \<Rightarrow> Inr deps
        | (Some (a, deps), Some r) \<Rightarrow> Inr (if a > attempt_of r then deps else sb_dependency_job_ids r)
        | (None, Some r) \<Rightarrow> Inr (sb_dependency_job_ids r)
        | (None, None) \<Rightarrow> Inr current)))"

definition derive_attempt_authorization :: "library \<Rightarrow> files \<Rightarrow> ustr \<Rightarrow> execution_plan \<Rightarrow> stage_spec \<Rightarrow> int \<Rightarrow> ustr list
    \<Rightarrow> (ustr list \<times> ustr list) res" where
  "derive_attempt_authorization lb fs h p s n signed_jobs =
     bind (select_tasks s None) (\<lambda>all_tasks.
     let all_task_ids = map pt_task_id all_tasks; recs = submission_records lb fs h p in
     if n = 1 then Inr (all_task_ids, signed_jobs)
     else if st_depends_on s \<noteq> [] \<and> fs (reconciler_followup_path p (st_stage_id s) n) \<noteq> None then
       bind (authenticate_followup_authorization lb fs recs h p s n (Some signed_jobs)) (\<lambda>deps.
       Inr (all_task_ids, deps))
     else
       bind (read_reconciliation_receipt lb fs recs h p s (n - 1)) (\<lambda>previous.
       bind (case previous of
           Some r \<Rightarrow>
             bind (ensure (rr_decision r = RECONCILE_RETRY)
                     (ValueError ''retry authorization receipt does not authorize a next attempt'')) (\<lambda>_.
             Inr (rr_retry r))
         | None \<Rightarrow>
             bind (make_identity h s (n - 1)) (\<lambda>i.
             bind (read_submission_rejection lb fs (submission_rejection_path p i)) (\<lambda>rejection.
             case rejection of
               None \<Rightarrow> Inl (ValueError ''retry attempt has no preceding reconciliation or rejection authorization'')
             | Some r \<Rightarrow>
                 bind (ensure (rj_identity r = i)
                         (ValueError ''retry attempt has no preceding reconciliation or rejection authorization'')) (\<lambda>_.
                 bind (select_tasks s (Some (rj_task_ids r))) (\<lambda>ts.
                 bind (ensure (rj_task_indices r = concat (map (\<lambda>t. case pt_array_index t of None \<Rightarrow> [] | Some k \<Rightarrow> [k]) ts))
                         (ValueError ''submission rejection task indices do not match the signed stage'')) (\<lambda>_.
                 Inr (map pt_task_id ts))))))) (\<lambda>ids.
       bind (ordinary_retry_dependencies lb fs h p s n signed_jobs) (\<lambda>deps.
       Inr (ids, deps)))))"

section \<open>Follow-up generations\<close>

definition earlier_generation_is_mid_submission :: "library \<Rightarrow> files \<Rightarrow> ustr \<Rightarrow> execution_plan \<Rightarrow> stage_spec \<Rightarrow> int \<Rightarrow> bool res" where
  "earlier_generation_is_mid_submission lb fs h p s n =
     bind (submission_records lb fs h p s None) (\<lambda>records.
     anyR (\<lambda>a.
       if a \<in> attempt_of ` set records then Inr False
       else bind (make_identity h s a) (\<lambda>i.
         bind (read_submission_rejection lb fs (submission_rejection_path p i)) (\<lambda>rejection.
         if rejection \<noteq> None then Inr False
         else bind (read_submission_invocation_claim_id lb fs p i) (\<lambda>owner. Inr (owner \<noteq> None))))) [1..n - 1])"

definition followup_binds :: "library \<Rightarrow> files \<Rightarrow> ustr \<Rightarrow> execution_plan \<Rightarrow> stage_spec \<Rightarrow> int \<Rightarrow> ustr list \<Rightarrow> bool res" where
  "followup_binds lb fs h p s n jobs =
     bind (authenticate_followup_authorization lb fs (submission_records lb fs h p) h p s n None) (\<lambda>deps. Inr (deps = jobs))"

definition covers_generation :: "library \<Rightarrow> files \<Rightarrow> ustr \<Rightarrow> execution_plan \<Rightarrow> stage_spec \<Rightarrow> ustr list \<Rightarrow> int \<Rightarrow> int list res" where
  "covers_generation lb fs h p s jobs a =
     bind (followup_owns_attempt lb fs (submission_records lb fs h p) h p s a) (\<lambda>owns.
     if \<not> owns then Inr []
     else bind (followup_binds lb fs h p s a jobs) (\<lambda>binds.
       if \<not> binds then Inr []
       else bind (make_identity h s a) (\<lambda>i.
         bind (read_submission_rejection lb fs (submission_rejection_path p i)) (\<lambda>rejection.
         Inr (if rejection \<noteq> None then [] else [a])))))"

definition covering_generation :: "library \<Rightarrow> files \<Rightarrow> ustr \<Rightarrow> execution_plan \<Rightarrow> stage_spec \<Rightarrow> submission_record list \<Rightarrow> int list
    \<Rightarrow> int \<Rightarrow> ustr list \<Rightarrow> int option res" where
  "covering_generation lb fs h p s records occupied after jobs =
     bind (mapR (covers_generation lb fs h p s jobs) occupied) (\<lambda>owned.
     let candidates = map attempt_of (filter (\<lambda>r. sb_dependency_job_ids r = jobs) records) @ concat owned;
         newer = filter (\<lambda>a. a > after) candidates in
     Inr (if newer = [] then None else Some (Max (set newer))))"

text \<open>The authorizations of a stage: the occupied attempts, and the last one of this trigger.\<close>

fun occupied_generations :: "library \<Rightarrow> files \<Rightarrow> ustr \<Rightarrow> execution_plan \<Rightarrow> stage_spec \<Rightarrow> ustr \<Rightarrow> ustr \<Rightarrow> int list
    \<Rightarrow> (int list \<times> int option) res" where
  "occupied_generations lb fs h p s trigger_stage trigger_job [] = Inr ([], None)"
| "occupied_generations lb fs h p s trigger_stage trigger_job (a # as) =
     (if fs (reconciler_followup_path p (st_stage_id s) a) = None then occupied_generations lb fs h p s trigger_stage trigger_job as
      else
        bind (authenticate_followup_authorization lb fs (submission_records lb fs h p) h p s a None) (\<lambda>_.
        bind (read_strict_json lb fs (reconciler_followup_path p (st_stage_id s) a) ''reconciler follow-up authorization'') (\<lambda>d.
        bind (occupied_generations lb fs h p s trigger_stage trigger_job as) (\<lambda>(occupied, existing).
        let mine = (jget d ''plan_sha256'' = JStr h \<and> jget d ''stage_id'' = JStr (st_stage_id s) \<and> equals_int (jget d ''attempt'') a
             \<and> jget d ''trigger_job_id'' = JStr trigger_job \<and> jget d ''trigger_stage_id'' = JStr trigger_stage) in
        Inr (a # occupied, if existing = None \<and> mine then Some a else existing)))))"

end
