(* ===== verification/Json_Ascii.thy ===== *)
theory Json_Ascii
  imports Json_Parse
begin

text \<open>
  The texts of \<open>json.dumps\<close> with its default \<open>ensure_ascii=True\<close>: indented for manifests and plan envelopes, on one line for the
  rows of the registry. The decoder inverts both on strings of Unicode scalar values, and a line has no line break.
\<close>

section \<open>Text\<close>

text \<open>Every character outside printable ASCII is escaped; controls are escaped already.\<close>

definition u_escape :: "nat \<Rightarrow> ustr" where
  "u_escape n = [92, 117, hex_digit (n div 4096), hex_digit (n div 256 mod 16), hex_digit (n div 16 mod 16), hex_digit (n mod 16)]"

definition ascii_char :: "nat \<Rightarrow> ustr" where
  "ascii_char c =
     (if c \<le> 126 then [c]
      else if c < 65536 then u_escape c
      else u_escape (55296 + (c - 65536) div 1024) @ u_escape (56320 + (c - 65536) mod 1024))"

definition ascii_escape :: "ustr \<Rightarrow> ustr" where
  "ascii_escape t = concat (map ascii_char t)"

text \<open>The separators of \<open>json.dumps\<close> without \<open>indent\<close>.\<close>

fun render_line :: "json \<Rightarrow> ustr" where
  "render_line (JArr xs) = [91] @ join [44, 32] (map render_line xs) @ [93]"
| "render_line (JObj d) = [123] @ join [44, 32] (map (\<lambda>(k, v). json_string k @ [58, 32] @ render_line v) d) @ [125]"
| "render_line v = render v"

definition dumps_ascii :: "json \<Rightarrow> ustr res" where
  "dumps_ascii v = bind (dumps_indent v) (\<lambda>t. Inr (ascii_escape t))"

definition dumps_line :: "json \<Rightarrow> ustr res" where
  "dumps_line v =
     (case floats (sorted_members v) of
        [] \<Rightarrow> Inr (ascii_escape (render_line (sorted_members v)))
      | _ # _ \<Rightarrow> Inl (ValueError ''the text of a float is not modelled''))"

section \<open>Strings\<close>

lemma ascii_simps [simp]:
  "ascii_escape [] = []" "ascii_escape (c # s) = ascii_char c @ ascii_escape s" "ascii_escape (s @ t) = ascii_escape s @ ascii_escape t"
  "c \<le> 126 \<Longrightarrow> ascii_char c = [c]"
  by (simp_all add: ascii_escape_def ascii_char_def)

lemma ascii_id: "list_all (\<lambda>c. c \<le> 126) s \<Longrightarrow> ascii_escape s = s"
  by (induction s) auto

lemma ascii_join: "ascii_escape (join s xs) = join (ascii_escape s) (map ascii_escape xs)"
  by (induction s xs rule: join.induct) auto

definition text_char :: "nat \<Rightarrow> bool" where
  "text_char c \<longleftrightarrow> is_scalar c \<and> c < 1114112"

lemma hex4_u_escape: "n < 65536 \<Longrightarrow> hex4 (drop 2 (u_escape n) @ x) = Some n"
proof -
  assume n: "n < 65536"
  have "n = 16 * (16 * (16 * (n div 4096) + n div 256 mod 16) + n div 16 mod 16) + n mod 16"
    using mult_div_mod_eq [of 16 n] mult_div_mod_eq [of 16 "n div 16"] mult_div_mod_eq [of 16 "n div 256"]
    by (simp add: div_mult2_eq [symmetric])
  then show ?thesis
    using n hex_digit_val [of "n div 4096"] hex_digit_val [of "n div 256 mod 16"] hex_digit_val [of "n div 16 mod 16"] hex_digit_val [of "n mod 16"]
    by (simp add: hex4_def u_escape_def)
qed

lemma scan_char_ascii:
  assumes "text_char c" and "126 < c"
  shows "scan_char (ascii_char c @ x) = Inr (c, x)"
proof (cases "c < 65536")
  case True
  have "\<not> is_high c" using assms(1) by (auto simp: text_char_def is_scalar_def is_high_def)
  moreover have "ascii_char c @ x = 92 # 117 # drop 2 (u_escape c) @ x" using True assms(2) by (simp add: ascii_char_def u_escape_def)
  moreover have "drop 4 (drop 2 (u_escape c) @ x) = x" by (simp add: u_escape_def)
  ultimately show ?thesis using hex4_u_escape [OF True, of x] by (simp add: scan_char_def scan_escape_def)
next
  case False
  let ?h = "55296 + (c - 65536) div 1024" and ?l = "56320 + (c - 65536) mod 1024"
  have c: "c < 1114112" using assms(1) by (simp add: text_char_def)
  have h: "is_high ?h" "?h < 65536" using c False by (auto simp: is_high_def)
  have l: "is_low ?l" "?l < 65536" by (simp_all add: is_low_def)
  let ?q = "drop 2 (u_escape ?h) @ 92 # 117 # drop 2 (u_escape ?l) @ x"
  have "ascii_char c @ x = 92 # 117 # ?q" using False by (simp add: ascii_char_def u_escape_def)
  moreover have "take 2 (drop 4 ?q) = [92, 117]" "drop 6 ?q = drop 2 (u_escape ?l) @ x" "drop 10 ?q = x"
    by (simp_all add: u_escape_def)
  moreover have "65536 + (?h - 55296) * 1024 + (?l - 56320) = c" using False by simp
  ultimately show ?thesis
    using hex4_u_escape [OF h(2), of "92 # 117 # drop 2 (u_escape ?l) @ x"] hex4_u_escape [OF l(2), of x] h(1) l(1)
    by (simp add: scan_char_def scan_escape_def)
qed

lemma scan_char_both: "text_char c \<Longrightarrow> scan_char (ascii_escape (escape_char c) @ x) = Inr (c, x)"
proof (cases "126 < c")
  case True
  assume "text_char c"
  moreover have "ascii_escape (escape_char c) = ascii_char c" using True by (simp add: escape_char_def)
  ultimately show ?thesis using scan_char_ascii [of c x] True by simp
next
  case False
  then have "list_all (\<lambda>x. x \<le> 126) (escape_char c)" by (auto simp: escape_char_def hex_digit_def)
  then show ?thesis using scan_char_escape [of c x] by (simp add: ascii_id)
qed

lemma ascii_escape_hd: "take 1 (ascii_escape (escape_char c) @ x) \<noteq> [34]"
  by (auto simp: escape_char_def ascii_char_def u_escape_def)

lemma scanstring_ascii: "list_all text_char s \<Longrightarrow> scanstring (ascii_escape (concat (map escape_char s)) @ 34 # z) = Inr (s, z)"
proof (induction s)
  case Nil
  then show ?case by (simp add: scanstring.simps)
next
  case (Cons c s)
  let ?x = "ascii_escape (concat (map escape_char s)) @ 34 # z"
  show ?case using Cons scan_char_both [of c ?x] ascii_escape_hd [of c ?x]
    by (simp add: scanstring.simps [of "ascii_escape (escape_char c) @ ?x"])
qed

lemma spells_ascii: "list_all text_char s \<Longrightarrow> spells (\<lambda>t. ascii_escape (json_string t)) s"
  using scanstring_ascii [of s] by (simp add: spells_def json_string_def)

section \<open>Texts\<close>

lemma ascii_int: "ascii_escape (str_int i) = str_int i"
  using dec_digits_range [of _ "nat i"] dec_digits_range [of _ "nat (- i)"]
  by (intro ascii_id) (fastforce simp: str_int_def list_all_iff)

lemma ascii_scalars:
  "ascii_escape (lit ''null'') = lit ''null''" "ascii_escape (lit ''true'') = lit ''true''" "ascii_escape (lit ''false'') = lit ''false''"
  "ascii_escape (newline n) = newline n"
  by (simp_all add: ascii_id lit_def newline_def list_all_iff)

lemmas ascii_text = ascii_int ascii_scalars ascii_join comp_def case_prod_unfold

interpretation ascii_indented: json_writer "strict fl" "\<lambda>_. False" "list_all text_char" "\<lambda>t. ascii_escape (json_string t)" "\<lambda>n. newline (Suc n)" newline
    "\<lambda>n. newline (Suc n)" "[32]" "\<lambda>n v. ascii_escape (render_indent n v)" for fl
  by unfold_locales (simp_all add: spells_ascii ascii_text decoder_objects)

interpretation ascii_line: json_writer "strict fl" "\<lambda>_. False" "list_all text_char" "\<lambda>t. ascii_escape (json_string t)" "\<lambda>_. []" "\<lambda>_. []" "\<lambda>_. [32]" "[32]"
    "\<lambda>_ v. ascii_escape (render_line v)" for fl
  by unfold_locales (simp_all add: spells_ascii ascii_text decoder_objects)

lemma spelled_sorted: "spelled ok v \<Longrightarrow> spelled ok (sorted_members v)"
  by (induction ok v rule: spelled.induct) (fastforce simp: list_all_iff)+

text \<open>What is written is read back, with the members in the order of their names.\<close>

lemma ascii_file:
  assumes "loadable (JObj d)" and "spelled (list_all text_char) (JObj d)"
  shows "\<exists>t. dumps_ascii (JObj d) = Inr t \<and> strict_json_object fl t l = Inr (stored d)"
proof -
  have s: "loadable (sorted_members (JObj d))" "spelled (list_all text_char) (sorted_members (JObj d))"
    using loadable_sorted [OF assms(1)] spelled_sorted [OF assms(2)] .
  have "dumps_ascii (JObj d) = Inr (ascii_escape (render_indent 0 (sorted_members (JObj d))))"
    by (simp only: dumps_ascii_def dumps_indent_def loadable_floats [OF s(1)] list.case bind_Inr)
  moreover have "loads (strict fl) (ascii_escape (render_indent 0 (sorted_members (JObj d)))) = Inr (JObj (stored d))"
    using ascii_indented.loads_write [OF s, of "[]"] by (simp add: stored_def)
  ultimately show ?thesis by (simp add: strict_json_object_def strict_json_value_def)
qed

lemma ascii_row:
  assumes "loadable (JObj d)" and "spelled (list_all text_char) (JObj d)"
  shows "\<exists>t. dumps_line (JObj d) = Inr t \<and> strict_json_object fl t l = Inr (stored d)"
proof -
  have s: "loadable (sorted_members (JObj d))" "spelled (list_all text_char) (sorted_members (JObj d))"
    using loadable_sorted [OF assms(1)] spelled_sorted [OF assms(2)] .
  have "dumps_line (JObj d) = Inr (ascii_escape (render_line (sorted_members (JObj d))))"
    by (simp only: dumps_line_def loadable_floats [OF s(1)] list.case)
  moreover have "loads (strict fl) (ascii_escape (render_line (sorted_members (JObj d)))) = Inr (JObj (stored d))"
    using ascii_line.loads_write [OF s, of "[]"] by (simp add: stored_def)
  ultimately show ?thesis by (simp add: strict_json_object_def strict_json_value_def)
qed

section \<open>Lines\<close>

definition printable :: "ustr \<Rightarrow> bool" where
  "printable s \<longleftrightarrow> list_all (\<lambda>c. 32 \<le> c \<and> c \<le> 126) s"

lemma printable_simps [simp]: "printable []" "printable (c # s) \<longleftrightarrow> 32 \<le> c \<and> c \<le> 126 \<and> printable s"
  "printable (s @ t) \<longleftrightarrow> printable s \<and> printable t"
  by (auto simp: printable_def)

lemma printable_ascii: "list_all (\<lambda>c. 32 \<le> c) s \<Longrightarrow> list_all text_char s \<Longrightarrow> printable (ascii_escape s)"
proof (induction s)
  case (Cons c s)
  have hex: "32 \<le> hex_digit n \<and> hex_digit n \<le> 126" if "n < 16" for n using that by (auto simp: hex_digit_def)
  have "printable (u_escape n)" if "n < 65536" for n
    using that hex [of "n div 4096"] hex [of "n div 256 mod 16"] hex [of "n div 16 mod 16"] hex [of "n mod 16"] by (simp add: u_escape_def)
  moreover have "55296 + (c - 65536) div 1024 < 65536" using Cons.prems(2) by (auto simp: text_char_def)
  ultimately show ?case using Cons by (simp add: ascii_char_def)
qed simp

text \<open>The characters of a text are those of its punctuation and of its escaped strings.\<close>

lemma join_chars: "set (join s xs) \<subseteq> set s \<union> (\<Union>x \<in> set xs. set x)"
  by (induction s xs rule: join.induct) auto

lemma list_all_join: "list_all P s \<Longrightarrow> (\<And>x. x \<in> set xs \<Longrightarrow> list_all P x) \<Longrightarrow> list_all P (join s xs)"
  using join_chars [of s xs] by (auto simp: list_all_iff)

definition plain :: "nat \<Rightarrow> bool" where
  "plain c \<longleftrightarrow> 32 \<le> c \<and> text_char c"

lemma plain_small [simp]: "32 \<le> c \<Longrightarrow> c < 256 \<Longrightarrow> plain c"
  by (simp add: plain_def text_char_def is_scalar_def)

lemma plain_escape: "text_char c \<Longrightarrow> list_all plain (escape_char c)"
proof (cases "c < 32")
  case True
  have "plain (hex_digit n)" if "n < 16" for n using that by (simp add: hex_digit_def)
  then show ?thesis using True by (simp add: escape_char_def)
qed (simp add: escape_char_def, simp add: plain_def)

lemma plain_string: "list_all text_char s \<Longrightarrow> list_all plain (json_string s)"
  using plain_escape by (induction s) (auto simp: json_string_def)

lemma plain_digits: "list_all plain (dec_digits n)"
  using dec_digits_range [of _ n] by (fastforce simp: list_all_iff)

lemma plain_line: "spelled (list_all text_char) v \<Longrightarrow> list_all plain (render_line v)"
proof (induction v rule: render_line.induct)
  case (1 xs)
  have "list_all plain (join [44, 32] (map render_line xs))"
    by (rule list_all_join) (use 1 in \<open>auto simp: list_all_iff\<close>)
  then show ?case by simp
next
  case (2 d)
  have "list_all plain (json_string k @ [58, 32] @ render_line v)" if "(k, v) \<in> set d" for k v
  proof -
    have "list_all text_char k \<and> spelled (list_all text_char) v" using 2(2) that by (auto simp: list_all_iff [of _ d])
    then show ?thesis using 2(1) [OF that refl] plain_string [of k] by simp
  qed
  then have "list_all plain (join [44, 32] (map (\<lambda>(k, v). json_string k @ [58, 32] @ render_line v) d))"
    by (intro list_all_join) auto
  then show ?case by simp
qed (simp_all add: plain_string plain_digits str_int_def lit_def)

lemma dumps_line_printable:
  assumes "dumps_line v = Inr t" and "spelled (list_all text_char) v"
  shows "printable t"
proof -
  have "t = ascii_escape (render_line (sorted_members v))" using assms(1) by (simp add: dumps_line_def split: list.splits)
  moreover have "list_all plain (render_line (sorted_members v))" using plain_line [OF spelled_sorted [OF assms(2)]] .
  ultimately show ?thesis using printable_ascii [of "render_line (sorted_members v)"] by (simp add: list_all_iff plain_def)
qed

end
