(* ===== verification/Engine_Registry.thy ===== *)
theory Engine_Registry
  imports Engine_Reads Json_Ascii
begin

text \<open>
  The registry mixin of the engine, \<open>runorg/execution_registry.py\<close>: binding of a run to its plan, lifecycle claims
  and the outbox of registry updates. \<open>en_registry\<close> tells whether a synchronizer is configured;
  \<open>Synchronize\<close> and \<open>ValidatePlan\<close> are its two methods.
\<close>

record engine =
  en_lib :: library
  en_order :: "ustr set \<Rightarrow> ustr list"
  en_registry :: bool

section \<open>The plan of a run\<close>

definition plan_to_json :: "library \<Rightarrow> execution_plan \<Rightarrow> ustr res" where
  "plan_to_json lb p =
     bind (to_envelope (lb_sha lb) p) (\<lambda>d.
     bind (dumps_ascii (JObj d)) (\<lambda>t. Inr (t @ [10])))"

definition bind_plan :: "engine \<Rightarrow> execution_plan \<Rightarrow> unit prog" where
  "bind_plan en p =
     bindp (if en_registry en then
              bindp (catch (ValidatePlan Done)
                 (\<lambda>_. fail (ValueError ''registered run identity could not be authenticated before submission''))) (\<lambda>valid.
              check valid (ValueError ''execution plan does not match the registered active run identity''))
            else give ()) (\<lambda>_.
     bindp (Done (plan_to_json (en_lib en) p)) (\<lambda>t.
     bindp (Publish (bound_plan_path p) t Done) (\<lambda>_.
     give ())))"

section \<open>Lifecycle claims\<close>

definition acquire_lifecycle :: "ustr \<Rightarrow> ustr prog" where
  "acquire_lifecycle operation =
     bindp (Acquire operation Done) (\<lambda>c.
     case c of
       None \<Rightarrow> fail (ValueError ''run lifecycle transition is in progress; control-plane mutation refused'')
     | Some x \<Rightarrow> give x)"

definition release_lifecycle :: "ustr \<Rightarrow> unit prog" where
  "release_lifecycle c = (if c = [] then give () else Release c Done)"

definition submission_claim_ids :: "ustr option list \<Rightarrow> ustr list" where
  "submission_claim_ids cs =
     sort (remdups (concat (map (\<lambda>c. case c of None \<Rightarrow> [] | Some x \<Rightarrow> if x = [] then [] else [x]) cs)))"

definition release_preinvocation_losers :: "submission_identity \<Rightarrow> ustr \<Rightarrow> unit prog" where
  "release_preinvocation_losers i owner =
     bindp (Matching (submit_operation i) Done) (\<lambda>matching.
     bindp (each (\<lambda>c. if c = owner then give ()
                      else bindp (attempt (release_lifecycle c)) (\<lambda>_. give ())) matching) (\<lambda>_.
     give ()))"

definition invocation_owner :: "engine \<Rightarrow> execution_plan \<Rightarrow> submission_identity \<Rightarrow> ustr option prog" where
  "invocation_owner en p i = look (\<lambda>fs. read_submission_invocation_claim_id (en_lib en) fs p i)"

definition release_if_not_invocation_owner :: "engine \<Rightarrow> execution_plan \<Rightarrow> submission_identity \<Rightarrow> ustr \<Rightarrow> unit prog" where
  "release_if_not_invocation_owner en p i claim =
     bindp (attempt (invocation_owner en p i)) (\<lambda>r.
     case r of
       Inl _ \<Rightarrow> give ()
     | Inr owner \<Rightarrow> if owner \<noteq> Some claim then release_lifecycle claim else give ())"

definition release_rejected_invocation_owner :: "engine \<Rightarrow> execution_plan \<Rightarrow> submission_identity \<Rightarrow> ustr \<Rightarrow> unit prog" where
  "release_rejected_invocation_owner en p i observer =
     bindp (invocation_owner en p i) (\<lambda>owner.
     bindp (case owner of None \<Rightarrow> give () | Some c \<Rightarrow> release_preinvocation_losers i c) (\<lambda>_.
     bindp (each release_lifecycle (submission_claim_ids [Some observer, owner])) (\<lambda>_.
     give ())))"

section \<open>The outbox\<close>

definition decode_update_text :: "library \<Rightarrow> ustr \<Rightarrow> registry_update res" where
  "decode_update_text lb t =
     bind (strict_json_object (lb_float lb) t ''pending registry update'') (\<lambda>d. decode_registry_update (JObj d))"

definition update_with_claims :: "registry_update \<Rightarrow> ustr list \<Rightarrow> registry_update res" where
  "update_with_claims u cs =
     update_post_init (u\<lparr>ru_lifecycle_claim_ids := sort (remdups (ru_lifecycle_claim_ids u @ filter (\<lambda>c. c \<noteq> []) cs))\<rparr>)"

text \<open>One round reads the outbox, joins and swaps; \<open>merge_outbox\<close> makes at most 32 rounds.\<close>

primrec merge_rounds :: "engine \<Rightarrow> ustr \<Rightarrow> registry_update \<Rightarrow> nat \<Rightarrow> ustr prog" where
  "merge_rounds en path u 0 = fail (RuntimeError ''registry outbox remained contended'')"
| "merge_rounds en path u (Suc n) =
     bindp (look (\<lambda>fs. Inr (fs path))) (\<lambda>current_text.
     bindp (Done (case current_text of None \<Rightarrow> Inr None | Some t \<Rightarrow> bind (decode_update_text (en_lib en) t) (\<lambda>c. Inr (Some c)))) (\<lambda>current.
     bindp (Done (bind (merge_registry_updates (en_order en) current u) (\<lambda>m. canonical_json (update_to_dict m)))) (\<lambda>merged_text.
     if current_text = Some merged_text then give merged_text
     else bindp (Swap path current_text (Some merged_text) Done) (\<lambda>swapped.
       if swapped then give merged_text else merge_rounds en path u n))))"

definition merge_outbox :: "engine \<Rightarrow> ustr \<Rightarrow> registry_update \<Rightarrow> ustr prog" where
  "merge_outbox en path u = merge_rounds en path u 32"

definition enqueue_registry_update :: "engine \<Rightarrow> execution_plan \<Rightarrow> registry_update \<Rightarrow> ustr list \<Rightarrow> unit prog" where
  "enqueue_registry_update en p u cs =
     (if \<not> en_registry en then bindp (each release_lifecycle cs) (\<lambda>_. give ())
      else
        bindp (Done (update_with_claims u cs)) (\<lambda>queued.
        bindp (merge_outbox en (pending_registry_path p (ru_stage_id queued) (ru_attempt queued)) queued) (\<lambda>_.
        give ())))"

primrec release_all :: "ustr list \<Rightarrow> bool prog" where
  "release_all [] = give True"
| "release_all (c # cs) =
     bindp (attempt (release_lifecycle c)) (\<lambda>r. case r of Inl _ \<Rightarrow> give False | Inr _ \<Rightarrow> release_all cs)"

definition sync_registry :: "engine \<Rightarrow> execution_plan \<Rightarrow> registry_update \<Rightarrow> ustr list \<Rightarrow> bool prog" where
  "sync_registry en p u cs =
     (if \<not> en_registry en then bindp (each release_lifecycle cs) (\<lambda>_. give True)
      else
        bindp (Done (update_with_claims u cs)) (\<lambda>u'.
        let path = pending_registry_path p (ru_stage_id u') (ru_attempt u') in
        bindp (merge_outbox en path u') (\<lambda>pending_text.
        bindp (attempt (bindp (Done (decode_update_text (en_lib en) pending_text)) (\<lambda>pending. Synchronize pending Done))) (\<lambda>r.
        if r \<noteq> Inr True then give False
        else
          bindp (Done (decode_update_text (en_lib en) pending_text)) (\<lambda>merged.
          bindp (release_all (ru_lifecycle_claim_ids merged)) (\<lambda>released.
          if \<not> released then give False else Swap path (Some pending_text) None Done))))))"

text \<open>One outbox file of the registry repair; \<open>n\<close> bounds the iterations of its loop.\<close>

primrec drain_outbox :: "engine \<Rightarrow> ustr \<Rightarrow> execution_plan \<Rightarrow> ustr \<Rightarrow> int \<Rightarrow> nat \<Rightarrow> bool prog" where
  "drain_outbox en h p stage_id a 0 = fail RecursionError"
| "drain_outbox en h p stage_id a (Suc n) =
     (let path = pending_registry_path p stage_id a in
      bindp (look (\<lambda>fs. Inr (fs path))) (\<lambda>text.
      case text of
        None \<Rightarrow> give True
      | Some t \<Rightarrow>
          bindp (Done (decode_update_text (en_lib en) t)) (\<lambda>u.
          bindp (check (ru_plan_sha256 u = h \<and> ru_stage_id u = stage_id \<and> ru_attempt u = a)
                   (ValueError ''pending registry update belongs to a different path identity'')) (\<lambda>_.
          bindp (attempt (Synchronize u Done)) (\<lambda>r.
          if r \<noteq> Inr True then give False
          else
            bindp (each release_lifecycle (ru_lifecycle_claim_ids u)) (\<lambda>_.
            bindp (Swap path (Some t) None Done) (\<lambda>_.
            drain_outbox en h p stage_id a n)))))))"

definition reconcile_registry :: "engine \<Rightarrow> ustr \<Rightarrow> execution_plan \<Rightarrow> nat \<Rightarrow> bool prog" where
  "reconcile_registry en h p n =
     (if \<not> en_registry en then give True
      else
        bindp (bind_plan en p) (\<lambda>_.
        bindp (each (\<lambda>s. bindp (Done (attempt_bound p s)) (\<lambda>bound.
           each (\<lambda>a. drain_outbox en h p (st_stage_id s) a n) [1..bound])) (pl_stages p)) (\<lambda>synced.
        give (list_all id (concat synced)))))"

end
