(* ===== verification/Engine_Submit.thy ===== *)
theory Engine_Submit
  imports Engine_Registry
begin

text \<open>
  Submission of an attempt, \<open>submit_stage\<close> and \<open>_submit_stage_claimed\<close> of \<open>runorg/execution_engine.py\<close>, and the
  follow-up generations of \<open>runorg/execution_followups.py\<close>. The two call each other; the depth of the calls is
  bounded by the number of stages.
\<close>

record submission_result =
  su_record :: submission_record
  su_submitted :: bool
  su_synced :: bool

definition inspect :: "(files \<Rightarrow> (receipt_spec \<Rightarrow> receipt_observation) \<Rightarrow> 'a res) \<Rightarrow> 'a prog" where
  "inspect f = bindp (Observe Done) (\<lambda>observe. look (\<lambda>fs. f fs observe))"

text \<open>\<open>except RuntimeError\<close> with its subclasses.\<close>

fun runtime_error :: "pyerr \<Rightarrow> bool" where
  "runtime_error (RuntimeError _) = True"
| "runtime_error (SubmissionUncertain _) = True"
| "runtime_error (SubmissionRejected _) = True"
| "runtime_error (DuplicateSubmissionError _) = True"
| "runtime_error RecursionError = True"
| "runtime_error _ = False"

definition unique_existing_job :: "submission_identity \<Rightarrow> ustr option prog" where
  "unique_existing_job i =
     bindp (Find (comment i) Done) (\<lambda>jobs.
     let unique = sort (remdups jobs) in
     if length unique > 1 then fail (DuplicateSubmissionError ''comment is attached to multiple Slurm jobs'')
     else give (if unique = [] then None else Some (hd unique)))"

definition array_indices :: "planned_task list \<Rightarrow> int list" where
  "array_indices ts = concat (map (\<lambda>t. case pt_array_index t of None \<Rightarrow> [] | Some k \<Rightarrow> [k]) ts)"

section \<open>The invocation of \<open>sbatch\<close>\<close>

definition invocation_marker :: "library \<Rightarrow> submission_identity \<Rightarrow> ustr \<Rightarrow> ustr \<Rightarrow> ustr res" where
  "invocation_marker lb i intent_text claim =
     bind (encode_utf8 intent_text) (\<lambda>b.
     canonical_json
       [(lit ''attempt'', JInt (si_attempt i)), (lit ''comment'', JStr (comment i)), (lit ''intent_sha256'', JStr (lb_sha lb b)),
        (lit ''lifecycle_claim_id'', JStr claim), (lit ''plan_sha256'', JStr (si_plan_sha256 i)), (lit ''schema_version'', JInt 1),
        (lit ''stage_id'', JStr (si_stage_id i))])"

text \<open>A definitive rejection: publish it, or recover the attempt when that fails.\<close>

definition record_rejection :: "execution_plan \<Rightarrow> submission_identity \<Rightarrow> planned_task list \<Rightarrow> ustr \<Rightarrow> submit_outcome
    \<Rightarrow> (ustr option \<times> bool) prog" where
  "record_rejection p i selected marker out =
     (case so_returncode out of
        None \<Rightarrow> fail (ValueError ''definitive rejection lacks a nonzero sbatch return code'')
      | Some rc \<Rightarrow>
          bindp (Done (rejection_post_init \<lparr>rj_identity = i, rj_task_ids = map pt_task_id selected,
             rj_task_indices = array_indices selected, rj_returncode = rc, rj_stdout = so_stdout out, rj_stderr = so_stderr out\<rparr>)) (\<lambda>r.
          bindp (Done (canonical_json (rejection_to_dict r))) (\<lambda>text.
          bindp (attempt (Publish (submission_rejection_path p i) text Done)) (\<lambda>written.
          case written of
            Inr _ \<Rightarrow> fail (SubmissionRejected ''sbatch rejected the request'')
          | Inl _ \<Rightarrow>
              bindp (attempt (look (\<lambda>fs. Inr (fs (submission_rejection_path p i))))) (\<lambda>persisted.
              case persisted of
                Inl _ \<Rightarrow> fail (SubmissionUncertain ''durable rejection evidence cannot be observed'')
              | Inr (Some t) \<Rightarrow>
                  if t = text then fail (SubmissionRejected ''sbatch rejected the request'')
                  else fail (SubmissionUncertain ''the rejection path contains conflicting evidence'')
              | Inr None \<Rightarrow>
                  bindp (Swap (submission_invocation_path p i) (Some marker) None Done) (\<lambda>cleared.
                  if \<not> cleared then fail (SubmissionUncertain ''the exact invocation marker could not be recovered'')
                  else fail (RuntimeError ''rejection evidence publication failed before becoming durable'')))))))"

text \<open>After a call that was not acknowledged with a job.\<close>

definition settle_outcome :: "execution_plan \<Rightarrow> submission_identity \<Rightarrow> planned_task list \<Rightarrow> ustr \<Rightarrow> submit_outcome res
    \<Rightarrow> (ustr option \<times> bool) prog" where
  "settle_outcome p i selected marker outcome =
     bindp (unique_existing_job i) (\<lambda>found.
     if found \<noteq> None then give (found, False)
     else
       case outcome of
         Inl _ \<Rightarrow> fail (SubmissionUncertain ''sbatch invocation outcome is unknown'')
       | Inr out \<Rightarrow>
           if so_status out = DEFINITELY_NOT_INVOKED then
             bindp (Swap (submission_invocation_path p i) (Some marker) None Done) (\<lambda>cleared.
             if \<not> cleared then fail (SubmissionUncertain ''pre-sbatch failure could not clear its exact invocation marker'')
             else fail (RuntimeError ''submission failed before sbatch invocation''))
           else if so_status out = DEFINITELY_REJECTED then record_rejection p i selected marker out
           else if so_status out \<noteq> INVOKED_OUTCOME_UNKNOWN then fail (ValueError ''backend returned an invalid post-invocation outcome'')
           else fail (SubmissionUncertain ''sbatch invocation outcome is unknown''))"

text \<open>The marker belongs to another holder, or its creation was not acknowledged.\<close>

definition marker_lost :: "engine \<Rightarrow> execution_plan \<Rightarrow> submission_identity \<Rightarrow> ustr \<Rightarrow> (ustr option \<times> bool) prog" where
  "marker_lost en p i claim =
     bindp (invocation_owner en p i) (\<lambda>_.
     bindp (release_if_not_invocation_owner en p i claim) (\<lambda>_.
     fail (SubmissionUncertain ''sbatch invocation is already owned'')))"

definition call_sbatch :: "execution_plan \<Rightarrow> submission_identity \<Rightarrow> planned_task list \<Rightarrow> submission_request \<Rightarrow> ustr \<Rightarrow> ustr
    \<Rightarrow> (ustr option \<times> bool) prog" where
  "call_sbatch p i selected request claim marker =
     bindp (release_preinvocation_losers i claim) (\<lambda>_.
     bindp (attempt (Invoke request Done)) (\<lambda>outcome.
     case outcome of
       Inr out \<Rightarrow> if so_status out = ACCEPTED then give (so_job_id out, True) else settle_outcome p i selected marker outcome
     | Inl _ \<Rightarrow> settle_outcome p i selected marker outcome))"

definition invoke_once :: "engine \<Rightarrow> execution_plan \<Rightarrow> submission_identity \<Rightarrow> planned_task list \<Rightarrow> submission_request \<Rightarrow> ustr \<Rightarrow> ustr
    \<Rightarrow> ustr option \<Rightarrow> (ustr option \<times> bool) prog" where
  "invoke_once en p i selected request intent_text claim owner =
     (if owner \<noteq> None then
        bindp (release_lifecycle claim) (\<lambda>_. fail (SubmissionUncertain ''sbatch invocation is already owned''))
      else
        bindp (Prepare request Done) (\<lambda>preparation.
        case preparation of
          Some out \<Rightarrow>
            if so_status out \<noteq> DEFINITELY_NOT_INVOKED then fail (ValueError ''submission preparation returned an invocation outcome'')
            else fail (RuntimeError ''submission preparation failed before sbatch'')
        | None \<Rightarrow>
            bindp (Done (invocation_marker (en_lib en) i intent_text claim)) (\<lambda>marker.
            bindp (attempt (Publish (submission_invocation_path p i) marker Done)) (\<lambda>created.
            case created of
              Inl e \<Rightarrow> if runtime_error e then marker_lost en p i claim else fail e
            | Inr b \<Rightarrow> if b then call_sbatch p i selected request claim marker else marker_lost en p i claim))))"

section \<open>Recording a submission\<close>

definition submission_update :: "engine \<Rightarrow> ustr \<Rightarrow> execution_plan \<Rightarrow> ustr \<Rightarrow> int \<Rightarrow> registry_update prog" where
  "submission_update en h p stage_id n =
     bindp (look (\<lambda>fs. all_recorded_job_ids (en_lib en) fs (en_order en) h p)) (\<lambda>jobs.
     let status = (if n > 1 then lit ''RETRYING'' else lit ''SUBMITTED'') in
     Done (update_post_init \<lparr>ru_plan_sha256 = h, ru_stage_id = stage_id, ru_stage_status = status, ru_execution_status = status,
       ru_job_ids = jobs, ru_attempt = n, ru_lifecycle_claim_ids = []\<rparr>))"

definition converge_submission :: "engine \<Rightarrow> ustr \<Rightarrow> execution_plan \<Rightarrow> (ustr \<Rightarrow> submission_record \<Rightarrow> submission_record list prog) \<Rightarrow> ustr
    \<Rightarrow> int \<Rightarrow> submission_record \<Rightarrow> bool \<Rightarrow> ustr list \<Rightarrow> submission_result prog" where
  "converge_submission en h p followups stage_id n record' submitted_now claim_ids =
     bindp (submission_update en h p stage_id n) (\<lambda>u.
     bindp (enqueue_registry_update en p u claim_ids) (\<lambda>_.
     bindp (if n > 1 then followups stage_id record' else give []) (\<lambda>_.
     bindp (sync_registry en p u claim_ids) (\<lambda>synced.
     give \<lparr>su_record = record', su_submitted = submitted_now, su_synced = synced\<rparr>))))"

definition record_submission :: "engine \<Rightarrow> ustr \<Rightarrow> execution_plan \<Rightarrow> (ustr \<Rightarrow> submission_record \<Rightarrow> submission_record list prog) \<Rightarrow> stage_spec
    \<Rightarrow> submission_identity \<Rightarrow> planned_task list \<Rightarrow> ustr list \<Rightarrow> ustr \<Rightarrow> ustr option \<Rightarrow> ustr option \<times> bool \<Rightarrow> submission_result prog" where
  "record_submission en h p followups s i selected deps claim owner outcome =
     (case outcome of (found, submitted_now) \<Rightarrow>
     bindp (unique_existing_job i) (\<lambda>scheduler_job.
     if scheduler_job \<noteq> None \<and> found \<noteq> None \<and> scheduler_job \<noteq> found
     then fail (DuplicateSubmissionError ''scheduler identity resolved to inconsistent jobs'')
     else
       case (if scheduler_job \<noteq> None then scheduler_job else found) of
         None \<Rightarrow> fail (SubmissionUncertain ''no numeric Slurm job ID can be proven'')
       | Some j \<Rightarrow>
           if \<not> isdigit j then fail (SubmissionUncertain ''no numeric Slurm job ID can be proven'')
           else
             bindp (Done (record_post_init \<lparr>sb_identity = i, sb_job_id = j, sb_task_ids = map pt_task_id selected,
                sb_task_indices = array_indices selected, sb_recovered = True, sb_dependency_mode = st_dependency_mode s,
                sb_dependency_job_ids = deps\<rparr>)) (\<lambda>record'.
             bindp (Done (canonical_json (record_to_dict record'))) (\<lambda>text.
             bindp (Publish (submission_record_path p i) text Done) (\<lambda>_.
             converge_submission en h p followups (st_stage_id s) (si_attempt i) record' submitted_now (submission_claim_ids [Some claim, owner]))))))"

text \<open>An attempt whose record exists is authenticated and its metadata repaired.\<close>

definition replay_submission :: "engine \<Rightarrow> ustr \<Rightarrow> execution_plan \<Rightarrow> (ustr \<Rightarrow> submission_record \<Rightarrow> submission_record list prog) \<Rightarrow> stage_spec
    \<Rightarrow> submission_identity \<Rightarrow> planned_task list \<Rightarrow> submission_record \<Rightarrow> ustr \<Rightarrow> submission_result prog" where
  "replay_submission en h p followups s i selected existing claim =
     bindp (look (\<lambda>fs. bind (committed_ordering_jobs (en_lib en) fs h p s i) (\<lambda>ord_ids.
       bind (build_submission_request p s i selected (sb_dependency_job_ids existing) ord_ids) (\<lambda>request.
       bind (submission_intent (lb_sha (en_lib en)) request) canonical_json)))) (\<lambda>expected_intent.
     bindp (look (\<lambda>fs. Inr (fs (submission_intent_path p i)))) (\<lambda>recorded_intent.
     bindp (check (recorded_intent = Some expected_intent)
              (ValueError ''submission record is missing its exact immutable pre-submit intent'')) (\<lambda>_.
     bindp (unique_existing_job i) (\<lambda>scheduler_job.
     bindp (check (scheduler_job = None \<or> scheduler_job = Some (sb_job_id existing))
              (DuplicateSubmissionError ''recorded job disagrees with scheduler job'')) (\<lambda>_.
     bindp (submission_update en h p (st_stage_id s) (si_attempt i)) (\<lambda>u.
     bindp (invocation_owner en p (sb_identity existing)) (\<lambda>owner.
     bindp (case owner of None \<Rightarrow> give () | Some c \<Rightarrow> release_preinvocation_losers (sb_identity existing) c) (\<lambda>_.
     let claim_ids = submission_claim_ids [Some claim, owner] in
     bindp (enqueue_registry_update en p u claim_ids) (\<lambda>_.
     bindp (look (\<lambda>fs. submission_records (en_lib en) fs h p s None)) (\<lambda>records.
     bindp (if records = [] then fail IndexError
            else if si_attempt i > 1 \<and> attempt_of (last records) = si_attempt i then followups (st_stage_id s) existing
            else give []) (\<lambda>_.
     bindp (sync_registry en p u claim_ids) (\<lambda>synced.
     give \<lparr>su_record = existing, su_submitted = False, su_synced = synced\<rparr>))))))))))))"

section \<open>Submission\<close>

definition durable_evidence :: "engine \<Rightarrow> ustr \<Rightarrow> execution_plan \<Rightarrow> stage_spec \<Rightarrow> int \<Rightarrow> bool prog" where
  "durable_evidence en h p s n = look (\<lambda>fs. attempt_has_durable_evidence (en_lib en) fs h p s n)"

definition authorize_attempt :: "engine \<Rightarrow> ustr \<Rightarrow> execution_plan \<Rightarrow> stage_spec \<Rightarrow> int \<Rightarrow> (ustr list \<times> ustr list) prog" where
  "authorize_attempt en h p s n =
     bindp (durable_evidence en h p s n) (\<lambda>durable.
     bindp (if durable then give () else inspect (\<lambda>fs observe. validate_afterok_dependencies (en_lib en) fs observe h p s)) (\<lambda>_.
     bindp (look (\<lambda>fs. dependency_jobs (en_lib en) fs h p s)) (\<lambda>jobs.
     bindp (look (\<lambda>fs. derive_attempt_authorization (en_lib en) fs h p s n jobs)) (\<lambda>(ids, deps).
     bindp (durable_evidence en h p s n) (\<lambda>durable'.
     bindp (if durable' then give ()
            else inspect (\<lambda>fs observe. validate_afterok_dependency_jobs (en_lib en) fs observe h p s deps)) (\<lambda>_.
     give (ids, deps)))))))"

definition submit_new :: "engine \<Rightarrow> ustr \<Rightarrow> execution_plan \<Rightarrow> (ustr \<Rightarrow> submission_record \<Rightarrow> submission_record list prog) \<Rightarrow> stage_spec
    \<Rightarrow> submission_identity \<Rightarrow> planned_task list \<Rightarrow> ustr list \<Rightarrow> ustr \<Rightarrow> submission_result prog" where
  "submit_new en h p followups s i selected deps claim =
     bindp (look (\<lambda>fs. read_submission_rejection (en_lib en) fs (submission_rejection_path p i))) (\<lambda>rejection.
     case rejection of
       Some r \<Rightarrow>
         bindp (check (rj_identity r = i \<and> rj_task_ids r = map pt_task_id selected)
                  (ValueError ''submission rejection path contains mismatched immutable evidence'')) (\<lambda>_.
         bindp (release_rejected_invocation_owner en p i claim) (\<lambda>_.
         fail (SubmissionRejected ''Slurm definitively rejected the attempt'')))
     | None \<Rightarrow>
         bindp (look (\<lambda>fs. prior_generation_jobs (en_lib en) fs h p s (si_attempt i))) (\<lambda>ord_ids.
         bindp (Done (build_submission_request p s i selected deps ord_ids)) (\<lambda>request.
         bindp (Done (bind (submission_intent (lb_sha (en_lib en)) request) canonical_json)) (\<lambda>intent_text.
         bindp (Publish (submission_intent_path p i) intent_text Done) (\<lambda>_.
         bindp (unique_existing_job i) (\<lambda>found.
         bindp (invocation_owner en p i) (\<lambda>owner.
         bindp (if found \<noteq> None then give (found, False) else invoke_once en p i selected request intent_text claim owner) (\<lambda>outcome.
         record_submission en h p followups s i selected deps claim owner outcome))))))))"

definition submit_stage_claimed :: "engine \<Rightarrow> ustr \<Rightarrow> execution_plan \<Rightarrow> (ustr \<Rightarrow> submission_record \<Rightarrow> submission_record list prog) \<Rightarrow> ustr \<Rightarrow> int
    \<Rightarrow> ustr list option \<Rightarrow> ustr \<Rightarrow> submission_result prog" where
  "submit_stage_claimed en h p followups stage_id n task_ids claim =
     bindp (bind_plan en p) (\<lambda>_.
     bindp (Done (stage_by_id p stage_id)) (\<lambda>s.
     bindp (Done (attempt_bound p s)) (\<lambda>bound.
     bindp (check (n \<le> bound) (ValueError ''attempt exceeds signed max_attempts bound'')) (\<lambda>_.
     bindp (Done (make_identity h s n)) (\<lambda>i.
     bindp (look (\<lambda>fs. submission_records (en_lib en) fs h p s None)) (\<lambda>records.
     let existing = find (\<lambda>r. attempt_of r = n) records in
     bindp (case existing of None \<Rightarrow> authorize_attempt en h p s n
            | Some r \<Rightarrow> give (sb_task_ids r, sb_dependency_job_ids r)) (\<lambda>(authorized, deps).
     bindp (check (task_ids = None \<or> task_ids = Some authorized)
              (ValueError ''requested task set differs from the signed attempt authorization'')) (\<lambda>_.
     bindp (Done (select_tasks s (Some authorized))) (\<lambda>selected.
     case existing of
       Some r \<Rightarrow> replay_submission en h p followups s i selected r claim
     | None \<Rightarrow> submit_new en h p followups s i selected deps claim)))))))))"

definition submit_stage_with :: "engine \<Rightarrow> ustr \<Rightarrow> execution_plan \<Rightarrow> (ustr \<Rightarrow> submission_record \<Rightarrow> submission_record list prog) \<Rightarrow> ustr \<Rightarrow> int
    \<Rightarrow> ustr list option \<Rightarrow> submission_result prog" where
  "submit_stage_with en h p followups stage_id n task_ids =
     bindp (Done (stage_by_id p stage_id)) (\<lambda>s.
     bindp (Done (attempt_bound p s)) (\<lambda>bound.
     bindp (check (n \<le> bound) (ValueError ''attempt exceeds signed max_attempts bound'')) (\<lambda>_.
     bindp (bind_plan en p) (\<lambda>_.
     bindp (durable_evidence en h p s n) (\<lambda>durable.
     bindp (if durable then give () else inspect (\<lambda>fs observe. validate_afterok_dependencies (en_lib en) fs observe h p s)) (\<lambda>_.
     bindp (Done (make_identity h s n)) (\<lambda>i.
     bindp (acquire_lifecycle (submit_operation i)) (\<lambda>claim.
     bindp (attempt (submit_stage_claimed en h p followups stage_id n task_ids claim)) (\<lambda>r.
     case r of
       Inr x \<Rightarrow> give x
     | Inl (SubmissionRejected m) \<Rightarrow> bindp (release_lifecycle claim) (\<lambda>_. fail (SubmissionRejected m))
     | Inl (SubmissionUncertain m) \<Rightarrow> fail (SubmissionUncertain m)
     | Inl e \<Rightarrow> bindp (release_if_not_invocation_owner en p i claim) (\<lambda>_. fail e))))))))))"

section \<open>Follow-ups\<close>

definition submit_dependency_followup :: "execution_plan \<Rightarrow> (ustr \<Rightarrow> int \<Rightarrow> submission_result prog) \<Rightarrow> ustr \<Rightarrow> int \<Rightarrow> submission_result prog" where
  "submit_dependency_followup p submit stage_id n =
     bindp (Done (stage_by_id p stage_id)) (\<lambda>s.
     bindp (check (st_depends_on s \<noteq> []) (ValueError ''a dependency follow-up must have signed dependencies'')) (\<lambda>_.
     bindp (check (n > 1) (ValueError ''a dependency follow-up generation must use attempt > 1'')) (\<lambda>_.
     submit stage_id n)))"

text \<open>Whether an \<open>afterok\<close> descendant may be rebound already.\<close>

definition followup_ready :: "library \<Rightarrow> files \<Rightarrow> ustr \<Rightarrow> execution_plan \<Rightarrow> ustr \<Rightarrow> submission_record \<Rightarrow> stage_spec \<Rightarrow> bool res" where
  "followup_ready lb fs h p retried r s =
     (if st_dependency_mode s \<noteq> lit ''afterok'' then Inr True
      else
        bind (mapR (\<lambda>d. bind (stage_at (by_id (pl_stages p)) d) (\<lambda>ds.
                latest_reconciliation_receipt lb fs (submission_records lb fs h p) h p ds)) (st_depends_on s)) (\<lambda>completions.
        bind (stage_by_id p retried) (\<lambda>rs.
        bind (latest_reconciliation_receipt lb fs (submission_records lb fs h p) h p rs) (\<lambda>completion.
        Inr ((case completion of None \<Rightarrow> False
              | Some q \<Rightarrow> rr_decision q = RECONCILE_COMPLETE \<and> attempt_of r \<le> rr_attempt q)
             \<and> list_all (\<lambda>c. case c of None \<Rightarrow> False | Some q \<Rightarrow> rr_decision q = RECONCILE_COMPLETE) completions)))))"

definition submit_covering :: "engine \<Rightarrow> ustr \<Rightarrow> execution_plan \<Rightarrow> (ustr \<Rightarrow> int \<Rightarrow> submission_result prog) \<Rightarrow> stage_spec
    \<Rightarrow> submission_record list \<Rightarrow> int \<Rightarrow> submission_record list prog" where
  "submit_covering en h p submit s records c =
     (if c \<in> attempt_of ` set records then give []
      else bindp (look (\<lambda>fs. earlier_generation_is_mid_submission (en_lib en) fs h p s c)) (\<lambda>mid.
        if mid then give []
        else bindp (submit_dependency_followup p submit (st_stage_id s) c) (\<lambda>x. give [su_record x])))"

text \<open>The outcome of the search for a generation: the submissions made (\<open>Inl\<close>), or the next attempt.\<close>

definition next_generation :: "engine \<Rightarrow> ustr \<Rightarrow> execution_plan \<Rightarrow> (ustr \<Rightarrow> int \<Rightarrow> submission_result prog) \<Rightarrow> stage_spec
    \<Rightarrow> submission_record list \<Rightarrow> int list \<Rightarrow> int option \<Rightarrow> (submission_record list + int) prog" where
  "next_generation en h p submit s records occupied existing =
     (let lb = en_lib en in
      case existing of
        None \<Rightarrow> give (Inr 1)
      | Some e \<Rightarrow>
          bindp (look (\<lambda>fs. followup_owns_attempt lb fs (submission_records lb fs h p) h p s e)) (\<lambda>owns.
          if \<not> owns then
            bindp (look (\<lambda>fs. dependency_jobs lb fs h p s)) (\<lambda>jobs.
            bindp (look (\<lambda>fs. covering_generation lb fs h p s records occupied e jobs)) (\<lambda>covering.
            case covering of
              Some c \<Rightarrow> bindp (submit_covering en h p submit s records c) (\<lambda>xs. give (Inl xs))
            | None \<Rightarrow> give (Inr 1)))
          else
            bindp (Done (make_identity h s e)) (\<lambda>i.
            bindp (look (\<lambda>fs. read_submission_rejection lb fs (submission_rejection_path p i))) (\<lambda>rejection.
            if rejection = None then
              bindp (look (\<lambda>fs. dependency_jobs lb fs h p s)) (\<lambda>jobs.
              bindp (look (\<lambda>fs. followup_binds lb fs h p s e jobs)) (\<lambda>binds.
              if binds then bindp (submit_dependency_followup p submit (st_stage_id s) e) (\<lambda>x. give (Inl [su_record x]))
              else
                bindp (look (\<lambda>fs. covering_generation lb fs h p s records occupied e jobs)) (\<lambda>covering.
                case covering of
                  Some c \<Rightarrow> bindp (submit_covering en h p submit s records c) (\<lambda>xs. give (Inl xs))
                | None \<Rightarrow> give (Inr (e + 1)))))
            else
              bindp (look (\<lambda>fs. bind (select_tasks s None) (\<lambda>ts.
                 next_unrejected_attempt lb fs (submission_records lb fs h p) h p s (e - 1) (map pt_task_id ts)))) (\<lambda>(next, rejected).
              bindp (each (\<lambda>i'. release_rejected_invocation_owner en p i' []) rejected) (\<lambda>_.
              give (Inr next)))))))"

definition authorize_generation :: "engine \<Rightarrow> ustr \<Rightarrow> execution_plan \<Rightarrow> (ustr \<Rightarrow> int \<Rightarrow> submission_result prog) \<Rightarrow> ustr
    \<Rightarrow> submission_record \<Rightarrow> stage_spec \<Rightarrow> int \<Rightarrow> submission_record list prog" where
  "authorize_generation en h p submit retried r s n =
     bindp (look (\<lambda>fs. earlier_generation_is_mid_submission (en_lib en) fs h p s n)) (\<lambda>mid.
     if mid then give []
     else
       bindp (look (\<lambda>fs. dependency_jobs (en_lib en) fs h p s)) (\<lambda>jobs.
       bindp (Done (canonical_json
          [(lit ''attempt'', JInt n), (lit ''dependency_job_ids'', jstrs jobs), (lit ''plan_sha256'', JStr h),
           (lit ''schema_version'', JInt 1), (lit ''stage_id'', JStr (st_stage_id s)),
           (lit ''trigger_job_id'', JStr (sb_job_id r)), (lit ''trigger_stage_id'', JStr retried)])) (\<lambda>text.
       bindp (Publish (reconciler_followup_path p (st_stage_id s) n) text Done) (\<lambda>_.
       bindp (submit_dependency_followup p submit (st_stage_id s) n) (\<lambda>x.
       give [su_record x])))))"

definition ensure_followup :: "engine \<Rightarrow> ustr \<Rightarrow> execution_plan \<Rightarrow> (ustr \<Rightarrow> int \<Rightarrow> submission_result prog) \<Rightarrow> ustr
    \<Rightarrow> submission_record \<Rightarrow> stage_spec \<Rightarrow> submission_record list prog" where
  "ensure_followup en h p submit retried r s =
     (if retried \<notin> set (st_depends_on s) then give []
      else
        bindp (look (\<lambda>fs. submission_records (en_lib en) fs h p s None)) (\<lambda>records.
        if records = [] then give []
        else
          bindp (look (\<lambda>fs. followup_ready (en_lib en) fs h p retried r s)) (\<lambda>ready.
          if \<not> ready then give []
          else
            bindp (Done (attempt_bound p s)) (\<lambda>bound.
            bindp (look (\<lambda>fs. occupied_generations (en_lib en) fs h p s retried (sb_job_id r) [1..bound])) (\<lambda>(occupied, existing).
            bindp (next_generation en h p submit s records occupied existing) (\<lambda>outcome.
            case outcome of
              Inl xs \<Rightarrow> give xs
            | Inr next \<Rightarrow>
                let n = max next (Max (set (0 # map attempt_of records @ occupied)) + 1) in
                bindp (check (n \<le> bound) (ValueError ''reconciler exhausted its signed attempt bound'')) (\<lambda>_.
                authorize_generation en h p submit retried r s n)))))))"

definition ensure_reconciler_followups :: "engine \<Rightarrow> ustr \<Rightarrow> execution_plan \<Rightarrow> (ustr \<Rightarrow> int \<Rightarrow> submission_result prog) \<Rightarrow> ustr
    \<Rightarrow> submission_record \<Rightarrow> submission_record list prog" where
  "ensure_reconciler_followups en h p submit retried r =
     bindp (Done (stage_by_id p retried)) (\<lambda>_.
     bindp (each (ensure_followup en h p submit retried r) (pl_stages p)) (\<lambda>xs.
     give (concat xs)))"

primrec submit_depth :: "engine \<Rightarrow> ustr \<Rightarrow> execution_plan \<Rightarrow> nat \<Rightarrow> ustr \<Rightarrow> int \<Rightarrow> ustr list option \<Rightarrow> submission_result prog" where
  "submit_depth en h p 0 stage_id n task_ids = fail RecursionError"
| "submit_depth en h p (Suc k) stage_id n task_ids =
     submit_stage_with en h p
       (ensure_reconciler_followups en h p (\<lambda>d m. submit_depth en h p k d m None)) stage_id n task_ids"

definition submit_stage :: "engine \<Rightarrow> ustr \<Rightarrow> execution_plan \<Rightarrow> ustr \<Rightarrow> int \<Rightarrow> ustr list option \<Rightarrow> submission_result prog" where
  "submit_stage en h p = submit_depth en h p (length (pl_stages p))"

definition submit_afterany_reconciler :: "engine \<Rightarrow> ustr \<Rightarrow> execution_plan \<Rightarrow> ustr \<Rightarrow> int \<Rightarrow> submission_result prog" where
  "submit_afterany_reconciler en h p stage_id n =
     bindp (Done (stage_by_id p stage_id)) (\<lambda>s.
     bindp (check (\<not> (st_dependency_mode s \<noteq> lit ''afterany'' \<or> st_depends_on s = []))
              (ValueError ''an explicit reconciler must have dependencies and dependency_mode afterany'')) (\<lambda>_.
     bindp (check (st_tasks s = []) (ValueError ''an explicit dependency reconciler must be a non-array stage'')) (\<lambda>_.
     submit_stage en h p stage_id n None)))"

definition submit_afterany_followup :: "engine \<Rightarrow> ustr \<Rightarrow> execution_plan \<Rightarrow> ustr \<Rightarrow> int \<Rightarrow> submission_result prog" where
  "submit_afterany_followup en h p stage_id n =
     bindp (Done (stage_by_id p stage_id)) (\<lambda>s.
     bindp (check (\<not> (st_dependency_mode s \<noteq> lit ''afterany'' \<or> st_depends_on s = []))
              (ValueError ''an afterany follow-up must have signed dependencies'')) (\<lambda>_.
     submit_dependency_followup p (\<lambda>d m. submit_stage en h p d m None) stage_id n))"

end
