(* ===== verification/Engine_Reconcile.thy ===== *)
theory Engine_Reconcile
  imports Engine_Submit
begin

text \<open>
  Reconciliation of a stage, \<open>reconcile_stage\<close> of \<open>runorg/execution_engine.py\<close>: the verdict of each task from its
  attempt files or from the scheduler, the decision for the stage and its receipt, the submission of the retry, the
  registry update and the follow-ups of dependent stages.
\<close>

section \<open>Verdicts of tasks\<close>

datatype verdict = SUCCESS | ACTIVE | RETRY | FAILED

text \<open>The verdict an attempt file records.\<close>

definition existing_verdict :: "library \<Rightarrow> stage_spec \<Rightarrow> planned_task \<Rightarrow> submission_record \<Rightarrow> ustr \<Rightarrow> (bool \<times> bool) res" where
  "existing_verdict lb s t r text =
     bind (rewrap ''malformed immutable task-attempt receipt''
             (bind (strict_json_object (lb_float lb) text ''task-attempt receipt'') (\<lambda>d. attempt_from_dict (JObj d)))) (\<lambda>existing.
     bind (ensure (\<not> (ta_identity existing \<noteq> sb_identity r \<or> ta_task_id existing \<noteq> pt_task_id t \<or> ta_job_id existing \<noteq> sb_job_id r))
             (ValueError ''task-attempt receipt identity mismatch'')) (\<lambda>_.
     authenticated_task_verdict (lb_upper lb) s t existing))"

text \<open>The receipt for a terminal state and trustworthy observations.\<close>

definition make_verdict :: "stage_spec \<Rightarrow> planned_task \<Rightarrow> submission_record \<Rightarrow> ustr \<Rightarrow> int option \<Rightarrow> receipt_observation list
    \<Rightarrow> task_attempt_receipt res" where
  "make_verdict s t r normalized exit_code observations =
     (let receipts_valid = all_match (pt_expected_receipts t) observations;
          successful = (normalized \<in> lit ` set SUCCESS_SLURM_STATES \<and> exit_code = Some 0 \<and> receipts_valid);
          retryable = (\<not> successful \<and> is_retryable s normalized exit_code receipts_valid)
      in attempt_post_init
        \<lparr>ta_identity = sb_identity r, ta_task_id = pt_task_id t, ta_array_index = pt_array_index t, ta_job_id = sb_job_id r,
         ta_slurm_state = normalized, ta_exit_code = exit_code, ta_receipt_observations = observations,
         ta_successful = successful, ta_retryable = retryable\<rparr>)"

fun reconcile_task :: "library \<Rightarrow> (ustr \<Rightarrow> slurm_task_state list) \<Rightarrow> execution_plan
    \<Rightarrow> stage_spec \<Rightarrow> planned_task \<Rightarrow> verdict \<Rightarrow> submission_record list \<Rightarrow> verdict prog" where
  "reconcile_task lb states p s t latest [] = give latest"
| "reconcile_task lb states p s t latest (r # rs) =
     bindp (look (\<lambda>fs. Inr (fs (task_attempt_path p (sb_identity r) (pt_task_id t))))) (\<lambda>existing.
     case existing of
       Some text \<Rightarrow>
         bindp (Done (existing_verdict lb s t r text)) (\<lambda>(successful, retryable).
         if successful then give SUCCESS
         else reconcile_task lb states p s t (if retryable then RETRY else FAILED) rs)
     | None \<Rightarrow>
         bindp (Done (task_state (lb_upper lb) t (states (sb_job_id r)))) (\<lambda>state.
         case state of
           None \<Rightarrow> reconcile_task lb states p s t ACTIVE rs
         | Some st \<Rightarrow>
             bindp (Done (normalized_state (lb_upper lb) st)) (\<lambda>normalized.
             if normalized \<notin> lit ` set TERMINAL_SLURM_STATES \<and> normalized \<noteq> lit ''MISSING''
             then reconcile_task lb states p s t ACTIVE rs
             else
               bindp (Observe Done) (\<lambda>observe.
               let observations = map observe (pt_expected_receipts t) in
               if list_ex (\<lambda>b. \<not> ob_trustworthy b) observations
               then reconcile_task lb states p s t ACTIVE rs
               else
                 bindp (Done (make_verdict s t r normalized (sl_exit_code st) observations)) (\<lambda>receipt.
                 bindp (Done (canonical_json (attempt_to_dict receipt))) (\<lambda>text.
                 bindp (Publish (task_attempt_path p (ta_identity receipt) (ta_task_id receipt)) text Done) (\<lambda>_.
                 if ta_successful receipt then give SUCCESS
                 else reconcile_task lb states p s t (if ta_retryable receipt then RETRY else FAILED) rs)))))))"

section \<open>The decision for a stage\<close>

record stage_decision =
  sd_decision :: ustr
  sd_successful :: "ustr list"
  sd_retryable :: "ustr list"
  sd_failed :: "ustr list"
  sd_active :: "ustr list"

definition reconcile_decision :: "(ustr \<times> verdict) list \<Rightarrow> bool \<Rightarrow> bool option \<Rightarrow> bool option \<Rightarrow> stage_decision" where
  "reconcile_decision vs exhausted task_receipts stage_receipts =
     (let pick = (\<lambda>v. map fst (filter (\<lambda>(_, v'). v' = v) vs));
          successful = pick SUCCESS; retryable = pick RETRY; failed = pick FAILED; active = pick ACTIVE;
          decide = (\<lambda>d r f a. \<lparr>sd_decision = d, sd_successful = successful, sd_retryable = r, sd_failed = f, sd_active = a\<rparr>)
      in if active \<noteq> [] then decide RECONCILE_WAIT retryable failed active
         else if failed \<noteq> [] then decide RECONCILE_FAILED [] (failed @ retryable) active
         else if retryable \<noteq> [] then
           (if exhausted then decide RECONCILE_FAILED [] (failed @ retryable) active
            else decide RECONCILE_RETRY retryable failed active)
         else (case task_receipts of
             None \<Rightarrow> decide RECONCILE_WAIT retryable failed (active @ [lit ''__current_task_receipts__''])
           | Some False \<Rightarrow> decide RECONCILE_FAILED retryable (failed @ [STAGE_RECEIPTS_SENTINEL]) active
           | Some True \<Rightarrow>
               (case stage_receipts of
                  None \<Rightarrow> decide RECONCILE_WAIT retryable failed (active @ [STAGE_RECEIPTS_SENTINEL])
                | Some False \<Rightarrow> decide RECONCILE_FAILED retryable (failed @ [STAGE_RECEIPTS_SENTINEL]) active
                | Some True \<Rightarrow> decide RECONCILE_COMPLETE retryable failed active)))"

text \<open>The attempt bound is consulted only for a retry, the output files only when all tasks succeeded.\<close>

definition decide_stage :: "execution_plan \<Rightarrow> stage_spec \<Rightarrow> (ustr \<times> verdict) list \<Rightarrow> int \<Rightarrow> stage_decision prog" where
  "decide_stage p s vs next_attempt =
     (if list_ex (\<lambda>(_, v). v = ACTIVE \<or> v = FAILED) vs then give (reconcile_decision vs False None None)
      else if list_ex (\<lambda>(_, v). v = RETRY) vs then
        bindp (Done (attempt_bound p s)) (\<lambda>bound. give (reconcile_decision vs (next_attempt > bound) None None))
      else
        bindp (Observe Done) (\<lambda>observe.
        bindp (Done (current_task_receipts_status observe s)) (\<lambda>task_receipts.
        bindp (Observe Done) (\<lambda>observe'.
        give (reconcile_decision vs False task_receipts (stage_receipts_valid observe' s))))))"

definition decision_receipt :: "ustr \<Rightarrow> stage_spec \<Rightarrow> int \<Rightarrow> stage_decision \<Rightarrow> reconciliation_receipt" where
  "decision_receipt h s n d =
     \<lparr>rr_plan_sha256 = h, rr_stage_id = st_stage_id s, rr_attempt = n, rr_decision = sd_decision d,
      rr_successful = sort (sd_successful d), rr_retry = sort (sd_retryable d), rr_failed = sort (sd_failed d),
      rr_active = [], rr_schema_version = 1\<rparr>"

text \<open>The records of the current generation.\<close>

definition generation_records :: "submission_record list \<Rightarrow> int option \<Rightarrow> submission_record list res" where
  "generation_records records start =
     (case start of
        None \<Rightarrow> Inr records
      | Some n \<Rightarrow>
          let kept = filter (\<lambda>r. n \<le> si_attempt (sb_identity r)) records in
          bind (ensure (kept \<noteq> []) (ValueError ''latest afterany generation has no accepted submission'')) (\<lambda>_. Inr kept))"

text \<open>The dictionary of scheduler states, one query per record; a later entry of the same job wins.\<close>

definition states_by_job :: "submission_record list \<Rightarrow> (ustr \<Rightarrow> slurm_task_state list) prog" where
  "states_by_job records =
     bindp (each (\<lambda>r. bindp (States (sb_job_id r) Done) (\<lambda>xs. give (sb_job_id r, xs))) records) (\<lambda>fetched.
     give (\<lambda>j. case map_of (rev fetched) j of None \<Rightarrow> [] | Some xs \<Rightarrow> xs))"

text \<open>From the authenticated records of the stage to its receipt. The result is the current generation, the decision,
  the attempt of the receipt and the next attempt.\<close>

definition reconcile_stage_evidence :: "engine \<Rightarrow> ustr \<Rightarrow> execution_plan \<Rightarrow> stage_spec \<Rightarrow> submission_record list
    \<Rightarrow> (submission_record list \<times> stage_decision \<times> int \<times> int) prog" where
  "reconcile_stage_evidence en h p s all_records =
     bindp (look (\<lambda>fs. latest_followup_attempt (en_lib en) fs (submission_records (en_lib en) fs h p) h p s)) (\<lambda>start.
     bindp (Done (generation_records all_records start)) (\<lambda>records.
     bindp (Done (select_tasks s None)) (\<lambda>ts.
     bindp (states_by_job records) (\<lambda>states.
     bindp (each (\<lambda>t. bindp (reconcile_task (en_lib en) states p s t FAILED
                               (filter (\<lambda>r. pt_task_id t \<in> set (sb_task_ids r)) records)) (\<lambda>v. give (pt_task_id t, v)))
              (sort_key pt_task_id ts)) (\<lambda>vs.
     let current = Max (attempt_of ` set records);
         retryable = map fst (filter (\<lambda>(_, v). v = RETRY) vs) in
     bindp (look (\<lambda>fs. next_unrejected_attempt (en_lib en) fs (submission_records (en_lib en) fs h p) h p s current (sort retryable)))
       (\<lambda>(next, rejected).
     let n = Max (insert current (si_attempt ` set rejected)) in
     bindp (each (\<lambda>i. release_rejected_invocation_owner en p i []) rejected) (\<lambda>_.
     bindp (decide_stage p s vs next) (\<lambda>d.
     if sd_decision d = RECONCILE_WAIT then give (records, d, n, next)
     else
       bindp (Done (reconciliation_post_init (decision_receipt h s n d))) (\<lambda>receipt.
       bindp (Done (canonical_json (reconciliation_to_dict receipt))) (\<lambda>text.
       bindp (Publish (reconciliation_path p (st_stage_id s) n) text Done) (\<lambda>_.
       give (records, d, n, next))))))))))))"

section \<open>Reconciliation\<close>

record reconcile_result =
  rs_decision :: ustr
  rs_stage_id :: ustr
  rs_attempt :: int
  rs_successful :: "ustr list"
  rs_retry :: "ustr list"
  rs_failed :: "ustr list"
  rs_active :: "ustr list"
  rs_retry_submission :: "submission_record option"
  rs_synced :: bool

definition decision_update :: "engine \<Rightarrow> ustr \<Rightarrow> execution_plan \<Rightarrow> ustr \<Rightarrow> ustr \<Rightarrow> int \<Rightarrow> registry_update prog" where
  "decision_update en h p stage_id decision n =
     inspect (\<lambda>fs observe.
       bind (execution_status (en_lib en) fs observe h p decision) (\<lambda>status.
       bind (all_recorded_job_ids (en_lib en) fs (en_order en) h p) (\<lambda>jobs.
       update_post_init \<lparr>ru_plan_sha256 = h, ru_stage_id = stage_id, ru_stage_status = decision, ru_execution_status = status,
         ru_job_ids = jobs, ru_attempt = n, ru_lifecycle_claim_ids = []\<rparr>)))"

text \<open>Only the latest record of a retried stage is worth a repair of its follow-ups.\<close>

definition repair_followups :: "engine \<Rightarrow> ustr \<Rightarrow> execution_plan \<Rightarrow> ustr \<Rightarrow> submission_record \<Rightarrow> submission_record list prog" where
  "repair_followups en h p stage_id r =
     (if attempt_of r > 1 then ensure_reconciler_followups en h p (\<lambda>d m. submit_stage en h p d m None) stage_id r
      else give [])"

definition submit_retries :: "engine \<Rightarrow> ustr \<Rightarrow> execution_plan \<Rightarrow> ustr \<Rightarrow> bool \<Rightarrow> stage_decision \<Rightarrow> int \<Rightarrow> submission_record option prog" where
  "submit_retries en h p stage_id submit_retry d next_attempt =
     (if sd_decision d = RECONCILE_RETRY \<and> submit_retry then
        bindp (submit_stage en h p stage_id next_attempt (Some (sort (sd_retryable d)))) (\<lambda>x. give (Some (su_record x)))
      else give None)"

definition reconcile_stage :: "engine \<Rightarrow> ustr \<Rightarrow> execution_plan \<Rightarrow> ustr \<Rightarrow> bool \<Rightarrow> reconcile_result prog" where
  "reconcile_stage en h p stage_id submit_retry =
     bindp (bind_plan en p) (\<lambda>_.
     bindp (Done (stage_by_id p stage_id)) (\<lambda>s.
     bindp (look (\<lambda>fs. submission_records (en_lib en) fs h p s None)) (\<lambda>all_records.
     bindp (check (all_records \<noteq> []) (ValueError ''stage has no submitted attempt to reconcile'')) (\<lambda>_.
     bindp (repair_followups en h p stage_id (last all_records)) (\<lambda>_.
     bindp (reconcile_stage_evidence en h p s all_records) (\<lambda>(records, d, n, next).
     bindp (submit_retries en h p stage_id submit_retry d next) (\<lambda>retry.
     let decision = (if retry \<noteq> None then RECONCILE_RETRY_SUBMITTED else sd_decision d) in
     bindp (decision_update en h p stage_id decision (case retry of None \<Rightarrow> n | Some r \<Rightarrow> attempt_of r)) (\<lambda>u.
     bindp (sync_registry en p u []) (\<lambda>synced.
     bindp (if decision = RECONCILE_COMPLETE then repair_followups en h p stage_id (last records) else give []) (\<lambda>_.
     give \<lparr>rs_decision = decision, rs_stage_id = stage_id, rs_attempt = n, rs_successful = sort (sd_successful d),
       rs_retry = sort (sd_retryable d), rs_failed = sort (sd_failed d), rs_active = sort (sd_active d),
       rs_retry_submission = retry, rs_synced = synced\<rparr>))))))))))"

end
