(* ===== verification/Evidence_Facts.thy ===== *)
theory Evidence_Facts
  imports Exec_Evidence
begin

text \<open>
  Lemmas on the evidence readers: which calls of the record reader each of them makes, that the
  recursion between them ends on every valid plan, and what the records and receipts they return
  are backed by.
\<close>

section \<open>Which records a reader asks for\<close>

text \<open>Two record readers agree on the dependencies of a stage.\<close>

definition agree_deps :: "execution_plan \<Rightarrow> stage_spec \<Rightarrow> record_reader \<Rightarrow> record_reader \<Rightarrow> bool" where
  "agree_deps p s f g \<longleftrightarrow>
     (\<forall>d \<in> set (st_depends_on s). \<forall>ds. stage_at (by_id (pl_stages p)) d = Inr ds \<longrightarrow> f ds None = g ds None)"

lemma agree_depsD:
  "agree_deps p s f g \<Longrightarrow> (d, j) \<in> set (zip (st_depends_on s) js) \<Longrightarrow> stage_at (by_id (pl_stages p)) d = Inr ds \<Longrightarrow> f ds None = g ds None"
  by (auto simp: agree_deps_def dest: set_zip_leftD)

lemma authenticate_cong:
  "agree_deps p s f g \<Longrightarrow>
   authenticate_followup_authorization lb fs f h p s n e = authenticate_followup_authorization lb fs g h p s n e"
  unfolding authenticate_followup_authorization_def Let_def
  by (intro bind_cong refl forR_cong) (auto intro!: bind_cong simp: agree_depsD)

lemma dependencies_cong:
  "agree_deps p s f g \<Longrightarrow> validate_record_dependencies f p s r e = validate_record_dependencies g p s r e"
  unfolding validate_record_dependencies_def
  by (intro bind_cong refl forR_cong) (auto intro!: bind_cong simp: agree_depsD)

lemma rewrap_eq_Inr [simp]: "rewrap l m = Inr x \<longleftrightarrow> m = Inr x"
  by (cases m) (auto simp: rewrap_def split: pyerr.splits)

lemma receipt_attempt: "reconciliation_from_dict h s n v = Inr r \<Longrightarrow> rr_attempt r = n"
  using reconciliation.decoded_canonical [of h s n v r] by (simp add: reconciliation.canonical_def reconciliation_sound_def)

lemma receipt_cong:
  assumes "f s (Some n) = g s (Some n)"
  shows "read_reconciliation_receipt lb fs f h p s n = read_reconciliation_receipt lb fs g h p s n"
proof -
  have "validate_task_evidence lb fs f p s r = validate_task_evidence lb fs g p s r" if "rr_attempt r = n" for r
    unfolding validate_task_evidence_def using assms that by simp
  then show ?thesis
    unfolding read_reconciliation_receipt_def
    by (auto split: option.splits intro!: bind_cong dest!: receipt_attempt)
qed

lemma contract_cong:
  assumes "agree_deps p s f g" and "n \<noteq> 1 \<Longrightarrow> f s (Some (n - 1)) = g s (Some (n - 1))"
  shows "committed_attempt_contract lb fs f h p s n = committed_attempt_contract lb fs g h p s n"
proof -
  have "ordinary_retry_task_ids lb fs f h p s n = ordinary_retry_task_ids lb fs g h p s n" if "n \<noteq> 1"
    unfolding ordinary_retry_task_ids_def using receipt_cong [of f s "n - 1" g lb fs h p] assms(2) that by simp
  then show ?thesis
    unfolding committed_attempt_contract_def using authenticate_cong [OF assms(1)] by (cases "n = 1") simp_all
qed

lemma attempt_record_cong:
  assumes "agree_deps p s f g" and "n \<noteq> 1 \<Longrightarrow> f s (Some (n - 1)) = g s (Some (n - 1))"
  shows "read_attempt_record lb fs f h p s n = read_attempt_record lb fs g h p s n"
proof -
  have c: "committed_attempt_contract lb fs f h p s n = committed_attempt_contract lb fs g h p s n"
    using assms by (rule contract_cong)
  show ?thesis unfolding read_attempt_record_def dependencies_cong [OF assms(1)] c by (rule refl)
qed

text \<open>The last attempt a call reads.\<close>

definition last_attempt :: "int option \<Rightarrow> int \<Rightarrow> int" where
  "last_attempt through bound = min (case through of None \<Rightarrow> bound | Some n \<Rightarrow> if n = 0 then bound else n) bound"

lemma records_step_cong:
  assumes "agree_deps p s f g" and "attempt_bound p s = Inr b"
    and "\<And>k. 1 \<le> k \<Longrightarrow> k < last_attempt through b \<Longrightarrow> f s (Some k) = g s (Some k)"
  shows "records_step lb fs h p f s through = records_step lb fs h p g s through"
proof -
  have "mapR (read_attempt_record lb fs f h p s) [1..last_attempt through b]
      = mapR (read_attempt_record lb fs g h p s) [1..last_attempt through b]"
    by (rule mapR_cong, rule attempt_record_cong [OF assms(1)]) (auto intro!: assms(3))
  then show ?thesis unfolding records_step_def assms(2) bind_Inr Let_def last_attempt_def by simp
qed

section \<open>The recursion ends\<close>

text \<open>The facts about a valid plan that the argument uses.\<close>

definition bound_of :: "execution_plan \<Rightarrow> ustr \<Rightarrow> int" where
  "bound_of p i = (case derived_attempt_bounds (pl_stages p) of Inl _ \<Rightarrow> 0 | Inr m \<Rightarrow> value_of m i)"

definition dep_edges :: "execution_plan \<Rightarrow> (ustr \<times> ustr) set" where
  "dep_edges p = edges (by_id (pl_stages p))"

definition below :: "execution_plan \<Rightarrow> ustr \<Rightarrow> ustr set" where
  "below p i = {d. (i, d) \<in> (dep_edges p)\<^sup>+}"

lemma stage_by_id_eq:
  assumes "distinct (stage_ids (pl_stages p))" and "s \<in> set (pl_stages p)"
  shows "stage_by_id p (st_stage_id s) = Inr s"
proof -
  have "find (\<lambda>t. st_stage_id t = st_stage_id s) ss = Some s" if "distinct (stage_ids ss)" "s \<in> set ss" for ss
    using that by (induction ss) (auto simp: stage_ids_def)
  then show ?thesis using assms by (simp add: stage_by_id_def)
qed

lemma plan_bounds:
  assumes "plan_ok p" and "plan_sound p"
  shows "\<exists>m. derived_attempt_bounds (pl_stages p) = Inr m \<and> dkeys m = set (stage_ids (pl_stages p))
    \<and> acyclic (dep_edges p) \<and> (\<forall>i \<in> dkeys m. 1 \<le> value_of m i)"
proof -
  have g: "graph_ok (pl_stages p)" using assms(1) by (simp add: plan_ok_def)
  then obtain order where order: "topological_stage_ids (pl_stages p) = Inr order" by (auto simp: graph_ok_def)
  have d: "distinct (stage_ids (pl_stages p))" "deps_known (pl_stages p)" "pl_stages p \<noteq> []"
    using g by (simp_all add: graph_ok_def)
  obtain m where m: "derived_attempt_bounds (pl_stages p) = Inr m" "bounds_ok (by_id (pl_stages p)) m"
    "dkeys m = set (stage_ids (pl_stages p))"
    using derived_bounds_result [OF d(1,2) order d(3)] by blast
  have t: "topo_ok (by_id (pl_stages p)) order" "set order = set (stage_ids (pl_stages p))"
    using topological_result [OF d(1,2)] order by auto
  have own: "1 \<le> own_attempts (by_id (pl_stages p)) i" if "i \<in> dkeys (by_id (pl_stages p))" for i
  proof -
    have "i \<in> set (stage_ids (pl_stages p))" using that by_id_dkeys [OF d(1)] by simp
    then obtain s where s: "s \<in> set (pl_stages p)" "i = st_stage_id s" by (auto simp: stage_ids_def)
    have "stage_sound s" using s(1) assms(2) stage_canonical_parts(2) by (auto simp: plan_sound_def)
    then have "retry.canonical (st_retry_policy s)" by (simp add: stage_sound_def)
    then show ?thesis using by_id_get [OF d(1) s(1)] s(2)
      by (auto simp: own_attempts_def retry.canonical_def retry_post_init_def)
  qed
  then have "1 \<le> value_of m i" if "i \<in> dkeys m" for i
    using bounds_lower [OF m(2) t(1), of i] own [of i] t(2) m(3) that d(1) by (force simp: by_id_dkeys)
  moreover have "acyclic (dep_edges p)"
    unfolding dep_edges_def using topo_ok_acyclic [OF t(1)] t(2) by_id_dkeys [OF d(1)] by simp
  ultimately show ?thesis using m by blast
qed

text \<open>How many unfoldings a call needs: its own attempts and those of all stages below.\<close>

definition need :: "execution_plan \<Rightarrow> ustr \<Rightarrow> int \<Rightarrow> nat" where
  "need p i n = nat n + (\<Sum>d \<in> below p i. nat (bound_of p d))"

lemma plan_graph:
  assumes "plan_ok p" and "plan_sound p"
  shows "s \<in> set (pl_stages p) \<Longrightarrow> attempt_bound p s = Inr (bound_of p (st_stage_id s)) \<and> 1 \<le> bound_of p (st_stage_id s)"
    and "s \<in> set (pl_stages p) \<Longrightarrow> d \<in> set (st_depends_on s) \<Longrightarrow> stage_at (by_id (pl_stages p)) d = Inr t \<Longrightarrow>
      t \<in> set (pl_stages p) \<and> st_stage_id t = d \<and> (st_stage_id s, d) \<in> dep_edges p"
    and "acyclic (dep_edges p)" and "below p i \<subseteq> set (stage_ids (pl_stages p))"
proof -
  obtain m where m: "derived_attempt_bounds (pl_stages p) = Inr m" "dkeys m = set (stage_ids (pl_stages p))"
    "acyclic (dep_edges p)" "\<forall>i \<in> dkeys m. 1 \<le> value_of m i"
    using plan_bounds [OF assms] by blast
  have d: "distinct (stage_ids (pl_stages p))" "deps_known (pl_stages p)" using assms(1) by (simp_all add: plan_ok_def graph_ok_def)
  show "acyclic (dep_edges p)" by (rule m(3))
  { assume s: "s \<in> set (pl_stages p)"
    then have k: "st_stage_id s \<in> dkeys m" using m(2) by (simp add: stage_ids_def)
    then obtain b where "dget m (st_stage_id s) = Some b" using dget_None_iff [of m "st_stage_id s"] by auto
    then show "attempt_bound p s = Inr (bound_of p (st_stage_id s)) \<and> 1 \<le> bound_of p (st_stage_id s)"
      using stage_by_id_eq [OF d(1) s] m(1,4) k by (auto simp: attempt_bound_def signed_attempt_bound_def bound_of_def value_of_def) }
  { assume s: "s \<in> set (pl_stages p)" "d \<in> set (st_depends_on s)" "stage_at (by_id (pl_stages p)) d = Inr t"
    have "(d, t) \<in> set (map (\<lambda>s. (st_stage_id s, s)) (pl_stages p))"
      using s(3) d(1) by (auto simp: stage_at_def dget_def by_id_distinct split: option.splits dest: map_of_SomeD)
    moreover have "(st_stage_id s, d) \<in> dep_edges p"
      using s(1,2) by_id_get [OF d(1)] by (auto simp: dep_edges_def edges_def deps_of_def)
    ultimately show "t \<in> set (pl_stages p) \<and> st_stage_id t = d \<and> (st_stage_id s, d) \<in> dep_edges p" by auto }
  have "d' \<in> set (stage_ids (pl_stages p))" if "(j, d') \<in> dep_edges p" for j d'
    using that closed_by_id [OF d] by_id_dkeys [OF d(1)] dget_None_iff [of "by_id (pl_stages p)" j]
    by (auto simp: dep_edges_def edges_def deps_of_def closed_def split: option.splits)
  then show "below p i \<subseteq> set (stage_ids (pl_stages p))" unfolding below_def by (auto elim: tranclE)
qed

lemma need_dep:
  assumes "plan_ok p" "plan_sound p" and "(i, d) \<in> dep_edges p" and "1 \<le> n"
  shows "need p d (bound_of p d) < need p i n"
proof -
  have "(d, d) \<notin> (dep_edges p)\<^sup>+" using plan_graph(3) [OF assms(1,2)] by (simp add: acyclic_def)
  then have new: "d \<notin> below p d" by (simp add: below_def)
  have fin: "finite (below p j)" for j using plan_graph(4) [OF assms(1,2)] by (rule finite_subset) simp
  have "insert d (below p d) \<subseteq> below p i" using assms(3) by (auto simp: below_def intro: trancl_into_trancl2)
  then have "(\<Sum>j \<in> insert d (below p d). nat (bound_of p j)) \<le> (\<Sum>j \<in> below p i. nat (bound_of p j))"
    by (intro sum_mono2 fin) auto
  then show ?thesis using new fin assms(4) by (simp add: need_def)
qed

lemma need_fuel:
  assumes "plan_ok p" "plan_sound p" and "s \<in> set (pl_stages p)"
  shows "need p (st_stage_id s) (bound_of p (st_stage_id s)) < evidence_fuel p"
proof -
  let ?i = "st_stage_id s"
  obtain m where m: "derived_attempt_bounds (pl_stages p) = Inr m" using plan_bounds [OF assms(1,2)] by blast
  have d: "distinct (stage_ids (pl_stages p))" using assms(1) by (simp add: plan_ok_def graph_ok_def)
  have new: "?i \<notin> below p ?i" using plan_graph(3) [OF assms(1,2)] by (auto simp: below_def acyclic_def)
  have "insert ?i (below p ?i) \<subseteq> set (stage_ids (pl_stages p))"
    using plan_graph(4) [OF assms(1,2), of ?i] assms(3) by (auto simp: stage_ids_def)
  then have "(\<Sum>j \<in> insert ?i (below p ?i). nat (bound_of p j)) \<le> (\<Sum>j \<in> set (stage_ids (pl_stages p)). nat (bound_of p j))"
    by (intro sum_mono2) auto
  moreover have "finite (below p ?i)" using plan_graph(4) [OF assms(1,2)] by (rule finite_subset) simp
  ultimately have "need p ?i (bound_of p ?i) \<le> (\<Sum>j \<in> set (stage_ids (pl_stages p)). nat (bound_of p j))"
    using new by (simp add: need_def)
  also have "\<dots> = (\<Sum>j \<leftarrow> stage_ids (pl_stages p). nat (value_of m j))"
    using d m by (simp add: sum_list_distinct_conv_sum_set bound_of_def)
  also have "\<dots> < evidence_fuel p" using m by (simp add: evidence_fuel_def)
  finally show ?thesis .
qed

text \<open>With enough unfoldings the result depends neither on their number nor on the answer below them.\<close>

lemma records_stable:
  assumes "plan_ok p" "plan_sound p" and "s \<in> set (pl_stages p)" and "through = None \<or> through = Some k \<and> 1 \<le> k"
    and "need p (st_stage_id s) (last_attempt through (bound_of p (st_stage_id s))) \<le> n"
    and "need p (st_stage_id s) (last_attempt through (bound_of p (st_stage_id s))) \<le> m"
  shows "records_from lb fs h p b n s through = records_from lb fs h p c m s through"
  using assms(3-)
proof (induction "need p (st_stage_id s) (last_attempt through (bound_of p (st_stage_id s)))" arbitrary: s through k n m rule: less_induct)
  case less
  let ?i = "st_stage_id s" let ?u = "last_attempt through (bound_of p ?i)"
  note bound = plan_graph(1) [OF assms(1,2) less.prems(1)]
  have u: "1 \<le> ?u" using less.prems(2) bound by (auto simp: last_attempt_def)
  then obtain n' m' where nm: "n = Suc n'" "m = Suc m'" using less.prems(3,4) by (cases n; cases m) (auto simp: need_def)
  have "agree_deps p s (records_from lb fs h p b n') (records_from lb fs h p c m')"
    unfolding agree_deps_def
  proof (intro ballI allI impI)
    fix d t assume d: "d \<in> set (st_depends_on s)" "stage_at (by_id (pl_stages p)) d = Inr t"
    note t = plan_graph(2) [OF assms(1,2) less.prems(1) d]
    have lt: "need p (st_stage_id t) (last_attempt None (bound_of p (st_stage_id t))) < need p ?i ?u"
      using need_dep [OF assms(1,2) _ u, of ?i d] t by (simp add: last_attempt_def)
    then show "records_from lb fs h p b n' t None = records_from lb fs h p c m' t None"
      using less.prems(3,4) nm t by (intro less.hyps [OF lt]) auto
  qed
  moreover have "records_from lb fs h p b n' s (Some j) = records_from lb fs h p c m' s (Some j)" if j: "1 \<le> j" "j < ?u" for j
  proof -
    have l: "last_attempt (Some j) (bound_of p ?i) = j" using j by (auto simp: last_attempt_def)
    have lt: "need p ?i (last_attempt (Some j) (bound_of p ?i)) < need p ?i ?u" using j unfolding l by (simp add: need_def)
    then show ?thesis using less.prems(1,3,4) nm j by (intro less.hyps [OF lt]) auto
  qed
  ultimately show ?case unfolding nm records_from.simps by (intro records_step_cong) (use bound in auto)
qed

lemma last_attempt_le: "1 \<le> b \<Longrightarrow> last_attempt t b \<le> b"
  by (simp add: last_attempt_def)

text \<open>The reader solves its own recursion equation.\<close>

lemma records_unfold:
  assumes "plan_ok p" "plan_sound p" "s \<in> set (pl_stages p)" and "through = None \<or> through = Some k \<and> 1 \<le> k"
  shows "evidence_fuel p \<le> n \<Longrightarrow> records_from lb fs h p b n s through = read_plan_submission_records lb fs h p s through"
    and "read_plan_submission_records lb fs h p s through = records_step lb fs h p (read_plan_submission_records lb fs h p) s through"
proof -
  let ?u = "last_attempt through (bound_of p (st_stage_id s))"
  have "need p (st_stage_id s) ?u \<le> need p (st_stage_id s) (bound_of p (st_stage_id s))"
    using last_attempt_le plan_graph(1) [OF assms(1-3)] by (auto simp: need_def intro!: nat_mono)
  then have le: "need p (st_stage_id s) ?u \<le> evidence_fuel p" using need_fuel [OF assms(1-3)] by simp
  show all: "records_from lb fs h p b n s through = read_plan_submission_records lb fs h p s through"
    if "evidence_fuel p \<le> n" for b n
    unfolding read_plan_submission_records_def using that le by (intro records_stable [OF assms]) simp_all
  show "read_plan_submission_records lb fs h p s through = records_step lb fs h p (read_plan_submission_records lb fs h p) s through"
    using all [of "Suc (evidence_fuel p)" "\<lambda>_ _. Inl RecursionError"] by (simp add: read_plan_submission_records_def)
qed

section \<open>What the records are backed by\<close>

lemma concatR_eq_Inr [simp]: "concatR m = Inr ys \<longleftrightarrow> (\<exists>xss. m = Inr xss \<and> ys = concat xss)"
  by (auto simp: concatR_def)

lemma make_identity_iff: "make_identity h s n = Inr i \<longleftrightarrow> i = \<lparr>si_plan_sha256 = h, si_stage_id = st_stage_id s, si_attempt = n\<rparr> \<and> identity_ok i"
  by (auto simp: make_identity_def)

lemma expect_iff [simp]: "expect e x l = Inr u \<longleftrightarrow> e = None \<or> e = Some x"
  by (simp add: expect_def)

text \<open>A record of attempt \<open>n\<close> of a stage, authenticated with the record reader \<open>recs\<close>.\<close>

definition authenticated :: "library \<Rightarrow> files \<Rightarrow> record_reader \<Rightarrow> ustr \<Rightarrow> execution_plan \<Rightarrow> stage_spec \<Rightarrow> submission_record \<Rightarrow> bool" where
  "authenticated lb fs recs h p s r \<longleftrightarrow>
     (\<exists>text v ids followup ts. fs (submission_record_path p (sb_identity r)) = Some text
        \<and> strict_json_object (lb_float lb) text ''submission record'' = Inr v \<and> record_from_dict (JObj v) = Inr r
        \<and> si_plan_sha256 (sb_identity r) = h \<and> si_stage_id (sb_identity r) = st_stage_id s
        \<and> committed_attempt_contract lb fs recs h p s (si_attempt (sb_identity r)) = Inr (ids, followup)
        \<and> select_tasks s (Some ids) = Inr ts
        \<and> sb_task_ids r = map pt_task_id ts \<and> sb_dependency_mode r = st_dependency_mode s
        \<and> validate_record_dependencies recs p s r followup = Inr ())"

lemma read_submission_record_iff:
  "read_submission_record lb fs path (Some i) (Some ids) (Some ns) (Some mode) None = Inr (Some r) \<longleftrightarrow>
     (\<exists>t v. fs path = Some t \<and> strict_json_object (lb_float lb) t ''submission record'' = Inr v \<and> record_from_dict (JObj v) = Inr r
        \<and> sb_identity r = i \<and> sb_task_ids r = ids \<and> sb_task_indices r = ns \<and> sb_dependency_mode r = mode)"
  by (cases "fs path") (auto simp: read_submission_record_def)

lemma attempt_record_inv:
  assumes "read_attempt_record lb fs recs h p s n = Inr rs"
  shows "rs = [] \<or> (\<exists>r. rs = [r] \<and> si_attempt (sb_identity r) = n \<and> authenticated lb fs recs h p s r)"
proof -
  obtain i where i: "make_identity h s n = Inr i" using assms by (auto simp: read_attempt_record_def)
  then have id: "i = \<lparr>si_plan_sha256 = h, si_stage_id = st_stage_id s, si_attempt = n\<rparr>" by (simp add: make_identity_iff)
  show ?thesis
  proof (cases "fs (submission_record_path p i) = None")
    case True
    with assms i show ?thesis by (simp add: read_attempt_record_def)
  next
    case False
    with assms i obtain ids followup ts res where c: "committed_attempt_contract lb fs recs h p s n = Inr (ids, followup)"
      "select_tasks s (Some ids) = Inr ts"
      "read_submission_record lb fs (submission_record_path p i) (Some i) (Some (map pt_task_id ts))
         (Some (concat (map (\<lambda>t. case pt_array_index t of None \<Rightarrow> [] | Some k \<Rightarrow> [k]) ts)))
         (Some (st_dependency_mode s)) None = Inr res"
      "(case res of None \<Rightarrow> Inl AssertionError
        | Some r \<Rightarrow> bind (validate_record_dependencies recs p s r followup) (\<lambda>_. Inr [r])) = Inr rs"
      by (auto simp: read_attempt_record_def)
    then obtain r where r: "res = Some r" "validate_record_dependencies recs p s r followup = Inr ()" "rs = [r]"
      by (cases res) auto
    have "authenticated lb fs recs h p s r"
      using c(3) c(1,2) r id unfolding r(1) read_submission_record_iff authenticated_def by auto
    moreover have "si_attempt (sb_identity r) = n" using c(3) id unfolding r(1) read_submission_record_iff by auto
    ultimately show ?thesis using r(3) by blast
  qed
qed

lemma attempts_inv:
  assumes "mapR (read_attempt_record lb fs recs h p s) ns = Inr rss" and "sorted_wrt (<) ns"
  shows "(\<forall>r \<in> set (concat rss). si_attempt (sb_identity r) \<in> set ns \<and> authenticated lb fs recs h p s r)
    \<and> sorted_wrt (<) (map (\<lambda>r. si_attempt (sb_identity r)) (concat rss))"
  using assms
proof (induction ns arbitrary: rss)
  case (Cons n ns)
  then obtain rs rss' where d: "rss = rs # rss'" "read_attempt_record lb fs recs h p s n = Inr rs"
    "mapR (read_attempt_record lb fs recs h p s) ns = Inr rss'" by auto
  from Cons.IH [OF d(3)] Cons.prems(2) attempt_record_inv [OF d(2)] d(1) show ?case
    by (auto simp: sorted_wrt_append)
qed simp

lemma records_step_inv:
  assumes "records_step lb fs h p recs s through = Inr rs" and "attempt_bound p s = Inr b"
  shows "\<forall>r \<in> set rs. si_attempt (sb_identity r) \<in> {1..last_attempt through b} \<and> authenticated lb fs recs h p s r"
    and "sorted_wrt (<) (map (\<lambda>r. si_attempt (sb_identity r)) rs)"
proof -
  obtain rss where "mapR (read_attempt_record lb fs recs h p s) [1..last_attempt through b] = Inr rss" "rs = concat rss"
    using assms by (auto simp: records_step_def Let_def last_attempt_def)
  then show "\<forall>r \<in> set rs. si_attempt (sb_identity r) \<in> {1..last_attempt through b} \<and> authenticated lb fs recs h p s r"
    "sorted_wrt (<) (map (\<lambda>r. si_attempt (sb_identity r)) rs)"
    using attempts_inv [of lb fs recs h p s "[1..last_attempt through b]" rss] by (simp_all add: sorted_wrt_upto)
qed

section \<open>What a completion receipt is backed by\<close>

text \<open>The evidence of success of a task: the attempt file of an accepted job, with a completed
  zero-exit state and matching observations of exactly the signed receipts.\<close>

definition proved_success :: "library \<Rightarrow> files \<Rightarrow> execution_plan \<Rightarrow> planned_task \<Rightarrow> submission_record \<Rightarrow> bool" where
  "proved_success lb fs p t r \<longleftrightarrow>
     (\<exists>text v item. fs (task_attempt_path p (sb_identity r) (pt_task_id t)) = Some text
        \<and> strict_json_object (lb_float lb) text ''task-attempt evidence'' = Inr v \<and> attempt_from_dict (JObj v) = Inr item
        \<and> ta_identity item = sb_identity r \<and> ta_task_id item = pt_task_id t \<and> ta_job_id item = sb_job_id r
        \<and> before_first 43 (upper (lb_upper lb) (strip (ta_slurm_state item))) = lit ''COMPLETED'' \<and> ta_exit_code item = Some 0
        \<and> map ob_path (ta_receipt_observations item) = map rc_path (pt_expected_receipts t)
        \<and> list_all2 receipt_matches (pt_expected_receipts t) (ta_receipt_observations item))"

lemma verdict_iff:
  "authenticated_task_verdict up s t r = Inr v \<longleftrightarrow>
     map ob_path (ta_receipt_observations r) = map rc_path (pt_expected_receipts t) \<and> v = (ta_successful r, ta_retryable r)
     \<and> ta_successful r = (before_first 43 (upper up (strip (ta_slurm_state r))) \<in> lit ` set SUCCESS_SLURM_STATES
          \<and> ta_exit_code r = Some 0 \<and> all_match (pt_expected_receipts t) (ta_receipt_observations r))
     \<and> ta_retryable r = (\<not> ta_successful r \<and> is_retryable s (before_first 43 (upper up (strip (ta_slurm_state r)))) (ta_exit_code r)
          (all_match (pt_expected_receipts t) (ta_receipt_observations r)))"
  unfolding authenticated_task_verdict_def Let_def bind_eq_Inr ensure_eq_Inr sum.inject by blast

lemma attempt_evidence_inv:
  assumes "attempt_evidence lb fs p s t r = Inr es" and "(item, v) \<in> set es" and "ta_successful item"
  shows "pt_task_id t \<in> set (sb_task_ids r) \<and> proved_success lb fs p t r"
proof -
  obtain tx where tx: "pt_task_id t \<in> set (sb_task_ids r)" "fs (task_attempt_path p (sb_identity r) (pt_task_id t)) = Some tx"
    using assms(1,2) by (auto simp: attempt_evidence_def split: if_splits option.splits)
  then obtain d where d: "strict_json_object (lb_float lb) tx ''task-attempt evidence'' = Inr d" "attempt_from_dict (JObj d) = Inr item"
    "ta_identity item = sb_identity r" "ta_task_id item = pt_task_id t" "ta_job_id item = sb_job_id r"
    "authenticated_task_verdict (lb_upper lb) s t item = Inr v"
    using assms(1,2) by (auto simp: attempt_evidence_def)
  from d(6) assms(3) have ok: "map ob_path (ta_receipt_observations item) = map rc_path (pt_expected_receipts t)"
    "before_first 43 (upper (lb_upper lb) (strip (ta_slurm_state item))) = lit ''COMPLETED''" "ta_exit_code item = Some 0"
    "all_match (pt_expected_receipts t) (ta_receipt_observations item)"
    by (auto simp: verdict_iff SUCCESS_SLURM_STATES_def)
  have "length (pt_expected_receipts t) = length (ta_receipt_observations item)" using ok(1) by (metis length_map)
  then have "list_all2 receipt_matches (pt_expected_receipts t) (ta_receipt_observations item)"
    using ok(4) by (auto simp: all_match_def list_all2_iff list_all_iff)
  with tx d ok show ?thesis unfolding proved_success_def by blast
qed

lemma check_success_inv:
  assumes "check_category lb fs p s records tasks (i, Success) = Inr x"
  shows "\<exists>t. task_at tasks i = Inr t \<and> (\<exists>r \<in> set records. pt_task_id t \<in> set (sb_task_ids r) \<and> proved_success lb fs p t r)"
proof -
  obtain t evs where t: "task_at tasks i = Inr t" "mapR (attempt_evidence lb fs p s t) records = Inr evs"
    "list_ex (\<lambda>(item, _). ta_successful item) (concat evs)"
    using assms by (auto simp: check_category_def Let_def)
  then obtain es item v where e: "es \<in> set evs" "(item, v) \<in> set es" "ta_successful item" by (auto simp: list_ex_iff)
  then obtain r where "r \<in> set records" "attempt_evidence lb fs p s t r = Inr es"
    using mapR_source [OF t(2) e(1)] by blast
  with attempt_evidence_inv e(2,3) t(1) show ?thesis by blast
qed

lemma planned_task_ids:
  assumes "stage.canonical s"
  shows "pt_task_id ` set (stage_planned s) = stage_task_ids s" "\<forall>i \<in> stage_task_ids s. ident_ok i"
  using stage_canonical_parts [OF assms]
  by (auto simp: stage_planned_def stage_task_ids_def stage_ok_def image_image task.canonical_def task_post_init_def split: option.splits)

lemma completed_receipt_inv:
  assumes "stage.canonical s" and "read_reconciliation_receipt lb fs recs h p s n = Inr (Some r)" and "rr_decision r = RECONCILE_COMPLETE"
  shows "\<exists>records. recs s (Some n) = Inr records
    \<and> (\<forall>t \<in> set (stage_planned s). \<exists>q \<in> set records. pt_task_id t \<in> set (sb_task_ids q) \<and> proved_success lb fs p t q)"
proof -
  obtain d where d: "reconciliation_from_dict h s n (JObj d) = Inr r" "validate_task_evidence lb fs recs p s r = Inr ()"
    using assms(2) by (auto simp: read_reconciliation_receipt_def split: option.splits)
  have cover: "set (rr_successful r) = stage_task_ids s" and n: "rr_attempt r = n"
    using reconciliation.decoded_canonical [OF d(1)] assms(3)
    by (auto simp: reconciliation.canonical_def reconciliation_sound_def validate_stage_coverage_def Let_def)
  obtain ts records vs where v: "select_tasks s None = Inr ts" "recs s (Some n) = Inr records"
    "mapR (check_category lb fs p s records (map (\<lambda>t. (pt_task_id t, t)) ts)) (receipt_categories r) = Inr vs"
    using d(2) n by (auto simp: validate_task_evidence_def)
  note sel = select_tasks_result [OF assms(1) v(1)] and pl = stage_planned_facts [OF assms(1)]
  have "\<exists>q \<in> set records. pt_task_id t \<in> set (sb_task_ids q) \<and> proved_success lb fs p t q" if t: "t \<in> set (stage_planned s)" for t
  proof -
    have "pt_task_id t \<in> stage_task_ids s"
      using t by (auto simp: stage_planned_def stage_task_ids_def split: if_splits option.splits)
    then have "(pt_task_id t, Success) \<in> set (receipt_categories r)" using cover by (simp add: receipt_categories_def)
    then obtain x where "check_category lb fs p s records (map (\<lambda>t. (pt_task_id t, t)) ts) (pt_task_id t, Success) = Inr x"
      using mapR_target [OF v(3)] by blast
    from check_success_inv [OF this] obtain t' where t': "t' \<in> set ts" "pt_task_id t' = pt_task_id t"
      "\<exists>q \<in> set records. pt_task_id t' \<in> set (sb_task_ids q) \<and> proved_success lb fs p t' q"
      using task_at_iff [OF sel(2)] by blast
    then have "t' = t" using t sel(3) pl(2) by (auto simp: distinct_map inj_on_def)
    with t'(3) show ?thesis by simp
  qed
  with v(2) show ?thesis by blast
qed

lemma latest_receipt_source:
  "latest_receipt_loop lb fs recs h p s f ns = Inr (Some r) \<Longrightarrow> \<exists>n \<in> set ns. read_reconciliation_receipt lb fs recs h p s n = Inr (Some r)"
  by (induction ns) (auto split: if_splits)

text \<open>The records that the reader accepts are submissions of the plan.\<close>

lemma records_identity:
  assumes "plan_ok p" "plan_sound p" and "s \<in> set (pl_stages p)" and "read_plan_submission_records lb fs h p s None = Inr rs"
    and "r \<in> set rs"
  shows "identity_ok (sb_identity r) \<and> si_plan_sha256 (sb_identity r) = h"
proof -
  obtain b where b: "attempt_bound p s = Inr b" using plan_graph(1) [OF assms(1-3)] by blast
  have "records_step lb fs h p (read_plan_submission_records lb fs h p) s None = Inr rs"
    using records_unfold(2) [OF assms(1-3), of None] assms(4) by simp
  note inv = records_step_inv [OF this b]
  show ?thesis using inv(1) assms(5) submission.decoded_canonical by (fastforce simp: authenticated_def submission.canonical_def)
qed

end
