(* ===== verification/Reconcile_Facts.thy ===== *)
theory Reconcile_Facts
  imports Engine_Reconcile Evidence_Facts
begin

text \<open>
  What one reconciliation does when it runs alone: files are only added, successes are final, the verdicts it
  writes authenticate, and the receipt of its decision is accepted by the readers.
\<close>

section \<open>Execution equations\<close>

lemma run_cases:
  "run dg b (case x of None \<Rightarrow> m | Some y \<Rightarrow> f y) = (case x of None \<Rightarrow> run dg b m | Some y \<Rightarrow> run dg b (f y))"
  "run dg b (case z of (u, v) \<Rightarrow> k u v) = (case z of (u, v) \<Rightarrow> run dg b (k u v))"
  "run dg b (if c then m else m') = (if c then run dg b m else run dg b m')"
  by (auto split: option.split prod.split)

lemma run_calls:
  "run dg b (Done r) = lift r" "run dg b (Observe Done) = ret (bk_observe b)" "run dg b (Publish q t Done) = write_immutable_text q t"
  by (auto simp: fun_eq_iff split: prod.split)

lemma andthen_ret: "andthen (ret x) f = f x"
  by (simp add: andthen_def fun_eq_iff)

lemmas run_simps = andthen_ret run_calls run_bindp run_primitives run_each run_cases

lemma run_reconcile_task:
  "run dg b (reconcile_task lb states p s t latest []) = ret latest"
  "run dg b (reconcile_task lb states p s t latest (r # rs)) =
     andthen (reads (\<lambda>fs. Inr (fs (task_attempt_path p (sb_identity r) (pt_task_id t))))) (\<lambda>existing.
     case existing of
       Some text \<Rightarrow>
         andthen (lift (existing_verdict lb s t r text)) (\<lambda>(successful, retryable).
         if successful then ret SUCCESS
         else run dg b (reconcile_task lb states p s t (if retryable then RETRY else FAILED) rs))
     | None \<Rightarrow>
         andthen (lift (task_state (lb_upper lb) t (states (sb_job_id r)))) (\<lambda>state.
         case state of
           None \<Rightarrow> run dg b (reconcile_task lb states p s t ACTIVE rs)
         | Some st \<Rightarrow>
             andthen (lift (normalized_state (lb_upper lb) st)) (\<lambda>normalized.
             if normalized \<notin> lit ` set TERMINAL_SLURM_STATES \<and> normalized \<noteq> lit ''MISSING''
             then run dg b (reconcile_task lb states p s t ACTIVE rs)
             else if list_ex (\<lambda>b. \<not> ob_trustworthy b) (map (bk_observe b) (pt_expected_receipts t))
               then run dg b (reconcile_task lb states p s t ACTIVE rs)
               else
                 andthen (lift (make_verdict s t r normalized (sl_exit_code st) (map (bk_observe b) (pt_expected_receipts t)))) (\<lambda>receipt.
                 andthen (lift (canonical_json (attempt_to_dict receipt))) (\<lambda>text.
                 andthen (write_immutable_text (task_attempt_path p (ta_identity receipt) (ta_task_id receipt)) text) (\<lambda>_.
                 if ta_successful receipt then ret SUCCESS
                 else run dg b (reconcile_task lb states p s t (if ta_retryable receipt then RETRY else FAILED) rs)))))))"
  by (simp_all only: reconcile_task.simps run_simps Let_def)

declare reconcile_task.simps [simp del] and run_reconcile_task [simp]

section \<open>Files are only added\<close>

definition grows :: "'a op \<Rightarrow> bool" where
  "grows m \<longleftrightarrow> (\<forall>w r w'. m w = (r, w') \<longrightarrow> extends (wd_files w) (wd_files w'))"

lemma grows_simps [simp]: "grows (ret x)" "grows (raise e)" "grows (lift m)" "grows (gets g)" "grows (reads f)"
  "grows (write_immutable_text q t)"
  by (auto simp: grows_def dest: write_extends)

lemma grows_andthen [intro]: "grows m \<Longrightarrow> (\<And>x. grows (f x)) \<Longrightarrow> grows (andthen m f)"
  unfolding grows_def andthen_def by (fastforce split: prod.splits sum.splits intro: extends_trans)

lemma grows_reconcile_task [simp]: "grows (run dg b (reconcile_task lb states p s t latest rs))"
  by (induction rs arbitrary: latest) (auto intro!: grows_andthen split: option.splits prod.splits simp: Let_def)

lemma grows_mapM [intro]: "(\<And>x. grows (f x)) \<Longrightarrow> grows (mapM f xs)"
  by (induction xs) (auto intro!: grows_andthen)

section \<open>Success is final\<close>

lemma reconcile_task_success:
  assumes "run dg b (reconcile_task lb states p s t latest rs) w = (Inr v, w')" and "r \<in> set rs"
    and "wd_files w (task_attempt_path p (sb_identity r) (pt_task_id t)) = Some text" and "existing_verdict lb s t r text = Inr (True, retry)"
  shows "v = SUCCESS"
  using assms
proof (induction rs arbitrary: latest w)
  case (Cons q rs)
  let ?q = "task_attempt_path p (sb_identity q) (pt_task_id t)"
  show ?case
  proof (cases "r = q")
    case True
    with Cons.prems show ?thesis by (simp add: andthen_def)
  next
    case False
    then have r: "r \<in> set rs" using Cons.prems(2) by simp
    have rest: "v = SUCCESS" if "run dg b (reconcile_task lb states p s t l rs) w1 = (Inr v, w')" "extends (wd_files w) (wd_files w1)" for l w1
      using Cons.IH [OF that(1) r _ Cons.prems(4)] that(2) Cons.prems(3) by (simp add: extends_def)
    show ?thesis
      using Cons.prems(1)
      by (auto simp: andthen_eq_Inr Let_def split: option.splits if_splits)
        (blast intro: rest extends_refl write_extends)+
  qed
qed simp

section \<open>Written verdicts authenticate\<close>

text \<open>What \<open>observe_receipt\<close> promises: an accepted observation of the path it was asked for.\<close>

definition observes :: "(receipt_spec \<Rightarrow> receipt_observation) \<Rightarrow> receipt_spec list \<Rightarrow> bool" where
  "observes observe specs \<longleftrightarrow> (\<forall>spec \<in> set specs. observation_post_init (observe spec) = Inr (observe spec) \<and> ob_path (observe spec) = rc_path spec)"

lemma terminal_stable:
  "n \<in> insert (lit ''MISSING'') (lit ` set TERMINAL_SLURM_STATES) \<Longrightarrow> before_first 43 (upper up (strip n)) = n"
  unfolding TERMINAL_SLURM_STATES_def
  by (auto simp: lit_def upper_def strip_def strip_by_def is_space_def before_first_def)

lemma make_verdict_fields:
  assumes "make_verdict s t r n e obs = Inr v"
  shows "ta_identity v = sb_identity r" "ta_task_id v = pt_task_id t" "ta_array_index v = pt_array_index t"
    "ta_job_id v = sb_job_id r" "ta_receipt_observations v = obs" "ta_slurm_state v = n" "ta_exit_code v = e"
    "attempt_post_init v = Inr v"
proof -
  have same: "attempt_post_init u = Inr v \<Longrightarrow> v = u" for u by (auto simp: attempt_post_init_def)
  note v = same [OF assms [unfolded make_verdict_def Let_def]]
  show "ta_identity v = sb_identity r" "ta_task_id v = pt_task_id t" "ta_array_index v = pt_array_index t"
    "ta_job_id v = sb_job_id r" "ta_receipt_observations v = obs" "ta_slurm_state v = n" "ta_exit_code v = e"
    by (simp_all add: v)
  show "attempt_post_init v = Inr v" by (rule attempt.idem [OF assms [unfolded make_verdict_def Let_def]])
qed

lemma make_verdict_authentic:
  assumes "make_verdict s t r n e (map (bk_observe b) (pt_expected_receipts t)) = Inr v" and "observes (bk_observe b) (pt_expected_receipts t)"
    and "n \<in> insert (lit ''MISSING'') (lit ` set TERMINAL_SLURM_STATES)" and "identity_ok (sb_identity r)"
  shows "attempt.canonical v" "authenticated_task_verdict up s t v = Inr (ta_successful v, ta_retryable v)"
proof -
  note f = make_verdict_fields [OF assms(1)]
  have "list_all ob_trustworthy (ta_receipt_observations v)" using f(8) by (auto simp: attempt_post_init_def)
  then show "attempt.canonical v"
    using f(1,5,8) assms(2,4) by (auto simp: attempt.canonical_def attempt_sound_def trusted_def observes_def list_all_iff)
  have "ta_successful v = (n \<in> lit ` set SUCCESS_SLURM_STATES \<and> e = Some 0 \<and> all_match (pt_expected_receipts t) (map (bk_observe b) (pt_expected_receipts t)))"
    "ta_retryable v = (\<not> ta_successful v \<and> is_retryable s n e (all_match (pt_expected_receipts t) (map (bk_observe b) (pt_expected_receipts t))))"
    using assms(1) by (auto simp: make_verdict_def Let_def attempt_post_init_def)
  moreover have "map ob_path (map (bk_observe b) (pt_expected_receipts t)) = map rc_path (pt_expected_receipts t)"
    using assms(2) by (simp add: observes_def)
  ultimately show "authenticated_task_verdict up s t v = Inr (ta_successful v, ta_retryable v)"
    unfolding verdict_iff using f(5-7) terminal_stable [OF assms(3)] by simp
qed

lemma verdict_is_evidence:
  assumes n: "n \<in> insert (lit ''MISSING'') (lit ` set TERMINAL_SLURM_STATES)"
    and m: "make_verdict s t q n e (map (bk_observe b) (pt_expected_receipts t)) = Inr item"
    and c: "canonical_json (attempt_to_dict item) = Inr tx" and "observes (bk_observe b) (pt_expected_receipts t)"
    and "identity_ok (sb_identity q)" and "pt_task_id t \<in> set (sb_task_ids q)"
    and st: "fs (task_attempt_path p (sb_identity q) (pt_task_id t)) = Some tx"
  shows "attempt_evidence lb fs p s t q = Inr [(item, ta_successful item, ta_retryable item)]"
proof -
  note auth = make_verdict_authentic [OF m assms(4) n assms(5)] and fields = make_verdict_fields [OF m]
  obtain d where "strict_json_object (lb_float lb) tx ''task-attempt evidence'' = Inr d" "attempt_from_dict (JObj d) = Inr item"
    using attempt_file.file_roundtrip [OF auth(1), of "lb_float lb" "''task-attempt evidence''"] c by auto
  then show ?thesis using assms(6) st auth fields by (simp add: attempt_evidence_def)
qed

lemma reconcile_task_frame:
  "run dg b (reconcile_task lb states p s t latest rs) w = (x, w') \<Longrightarrow>
   q \<notin> set (map (\<lambda>r. task_attempt_path p (sb_identity r) (pt_task_id t)) rs) \<Longrightarrow> wd_files w' q = wd_files w q"
proof (induction rs arbitrary: latest w)
  case (Cons r rs)
  let ?r = "task_attempt_path p (sb_identity r) (pt_task_id t)"
  have rest: "wd_files w' q = wd_files w q"
    if "run dg b (reconcile_task lb states p s t l rs) w1 = (x, w')" "wd_files w1 q = wd_files w q" for l w1
    using Cons.IH [OF that(1)] that(2) Cons.prems(2) by simp
  have wr: "wd_files w1 q = wd_files w q" if "write_immutable_text ?r tx w = (y, w1)" for tx y w1
    using that Cons.prems(2) by (auto simp: write_immutable_text_def split: if_splits option.splits)
  show ?case using Cons.prems(1) rest wr
    by (auto simp: andthen_def Let_def make_verdict_fields split: option.splits if_splits prod.splits sum.splits)
qed simp

text \<open>One record: its file decides, nothing is decided yet, or a new verdict is written.\<close>

lemma reconcile_task_Cons:
  assumes "run dg b (reconcile_task lb states p s t latest (q # rs)) w = (Inr v, w')"
  defines "path \<equiv> task_attempt_path p (sb_identity q) (pt_task_id t)"
  shows "(\<exists>l. run dg b (reconcile_task lb states p s t l rs) w = (Inr v, w')) \<or> (wd_files w path \<noteq> None \<and> w' = w)
    \<or> (wd_files w path = None \<and> (\<exists>n e item tx y w1 l. n \<in> insert (lit ''MISSING'') (lit ` set TERMINAL_SLURM_STATES)
        \<and> make_verdict s t q n e (map (bk_observe b) (pt_expected_receipts t)) = Inr item \<and> canonical_json (attempt_to_dict item) = Inr tx
        \<and> write_immutable_text path tx w = (Inr y, w1)
        \<and> (w1 = w' \<or> run dg b (reconcile_task lb states p s t l rs) w1 = (Inr v, w'))))"
proof (cases "wd_files w path")
  case (Some tx)
  with assms(1) show ?thesis by (auto simp: andthen_eq_Inr path_def split: if_splits)
next
  case None
  with assms(1) obtain state where st: "task_state (lb_upper lb) t (states (sb_job_id q)) = Inr state"
    by (auto simp: andthen_eq_Inr path_def)
  show ?thesis
  proof (cases state)
    case None
    with assms(1) st \<open>wd_files w path = None\<close> show ?thesis by (auto simp: andthen_eq_Inr path_def)
  next
    case (Some x)
    with assms(1) st None obtain n where n: "normalized_state (lb_upper lb) x = Inr n" by (auto simp: andthen_eq_Inr path_def)
    note now = assms(1) [unfolded run_reconcile_task, folded path_def]
    show ?thesis
    proof (cases "n \<notin> lit ` set TERMINAL_SLURM_STATES \<and> n \<noteq> lit ''MISSING'' \<or> list_ex (\<lambda>b. \<not> ob_trustworthy b) (map (bk_observe b) (pt_expected_receipts t))")
      case True
      have "run dg b (reconcile_task lb states p s t ACTIVE rs) w = (Inr v, w')"
        using now None st Some n True unfolding andthen_eq_Inr Let_def by (auto simp del: run_reconcile_task split: if_splits)
      then show ?thesis by blast
    next
      case False
      then obtain item tx y w1 where i: "make_verdict s t q n (sl_exit_code x) (map (bk_observe b) (pt_expected_receipts t)) = Inr item"
        "canonical_json (attempt_to_dict item) = Inr tx"
        "write_immutable_text (task_attempt_path p (ta_identity item) (ta_task_id item)) tx w = (Inr y, w1)"
        "(if ta_successful item then ret SUCCESS
          else run dg b (reconcile_task lb states p s t (if ta_retryable item then RETRY else FAILED) rs)) w1 = (Inr v, w')"
        using now None st Some n unfolding andthen_eq_Inr Let_def by (auto simp: andthen_eq_Inr simp del: run_reconcile_task)
      moreover have "write_immutable_text path tx w = (Inr y, w1)" using i(3) make_verdict_fields [OF i(1)] by (simp add: path_def)
      moreover have "w1 = w' \<or> (\<exists>l. run dg b (reconcile_task lb states p s t l rs) w1 = (Inr v, w'))"
        using i(4) by (auto simp del: run_reconcile_task split: if_splits)
      ultimately show ?thesis using None False by blast
    qed
  qed
qed

text \<open>A verdict file that reconciliation wrote is evidence with the same verdict.\<close>

lemma reconcile_task_writes:
  assumes "observes (bk_observe b) (pt_expected_receipts t)" and "\<forall>r \<in> set rs. identity_ok (sb_identity r) \<and> pt_task_id t \<in> set (sb_task_ids r)"
    and "distinct (map (\<lambda>r. task_attempt_path p (sb_identity r) (pt_task_id t)) rs)"
    and "run dg b (reconcile_task lb states p s t latest rs) w = (Inr v, w')" and "r \<in> set rs"
    and "wd_files w (task_attempt_path p (sb_identity r) (pt_task_id t)) = None"
    and "wd_files w' (task_attempt_path p (sb_identity r) (pt_task_id t)) \<noteq> None"
  shows "\<exists>item. attempt_evidence lb (wd_files w') p s t r = Inr [(item, ta_successful item, ta_retryable item)]"
  using assms(2-)
proof (induction rs arbitrary: latest w)
  case (Cons q rs)
  let ?p = "\<lambda>r. task_attempt_path p (sb_identity r) (pt_task_id t)"
  show ?case
  proof (cases "r = q")
    case False
    then have r: "r \<in> set rs" and ne: "?p r \<noteq> ?p q" using Cons.prems(2,4) by (auto simp: image_iff)
    have rest: ?thesis if "run dg b (reconcile_task lb states p s t l rs) w1 = (Inr v, w')" "wd_files w1 (?p r) = None" for l w1
      using Cons.IH [OF _ _ that(1) r that(2) Cons.prems(6)] Cons.prems(1,2) by simp
    have wr: "wd_files w1 (?p r) = None" if "write_immutable_text (?p q) tx w = (y, w1)" for tx y w1
      using that Cons.prems(5) ne by (auto simp: write_immutable_text_def split: if_splits option.splits)
    from reconcile_task_Cons [OF Cons.prems(3)] show ?thesis
    proof (elim disjE exE conjE)
      show ?thesis if "run dg b (reconcile_task lb states p s t l rs) w = (Inr v, w')" for l by (rule rest [OF that Cons.prems(5)])
      show ?thesis if "w' = w" using that Cons.prems(5,6) by simp
      show ?thesis if "write_immutable_text (?p q) tx w = (Inr y, w1)" "w1 = w'" for tx y w1 using wr [OF that(1)] that(2) Cons.prems(6) by simp
      show ?thesis if "write_immutable_text (?p q) tx w = (Inr y, w1)" "run dg b (reconcile_task lb states p s t l rs) w1 = (Inr v, w')" for tx y w1 l
        by (rule rest [OF that(2) wr [OF that(1)]])
    qed
  next
    case True
    have frame: "wd_files w' (?p q) = wd_files w1 (?p q)" if "run dg b (reconcile_task lb states p s t l rs) w1 = (Inr v, w')" for l w1
      using reconcile_task_frame [OF that] Cons.prems(2) by simp
    have q: "identity_ok (sb_identity q)" "pt_task_id t \<in> set (sb_task_ids q)" using Cons.prems(1) by simp_all
    note written = verdict_is_evidence [OF _ _ _ assms(1) q]
    from reconcile_task_Cons [OF Cons.prems(3)] show ?thesis
    proof (elim disjE exE conjE)
      show ?thesis if "run dg b (reconcile_task lb states p s t l rs) w = (Inr v, w')" for l
        using frame [OF that] Cons.prems(5,6) True by simp
      show ?thesis if "w' = w" using that Cons.prems(5,6) by simp
      show ?thesis
        if "n \<in> insert (lit ''MISSING'') (lit ` set TERMINAL_SLURM_STATES)"
          "make_verdict s t q n e (map (bk_observe b) (pt_expected_receipts t)) = Inr item" "canonical_json (attempt_to_dict item) = Inr tx"
          "write_immutable_text (?p q) tx w = (Inr y, w1)" "w1 = w'" for n e item tx y w1
        using written [OF that(1-3)] write_result [OF that(4)] that(5) True by blast
      show ?thesis
        if "n \<in> insert (lit ''MISSING'') (lit ` set TERMINAL_SLURM_STATES)"
          "make_verdict s t q n e (map (bk_observe b) (pt_expected_receipts t)) = Inr item" "canonical_json (attempt_to_dict item) = Inr tx"
          "write_immutable_text (?p q) tx w = (Inr y, w1)" "run dg b (reconcile_task lb states p s t l rs) w1 = (Inr v, w')" for n e item tx y w1 l
        using written [OF that(1-3)] write_result [OF that(4)] frame [OF that(5)] True by simp
    qed
  qed
qed simp

section \<open>The receipt of a decision is accepted\<close>

lemma sentinel_not_ident: "\<not> ident_ok STAGE_RECEIPTS_SENTINEL"
  by (simp add: ident_ok_def IDENTIFIER_RE_def STAGE_RECEIPTS_SENTINEL_def lit_def is_alnum_def)

text \<open>The shapes of a terminal decision.\<close>

lemma reconcile_decision_shapes:
  assumes "sd_decision d \<noteq> RECONCILE_WAIT" and "d = reconcile_decision vs x tr sr"
  defines "pick v \<equiv> map fst (filter (\<lambda>(_, v'). v' = v) vs)"
  shows "pick ACTIVE = []" and "sd_successful d = pick SUCCESS"
    and "(sd_decision d, sd_retryable d, sd_failed d) = (RECONCILE_FAILED, [], pick FAILED @ pick RETRY) \<and> pick FAILED @ pick RETRY \<noteq> []
    \<or> (sd_decision d, sd_retryable d, sd_failed d) = (RECONCILE_RETRY, pick RETRY, []) \<and> pick FAILED = [] \<and> pick RETRY \<noteq> []
    \<or> (sd_decision d, sd_retryable d, sd_failed d) = (RECONCILE_FAILED, [], [STAGE_RECEIPTS_SENTINEL]) \<and> pick FAILED = [] \<and> pick RETRY = []
    \<or> (sd_decision d, sd_retryable d, sd_failed d) = (RECONCILE_COMPLETE, [], []) \<and> pick FAILED = [] \<and> pick RETRY = []"
    and "sd_decision d = RECONCILE_COMPLETE \<Longrightarrow> tr = Some True \<and> sr = Some True"
  using assms(1) unfolding assms(2) reconcile_decision_def Let_def pick_def [symmetric]
  by (auto simp: reconcile_names split: if_splits option.splits bool.splits)

lemma accepted_shapes:
  fixes S R F :: "ustr list"
  assumes "SHA256_RE h" "ident_ok (st_stage_id s)" "1 \<le> n" "\<And>i. i \<in> stage_task_ids s \<Longrightarrow> ident_ok i \<and> i \<noteq> STAGE_RECEIPTS_SENTINEL"
    and "distinct S" "distinct R" "distinct F" "set S \<inter> set R = {}" "set S \<inter> set F = {}" "set R \<inter> set F = {}"
    and "set S \<union> set R \<union> set F = stage_task_ids s" and "sd_successful d = S"
    and "(sd_decision d, sd_retryable d, sd_failed d) = (RECONCILE_FAILED, [], F @ R) \<and> F @ R \<noteq> []
      \<or> (sd_decision d, sd_retryable d, sd_failed d) = (RECONCILE_RETRY, R, []) \<and> F = [] \<and> R \<noteq> []
      \<or> (sd_decision d, sd_retryable d, sd_failed d) = (RECONCILE_FAILED, [], [STAGE_RECEIPTS_SENTINEL]) \<and> F = [] \<and> R = []
      \<or> (sd_decision d, sd_retryable d, sd_failed d) = (RECONCILE_COMPLETE, [], []) \<and> F = [] \<and> R = []"
  shows "reconciliation_ok (decision_receipt h s n d) \<and> reconciliation_sound h s n (decision_receipt h s n d)"
proof -
  have srt: "sort xs = [] \<longleftrightarrow> xs = []" for xs :: "ustr list" by (metis set_empty set_sort)
  have fil: "filter (\<lambda>i. i \<noteq> STAGE_RECEIPTS_SENTINEL) xs = xs" if "set xs \<subseteq> stage_task_ids s" for xs
    using that assms(4) by (intro filter_True) auto
  have idl: "id_list_ok f (sort xs)" if "set xs \<subseteq> stage_task_ids s" "distinct xs" for f xs
    using that assms(4) by (auto simp: id_list_ok_def)
  have sent: "STAGE_RECEIPTS_SENTINEL \<notin> stage_task_ids s" using assms(4) by blast
  have sub: "set S \<subseteq> stage_task_ids s" "set R \<subseteq> stage_task_ids s" "set F \<subseteq> stage_task_ids s" using assms(11) by auto
  have one: "id_list_ok ''failed_task_ids'' [STAGE_RECEIPTS_SENTINEL]" by (simp add: id_list_ok_def)
  have nil: "id_list_ok f []" for f by (simp add: id_list_ok_def)
  note eval = reconciliation_ok_def reconciliation_sound_def decision_receipt_def validate_stage_coverage_def Let_def reconcile_names
  show ?thesis
    using assms(13)
  proof (elim disjE conjE)
    assume e: "(sd_decision d, sd_retryable d, sd_failed d) = (RECONCILE_FAILED, [], F @ R)" "F @ R \<noteq> []"
    have "distinct (sort S @ sort (F @ R))" using assms(5-10) by auto
    moreover have "set (sort S @ sort (F @ R)) \<subseteq> stage_task_ids s" using sub by auto
    ultimately show ?thesis using e assms(1-3,6-12) sub sent idl [of S] idl [of "F @ R"] fil [of "sort S @ sort (F @ R)"] nil srt
      by (auto simp: eval)
  next
    assume e: "(sd_decision d, sd_retryable d, sd_failed d) = (RECONCILE_RETRY, R, [])" "F = []" "R \<noteq> []"
    have "distinct (sort S @ sort R)" "set (sort S @ sort R) \<subseteq> stage_task_ids s" using assms(5-8) sub by auto
    then show ?thesis using e assms(1-3,5,6,11,12) sub idl [of S] idl [of R] fil [of "sort S @ sort R"] nil srt
      by (auto simp: eval)
  next
    assume e: "(sd_decision d, sd_retryable d, sd_failed d) = (RECONCILE_FAILED, [], [STAGE_RECEIPTS_SENTINEL])" "F = []" "R = []"
    then show ?thesis using assms(1-3,5,11,12) sub sent idl [of S] fil [of "sort S"] one nil by (auto simp: eval)
  next
    assume e: "(sd_decision d, sd_retryable d, sd_failed d) = (RECONCILE_COMPLETE, [], [])" "F = []" "R = []"
    then show ?thesis using assms(1-3,5,11,12) sub idl [of S] fil [of "sort S"] nil by (auto simp: eval)
  qed
qed

lemma decision_receipt_accepted:
  assumes "SHA256_RE h" and "ident_ok (st_stage_id s)" and "1 \<le> n" and "distinct (map fst vs)"
    and "set (map fst vs) = stage_task_ids s" and "\<forall>i \<in> stage_task_ids s. ident_ok i"
    and "sd_decision (reconcile_decision vs x tr sr) \<noteq> RECONCILE_WAIT"
  defines "r \<equiv> decision_receipt h s n (reconcile_decision vs x tr sr)"
  shows "reconciliation_ok r" "reconciliation_sound h s n r"
proof -
  let ?S = "map fst (filter (\<lambda>(_, v). v = SUCCESS) vs)" and ?R = "map fst (filter (\<lambda>(_, v). v = RETRY) vs)"
    and ?F = "map fst (filter (\<lambda>(_, v). v = FAILED) vs)" and ?A = "map fst (filter (\<lambda>(_, v). v = ACTIVE) vs)"
  have split: "mset (map fst vs) = mset (?S @ ?R @ ?F @ ?A)"
  proof (induction vs)
    case (Cons a vs)
    then show ?case by (cases a; cases "snd a") auto
  qed simp
  have dist: "distinct (?S @ ?R @ ?F @ ?A)" using split assms(4) by (metis mset_eq_imp_distinct_iff)
  have cover: "set ?S \<union> set ?R \<union> set ?F \<union> set ?A = stage_task_ids s" 
    using mset_eq_setD [OF split] assms(5) unfolding set_append by blast
  have ids: "i \<in> stage_task_ids s \<Longrightarrow> ident_ok i \<and> i \<noteq> STAGE_RECEIPTS_SENTINEL" for i using assms(6) sentinel_not_ident by auto
  let ?d = "reconcile_decision vs x tr sr"
  note sh = reconcile_decision_shapes [OF assms(7) refl]
  have noA: "?A = []" and succ: "sd_successful ?d = ?S" using sh(1,2) by simp_all
  have S: "distinct ?S" "distinct ?R" "distinct ?F" "set ?S \<inter> set ?R = {}" "set ?S \<inter> set ?F = {}" "set ?R \<inter> set ?F = {}"
    "set ?S \<union> set ?R \<union> set ?F = stage_task_ids s" using dist cover noA by (auto simp del: set_map filter_map)
  have "reconciliation_ok r \<and> reconciliation_sound h s n r"
    unfolding r_def by (rule accepted_shapes [OF assms(1-3) ids S succ sh(3)])
  then show "reconciliation_ok r" "reconciliation_sound h s n r" by simp_all
qed

section \<open>One reconciliation of a stage\<close>

lemma mapM_results: "mapM f xs w = (Inr ys, w') \<Longrightarrow> (\<And>x w y w'. x \<in> set xs \<Longrightarrow> f x w = (Inr y, w') \<Longrightarrow> g y = h x) \<Longrightarrow> map g ys = map h xs"
  by (induction xs arbitrary: w ys) (fastforce simp: andthen_eq_Inr)+

lemma mapM_run:
  assumes "mapM f xs w = (Inr ys, w')" and "x \<in> set xs" and "\<And>x. grows (f x)"
  shows "\<exists>w1 y w2. f x w1 = (Inr y, w2) \<and> y \<in> set ys \<and> extends (wd_files w) (wd_files w1)"
  using assms(1,2)
proof (induction xs arbitrary: w ys)
  case (Cons a xs)
  from Cons.prems(1) obtain y w1 zs where a: "f a w = (Inr y, w1)" "mapM f xs w1 = (Inr zs, w')" "ys = y # zs"
    by (auto simp: andthen_eq_Inr)
  show ?case
  proof (cases "x = a")
    case True
    then show ?thesis using a(1,3) by (intro exI [of _ w] exI [of _ y] exI [of _ w1]) auto
  next
    case False
    with Cons.IH [OF a(2)] Cons.prems(2) obtain w2 z w3 where "f x w2 = (Inr z, w3)" "z \<in> set zs" "extends (wd_files w1) (wd_files w2)"
      by auto
    moreover have "extends (wd_files w) (wd_files w1)" using assms(3) a(1) by (auto simp: grows_def)
    ultimately show ?thesis using a(3) by (metis extends_trans list.set_intros(2))
  qed
qed simp

text \<open>The scheduler states a reconciliation works with.\<close>

definition fetched_states :: "backend \<Rightarrow> submission_record list \<Rightarrow> ustr \<Rightarrow> slurm_task_state list" where
  "fetched_states b records j = (if j \<in> sb_job_id ` set records then bk_states b j else [])"

lemma mapM_pure: "(\<And>x w. f x w = (Inr (g x), w)) \<Longrightarrow> mapM f xs w = (Inr (map g xs), w)"
  by (induction xs) simp_all

lemma map_of_keys: "map_of (rev (map (\<lambda>x. (f x, g (f x))) xs)) j = (if j \<in> f ` set xs then Some (g j) else None)"
  by (induction xs) (auto simp: map_add_def)

lemma run_states [simp]: "run dg b (states_by_job records) = ret (fetched_states b records)"
proof
  fix w
  have "mapM (\<lambda>r. run dg b (bindp (States (sb_job_id r) Done) (\<lambda>xs. give (sb_job_id r, xs)))) records w
      = (Inr (map (\<lambda>r. (sb_job_id r, bk_states b (sb_job_id r))) records), w)"
    by (rule mapM_pure) simp
  then show "run dg b (states_by_job records) w = ret (fetched_states b records) w"
    unfolding states_by_job_def run_bindp run_each
    by (simp add: map_of_keys [of sb_job_id "bk_states b"] fetched_states_def fun_eq_iff del: bindp.simps run.simps run_bindp)
qed

lemma run_decide:
  assumes "run dg b (decide_stage p s vs nx) w = (Inr d, w')"
  shows "w' = w \<and> (\<exists>x tr sr. d = reconcile_decision vs x tr sr
      \<and> (tr = Some True \<and> sr = Some True \<longrightarrow> current_task_receipts_status (bk_observe b) s = Inr (Some True) \<and> stage_receipts_valid (bk_observe b) s = Some True))"
  using assms unfolding decide_stage_def run_simps
  by (auto simp: andthen_eq_Inr split: if_splits)

abbreviation reconcile_one :: "(ustr \<Rightarrow> ustr res) \<Rightarrow> backend \<Rightarrow> library \<Rightarrow> execution_plan
    \<Rightarrow> stage_spec \<Rightarrow> submission_record list \<Rightarrow> planned_task \<Rightarrow> (ustr \<times> verdict) op" where
  "reconcile_one dg b lb p s records t \<equiv>
     andthen (run dg b (reconcile_task lb (fetched_states b records) p s t FAILED (filter (\<lambda>r. pt_task_id t \<in> set (sb_task_ids r)) records)))
       (\<lambda>v. ret (pt_task_id t, v))"

lemma reconcile_stage_inv:
  assumes "run dg b (reconcile_stage_evidence en h p s all) w = (Inr (records, d, n, nx), w')"
  obtains start ts vs w1 x tr sr where
    "latest_followup_attempt (en_lib en) (wd_files w) (read_plan_submission_records (en_lib en) (wd_files w) h p) h p s = Inr start"
    "generation_records all start = Inr records" "select_tasks s None = Inr ts"
    "mapM (reconcile_one dg b (en_lib en) p s records) (sort_key pt_task_id ts) w = (Inr vs, w1)"
    "d = reconcile_decision vs x tr sr"
    "tr = Some True \<Longrightarrow> sr = Some True \<Longrightarrow> current_task_receipts_status (bk_observe b) s = Inr (Some True) \<and> stage_receipts_valid (bk_observe b) s = Some True"
    "sd_decision d \<noteq> RECONCILE_WAIT \<Longrightarrow> reconciliation_ok (decision_receipt h s n d)
       \<and> (\<exists>t. canonical_json (reconciliation_to_dict (decision_receipt h s n d)) = Inr t
            \<and> wd_files w' (reconciliation_path p (st_stage_id s) n) = Some t)"
proof -
  note shape = assms [unfolded reconcile_stage_evidence_def run_simps Let_def run_states andthen_eq_Inr submission_records_def]
  from shape obtain start ts vs w1 where a:
    "latest_followup_attempt (en_lib en) (wd_files w) (read_plan_submission_records (en_lib en) (wd_files w) h p) h p s = Inr start"
    "generation_records all start = Inr records" "select_tasks s None = Inr ts"
    "mapM (reconcile_one dg b (en_lib en) p s records) (sort_key pt_task_id ts) w = (Inr vs, w1)"
    by (auto simp: andthen_eq_Inr Let_def split: if_splits)
  from shape a obtain w2 w3 where c: "run dg b (decide_stage p s vs nx) w2 = (Inr d, w3)"
    "sd_decision d = RECONCILE_WAIT \<or> reconciliation_ok (decision_receipt h s n d) \<and>
      (\<exists>t y. canonical_json (reconciliation_to_dict (decision_receipt h s n d)) = Inr t
        \<and> write_immutable_text (reconciliation_path p (st_stage_id s) n) t w3 = (Inr y, w'))"
    by (auto simp: andthen_eq_Inr Let_def split: if_splits prod.splits)
  obtain x tr sr where d: "d = reconcile_decision vs x tr sr"
    "tr = Some True \<Longrightarrow> sr = Some True \<Longrightarrow> current_task_receipts_status (bk_observe b) s = Inr (Some True) \<and> stage_receipts_valid (bk_observe b) s = Some True"
    using run_decide [OF c(1)] by blast
  have "reconciliation_ok (decision_receipt h s n d) \<and> (\<exists>t. canonical_json (reconciliation_to_dict (decision_receipt h s n d)) = Inr t
       \<and> wd_files w' (reconciliation_path p (st_stage_id s) n) = Some t)" if "sd_decision d \<noteq> RECONCILE_WAIT"
    using c(2) that by (auto dest: write_result)
  with a d show thesis by (rule that)
qed

lemma reconcile_stage_tasks:
  assumes "stage.canonical s" and "select_tasks s None = Inr ts"
    and "mapM (reconcile_one dg b lb p s records) (sort_key pt_task_id ts) w = (Inr vs, w1)"
  shows "distinct (map fst vs)" "set (map fst vs) = stage_task_ids s" "\<forall>i \<in> stage_task_ids s. ident_ok i"
proof -
  note sel = select_tasks_result [OF assms(1,2)]
  note ids = planned_task_ids [OF assms(1)]
  have "map fst vs = map pt_task_id (sort_key pt_task_id ts)"
    by (rule mapM_results [OF assms(3)]) (auto simp: andthen_eq_Inr)
  with sel(2,5) ids show "distinct (map fst vs)" "set (map fst vs) = stage_task_ids s" by simp_all
  show "\<forall>i \<in> stage_task_ids s. ident_ok i" by (rule ids(2))
qed

end
