(* ===== verification/Engine_Logic.thy ===== *)
theory Engine_Logic
  imports Reconcile_Facts
begin

text \<open>
  What a coordinator may do around \<open>sbatch\<close>. \<open>know\<close> is what one coordinator can conclude from the answers it has
  received; \<open>wp\<close> demands that every call of a program is justified by this knowledge, for every answer. The rules:
  \<open>sbatch\<close> is called only after the own creation of the invocation marker was acknowledged; the marker is cleared and a
  rejection is published only after the scheduler has refused the call; a submission record names a job that the
  scheduler has shown. All programs of the engine follow the rules (\<open>tame\<close>).
\<close>

section \<open>Knowledge\<close>

datatype status = Free | Owned | Called | Refused | Rejecting

record know =
  kn_status :: "submission_identity \<Rightarrow> status"
  kn_jobs :: "(ustr \<times> ustr) set"

text \<open>The identities of the plan with digest \<open>h\<close>.\<close>

definition own_identity :: "ustr \<Rightarrow> submission_identity \<Rightarrow> bool" where
  "own_identity h i \<longleftrightarrow> identity_ok i \<and> si_plan_sha256 i = h"

definition set_status :: "submission_identity \<Rightarrow> status \<Rightarrow> know \<Rightarrow> know" where
  "set_status i x g = g\<lparr>kn_status := (kn_status g)(i := x)\<rparr>"

definition learn_jobs :: "(ustr \<times> ustr) set \<Rightarrow> know \<Rightarrow> know" where
  "learn_jobs js g = g\<lparr>kn_jobs := js \<union> kn_jobs g\<rparr>"

lemma know_simps [simp]:
  "kn_status (set_status i x g) = (kn_status g)(i := x)" "kn_jobs (set_status i x g) = kn_jobs g"
  "kn_status (learn_jobs js g) = kn_status g" "kn_jobs (learn_jobs js g) = js \<union> kn_jobs g"
  by (simp_all add: set_status_def learn_jobs_def)

text \<open>A look at the files: a rejection that is seen to be absent was not published.\<close>

definition seen :: "execution_plan \<Rightarrow> files res \<Rightarrow> know \<Rightarrow> know" where
  "seen p x g =
     (case x of
        Inl _ \<Rightarrow> g
      | Inr fs \<Rightarrow> g\<lparr>kn_status := \<lambda>i. if kn_status g i = Rejecting \<and> fs (submission_rejection_path p i) = None then Refused
                                      else kn_status g i\<rparr>)"

definition protected :: "execution_plan \<Rightarrow> ustr \<Rightarrow> ustr \<Rightarrow> bool" where
  "protected p h q \<longleftrightarrow> (\<exists>i. own_identity h i \<and>
     q \<in> {submission_invocation_path p i, submission_record_path p i, submission_rejection_path p i})"

definition record_names :: "submission_identity \<Rightarrow> ustr \<Rightarrow> (ustr \<times> ustr) set \<Rightarrow> bool" where
  "record_names i t js \<longleftrightarrow> (\<exists>r. record_post_init r = Inr r \<and> canonical_json (record_to_dict r) = Inr t \<and> sb_identity r = i
     \<and> (comment i, sb_job_id r) \<in> js)"

definition may_publish :: "execution_plan \<Rightarrow> ustr \<Rightarrow> ustr \<Rightarrow> ustr \<Rightarrow> know \<Rightarrow> bool" where
  "may_publish p h q t g \<longleftrightarrow> (\<forall>i. own_identity h i \<longrightarrow>
     (q = submission_rejection_path p i \<longrightarrow> kn_status g i = Refused)
     \<and> (q = submission_record_path p i \<longrightarrow> record_names i t (kn_jobs g)))"

definition published :: "execution_plan \<Rightarrow> ustr \<Rightarrow> ustr \<Rightarrow> bool res \<Rightarrow> know \<Rightarrow> know" where
  "published p h q r g = g\<lparr>kn_status := \<lambda>i.
     if own_identity h i \<and> q = submission_invocation_path p i \<and> r = Inr True then Owned
     else if own_identity h i \<and> q = submission_rejection_path p i then Rejecting
     else kn_status g i\<rparr>"

definition may_swap :: "execution_plan \<Rightarrow> ustr \<Rightarrow> ustr \<Rightarrow> ustr option \<Rightarrow> know \<Rightarrow> bool" where
  "may_swap p h q y g \<longleftrightarrow> (\<forall>i. own_identity h i \<longrightarrow>
     q \<noteq> submission_record_path p i \<and> q \<noteq> submission_rejection_path p i
     \<and> (q = submission_invocation_path p i \<longrightarrow> y = None \<and> kn_status g i = Refused))"

definition swapped :: "execution_plan \<Rightarrow> ustr \<Rightarrow> ustr \<Rightarrow> know \<Rightarrow> know" where
  "swapped p h q g = g\<lparr>kn_status := \<lambda>i. if own_identity h i \<and> q = submission_invocation_path p i then Free else kn_status g i\<rparr>"

definition refusal :: "submit_outcome res \<Rightarrow> bool" where
  "refusal x \<longleftrightarrow> (case x of Inl _ \<Rightarrow> False | Inr out \<Rightarrow> so_status out \<in> {DEFINITELY_NOT_INVOKED, DEFINITELY_REJECTED})"

definition accepted_job :: "submit_outcome res \<Rightarrow> ustr set" where
  "accepted_job x = (case x of Inl _ \<Rightarrow> {} | Inr out \<Rightarrow> if so_status out = ACCEPTED then set_option (so_job_id out) else {})"

definition answered :: "submission_identity \<Rightarrow> submit_outcome res \<Rightarrow> know \<Rightarrow> know" where
  "answered i x g = learn_jobs (Pair (comment i) ` accepted_job x) (set_status i (if refusal x then Refused else Called) g)"

section \<open>Rules\<close>

primrec wp :: "execution_plan \<Rightarrow> ustr \<Rightarrow> 'a prog \<Rightarrow> ('a res \<Rightarrow> know \<Rightarrow> bool) \<Rightarrow> know \<Rightarrow> bool" where
  "wp p h (Done r) Q g = Q r g"
| "wp p h (Look k) Q g = (\<forall>x. wp p h (k x) Q (seen p x g))"
| "wp p h (Observe k) Q g = (\<forall>x. wp p h (k x) Q g)"
| "wp p h (States j k) Q g = (\<forall>x. wp p h (k x) Q g)"
| "wp p h (Publish q t k) Q g = (may_publish p h q t g \<and> (\<forall>r. wp p h (k r) Q (published p h q r g)))"
| "wp p h (Swap q x y k) Q g = (may_swap p h q y g \<and> (\<forall>r. wp p h (k r) Q (swapped p h q g)))"
| "wp p h (Find c k) Q g = (\<forall>r. wp p h (k r) Q (case r of Inl _ \<Rightarrow> g | Inr js \<Rightarrow> learn_jobs (Pair c ` set js) g))"
| "wp p h (Prepare r k) Q g = (\<forall>x. wp p h (k x) Q g)"
| "wp p h (Invoke r k) Q g = (own_identity h (sr_identity r) \<and> kn_status g (sr_identity r) = Owned
     \<and> (\<forall>x. wp p h (k x) Q (answered (sr_identity r) x g)))"
| "wp p h (Acquire c k) Q g = (\<forall>x. wp p h (k x) Q g)"
| "wp p h (Release c k) Q g = (\<forall>x. wp p h (k x) Q g)"
| "wp p h (Matching c k) Q g = (\<forall>x. wp p h (k x) Q g)"
| "wp p h (ValidatePlan k) Q g = (\<forall>x. wp p h (k x) Q g)"
| "wp p h (Synchronize u k) Q g = (\<forall>x. wp p h (k x) Q g)"

lemma wp_bindp: "wp p h (bindp m f) Q g = wp p h m (\<lambda>r g'. case r of Inl e \<Rightarrow> Q (Inl e) g' | Inr x \<Rightarrow> wp p h (f x) Q g') g"
  by (induction m arbitrary: g) (auto split: sum.split)

lemma wp_attempt: "wp p h (attempt m) Q g = wp p h m (\<lambda>r. Q (Inr r)) g"
  by (induction m arbitrary: g) auto

lemma wp_mono: "wp p h m Q g \<Longrightarrow> (\<And>r g'. Q r g' \<Longrightarrow> Q' r g') \<Longrightarrow> wp p h m Q' g"
  by (induction m arbitrary: g) auto

lemma wp_give [simp]: "wp p h (give x) Q g = Q (Inr x) g" "wp p h (fail e) Q g = Q (Inl e) g"
  "wp p h (look f) Q g = (\<forall>x. Q (bind x f) (seen p x g))"
  by (simp_all add: give_def fail_def look_def)

lemma wp_check [simp]: "wp p h (check b e) Q g = Q (ensure b e) g"
  by (simp add: check_def)

section \<open>Programs without protected calls\<close>

primrec plain :: "execution_plan \<Rightarrow> ustr \<Rightarrow> 'a prog \<Rightarrow> bool" where
  "plain p h (Done r) = True"
| "plain p h (Look k) = (\<forall>x. plain p h (k x))"
| "plain p h (Observe k) = (\<forall>x. plain p h (k x))"
| "plain p h (States j k) = (\<forall>x. plain p h (k x))"
| "plain p h (Publish q t k) = (\<not> protected p h q \<and> (\<forall>x. plain p h (k x)))"
| "plain p h (Swap q a b k) = (\<not> protected p h q \<and> (\<forall>x. plain p h (k x)))"
| "plain p h (Find c k) = (\<forall>x. plain p h (k x))"
| "plain p h (Prepare r k) = (\<forall>x. plain p h (k x))"
| "plain p h (Invoke r k) = False"
| "plain p h (Acquire c k) = (\<forall>x. plain p h (k x))"
| "plain p h (Release c k) = (\<forall>x. plain p h (k x))"
| "plain p h (Matching c k) = (\<forall>x. plain p h (k x))"
| "plain p h (ValidatePlan k) = (\<forall>x. plain p h (k x))"
| "plain p h (Synchronize u k) = (\<forall>x. plain p h (k x))"

lemma plain_bindp [intro]: "plain p h m \<Longrightarrow> (\<And>x. plain p h (f x)) \<Longrightarrow> plain p h (bindp m f)"
  by (induction m) (auto split: sum.split)

lemma plain_simps [simp]: "plain p h (give x)" "plain p h (fail e)" "plain p h (check b e)" "plain p h (look f)" "plain p h (inspect f')"
  by (simp_all add: give_def fail_def check_def look_def inspect_def split: sum.split)

lemma plain_attempt [simp]: "plain p h (attempt m) = plain p h m"
  by (induction m) auto

lemma plain_each [intro]: "(\<And>x. plain p h (f x)) \<Longrightarrow> plain p h (each f xs)"
  by (induction xs) (simp_all add: plain_bindp)

text \<open>Such a program only adds jobs to the knowledge and resolves open publications.\<close>

definition relax :: "know \<Rightarrow> know \<Rightarrow> bool" where
  "relax g g' \<longleftrightarrow> kn_jobs g \<subseteq> kn_jobs g'
     \<and> (\<forall>i. kn_status g' i = kn_status g i \<or> (kn_status g i = Rejecting \<and> kn_status g' i = Refused))"

lemma relax_refl [simp]: "relax g g"
  by (simp add: relax_def)

lemma relax_trans: "relax g g' \<Longrightarrow> relax g' g'' \<Longrightarrow> relax g g''"
  unfolding relax_def by (metis (no_types, lifting) order_trans)

lemma relax_seen [simp]: "relax g (seen p x g)"
  by (auto simp: relax_def seen_def split: sum.splits)

lemma relax_learn [simp]: "relax g (learn_jobs js g)"
  by (auto simp: relax_def)

lemma unprotected [simp]:
  assumes "\<not> protected p h q"
  shows "may_publish p h q t g" "published p h q r g = g" "may_swap p h q y g" "swapped p h q g = g"
proof -
  have "own_identity h i \<Longrightarrow> q \<noteq> submission_invocation_path p i \<and> q \<noteq> submission_record_path p i \<and> q \<noteq> submission_rejection_path p i" for i
    using assms by (auto simp: protected_def)
  then have no: "(own_identity h i \<and> q = submission_invocation_path p i) = False" "(own_identity h i \<and> q = submission_record_path p i) = False"
    "(own_identity h i \<and> q = submission_rejection_path p i) = False" for i by blast+
  show "may_publish p h q t g" "may_swap p h q y g" unfolding may_publish_def may_swap_def using no by blast+
  show "published p h q r g = g" "swapped p h q g = g" unfolding published_def swapped_def conj_assoc [symmetric] no by simp_all
qed

lemma wp_plain: "plain p h m \<Longrightarrow> (\<And>r g'. relax g g' \<Longrightarrow> Q r g') \<Longrightarrow> wp p h m Q g"
proof (induction m arbitrary: g)
  case (Look k)
  have "wp p h (k x) Q (seen p x g)" for x
    using Look.IH [of "k x"] Look.prems relax_trans [OF relax_seen] by auto
  then show ?case by simp
next
  case (Find c k)
  have "wp p h (k r) Q (learn_jobs js g)" "wp p h (k r) Q g" for r js
    using Find.IH [of "k r"] Find.prems relax_trans [OF relax_learn] by auto
  then show ?case by (simp split: sum.split)
qed auto

section \<open>Tame programs\<close>

definition tame :: "execution_plan \<Rightarrow> ustr \<Rightarrow> 'a prog \<Rightarrow> bool" where
  "tame p h m \<longleftrightarrow> (\<forall>g. wp p h m (\<lambda>_ _. True) g)"

lemma tame_plain [simp]: "plain p h m \<Longrightarrow> tame p h m"
  by (simp add: tame_def wp_plain)

lemma tame_bindp [intro]: "tame p h m \<Longrightarrow> (\<And>x. tame p h (f x)) \<Longrightarrow> tame p h (bindp m f)"
  unfolding tame_def wp_bindp by (auto intro!: wp_mono [where Q = "\<lambda>_ _. True"] split: sum.split)

lemma tame_bind_Done: "(\<And>x. r = Inr x \<Longrightarrow> tame p h (f x)) \<Longrightarrow> tame p h (bindp (Done r) f)"
  by (cases r) simp_all

lemma tame_attempt [simp]: "tame p h (attempt m) = tame p h m"
  by (simp add: tame_def wp_attempt)

lemma tame_simps [simp]: "tame p h (Done r)" "tame p h (give x)" "tame p h (fail e)" "tame p h (check b e')" "tame p h (look f)"
  "tame p h (inspect f')"
  by simp_all

lemma tame_each [intro]: "(\<And>x. x \<in> set xs \<Longrightarrow> tame p h (f x)) \<Longrightarrow> tame p h (each f xs)"
  by (induction xs) (simp_all add: tame_bindp)

section \<open>The helpers of the engine are plain\<close>

lemma plain_release [simp]: "plain p h (release_lifecycle c)"
  by (simp add: release_lifecycle_def)

lemma plain_acquire [simp]: "plain p h (acquire_lifecycle c)"
  by (auto simp: acquire_lifecycle_def split: option.split sum.split)

lemma plain_losers [simp]: "plain p h (release_preinvocation_losers i c)"
  by (auto simp: release_preinvocation_losers_def intro!: plain_bindp plain_each split: sum.split)

lemma plain_owner [simp]: "plain p h (invocation_owner en p' i)"
  by (simp add: invocation_owner_def)

lemma plain_release_if_not_owner [simp]: "plain p h (release_if_not_invocation_owner en p' i c)"
  by (auto simp: release_if_not_invocation_owner_def intro!: plain_bindp split: sum.split)

lemma plain_release_rejected [simp]: "plain p h (release_rejected_invocation_owner en p' i c)"
  by (auto simp: release_rejected_invocation_owner_def intro!: plain_bindp plain_each split: option.split)

lemma plain_unique [simp]: "plain p h (unique_existing_job i)"
  by (simp add: unique_existing_job_def Let_def) (auto split: sum.split)

lemma plain_durable [simp]: "plain p h (durable_evidence en h' p' s n)"
  by (simp add: durable_evidence_def)

lemma plain_update [simp]: "plain p h (submission_update en h' p' s n)"
  by (auto simp: submission_update_def Let_def intro!: plain_bindp)

lemma plain_authorize [simp]: "plain p h (authorize_attempt en h' p' s n)"
  by (auto simp: authorize_attempt_def intro!: plain_bindp)

lemma plain_release_all [simp]: "plain p h (release_all cs)"
  by (induction cs) (auto intro!: plain_bindp split: sum.split)

text \<open>The other files of the engine are not protected.\<close>

definition valid_plan :: "execution_plan \<Rightarrow> bool" where
  "valid_plan p \<longleftrightarrow> plan_ok p \<and> plan_sound p"

lemma valid_path_inj: "valid_plan p \<Longrightarrow> file_ok h f \<Longrightarrow> file_ok h g \<Longrightarrow> file_path p f = file_path p g \<longleftrightarrow> f = g"
  by (simp add: valid_plan_def file_path_inj)

lemma unprotected_file:
  assumes "valid_plan p" "file_ok h f" and "\<forall>i. f \<notin> {Invocation i, Submission i, Rejection i}"
  shows "\<not> protected p h (file_path p f)"
proof
  assume "protected p h (file_path p f)"
  then obtain i where "own_identity h i"
    "file_path p f \<in> {submission_invocation_path p i, submission_record_path p i, submission_rejection_path p i}"
    by (auto simp: protected_def)
  then show False
    using assms valid_path_inj [OF assms(1,2), of "Invocation i"] valid_path_inj [OF assms(1,2), of "Submission i"]
      valid_path_inj [OF assms(1,2), of "Rejection i"] by (auto simp: own_identity_def)
qed

lemma unprotected_paths [simp]:
  assumes "valid_plan p"
  shows "\<not> protected p h (bound_plan_path p)" "own_identity h i \<Longrightarrow> \<not> protected p h (submission_intent_path p i)"
    "ident_ok x \<Longrightarrow> 1 \<le> n \<Longrightarrow> \<not> protected p h (pending_registry_path p x n)"
    "ident_ok x \<Longrightarrow> 1 \<le> n \<Longrightarrow> \<not> protected p h (reconciler_followup_path p x n)"
  using unprotected_file [OF assms, of h BoundPlan] unprotected_file [OF assms, of h "Intent i"]
    unprotected_file [OF assms, of h "PendingRegistry x n"] unprotected_file [OF assms, of h "Followup x n"]
  by (simp_all add: own_identity_def)

lemma distinct_paths:
  assumes "valid_plan p" "own_identity h i" "own_identity h j"
  shows "submission_invocation_path p i \<noteq> submission_record_path p j" "submission_invocation_path p i \<noteq> submission_rejection_path p j"
    "submission_record_path p i \<noteq> submission_rejection_path p j"
    "submission_invocation_path p i = submission_invocation_path p j \<longleftrightarrow> i = j"
    "submission_record_path p i = submission_record_path p j \<longleftrightarrow> i = j"
    "submission_rejection_path p i = submission_rejection_path p j \<longleftrightarrow> i = j"
  using valid_path_inj [OF assms(1), of h "Invocation i" "Submission j"] valid_path_inj [OF assms(1), of h "Invocation i" "Rejection j"]
    valid_path_inj [OF assms(1), of h "Submission i" "Rejection j"] valid_path_inj [OF assms(1), of h "Invocation i" "Invocation j"]
    valid_path_inj [OF assms(1), of h "Submission i" "Submission j"] valid_path_inj [OF assms(1), of h "Rejection i" "Rejection j"] assms
  by (simp_all add: own_identity_def)

lemma plain_bind_plan [simp]: "valid_plan p \<Longrightarrow> plain p h (bind_plan en p)"
  by (auto simp: bind_plan_def catch_def intro!: plain_bindp split: sum.split)

lemma update_key_kept:
  "update_post_init u = Inr v \<Longrightarrow> ru_stage_id v = ru_stage_id u \<and> ru_attempt v = ru_attempt u \<and> ident_ok (ru_stage_id u) \<and> 1 \<le> ru_attempt u"
  by (auto simp: update_post_init_def)

lemma plain_merge [simp]: "\<not> protected p h path \<Longrightarrow> plain p h (merge_outbox en path u)"
proof -
  assume path: "\<not> protected p h path"
  have "plain p h (merge_rounds en path u n)" for n
    by (induction n) (auto simp: path intro!: plain_bindp split: sum.split)
  then show ?thesis by (simp add: merge_outbox_def)
qed

lemma plain_enqueue [simp]: "valid_plan p \<Longrightarrow> plain p h (enqueue_registry_update en p u cs)"
  by (auto simp: enqueue_registry_update_def update_with_claims_def dest!: update_key_kept intro!: plain_bindp plain_each split: sum.split)

lemma plain_sync [simp]: "valid_plan p \<Longrightarrow> plain p h (sync_registry en p u cs)"
  by (auto simp: sync_registry_def update_with_claims_def Let_def dest!: update_key_kept intro!: plain_bindp plain_each split: sum.split)

section \<open>Around the invocation\<close>

lemma wp_unique:
  assumes "\<And>r g'. relax g g' \<Longrightarrow> (\<And>j. r = Inr (Some j) \<Longrightarrow> (comment i, j) \<in> kn_jobs g') \<Longrightarrow> Q r g'"
  shows "wp p h (unique_existing_job i) Q g"
proof -
  have hd: "hd (sort (remdups js)) \<in> set js" if "js \<noteq> []" for js :: "ustr list"
    using that by (metis hd_in_set remdups_eq_nil_iff set_empty set_remdups set_sort)
  have none: "Q (Inl e) g'" if "relax g g'" for e g' using assms that by blast
  have some: "Q (Inr (if js = [] then None else Some (hd (sort (remdups js))))) (learn_jobs (Pair (comment i) ` set js) g)" for js
    using hd [of js] by (intro assms) (auto split: if_splits)
  have empty: "sort (remdups js) = [] \<longleftrightarrow> js = []" for js :: "ustr list" by (metis remdups_eq_nil_iff set_empty set_sort)
  show ?thesis
    unfolding unique_existing_job_def Let_def empty using none some by (auto split: sum.split)
qed

text \<open>What the result of an invocation says about the jobs.\<close>

definition proven :: "submission_identity \<Rightarrow> (ustr option \<times> bool) res \<Rightarrow> know \<Rightarrow> bool" where
  "proven i r g \<longleftrightarrow> (\<forall>j b. r = Inr (Some j, b) \<longrightarrow> (comment i, j) \<in> kn_jobs g)"

lemma proven_simps [simp]: "proven i (Inl e) g" "proven i (Inr (None, b)) g" "proven i (Inr (Some j, b)) g \<longleftrightarrow> (comment i, j) \<in> kn_jobs g"
  by (auto simp: proven_def)

lemma relax_Refused: "relax g g' \<Longrightarrow> kn_status g i = Refused \<Longrightarrow> kn_status g' i = Refused"
  by (metis relax_def)

lemma relax_Owned: "relax g g' \<Longrightarrow> kn_status g i = Owned \<Longrightarrow> kn_status g' i = Owned"
  by (metis relax_def status.distinct)

lemma relax_jobs: "relax g g' \<Longrightarrow> x \<in> kn_jobs g \<Longrightarrow> x \<in> kn_jobs g'"
  by (auto simp: relax_def)

lemma may_clear_marker:
  assumes "valid_plan p" "own_identity h i" "kn_status g i = Refused"
  shows "may_swap p h (submission_invocation_path p i) None g"
  using assms distinct_paths [OF assms(1,2)] by (auto simp: may_swap_def)

lemma wp_rejection:
  assumes "valid_plan p" "own_identity h i" "kn_status g i = Refused"
  shows "wp p h (record_rejection p i selected m out) (proven i) g"
proof -
  let ?q = "submission_rejection_path p i"
  have publish: "may_publish p h ?q t g" for t
    unfolding may_publish_def using distinct_paths(3,6) [OF assms(1) _ assms(2)] distinct_paths(3,6) [OF assms(1,2)] assms(3)
    by (metis (no_types))
  have "kn_status (published p h ?q r g) i = Rejecting" for r
    using assms(2) distinct_paths(2) [OF assms(1) assms(2,2)] by (auto simp: published_def)
  then have "kn_status (seen p (Inr fs) (published p h ?q r g)) i = Refused" if "fs ?q = None" for r fs
    using that by (simp add: seen_def)
  then have clear: "may_swap p h (submission_invocation_path p i) None (seen p (Inr fs) (published p h ?q r g))" if "fs ?q = None" for r fs
    using that may_clear_marker [OF assms(1,2)] by blast
  show ?thesis
    by (auto simp: record_rejection_def wp_bindp publish clear look_def split: option.split sum.split)
qed

lemma wp_settle:
  assumes "valid_plan p" "own_identity h i" and "refusal outcome \<Longrightarrow> kn_status g i = Refused"
  shows "wp p h (settle_outcome p i selected m outcome) (proven i) g"
  unfolding settle_outcome_def wp_bindp
proof (rule wp_unique, goal_cases)
  case (1 r g')
  have refused: "kn_status g' i = Refused" if "refusal outcome" using relax_Refused [OF 1(1)] assms(3) that by blast
  then show ?case
    using 1(2) wp_rejection [OF assms(1,2)] may_clear_marker [OF assms(1,2)]
    by (auto simp: refusal_def split: sum.split option.split)
qed

lemma wp_invoke:
  assumes "valid_plan p" "own_identity h i" "sr_identity request = i"
  shows "wp p h (invoke_once en p i selected request intent_text claim owner) (proven i) g"
proof -
  let ?q = "submission_invocation_path p i"
  have lost: "wp p h (marker_lost en p i claim) (proven i) g'" for g'
    by (auto simp: marker_lost_def wp_bindp intro!: wp_plain split: sum.split)
  have held: "wp p h (bindp (release_lifecycle claim) (\<lambda>_. fail e)) (proven i) g'" for g' e
    by (auto simp: wp_bindp intro!: wp_plain split: sum.split)
  have publish: "may_publish p h ?q t g'" for t g'
    unfolding may_publish_def using distinct_paths(1,2) [OF assms(1,2)] by blast
  have call: "wp p h (call_sbatch p i selected request claim m) (proven i) (published p h ?q (Inr True) g')" for m g'
    unfolding call_sbatch_def wp_bindp
  proof (rule wp_plain, simp, goal_cases)
    case (1 r g'')
    have "kn_status (published p h ?q (Inr True) g') i = Owned" using assms(2) by (simp add: published_def)
    then have own: "kn_status g'' i = Owned" using relax_Owned [OF 1] by blast
    have settle: "wp p h (settle_outcome p i selected m x) (proven i) (answered i x g'')" for x
      by (rule wp_settle [OF assms(1,2)]) (simp add: answered_def)
    have "proven i (Inr (so_job_id out, True)) (answered i (Inr out) g'')" if "so_status out = ACCEPTED" for out
      using that by (auto simp: proven_def answered_def accepted_job_def)
    with own settle show ?case using assms(2,3) by (auto split: sum.split)
  qed
  show ?thesis
    unfolding invoke_once_def using held by (auto simp: wp_bindp lost call publish split: option.split sum.split)
qed

section \<open>Submission is tame\<close>

lemma wp_tame: "tame p h m \<Longrightarrow> wp p h m (\<lambda>_ _. True) g"
  by (simp add: tame_def)

lemma tame_converge:
  assumes "valid_plan p" "\<And>x r. tame p h (followups x r)"
  shows "tame p h (converge_submission en h p followups x n r now cs)"
  unfolding converge_submission_def by (intro tame_bindp) (simp_all add: assms)

lemma record_kept: "record_post_init r = Inr r' \<Longrightarrow> r' = r"
  by (auto simp: record_post_init_def)

lemma wp_record:
  assumes "valid_plan p" "own_identity h i" "\<And>x r. tame p h (followups x r)" and "proven i (Inr out) g"
  shows "wp p h (record_submission en h p followups s i selected deps claim owner out) (\<lambda>_ _. True) g"
proof -
  obtain found now where out: "out = (found, now)" by fastforce
  show ?thesis
    unfolding record_submission_def out prod.case wp_bindp
  proof (rule wp_unique, goal_cases)
    case (1 r g')
    have known: "(comment i, j) \<in> kn_jobs g'" if "found = Some j" for j
      using assms(4) that relax_jobs [OF 1(1)] by (simp add: out)
    have publish: "may_publish p h (submission_record_path p i) t g'"
      if "record_post_init \<lparr>sb_identity = i, sb_job_id = j, sb_task_ids = a, sb_task_indices = b, sb_recovered = True,
          sb_dependency_mode = c, sb_dependency_job_ids = d\<rparr> = Inr q" "canonical_json (record_to_dict q) = Inr t"
        "(comment i, j) \<in> kn_jobs g'" for a b c d j q t
    proof -
      have q: "q = \<lparr>sb_identity = i, sb_job_id = j, sb_task_ids = a, sb_task_indices = b, sb_recovered = True,
          sb_dependency_mode = c, sb_dependency_job_ids = d\<rparr>" using record_kept that(1) by blast
      have "record_names i t (kn_jobs g')" using that unfolding record_names_def by (intro exI [of _ q]) (simp add: q)
      then show ?thesis
        unfolding may_publish_def using distinct_paths(3,5) [OF assms(1,2)] by blast
    qed
    show ?case
      using 1(2) known tame_converge [OF assms(1,3)]
      by (auto simp: tame_def publish split: sum.split option.split)
  qed
qed

lemma tame_replay:
  assumes "valid_plan p" "\<And>x r. tame p h (followups x r)"
  shows "tame p h (replay_submission en h p followups s i selected r claim)"
  unfolding replay_submission_def Let_def by (intro tame_bindp) (simp_all add: assms split: option.split)

lemma wp_bind_plain:
  assumes "plain p h m" and "\<And>x g'. relax g g' \<Longrightarrow> wp p h (f x) (\<lambda>_ _. True) g'"
  shows "wp p h (bindp m f) (\<lambda>_ _. True) g"
  unfolding wp_bindp by (rule wp_plain [OF assms(1)]) (simp add: assms(2) split: sum.split)

lemma request_kept: "request_post_init r = Inr r' \<Longrightarrow> r' = r"
  unfolding request_post_init_def Let_def bind_eq_Inr sum.inject by blast

lemma request_identity:
  assumes "build_submission_request p s i ts ds os = Inr r"
  shows "sr_identity r = i"
proof (cases "ts = []")
  case False
  note request_kept [OF assms [unfolded build_submission_request_def Let_def if_not_P [OF False]]]
  then show ?thesis by (simp only: submission_request.simps)
qed (use assms in \<open>simp add: build_submission_request_def Let_def\<close>)

lemma tame_submit_new:
  assumes "valid_plan p" "own_identity h i" "\<And>x r. tame p h (followups x r)"
  shows "tame p h (submit_new en h p followups s i selected deps claim)"
proof -
  have invoke: "wp p h (bindp (if found \<noteq> None then give (found, False) else invoke_once en p i selected request it claim owner)
      (record_submission en h p followups s i selected deps claim owner)) (\<lambda>_ _. True) g"
    if "sr_identity request = i" "\<And>j. found = Some j \<Longrightarrow> (comment i, j) \<in> kn_jobs g" for found request it owner g
  proof -
    have "wp p h (if found \<noteq> None then give (found, False) else invoke_once en p i selected request it claim owner) (proven i) g"
      using that wp_invoke [OF assms(1,2)] by (auto simp: proven_def)
    then show ?thesis
      unfolding wp_bindp by (rule wp_mono) (auto split: sum.split intro: wp_record [OF assms])
  qed
  have new: "tame p h (bindp (unique_existing_job i) (\<lambda>found. bindp (invocation_owner en p i) (\<lambda>owner.
      bindp (if found \<noteq> None then give (found, False) else invoke_once en p i selected request it claim owner) (\<lambda>outcome.
      record_submission en h p followups s i selected deps claim owner outcome))))"
    if "sr_identity request = i" for request it
    unfolding tame_def wp_bindp [of _ _ "unique_existing_job i"]
  proof (intro allI, rule wp_unique, goal_cases)
    case (1 g r g')
    show ?case
    proof (cases r)
      case (Inr found)
      have "wp p h (bindp (invocation_owner en p i) (\<lambda>owner.
          bindp (if found \<noteq> None then give (found, False) else invoke_once en p i selected request it claim owner)
            (record_submission en h p followups s i selected deps claim owner))) (\<lambda>_ _. True) g'"
        using 1(2) Inr by (intro wp_bind_plain invoke that) (auto dest: relax_jobs)
      then show ?thesis using Inr by simp
    qed simp
  qed
  have fresh: "tame p h (bindp (look f) (\<lambda>ord_ids. bindp (Done (build_submission_request p s i selected deps ord_ids)) (\<lambda>request.
      bindp (Done (bind (submission_intent (lb_sha (en_lib en)) request) canonical_json)) (\<lambda>it.
      bindp (Publish (submission_intent_path p i) it Done) (\<lambda>_. bindp (unique_existing_job i) (\<lambda>found. bindp (invocation_owner en p i) (\<lambda>owner.
      bindp (if found \<noteq> None then give (found, False) else invoke_once en p i selected request it claim owner) (\<lambda>outcome.
      record_submission en h p followups s i selected deps claim owner outcome))))))))" for f
    by (intro tame_bind_Done tame_bindp [of p h "look f"] tame_bindp [of p h "Publish _ _ _"] new)
      (simp_all add: assms(1,2) request_identity)
  have old: "tame p h (bindp (check b e) (\<lambda>_. bindp (release_rejected_invocation_owner en p i claim) (\<lambda>_. fail e')))" for b e e'
    by (intro tame_bindp) simp_all
  show ?thesis
    unfolding submit_new_def by (rule tame_bindp) (simp_all only: tame_simps old fresh simp_thms split: option.split)
qed

lemma make_own: "make_identity h s n = Inr i \<Longrightarrow> own_identity h i"
  by (auto simp: make_identity_def own_identity_def)

lemma tame_claimed:
  assumes "valid_plan p" "\<And>x r. tame p h (followups x r)"
  shows "tame p h (submit_stage_claimed en h p followups sid n ts claim)"
proof -
  have run: "tame p h (case existing of Some r \<Rightarrow> replay_submission en h p followups s i selected r claim
      | None \<Rightarrow> submit_new en h p followups s i selected deps claim)" if "make_identity h s n = Inr i" for existing s i selected deps
    using tame_replay [OF assms] tame_submit_new [OF assms(1) make_own [OF that] assms(2)] by (simp split: option.split)
  show ?thesis
    unfolding submit_stage_claimed_def Let_def case_prod_beta
    by (intro tame_bind_Done tame_bindp [of p h "bind_plan _ _"] tame_bindp [of p h "check _ _"] tame_bindp [of p h "look _"]
        tame_bindp [of p h "case_option _ _ _"] run) (simp_all add: assms split: option.split)
qed

lemma tame_submit_with:
  assumes "valid_plan p" "\<And>x r. tame p h (followups x r)"
  shows "tame p h (submit_stage_with en h p followups sid n ts)"
proof -
  have handler: "tame p h (case r of Inr x \<Rightarrow> give x
     | Inl (SubmissionRejected m) \<Rightarrow> bindp (release_lifecycle claim) (\<lambda>_. fail (SubmissionRejected m))
     | Inl (SubmissionUncertain m) \<Rightarrow> fail (SubmissionUncertain m)
     | Inl e \<Rightarrow> bindp (release_if_not_invocation_owner en p i claim) (\<lambda>_. fail e))" for r :: "submission_result res" and claim i
    by (cases r; simp; rename_tac e; case_tac e) (simp_all add: tame_bindp)
  show ?thesis
    unfolding submit_stage_with_def by (intro tame_bindp handler) (simp_all add: assms tame_claimed)
qed

section \<open>Follow-ups are tame\<close>

lemma tame_dependency_followup:
  assumes "\<And>d m. tame p h (submit d m)"
  shows "tame p h (submit_dependency_followup p submit x n)"
  unfolding submit_dependency_followup_def by (intro tame_bindp) (simp_all add: assms)

lemma tame_covering:
  assumes "\<And>d m. tame p h (submit d m)"
  shows "tame p h (submit_covering en h p submit s records c)"
  unfolding submit_covering_def using tame_dependency_followup [OF assms] by (simp add: tame_bindp)

lemma tame_next_generation:
  assumes "\<And>d m. tame p h (submit d m)"
  shows "tame p h (next_generation en h p submit s records occupied existing)"
proof -
  note sub = tame_dependency_followup [OF assms] tame_covering [OF assms]
  have each: "tame p h (bindp (each (\<lambda>i'. release_rejected_invocation_owner en p i' []) xs) (\<lambda>_. give y))" for xs and y :: "submission_record list + int"
    by (intro tame_bindp tame_each) simp_all
  show ?thesis
    unfolding next_generation_def Let_def case_prod_beta
    by (auto intro!: tame_bindp sub each tame_each simp del: bindp.simps split: option.split)
qed

lemma tame_authorize_generation:
  assumes "valid_plan p" "ident_ok (st_stage_id s)" "1 \<le> n" "\<And>d m. tame p h (submit d m)"
  shows "tame p h (authorize_generation en h p submit retried r s n)"
  unfolding authorize_generation_def
  using assms(1-3) tame_dependency_followup [OF assms(4)] by (auto intro!: tame_bindp simp del: bindp.simps)

lemma valid_stage_id: "valid_plan p \<Longrightarrow> s \<in> set (pl_stages p) \<Longrightarrow> ident_ok (st_stage_id s)"
  using stage_canonical_parts(1) [of s] by (auto simp: valid_plan_def plan_sound_def stage_ok_def)

lemma tame_ensure_followup:
  assumes "valid_plan p" "s \<in> set (pl_stages p)" "\<And>d m. tame p h (submit d m)"
  shows "tame p h (ensure_followup en h p submit retried r s)"
proof -
  note id = valid_stage_id [OF assms(1,2)]
  have go: "tame p h (authorize_generation en h p submit retried r s n)" if "1 \<le> n" for n
    by (rule tame_authorize_generation [OF assms(1) id that assms(3)])
  show ?thesis
    unfolding ensure_followup_def Let_def case_prod_beta
    by (auto intro!: tame_bindp go tame_next_generation assms(3) simp: le_max_iff_disj simp del: bindp.simps split: sum.split)
qed

lemma tame_followups:
  assumes "valid_plan p" "\<And>d m. tame p h (submit d m)"
  shows "tame p h (ensure_reconciler_followups en h p submit retried r)"
  unfolding ensure_reconciler_followups_def
  by (intro tame_bindp tame_each tame_ensure_followup assms) simp_all

lemma tame_submit_depth: "valid_plan p \<Longrightarrow> tame p h (submit_depth en h p k x n ts)"
  by (induction k arbitrary: x n ts) (auto intro!: tame_submit_with tame_followups)

section \<open>Reconciliation is tame\<close>

lemma plain_bind_Done: "(\<And>x. r = Inr x \<Longrightarrow> plain p h (f x)) \<Longrightarrow> plain p h (bindp (Done r) f)"
  by (cases r) simp_all

lemma tame_bind_look: "(\<And>fs x. f fs = Inr x \<Longrightarrow> tame p h (k x)) \<Longrightarrow> tame p h (bindp (look f) k)"
  unfolding tame_def wp_bindp by (auto split: sum.split)

lemma plain_publish [intro]: "\<not> protected p h q \<Longrightarrow> (\<And>x. plain p h (f x)) \<Longrightarrow> plain p h (bindp (Publish q t Done) f)"
  by (simp split: sum.split)

lemma attempt_unprotected:
  assumes "valid_plan p" "own_identity h (sb_identity r)" "make_verdict s t r n e obs = Inr v"
  shows "\<not> protected p h (task_attempt_path p (ta_identity v) (ta_task_id v))"
proof -
  note v = make_verdict_fields [OF assms(3)]
  have "ident_ok (ta_task_id v)" using v(8) by (auto simp: attempt_post_init_def)
  then show ?thesis using unprotected_file [OF assms(1), of h "Attempt (ta_identity v) (ta_task_id v)"] assms(2) v(1) by (simp add: own_identity_def)
qed

lemma plain_reconcile_task:
  assumes "valid_plan p" "\<forall>r \<in> set rs. own_identity h (sb_identity r)"
  shows "plain p h (reconcile_task lb states p s t latest rs)"
  using assms(2)
proof (induction rs arbitrary: latest)
  case (Cons r rs)
  have rest: "plain p h (reconcile_task lb states p s t l rs)" for l using Cons by simp
  have r: "own_identity h (sb_identity r)" using Cons.prems by simp
  show ?case
    unfolding reconcile_task.simps Let_def
    by (auto intro!: plain_bindp [of p h "look _"] plain_bindp [of p h "Observe Done"] plain_bind_Done plain_publish attempt_unprotected [OF assms(1) r]
        simp: rest simp del: bindp.simps split: option.split)
qed (simp add: reconcile_task.simps)

lemma plain_states [simp]: "plain p h (states_by_job rs)"
  by (auto simp: states_by_job_def intro!: plain_bindp plain_each split: sum.split)

lemma plain_decide [simp]: "plain p h (decide_stage p' s vs n)"
  by (auto simp: decide_stage_def intro!: plain_bind_Done plain_bindp [of p h "Observe Done"] simp del: bindp.simps)

lemma generation_subset: "generation_records all start = Inr rs \<Longrightarrow> set rs \<subseteq> set all"
  by (auto simp: generation_records_def Let_def split: option.splits)

lemma receipt_unprotected:
  assumes "valid_plan p" "reconciliation_post_init (decision_receipt h' s n d) = Inr r"
  shows "\<not> protected p h (reconciliation_path p (st_stage_id s) n)"
proof -
  have "ident_ok (st_stage_id s)" "1 \<le> n"
    using assms(2) by (auto simp: reconciliation_post_init_def decision_receipt_def)
  then show ?thesis using unprotected_file [OF assms(1), of h "Reconciliation (st_stage_id s) n"] by simp
qed

lemma tame_reconcile_evidence:
  assumes "valid_plan p" "\<forall>r \<in> set all. own_identity h (sb_identity r)"
  shows "tame p h (reconcile_stage_evidence en h' p s all)"
proof -
  have task: "plain p h (bindp (reconcile_task lb states p s t FAILED (filter (\<lambda>r. pt_task_id t \<in> set (sb_task_ids r)) rs)) (\<lambda>v. give (pt_task_id t, v)))"
    if "generation_records all start = Inr rs" for lb states t rs start
    using assms generation_subset [OF that] by (intro plain_bindp plain_reconcile_task) auto
  show ?thesis
    unfolding reconcile_stage_evidence_def Let_def case_prod_beta
    by (intro tame_plain plain_bindp [of p h "look _"] plain_bindp [of p h "states_by_job _"] plain_bindp [of p h "each _ _"]
        plain_bindp [of p h "decide_stage _ _ _ _"] plain_bind_Done plain_each)
      (auto intro!: plain_bind_Done plain_publish task receipt_unprotected [OF assms(1)] simp del: bindp.simps)
qed

lemma tame_repair: "valid_plan p \<Longrightarrow> tame p h (repair_followups en h p x r)"
  by (simp add: repair_followups_def submit_stage_def tame_followups tame_submit_depth)

lemma tame_retries: "valid_plan p \<Longrightarrow> tame p h (submit_retries en h p x b d n)"
  by (simp add: submit_retries_def submit_stage_def tame_submit_depth tame_bindp)

lemma stage_by_id_in: "stage_by_id p x = Inr s \<Longrightarrow> s \<in> set (pl_stages p)"
  by (auto simp: stage_by_id_def find_Some_iff split: option.splits)

lemma tame_reconcile:
  assumes "valid_plan p"
  shows "tame p h (reconcile_stage en h p x b)"
proof -
  have own: "\<forall>r \<in> set rs. own_identity h (sb_identity r)"
    if "stage_by_id p x = Inr s" "submission_records lb fs h p s None = Inr rs" for s lb fs rs
    using records_identity [of p s lb fs h rs] that assms stage_by_id_in [OF that(1)]
    by (auto simp: own_identity_def submission_records_def valid_plan_def)
  have finish: "tame p h (bindp (sync_registry en p u []) (\<lambda>synced. bindp (if c then repair_followups en h p x r else give []) (f synced)))"
    if "\<And>synced y. tame p h (f synced y)" for u c r f
    using that assms by (intro tame_bindp) (simp_all add: tame_repair)
  show ?thesis
    unfolding reconcile_stage_def Let_def case_prod_beta
    by (intro tame_bindp [of p h "bind_plan _ _"] tame_bind_Done tame_bind_look tame_bindp [of p h "check _ _"] tame_bindp [of p h "repair_followups _ _ _ _ _"]
        tame_bindp [of p h "reconcile_stage_evidence _ _ _ _ _"] tame_bindp [of p h "submit_retries _ _ _ _ _ _ _"]
        tame_bindp [of p h "decision_update _ _ _ _ _ _"] finish)
      (simp_all add: assms tame_repair tame_retries tame_reconcile_evidence own decision_update_def)
qed

section \<open>The operations of the engine\<close>

text \<open>What a coordinator of a run may execute.\<close>

inductive engine_operation :: "engine \<Rightarrow> ustr \<Rightarrow> execution_plan \<Rightarrow> unit prog \<Rightarrow> bool" for en h p where
  "engine_operation en h p (bindp (submit_stage en h p x n ts) (\<lambda>_. give ()))"
| "engine_operation en h p (bindp (submit_afterany_reconciler en h p x n) (\<lambda>_. give ()))"
| "engine_operation en h p (bindp (submit_afterany_followup en h p x n) (\<lambda>_. give ()))"
| "engine_operation en h p (bindp (reconcile_stage en h p x b) (\<lambda>_. give ()))"
| "engine_operation en h p (bindp (reconcile_registry en h p k) (\<lambda>_. give ()))"

lemma plain_drain: "valid_plan p \<Longrightarrow> ident_ok x \<Longrightarrow> 1 \<le> a \<Longrightarrow> plain p h (drain_outbox en h p x a k)"
  by (induction k) (auto simp: Let_def intro!: plain_bindp plain_each split: option.split sum.split)

lemma tame_reconcile_registry: "valid_plan p \<Longrightarrow> tame p h (reconcile_registry en h p k)"
proof -
  assume p: "valid_plan p"
  have stage: "tame p h (each (\<lambda>a. drain_outbox en h p (st_stage_id s) a k) [1..b])" if "s \<in> set (pl_stages p)" for s b
    using valid_stage_id [OF p that] p by (intro tame_each tame_plain plain_drain) simp_all
  show ?thesis unfolding reconcile_registry_def
    using p by (auto intro!: tame_bindp tame_each stage simp del: bindp.simps)
qed

lemma operations_tame:
  assumes "valid_plan p" "engine_operation en h p m"
  shows "tame p h m"
  using assms(2)
proof cases
  case (1 x n ts)
  then show ?thesis using tame_submit_depth [OF assms(1)] by (simp add: submit_stage_def tame_bindp)
next
  case (2 x n)
  then show ?thesis using tame_submit_depth [OF assms(1)]
    by (auto simp: submit_afterany_reconciler_def submit_stage_def intro!: tame_bindp simp del: bindp.simps)
next
  case (3 x n)
  then show ?thesis using tame_dependency_followup tame_submit_depth [OF assms(1)]
    by (auto simp: submit_afterany_followup_def submit_stage_def intro!: tame_bindp simp del: bindp.simps)
next
  case (4 x b)
  then show ?thesis using tame_reconcile [OF assms(1)] by (simp add: tame_bindp)
next
  case (5 k)
  then show ?thesis using tame_reconcile_registry [OF assms(1)] by (simp add: tame_bindp)
qed

end
