(* ===== verification/Engine_Cluster.thy ===== *)
theory Engine_Cluster
  imports Engine_Logic
begin

text \<open>
  Coordinators that work on one run at the same time. A thread is a coordinator between two calls or waiting for its
  \<open>sbatch\<close> call; it may stop at any time. Answers to reads of other files, to writes and to scheduler queries
  may be lost, and the scheduler may take a call after its caller has given up. Trusted are the create-once writes
  and the compare-and-swap of the files, that the scheduler lists only jobs it has taken, and that
  an outcome says \<open>ACCEPTED\<close> only for a job it has taken, and \<open>DEFINITELY_NOT_INVOKED\<close> or \<open>DEFINITELY_REJECTED\<close> only
  for a call that never becomes a job.
\<close>

section \<open>Clusters\<close>

datatype call_state = InFlight | Landed ustr | Dropped

datatype thread = Running "unit prog" | Waiting nat "submit_outcome res \<Rightarrow> unit prog"

record cluster =
  cl_files :: files
  cl_calls :: "(submission_identity \<times> call_state) list"
  cl_threads :: "nat \<Rightarrow> thread option"

definition shown :: "cluster \<Rightarrow> ustr \<Rightarrow> ustr \<Rightarrow> bool" where
  "shown s c j \<longleftrightarrow> (\<exists>i. comment i = c \<and> (i, Landed j) \<in> set (cl_calls s))"

text \<open>The jobs that the scheduler took for an identity.\<close>

definition jobs_of :: "cluster \<Rightarrow> submission_identity \<Rightarrow> ustr list" where
  "jobs_of s i = concat (map (\<lambda>(i', x). case x of Landed j \<Rightarrow> if i' = i then [j] else [] | _ \<Rightarrow> []) (cl_calls s))"

definition set_thread :: "nat \<Rightarrow> thread option \<Rightarrow> cluster \<Rightarrow> cluster" where
  "set_thread t x s = s\<lparr>cl_threads := (cl_threads s)(t := x)\<rparr>"

text \<open>Calls that touch neither files nor jobs: any answer.\<close>

inductive free_answer :: "unit prog \<Rightarrow> unit prog \<Rightarrow> bool" where
  "free_answer (Observe k) (k x)"
| "free_answer (States j k) (k r)"
| "free_answer (Prepare q k) (k r')"
| "free_answer (Acquire c k) (k r'')"
| "free_answer (Release c k) (k u)"
| "free_answer (Matching c k) (k js)"
| "free_answer (ValidatePlan k) (k b)"
| "free_answer (Synchronize v k) (k b)"

definition publish_answer :: "files \<Rightarrow> ustr \<Rightarrow> ustr \<Rightarrow> bool res \<Rightarrow> files \<Rightarrow> bool" where
  "publish_answer fs q t r fs' \<longleftrightarrow>
     fs q = None \<and> fs' = fs(q \<mapsto> t) \<and> (r = Inr True \<or> isl r)
     \<or> fs q = Some t \<and> fs' = fs \<and> r = Inr False
     \<or> fs' = fs \<and> isl r"

definition swap_answer :: "files \<Rightarrow> ustr \<Rightarrow> ustr option \<Rightarrow> ustr option \<Rightarrow> bool res \<Rightarrow> files \<Rightarrow> bool" where
  "swap_answer fs q x y r fs' \<longleftrightarrow>
     fs q = x \<and> fs' = fs(q := y) \<and> (r = Inr True \<or> isl r)
     \<or> fs q \<noteq> x \<and> fs' = fs \<and> r = Inr False
     \<or> fs' = fs \<and> isl r"

definition truthful :: "call_state \<Rightarrow> submit_outcome res \<Rightarrow> bool" where
  "truthful x r \<longleftrightarrow> (refusal r \<longrightarrow> x = Dropped) \<and> (\<forall>j \<in> accepted_job r. x = Landed j)"

inductive cluster_step :: "engine \<Rightarrow> ustr \<Rightarrow> execution_plan \<Rightarrow> cluster \<Rightarrow> cluster \<Rightarrow> bool" for en h p where
  spawn: "cl_threads s t = None \<Longrightarrow> engine_operation en h p m \<Longrightarrow> cluster_step en h p s (set_thread t (Some (Running m)) s)"
| stop: "cluster_step en h p s (set_thread t None s)"
| free: "cl_threads s t = Some (Running m) \<Longrightarrow> free_answer m m' \<Longrightarrow> cluster_step en h p s (set_thread t (Some (Running m')) s)"
| read: "cl_threads s t = Some (Running (Look k)) \<Longrightarrow>
    \<forall>fs i. x = Inr fs \<longrightarrow> fs (submission_rejection_path p i) = cl_files s (submission_rejection_path p i) \<Longrightarrow>
    cluster_step en h p s (set_thread t (Some (Running (k x))) s)"
| publish: "cl_threads s t = Some (Running (Publish q tx k)) \<Longrightarrow> publish_answer (cl_files s) q tx r fs' \<Longrightarrow>
    cluster_step en h p s (set_thread t (Some (Running (k r))) (s\<lparr>cl_files := fs'\<rparr>))"
| swap: "cl_threads s t = Some (Running (Swap q x y k)) \<Longrightarrow> swap_answer (cl_files s) q x y r fs' \<Longrightarrow>
    cluster_step en h p s (set_thread t (Some (Running (k r))) (s\<lparr>cl_files := fs'\<rparr>))"
| find: "cl_threads s t = Some (Running (Find c k)) \<Longrightarrow> \<forall>js. r = Inr js \<longrightarrow> (\<forall>j \<in> set js. shown s c j) \<Longrightarrow>
    cluster_step en h p s (set_thread t (Some (Running (k r))) s)"
| invoke: "cl_threads s t = Some (Running (Invoke q k)) \<Longrightarrow>
    cluster_step en h p s (set_thread t (Some (Waiting (length (cl_calls s)) k))
      (s\<lparr>cl_calls := cl_calls s @ [(sr_identity q, InFlight)]\<rparr>))"
| land: "n < length (cl_calls s) \<Longrightarrow> cl_calls s ! n = (i, InFlight) \<Longrightarrow>
    cluster_step en h p s (s\<lparr>cl_calls := (cl_calls s)[n := (i, Landed j)]\<rparr>)"
| drop: "n < length (cl_calls s) \<Longrightarrow> cl_calls s ! n = (i, InFlight) \<Longrightarrow>
    cluster_step en h p s (s\<lparr>cl_calls := (cl_calls s)[n := (i, Dropped)]\<rparr>)"
| reply: "cl_threads s t = Some (Waiting n k) \<Longrightarrow> truthful (snd (cl_calls s ! n)) r \<Longrightarrow>
    cluster_step en h p s (set_thread t (Some (Running (k r))) s)"
| other: "\<forall>q. protected p h q \<longrightarrow> fs' q = cl_files s q \<Longrightarrow> cluster_step en h p s (s\<lparr>cl_files := fs'\<rparr>)"

definition cluster_start :: "execution_plan \<Rightarrow> ustr \<Rightarrow> cluster \<Rightarrow> bool" where
  "cluster_start p h s \<longleftrightarrow> cl_calls s = [] \<and> (\<forall>t. cl_threads s t = None) \<and> (\<forall>q. protected p h q \<longrightarrow> cl_files s q = None)"

section \<open>One identity\<close>

text \<open>
  The state of the marker of one identity: the knowledge \<open>st\<close> of the threads, which thread waits for which call
  (\<open>wt\<close>), whether marker and rejection exist, and the calls that are or may become jobs (\<open>lv\<close>).
\<close>

definition slot_ok :: "(nat \<Rightarrow> status) \<Rightarrow> (nat \<Rightarrow> nat \<Rightarrow> bool) \<Rightarrow> bool \<Rightarrow> bool \<Rightarrow> (nat \<Rightarrow> bool) \<Rightarrow> bool" where
  "slot_ok st wt mk rj lv \<longleftrightarrow>
     (\<forall>t t'. st t \<noteq> Free \<and> st t' \<noteq> Free \<longrightarrow> t = t')
     \<and> ((\<exists>t. st t \<noteq> Free) \<or> (\<exists>n. lv n) \<or> rj \<longrightarrow> mk)
     \<and> (\<forall>m n. lv m \<and> lv n \<longrightarrow> m = n)
     \<and> (\<forall>t. st t \<in> {Refused, Rejecting} \<longrightarrow> (\<forall>n. \<not> lv n))
     \<and> (\<forall>t n. st t = Owned \<and> lv n \<longrightarrow> wt t n)
     \<and> (rj \<longrightarrow> (\<forall>n. \<not> lv n) \<and> (\<forall>t. st t \<in> {Free, Rejecting}))"

lemma slot_facts:
  assumes "slot_ok st wt mk rj lv"
  shows "st t \<noteq> Free \<Longrightarrow> st t' \<noteq> Free \<Longrightarrow> t = t'" "st t \<noteq> Free \<Longrightarrow> mk" "lv n \<Longrightarrow> mk" "rj \<Longrightarrow> mk" "lv m \<Longrightarrow> lv n \<Longrightarrow> m = n"
    "st t = Refused \<Longrightarrow> \<not> lv n" "st t = Rejecting \<Longrightarrow> \<not> lv n" "st t = Owned \<Longrightarrow> lv n \<Longrightarrow> wt t n" "rj \<Longrightarrow> \<not> lv n"
    "rj \<Longrightarrow> st t = Free \<or> st t = Rejecting"
  using assms unfolding slot_ok_def by auto

lemma slot_sole: "slot_ok st wt mk rj lv \<Longrightarrow> st t = x \<Longrightarrow> x \<noteq> Free \<Longrightarrow> st = (\<lambda>_. Free)(t := x)"
  by (rule ext) (use slot_facts(1) [of st wt mk rj lv _ t] in auto)

lemma slot_free:
  assumes "slot_ok st wt mk rj lv" and "\<And>t'. t' \<noteq> t \<Longrightarrow> wt' t' = wt t'"
  shows "slot_ok (st(t := Free)) wt' mk rj lv"
  using slot_facts [OF assms(1)] assms(2) unfolding slot_ok_def by (simp split: if_splits) blast

lemma slot_look:
  assumes "slot_ok st wt mk rj lv" and "\<And>t'. st' t' = st t' \<or> (\<not> rj \<and> st t' = Rejecting \<and> st' t' = Refused)"
  shows "slot_ok st' wt mk rj lv"
proof -
  have "st' t = Free \<longleftrightarrow> st t = Free" "st' t = Owned \<longleftrightarrow> st t = Owned" for t using assms(2) [of t] by auto
  moreover have "st' t = Refused \<Longrightarrow> st t = Refused \<or> st t = Rejecting" "st' t = Rejecting \<Longrightarrow> st t = Rejecting" "rj \<Longrightarrow> st' t = st t" for t
    using assms(2) [of t] by auto
  ultimately show ?thesis using slot_facts [OF assms(1)] unfolding slot_ok_def by simp metis
qed

lemma slot_create:
  assumes "slot_ok st wt False rj lv"
  shows "slot_ok (st(t := Owned)) wt True rj lv" "slot_ok st wt True rj lv"
  using slot_facts(2,3,4) [OF assms] unfolding slot_ok_def by auto

lemma slot_clear:
  assumes "slot_ok st wt mk rj lv" and "st t = Refused"
  shows "slot_ok (st(t := Free)) wt False rj lv"
proof -
  have "\<not> rj" using slot_facts(10) [OF assms(1), of t] assms(2) by auto
  then show ?thesis
    using slot_sole [OF assms] slot_facts(6) [OF assms] unfolding slot_ok_def by simp
qed

lemma slot_reject:
  assumes "slot_ok st wt mk rj lv" and "st t = Refused"
  shows "slot_ok (st(t := Rejecting)) wt mk rj' lv"
  using slot_sole [OF assms] slot_facts(6) [OF assms] slot_facts(2) [OF assms(1), of t] assms(2) unfolding slot_ok_def by simp

lemma slot_invoke:
  assumes "slot_ok st wt mk rj lv" and "st t = Owned" and "\<And>n. \<not> wt t n" and "wt' t n"
  shows "slot_ok st wt' mk rj (lv(n := True))"
proof -
  have "lv = (\<lambda>_. False)" using slot_facts(8) [OF assms(1,2)] assms(3) by (intro ext) blast
  moreover have "\<not> rj" using slot_facts(10) [OF assms(1), of t] assms(2) by auto
  ultimately show ?thesis
    using slot_sole [OF assms(1,2)] slot_facts(2) [OF assms(1), of t] assms(2,4) unfolding slot_ok_def by simp
qed

lemma slot_reply:
  assumes "slot_ok st wt mk rj lv" and "st t = Owned" and "\<And>m. wt t m \<longleftrightarrow> m = n" and "x = Called \<or> x = Refused \<and> \<not> lv n"
  shows "slot_ok (st(t := x)) wt' mk rj lv"
proof -
  have live: "lv m \<Longrightarrow> m = n" for m using slot_facts(8) [OF assms(1,2), of m] assms(3) by simp
  have "\<not> rj" using slot_facts(10) [OF assms(1), of t] assms(2) by auto
  moreover have "mk" using slot_facts(2) [OF assms(1), of t] assms(2) by simp
  ultimately show ?thesis using slot_sole [OF assms(1,2)] live assms(4) unfolding slot_ok_def by auto
qed

lemma slot_drop:
  assumes "slot_ok st wt mk rj lv" and "\<And>n. lv' n \<Longrightarrow> lv n"
  shows "slot_ok st wt mk rj lv'"
proof -
  have "\<exists>n. lv' n \<Longrightarrow> mk" using slot_facts(3) [OF assms(1)] assms(2) by blast
  then show ?thesis using slot_facts [OF assms(1)] assms(2) unfolding slot_ok_def by simp blast
qed

lemma slot_idle:
  assumes "slot_ok st wt mk rj lv" and "\<And>t'. t' \<noteq> t \<Longrightarrow> wt' t' = wt t'" and "\<And>n. st t = Owned \<Longrightarrow> \<not> lv n"
  shows "slot_ok st wt' mk rj lv"
proof -
  have "wt' t' n" if "st t' = Owned" "lv n" for t' n using slot_facts(8) [OF assms(1) that] that assms(2,3) by metis
  then show ?thesis using slot_facts [OF assms(1)] unfolding slot_ok_def by simp blast
qed

section \<open>The invariant\<close>

definition fresh :: know where
  "fresh = \<lparr>kn_status = \<lambda>_. Free, kn_jobs = {}\<rparr>"

definition waits :: "cluster \<Rightarrow> nat \<Rightarrow> nat \<Rightarrow> bool" where
  "waits s t n \<longleftrightarrow> (\<exists>k. cl_threads s t = Some (Waiting n k))"

definition live :: "cluster \<Rightarrow> submission_identity \<Rightarrow> nat \<Rightarrow> bool" where
  "live s i n \<longleftrightarrow> n < length (cl_calls s) \<and> fst (cl_calls s ! n) = i \<and> snd (cl_calls s ! n) \<noteq> Dropped"

definition thread_inv :: "execution_plan \<Rightarrow> ustr \<Rightarrow> know \<Rightarrow> cluster \<Rightarrow> thread option \<Rightarrow> bool" where
  "thread_inv p h g s x \<longleftrightarrow> (\<forall>(c, j) \<in> kn_jobs g. shown s c j) \<and>
     (case x of
        None \<Rightarrow> g = fresh
      | Some (Running m) \<Rightarrow> wp p h m (\<lambda>_ _. True) g
      | Some (Waiting n k) \<Rightarrow> n < length (cl_calls s) \<and> kn_status g (fst (cl_calls s ! n)) = Owned
          \<and> (\<forall>r. wp p h (k r) (\<lambda>_ _. True) (answered (fst (cl_calls s ! n)) r g)))"

definition slot_inv :: "execution_plan \<Rightarrow> (nat \<Rightarrow> know) \<Rightarrow> cluster \<Rightarrow> submission_identity \<Rightarrow> bool" where
  "slot_inv p G s i \<longleftrightarrow>
     slot_ok (\<lambda>t. kn_status (G t) i) (waits s) (cl_files s (submission_invocation_path p i) \<noteq> None)
       (cl_files s (submission_rejection_path p i) \<noteq> None) (live s i)
     \<and> (\<forall>tx. cl_files s (submission_record_path p i) = Some tx \<longrightarrow> record_names i tx {(c, j). shown s c j})"

definition cluster_inv :: "execution_plan \<Rightarrow> ustr \<Rightarrow> (nat \<Rightarrow> know) \<Rightarrow> cluster \<Rightarrow> bool" where
  "cluster_inv p h G s \<longleftrightarrow> (\<forall>t. thread_inv p h (G t) s (cl_threads s t)) \<and> (\<forall>i. own_identity h i \<longrightarrow> slot_inv p G s i)
     \<and> (\<forall>(i, x) \<in> set (cl_calls s). own_identity h i)"

lemma set_thread_simps [simp]:
  "cl_files (set_thread t x s) = cl_files s" "cl_calls (set_thread t x s) = cl_calls s" "cl_threads (set_thread t x s) = (cl_threads s)(t := x)"
  "shown (set_thread t x s) = shown s" "live (set_thread t x s) = live s"
  by (simp_all add: set_thread_def shown_def live_def fun_eq_iff)

lemma files_simps [simp]: "shown (s\<lparr>cl_files := fs\<rparr>) = shown s" "live (s\<lparr>cl_files := fs\<rparr>) = live s" "waits (s\<lparr>cl_files := fs\<rparr>) = waits s"
  by (simp_all add: shown_def live_def waits_def fun_eq_iff)

lemma waits_set: "waits (set_thread t x s) t' n \<longleftrightarrow> (if t' = t then (\<exists>k. x = Some (Waiting n k)) else waits s t' n)"
  by (simp add: waits_def)

lemma record_names_mono: "record_names i tx J \<Longrightarrow> J \<subseteq> J' \<Longrightarrow> record_names i tx J'"
  unfolding record_names_def by blast

text \<open>Threads only depend on calls, which are added and decided but never forgotten.\<close>

definition calls_grow :: "cluster \<Rightarrow> cluster \<Rightarrow> bool" where
  "calls_grow s s' \<longleftrightarrow> length (cl_calls s) \<le> length (cl_calls s')
     \<and> (\<forall>n < length (cl_calls s). fst (cl_calls s' ! n) = fst (cl_calls s ! n)) \<and> (\<forall>c j. shown s c j \<longrightarrow> shown s' c j)"

lemma thread_inv_mono: "thread_inv p h g s x \<Longrightarrow> calls_grow s s' \<Longrightarrow> thread_inv p h g s' x"
  by (auto simp: thread_inv_def calls_grow_def split: option.splits thread.splits)

lemma calls_grow_same: "cl_calls s' = cl_calls s \<Longrightarrow> calls_grow s s'"
  by (simp add: calls_grow_def shown_def)

text \<open>A step of one thread that makes no call to \<open>sbatch\<close>.\<close>

lemma thread_step:
  assumes "cluster_inv p h G s" and "cl_calls s' = cl_calls s" and "\<And>t'. t' \<noteq> t \<Longrightarrow> cl_threads s' t' = cl_threads s t'"
    and "thread_inv p h g s (cl_threads s' t)"
    and "\<And>i. own_identity h i \<Longrightarrow> slot_inv p G s i \<Longrightarrow> slot_inv p (G(t := g)) s' i"
  shows "cluster_inv p h (G(t := g)) s'"
proof -
  have "thread_inv p h ((G(t := g)) t') s (cl_threads s' t')" for t'
    using assms(1,3,4) by (cases "t' = t") (auto simp: cluster_inv_def)
  then show ?thesis
    using assms(1,2,5) thread_inv_mono [OF _ calls_grow_same [OF assms(2)]] by (auto simp: cluster_inv_def)
qed

lemma stat_upd: "(\<lambda>t'. kn_status ((G(t := g)) t') i) = (\<lambda>t'. kn_status (G t') i)(t := kn_status g i)"
  by auto

lemma waits_running: "cl_threads s t = Some (Running m) \<Longrightarrow> waits (set_thread t (Some (Running m')) s) = waits s"
  by (auto simp: waits_def fun_eq_iff)

lemma thread_wp: "cluster_inv p h G s \<Longrightarrow> cl_threads s t = Some (Running m) \<Longrightarrow> wp p h m (\<lambda>_ _. True) (G t) \<and> (\<forall>(c, j) \<in> kn_jobs (G t). shown s c j)"
  by (auto simp: cluster_inv_def thread_inv_def dest: spec [of _ t])

lemma slot_invI:
  assumes "slot_ok ((\<lambda>t'. kn_status (G t') i)(t := kn_status g i)) (waits s) (cl_files s (submission_invocation_path p i) \<noteq> None)
      (cl_files s (submission_rejection_path p i) \<noteq> None) (live s i)"
    and "\<And>tx. cl_files s (submission_record_path p i) = Some tx \<Longrightarrow> record_names i tx {(c, j). shown s c j}"
  shows "slot_inv p (G(t := g)) s i"
  unfolding slot_inv_def stat_upd using assms by blast

lemma slot_invD:
  assumes "slot_inv p G s i"
  shows "slot_ok (\<lambda>t. kn_status (G t) i) (waits s) (cl_files s (submission_invocation_path p i) \<noteq> None)
       (cl_files s (submission_rejection_path p i) \<noteq> None) (live s i)"
    and "cl_files s (submission_record_path p i) = Some tx \<Longrightarrow> record_names i tx {(c, j). shown s c j}"
  using assms unfolding slot_inv_def by blast+

lemma inv_slot: "cluster_inv p h G s \<Longrightarrow> own_identity h i \<Longrightarrow> slot_inv p G s i"
  by (simp add: cluster_inv_def)

lemma inv_stop:
  assumes "cluster_inv p h G s"
  shows "cluster_inv p h (G(t := fresh)) (set_thread t None s)"
proof (rule thread_step [OF assms])
  fix i assume slot: "slot_inv p G s i"
  show "slot_inv p (G(t := fresh)) (set_thread t None s) i"
  proof (rule slot_invI)
    have "slot_ok ((\<lambda>t'. kn_status (G t') i)(t := Free)) (waits (set_thread t None s)) (cl_files s (submission_invocation_path p i) \<noteq> None)
      (cl_files s (submission_rejection_path p i) \<noteq> None) (live s i)"
      by (rule slot_free [OF slot_invD(1) [OF slot]]) (simp add: waits_set fun_eq_iff)
    then show "slot_ok ((\<lambda>t'. kn_status (G t') i)(t := kn_status fresh i)) (waits (set_thread t None s))
      (cl_files (set_thread t None s) (submission_invocation_path p i) \<noteq> None)
      (cl_files (set_thread t None s) (submission_rejection_path p i) \<noteq> None) (live (set_thread t None s) i)"
      by (simp only: set_thread_simps) (simp add: fresh_def)
  qed (use slot_invD(2) [OF slot] in simp)
qed (simp_all add: thread_inv_def fresh_def)

lemma inv_running:
  assumes "cluster_inv p h G s" and "cl_threads s t = Some (Running m)" and "wp p h m' (\<lambda>_ _. True) g" and "\<forall>(c, j) \<in> kn_jobs g. shown s c j"
    and "\<And>i. kn_status g i = kn_status (G t) i \<or> (kn_status (G t) i = Rejecting \<and> kn_status g i = Refused
      \<and> cl_files s (submission_rejection_path p i) = None)"
  shows "cluster_inv p h (G(t := g)) (set_thread t (Some (Running m')) s)"
proof (rule thread_step [OF assms(1)])
  fix i assume slot: "slot_inv p G s i"
  show "slot_inv p (G(t := g)) (set_thread t (Some (Running m')) s) i"
  proof (rule slot_invI, unfold set_thread_simps waits_running [OF assms(2)])
    show "slot_ok ((\<lambda>t'. kn_status (G t') i)(t := kn_status g i)) (waits s) (cl_files s (submission_invocation_path p i) \<noteq> None)
      (cl_files s (submission_rejection_path p i) \<noteq> None) (live s i)"
      by (rule slot_look [OF slot_invD(1) [OF slot]]) (use assms(5) [of i] in auto)
  qed (use slot_invD(2) [OF slot] in simp)
qed (simp_all add: thread_inv_def assms(3,4))

lemma inv_spawn:
  assumes "cluster_inv p h G s" and "cl_threads s t = None" and "tame p h m"
  shows "cluster_inv p h (G(t := fresh)) (set_thread t (Some (Running m)) s)"
proof (rule thread_step [OF assms(1)])
  have g: "G t = fresh" using assms(1,2) by (auto simp: cluster_inv_def thread_inv_def dest: spec [of _ t])
  fix i assume slot: "slot_inv p G s i"
  show "slot_inv p (G(t := fresh)) (set_thread t (Some (Running m)) s) i"
  proof (rule slot_invI, unfold set_thread_simps)
    have "waits (set_thread t (Some (Running m)) s) = waits s" using assms(2) by (auto simp: waits_def fun_eq_iff)
    moreover have "(\<lambda>t'. kn_status (G t') i)(t := kn_status fresh i) = (\<lambda>t'. kn_status (G t') i)" using g by auto
    ultimately show "slot_ok ((\<lambda>t'. kn_status (G t') i)(t := kn_status fresh i)) (waits (set_thread t (Some (Running m)) s))
      (cl_files s (submission_invocation_path p i) \<noteq> None) (cl_files s (submission_rejection_path p i) \<noteq> None) (live s i)"
      using slot_invD(1) [OF slot] by (simp only:)
  qed (use slot_invD(2) [OF slot] in simp)
qed (simp_all add: thread_inv_def fresh_def wp_tame [OF assms(3)])

lemma free_wp: "free_answer m m' \<Longrightarrow> wp p h m Q g \<Longrightarrow> wp p h m' Q g"
  by (induction rule: free_answer.induct) auto

section \<open>Files\<close>

text \<open>A thread changes a file.\<close>

lemma inv_write:
  assumes "cluster_inv p h G s" and "cl_threads s t = Some (Running m)" and "wp p h m' (\<lambda>_ _. True) g" and "kn_jobs g = kn_jobs (G t)"
    and "\<And>i. own_identity h i \<Longrightarrow> slot_inv p G s i \<Longrightarrow>
      slot_ok ((\<lambda>t'. kn_status (G t') i)(t := kn_status g i)) (waits s) (fs (submission_invocation_path p i) \<noteq> None)
        (fs (submission_rejection_path p i) \<noteq> None) (live s i)"
    and "\<And>i tx. own_identity h i \<Longrightarrow> fs (submission_record_path p i) = Some tx \<Longrightarrow>
      cl_files s (submission_record_path p i) = Some tx \<or> record_names i tx (kn_jobs g)"
  shows "cluster_inv p h (G(t := g)) (set_thread t (Some (Running m')) (s\<lparr>cl_files := fs\<rparr>))"
proof (rule thread_step [OF assms(1)])
  have jobs: "kn_jobs g \<subseteq> {(c, j). shown s c j}" using thread_wp [OF assms(1,2)] assms(4) by auto
  fix i assume i: "own_identity h i" and slot: "slot_inv p G s i"
  have run: "waits (set_thread t (Some (Running m')) (s\<lparr>cl_files := fs\<rparr>)) = waits s"
    using waits_running [of "s\<lparr>cl_files := fs\<rparr>"] assms(2) by simp
  show "slot_inv p (G(t := g)) (set_thread t (Some (Running m')) (s\<lparr>cl_files := fs\<rparr>)) i"
  proof (rule slot_invI, unfold run set_thread_simps files_simps)
    fix tx assume "cl_files (s\<lparr>cl_files := fs\<rparr>) (submission_record_path p i) = Some tx"
    then show "record_names i tx {(c, j). shown s c j}"
      using assms(6) [OF i, of tx] slot_invD(2) [OF slot] record_names_mono [OF _ jobs] by auto
  qed (use assms(5) [OF i slot] in simp)
qed (use thread_wp [OF assms(1,2)] in \<open>simp_all add: thread_inv_def assms(3,4)\<close>)

lemma inv_publish:
  assumes "valid_plan p" and "cluster_inv p h G s" and "cl_threads s t = Some (Running (Publish q tx k))" and "publish_answer (cl_files s) q tx r fs"
  shows "cluster_inv p h (G(t := published p h q r (G t))) (set_thread t (Some (Running (k r))) (s\<lparr>cl_files := fs\<rparr>))"
proof (rule inv_write [OF assms(2,3)])
  have may: "may_publish p h q tx (G t)" using thread_wp [OF assms(2,3)] by simp
  have other: "fs q' = cl_files s q'" if "q' \<noteq> q" for q' using assms(4) that by (auto simp: publish_answer_def)
  fix i assume i: "own_identity h i"
  note paths = distinct_paths [OF assms(1) i i]
  let ?st = "\<lambda>t'. kn_status (G t') i" and ?st' = "(\<lambda>t'. kn_status (G t') i)(t := kn_status (published p h q r (G t)) i)"
  {
    assume "slot_inv p G s i"
    note slot = slot_invD(1) [OF this]
    consider "q = submission_invocation_path p i" | "q = submission_rejection_path p i" | "q \<noteq> submission_invocation_path p i" "q \<noteq> submission_rejection_path p i"
      by blast
    then show "slot_ok ?st' (waits s) (fs (submission_invocation_path p i) \<noteq> None) (fs (submission_rejection_path p i) \<noteq> None) (live s i)"
    proof cases
      case 1
      have same: "fs (submission_rejection_path p i) = cl_files s (submission_rejection_path p i)" using other paths(2) 1 by metis
      show ?thesis
      proof (cases "r = Inr True")
        case True
        then have new: "cl_files s q = None" "fs q = Some tx" using assms(4) by (auto simp: publish_answer_def)
        have "?st' = ?st(t := Owned)" using 1 i True by (simp add: published_def)
        then show ?thesis using slot_create(1) [of ?st "waits s" _ "live s i" t] slot new 1 same by simp
      next
        case False
        then have kept: "?st' = ?st" using 1 paths(2) by (auto simp: published_def)
        have "fs q = cl_files s q \<or> cl_files s q = None \<and> fs q \<noteq> None" using assms(4) by (auto simp: publish_answer_def)
        then show ?thesis unfolding kept same using slot slot_create(2) [of ?st "waits s" _ "live s i"] 1 by auto
      qed
    next
      case 2
      have "kn_status (G t) i = Refused" using may i 2 by (simp add: may_publish_def)
      moreover have "kn_status (published p h q r (G t)) i = Rejecting" using 2 i paths(2) by (auto simp: published_def)
      moreover have "fs (submission_invocation_path p i) = cl_files s (submission_invocation_path p i)" using other paths(2) 2 by metis
      ultimately show ?thesis using slot_reject [OF slot, of t] by simp
    next
      case 3
      then have "?st' = ?st" by (auto simp: published_def)
      then show ?thesis using slot other [OF 3(1) [symmetric]] other [OF 3(2) [symmetric]] by simp
    qed
  }
  fix tx' assume "fs (submission_record_path p i) = Some tx'"
  then show "cl_files s (submission_record_path p i) = Some tx' \<or> record_names i tx' (kn_jobs (published p h q r (G t)))"
    using may i other assms(4) by (cases "q = submission_record_path p i") (auto simp: may_publish_def published_def publish_answer_def)
qed (use thread_wp [OF assms(2,3)] in \<open>simp_all add: published_def\<close>)

lemma inv_swap:
  assumes "valid_plan p" and "cluster_inv p h G s" and "cl_threads s t = Some (Running (Swap q x y k))" and "swap_answer (cl_files s) q x y r fs"
  shows "cluster_inv p h (G(t := swapped p h q (G t))) (set_thread t (Some (Running (k r))) (s\<lparr>cl_files := fs\<rparr>))"
proof (rule inv_write [OF assms(2,3)])
  have may: "may_swap p h q y (G t)" using thread_wp [OF assms(2,3)] by simp
  have other: "fs q' = cl_files s q'" if "q' \<noteq> q" for q' using assms(4) that by (auto simp: swap_answer_def)
  fix i assume i: "own_identity h i"
  have rej: "fs (submission_rejection_path p i) = cl_files s (submission_rejection_path p i)"
    and rcd: "fs (submission_record_path p i) = cl_files s (submission_record_path p i)"
    using other may i by (auto simp: may_swap_def)
  let ?st = "\<lambda>t'. kn_status (G t') i" and ?st' = "(\<lambda>t'. kn_status (G t') i)(t := kn_status (swapped p h q (G t)) i)"
  {
    assume "slot_inv p G s i"
    note slot = slot_invD(1) [OF this]
    show "slot_ok ?st' (waits s) (fs (submission_invocation_path p i) \<noteq> None) (fs (submission_rejection_path p i) \<noteq> None) (live s i)"
    proof (cases "q = submission_invocation_path p i")
      case True
      then have ref: "y = None" "kn_status (G t) i = Refused" using may i by (simp_all add: may_swap_def)
      have st: "?st' = ?st(t := Free)" using True i by (simp add: swapped_def)
      have "fs q = cl_files s q \<or> fs q = None" using assms(4) ref by (auto simp: swap_answer_def)
      moreover note slot_free [OF slot, of t "waits s"] slot_clear [OF slot, of t]
      ultimately show ?thesis unfolding st rej using True ref(2) by auto
    next
      case False
      then have "?st' = ?st" by (auto simp: swapped_def)
      then show ?thesis unfolding rej using slot other [OF False [symmetric]] by simp
    qed
  }
  fix tx assume "fs (submission_record_path p i) = Some tx"
  then show "cl_files s (submission_record_path p i) = Some tx \<or> record_names i tx (kn_jobs (swapped p h q (G t)))" using rcd by simp
qed (use thread_wp [OF assms(2,3)] in \<open>simp_all add: swapped_def\<close>)

section \<open>Calls\<close>

lemma calls_step:
  assumes "cluster_inv p h G s" and "calls_grow s s'" and "\<And>t'. t' \<noteq> t \<Longrightarrow> cl_threads s' t' = cl_threads s t'" and "thread_inv p h (G t) s' (cl_threads s' t)"
    and "cl_files s' = cl_files s" and "\<And>i x. (i, x) \<in> set (cl_calls s') \<Longrightarrow> own_identity h i"
    and "\<And>i. own_identity h i \<Longrightarrow> slot_inv p G s i \<Longrightarrow> slot_ok (\<lambda>t'. kn_status (G t') i) (waits s') (cl_files s (submission_invocation_path p i) \<noteq> None)
      (cl_files s (submission_rejection_path p i) \<noteq> None) (live s' i)"
  shows "cluster_inv p h G s'"
proof -
  have grow: "{(c, j). shown s c j} \<subseteq> {(c, j). shown s' c j}" using assms(2) by (auto simp: calls_grow_def)
  have "thread_inv p h (G t') s' (cl_threads s' t')" for t'
    using assms(1,3,4) thread_inv_mono [OF _ assms(2)] by (cases "t' = t") (auto simp: cluster_inv_def)
  moreover have "slot_inv p G s' i" if "own_identity h i" for i
    using assms(7) [OF that inv_slot [OF assms(1) that]] slot_invD(2) [OF inv_slot [OF assms(1) that]] record_names_mono [OF _ grow]
    unfolding slot_inv_def assms(5) by blast
  ultimately show ?thesis using assms(6) by (auto simp: cluster_inv_def)
qed

lemma live_append: "live (s\<lparr>cl_calls := cl_calls s @ [(i0, InFlight)]\<rparr>) i n \<longleftrightarrow> live s i n \<or> i = i0 \<and> n = length (cl_calls s)"
  by (auto simp: live_def nth_append)

lemma inv_invoke:
  assumes "cluster_inv p h G s" and "cl_threads s t = Some (Running (Invoke q k))"
  shows "cluster_inv p h G (set_thread t (Some (Waiting (length (cl_calls s)) k)) (s\<lparr>cl_calls := cl_calls s @ [(sr_identity q, InFlight)]\<rparr>))"
    (is "cluster_inv p h G (set_thread t ?w ?s)")
proof (rule calls_step [OF assms(1)])
  have own: "own_identity h (sr_identity q)" "kn_status (G t) (sr_identity q) = Owned"
    and next': "wp p h (k x) (\<lambda>_ _. True) (answered (sr_identity q) x (G t))" for x
    using thread_wp [OF assms] by simp_all
  have grow: "calls_grow s ?s" by (auto simp: calls_grow_def nth_append shown_def)
  then show "calls_grow s (set_thread t ?w ?s)" by (simp add: calls_grow_def)
  show "thread_inv p h (G t) (set_thread t ?w ?s) (cl_threads (set_thread t ?w ?s) t)"
    using thread_wp [OF assms] own(2) next' grow by (auto simp: thread_inv_def calls_grow_def)
  show "own_identity h i" if "(i, x) \<in> set (cl_calls (set_thread t ?w ?s))" for i x
    using that assms(1) own(1) by (auto simp: cluster_inv_def)
  fix i assume "slot_inv p G s i"
  note slot = slot_invD(1) [OF this]
  have idle: "\<not> waits s t n" for n using assms(2) by (simp add: waits_def)
  have wt: "waits (set_thread t ?w ?s) t' = waits s t'" if "t' \<noteq> t" for t' using that by (simp add: waits_def fun_eq_iff)
  show "slot_ok (\<lambda>t'. kn_status (G t') i) (waits (set_thread t ?w ?s)) (cl_files s (submission_invocation_path p i) \<noteq> None)
      (cl_files s (submission_rejection_path p i) \<noteq> None) (live (set_thread t ?w ?s) i)"
  proof (cases "i = sr_identity q")
    case True
    have "live (set_thread t ?w ?s) i = (live s i)(length (cl_calls s) := True)"
      unfolding set_thread_simps using True by (auto simp: live_append fun_eq_iff)
    then show ?thesis using slot_invoke [OF slot _ idle, of "waits (set_thread t ?w ?s)" "length (cl_calls s)"] own(2) True by (simp add: waits_set)
  next
    case False
    have "live (set_thread t ?w ?s) i = live s i" unfolding set_thread_simps using False by (auto simp: live_append fun_eq_iff)
    then show ?thesis using slot_idle [OF slot wt] slot_facts(8) [OF slot, of t] idle by metis
  qed
qed simp_all

lemma waits_calls: "waits (s\<lparr>cl_calls := cs\<rparr>) = waits s"
  by (simp add: waits_def fun_eq_iff)

lemma inv_decide:
  assumes "cluster_inv p h G s" and "n < length (cl_calls s)" and "cl_calls s ! n = (i0, InFlight)"
  shows "cluster_inv p h G (s\<lparr>cl_calls := (cl_calls s)[n := (i0, x)]\<rparr>)" (is "cluster_inv p h G ?s")
proof (rule calls_step [OF assms(1), where t = undefined])
  have upd: "cl_calls ?s ! m = (if m = n then (i0, x) else cl_calls s ! m)" if "m < length (cl_calls s)" for m
    using that by (simp add: nth_list_update)
  have "shown ?s c j" if sh: "shown s c j" for c j
  proof -
    obtain i m where im: "comment i = c" "m < length (cl_calls s)" "cl_calls s ! m = (i, Landed j)"
      using sh by (auto simp: shown_def in_set_conv_nth)
    then have "m \<noteq> n" using assms(3) by auto
    then have "cl_calls ?s ! m = (i, Landed j)" using upd [OF im(2)] im(3) by simp
    then show ?thesis using im(1,2) nth_mem [of m "cl_calls ?s"] by (auto simp: shown_def)
  qed
  then show grow: "calls_grow s ?s" using upd assms(3) by (simp add: calls_grow_def)
  show "thread_inv p h (G undefined) ?s (cl_threads ?s undefined)"
    using assms(1) thread_inv_mono [OF _ grow] by (simp add: cluster_inv_def)
  have "own_identity h i0" using assms nth_mem [of n "cl_calls s"] by (auto simp: cluster_inv_def)
  then show "own_identity h i" if "(i, x') \<in> set (cl_calls ?s)" for i x'
    using that assms(1) by (auto simp: cluster_inv_def dest!: set_update_subset_insert [THEN subsetD])
  fix i assume "slot_inv p G s i"
  note slot = slot_invD(1) [OF this]
  have "live ?s i m \<Longrightarrow> live s i m" for m using upd [of m] assms(3) by (auto simp: live_def split: if_splits)
  then show "slot_ok (\<lambda>t'. kn_status (G t') i) (waits ?s) (cl_files s (submission_invocation_path p i) \<noteq> None)
      (cl_files s (submission_rejection_path p i) \<noteq> None) (live ?s i)"
    using slot_drop [OF slot, of "live ?s i"] waits_calls by metis
qed simp_all

lemma inv_reply:
  assumes "cluster_inv p h G s" and "cl_threads s t = Some (Waiting n k)" and "truthful (snd (cl_calls s ! n)) r"
  shows "cluster_inv p h (G(t := answered (fst (cl_calls s ! n)) r (G t))) (set_thread t (Some (Running (k r))) s)"
    (is "cluster_inv p h (G(t := ?g)) ?s")
proof (rule thread_step [OF assms(1)])
  let ?i = "fst (cl_calls s ! n)"
  have wait: "n < length (cl_calls s)" "kn_status (G t) ?i = Owned" "wp p h (k r) (\<lambda>_ _. True) ?g"
    and jobs: "\<forall>(c, j) \<in> kn_jobs (G t). shown s c j"
    using assms(1,2) by (auto simp: cluster_inv_def thread_inv_def dest: spec [of _ t])
  have "shown s (comment ?i) j" if "j \<in> accepted_job r" for j
  proof -
    have "cl_calls s ! n = (?i, Landed j)" using assms(3) that by (auto simp: truthful_def prod_eq_iff)
    then show ?thesis using nth_mem [OF wait(1)] by (auto simp: shown_def)
  qed
  then show "thread_inv p h ?g s (cl_threads ?s t)" using wait(3) jobs by (auto simp: thread_inv_def answered_def)
  have wt: "waits s t m \<longleftrightarrow> m = n" for m using assms(2) by (auto simp: waits_def)
  have other: "waits ?s t' = waits s t'" if "t' \<noteq> t" for t' using that by (simp add: waits_def fun_eq_iff)
  fix i assume inv: "slot_inv p G s i"
  note slot = slot_invD(1) [OF inv]
  let ?st = "(\<lambda>t'. kn_status (G t') i)(t := kn_status ?g i)"
  show "slot_inv p (G(t := ?g)) ?s i"
  proof (rule slot_invI)
    show "slot_ok ?st (waits ?s) (cl_files ?s (submission_invocation_path p i) \<noteq> None)
      (cl_files ?s (submission_rejection_path p i) \<noteq> None) (live ?s i)"
      unfolding set_thread_simps
    proof (cases "i = ?i")
      case True
      have "refusal r \<Longrightarrow> \<not> live s i n" using assms(3) by (auto simp: truthful_def live_def)
      moreover have "kn_status ?g i = (if refusal r then Refused else Called)" using True by (simp add: answered_def)
      ultimately have "kn_status ?g i = Called \<or> kn_status ?g i = Refused \<and> \<not> live s i n" by simp
      then show "slot_ok ?st (waits ?s) (cl_files s (submission_invocation_path p i) \<noteq> None) (cl_files s (submission_rejection_path p i) \<noteq> None) (live s i)"
        using slot_reply [OF slot _ wt] wait(2) True by metis
    next
      case False
      then have same: "?st = (\<lambda>t'. kn_status (G t') i)" by (auto simp: answered_def)
      have "\<not> live s i m" if "kn_status (G t) i = Owned" for m
        using slot_facts(8) [OF slot that, of m] wt False by (auto simp: live_def)
      then show "slot_ok ?st (waits ?s) (cl_files s (submission_invocation_path p i) \<noteq> None) (cl_files s (submission_rejection_path p i) \<noteq> None) (live s i)"
        unfolding same using slot_idle [OF slot other] by metis
    qed
  qed (use slot_invD(2) [OF inv] in simp)
qed simp_all

section \<open>Every step\<close>

lemma inv_other:
  assumes "cluster_inv p h G s" and "\<forall>q. protected p h q \<longrightarrow> fs q = cl_files s q"
  shows "cluster_inv p h G (s\<lparr>cl_files := fs\<rparr>)"
proof -
  have "fs (submission_invocation_path p i) = cl_files s (submission_invocation_path p i)" "fs (submission_rejection_path p i) = cl_files s (submission_rejection_path p i)"
    "fs (submission_record_path p i) = cl_files s (submission_record_path p i)" if "own_identity h i" for i
    using assms(2) that by (auto simp: protected_def)
  moreover have "thread_inv p h g (s\<lparr>cl_files := fs\<rparr>) x = thread_inv p h g s x" for g x by (simp add: thread_inv_def split: option.split thread.split)
  ultimately show ?thesis using assms(1) by (simp add: cluster_inv_def slot_inv_def)
qed

lemma inv_read:
  assumes "cluster_inv p h G s" and "cl_threads s t = Some (Running (Look k))"
    and "\<forall>fs i. x = Inr fs \<longrightarrow> fs (submission_rejection_path p i) = cl_files s (submission_rejection_path p i)"
  shows "cluster_inv p h (G(t := seen p x (G t))) (set_thread t (Some (Running (k x))) s)"
proof (rule inv_running [OF assms(1,2)])
  show "kn_status (seen p x (G t)) i = kn_status (G t) i \<or> (kn_status (G t) i = Rejecting \<and> kn_status (seen p x (G t)) i = Refused
      \<and> cl_files s (submission_rejection_path p i) = None)" for i
    using assms(3) by (auto simp: seen_def split: sum.split)
qed (use thread_wp [OF assms(1,2)] in \<open>auto simp: seen_def split: sum.split\<close>)

lemma inv_find:
  assumes "cluster_inv p h G s" and "cl_threads s t = Some (Running (Find c k))" and "\<forall>js. r = Inr js \<longrightarrow> (\<forall>j \<in> set js. shown s c j)"
  shows "cluster_inv p h (G(t := case r of Inl _ \<Rightarrow> G t | Inr js \<Rightarrow> learn_jobs (Pair c ` set js) (G t))) (set_thread t (Some (Running (k r))) s)"
  by (rule inv_running [OF assms(1,2)]) (use thread_wp [OF assms(1,2)] assms(3) in \<open>auto split: sum.split\<close>)

lemma inv_step:
  assumes "valid_plan p" and "cluster_step en h p s s'" and "cluster_inv p h G s"
  shows "\<exists>G'. cluster_inv p h G' s'"
  using assms(2)
proof cases
  case (spawn t m)
  then show ?thesis using inv_spawn [OF assms(3)] operations_tame [OF assms(1)] by blast
next
  case (stop t)
  then show ?thesis using inv_stop [OF assms(3)] by blast
next
  case (free t m m')
  then have "wp p h m' (\<lambda>_ _. True) (G t)" using thread_wp [OF assms(3) free(2)] free_wp by blast
  then have "cluster_inv p h (G(t := G t)) (set_thread t (Some (Running m')) s)"
    using inv_running [OF assms(3) free(2)] thread_wp [OF assms(3) free(2)] by blast
  then show ?thesis using free(1) by blast
next
  case (read t k x)
  then show ?thesis using inv_read [OF assms(3)] by blast
next
  case (publish t q tx k r fs)
  then show ?thesis using inv_publish [OF assms(1,3)] by blast
next
  case (swap t q x y k r fs)
  then show ?thesis using inv_swap [OF assms(1,3)] by blast
next
  case (find t c k r)
  then show ?thesis using inv_find [OF assms(3)] by blast
next
  case (invoke t q k)
  then show ?thesis using inv_invoke [OF assms(3)] by blast
next
  case (land n i j)
  then show ?thesis using inv_decide [OF assms(3)] by blast
next
  case (drop n i)
  then show ?thesis using inv_decide [OF assms(3)] by blast
next
  case (reply t n k r)
  then show ?thesis using inv_reply [OF assms(3)] by blast
next
  case (other fs)
  then show ?thesis using inv_other [OF assms(3)] by blast
qed

lemma inv_start: "cluster_start p h s \<Longrightarrow> cluster_inv p h (\<lambda>_. fresh) s"
  by (auto simp: cluster_start_def cluster_inv_def thread_inv_def slot_inv_def slot_ok_def fresh_def live_def protected_def)

lemma inv_reachable:
  assumes "valid_plan p" and "cluster_start p h s0" and "(cluster_step en h p)\<^sup>*\<^sup>* s0 s"
  shows "\<exists>G. cluster_inv p h G s"
  using assms(3) by induction (use inv_start [OF assms(2)] inv_step [OF assms(1)] in blast)+

section \<open>Jobs\<close>

lemma jobs_of_set: "j \<in> set (jobs_of s i) \<longleftrightarrow> (i, Landed j) \<in> set (cl_calls s)"
  unfolding jobs_of_def by (force split: call_state.splits if_splits)

lemma job_live: "j \<in> set (jobs_of s i) \<Longrightarrow> \<exists>n. live s i n"
proof -
  assume "j \<in> set (jobs_of s i)"
  then have "(i, Landed j) \<in> set (cl_calls s)" by (simp add: jobs_of_set)
  from in_set_conv_nth [THEN iffD1, OF this] obtain n where "n < length (cl_calls s)" "cl_calls s ! n = (i, Landed j)" by blast
  then have "live s i n" by (simp add: live_def)
  then show ?thesis by blast
qed

text \<open>At most one live call gives at most one job.\<close>

lemma sole_job:
  assumes "\<And>m n. m < length xs \<Longrightarrow> n < length xs \<Longrightarrow> f (xs ! m) \<noteq> [] \<Longrightarrow> f (xs ! n) \<noteq> [] \<Longrightarrow> m = n" and "\<And>x. length (f x) \<le> 1"
  shows "length (concat (map f xs)) \<le> 1"
  using assms(1)
proof (induction xs)
  case (Cons x xs)
  show ?case
  proof (cases "f x = []")
    case True
    have "length (concat (map f xs)) \<le> 1" by (rule Cons.IH) (use Cons.prems [of "Suc _" "Suc _"] in auto)
    then show ?thesis using True by simp
  next
    case False
    have "f y = []" if y: "y \<in> set xs" for y
    proof (rule ccontr)
      assume "f y \<noteq> []"
      moreover obtain n where "n < length xs" "xs ! n = y" using y by (auto simp: in_set_conv_nth)
      ultimately show False using Cons.prems [of 0 "Suc n"] False by simp
    qed
    then have "concat (map f xs) = []" by (auto simp: concat_eq_Nil_conv)
    then show ?thesis using assms(2) [of x] by (simp only: list.map concat.simps append_Nil2)
  qed
qed simp

lemma inv_one_job:
  assumes "cluster_inv p h G s" and "own_identity h i"
  shows "length (jobs_of s i) \<le> 1"
  unfolding jobs_of_def
proof (rule sole_job)
  have "live s i n" if "n < length (cl_calls s)" "(case cl_calls s ! n of (i', x) \<Rightarrow> case x of Landed j \<Rightarrow> if i' = i then [j] else [] | _ \<Rightarrow> []) \<noteq> ([] :: ustr list)" for n
    using that by (auto simp: live_def split: prod.splits call_state.splits if_splits)
  then show "m = n" if "m < length (cl_calls s)" "n < length (cl_calls s)"
    "(case cl_calls s ! m of (i', x) \<Rightarrow> case x of Landed j \<Rightarrow> if i' = i then [j] else [] | _ \<Rightarrow> []) \<noteq> ([] :: ustr list)"
    "(case cl_calls s ! n of (i', x) \<Rightarrow> case x of Landed j \<Rightarrow> if i' = i then [j] else [] | _ \<Rightarrow> []) \<noteq> ([] :: ustr list)" for m n
    using that slot_facts(5) [OF slot_invD(1) [OF inv_slot [OF assms]]] by blast
qed (simp split: prod.split call_state.split)

lemma inv_rejected:
  assumes "cluster_inv p h G s" and "own_identity h i" and "cl_files s (submission_rejection_path p i) \<noteq> None"
  shows "jobs_of s i = []"
proof -
  have "\<not> live s i n" for n using slot_facts(9) [OF slot_invD(1) [OF inv_slot [OF assms(1,2)]] assms(3)] .
  then show ?thesis using job_live [of _ s i] by (cases "jobs_of s i") auto
qed

lemma inv_record:
  assumes "cluster_inv p h G s" and "own_identity h i" and "cl_files s (submission_record_path p i) = Some tx"
  obtains r where "record_post_init r = Inr r" "canonical_json (record_to_dict r) = Inr tx" "sb_identity r = i" "jobs_of s i = [sb_job_id r]"
proof -
  obtain r where r: "record_post_init r = Inr r" "canonical_json (record_to_dict r) = Inr tx" "sb_identity r = i" "shown s (comment i) (sb_job_id r)"
    using slot_invD(2) [OF inv_slot [OF assms(1,2)] assms(3)] by (auto simp: record_names_def)
  obtain i' where "comment i' = comment i" "(i', Landed (sb_job_id r)) \<in> set (cl_calls s)" using r(4) by (auto simp: shown_def)
  moreover from this(2) have "own_identity h i'" using assms(1) by (auto simp: cluster_inv_def)
  ultimately have "sb_job_id r \<in> set (jobs_of s i)"
    using comment_inj [of i' i] assms(2) by (auto simp: own_identity_def jobs_of_set)
  then have "jobs_of s i = [sb_job_id r]" using inv_one_job [OF assms(1,2)] by (cases "jobs_of s i") auto
  then show ?thesis using that r(1-3) by blast
qed

end
