(* ===== verification/Engine_Runs.thy ===== *)
theory Engine_Runs
  imports Engine_Cluster
begin

text \<open>
  A coordinator that runs alone is one behaviour of the cluster: every result of \<open>run\<close> is reached by steps of its
  thread, with the same files and the same jobs.
\<close>

definition landed :: "cluster \<Rightarrow> (ustr \<times> ustr) list" where
  "landed s = rev (concat (map (\<lambda>(i, x). case x of Landed j \<Rightarrow> [(comment i, j)] | _ \<Rightarrow> []) (cl_calls s)))"

definition same_world :: "cluster \<Rightarrow> world \<Rightarrow> bool" where
  "same_world s w \<longleftrightarrow> cl_files s = wd_files w \<and> landed s = wd_jobs w"

text \<open>A scheduler whose answers are clear: a job exists exactly when the outcome is \<open>ACCEPTED\<close>.\<close>

definition clear_backend :: "backend \<Rightarrow> bool" where
  "clear_backend b \<longleftrightarrow> (\<forall>q js. so_status (bk_invoke b q js) = ACCEPTED \<longleftrightarrow> so_job_id (bk_invoke b q js) \<noteq> None)"

lemma landed_shown: "(c, j) \<in> set (landed s) \<longleftrightarrow> shown s c j"
  unfolding landed_def shown_def by (force split: call_state.splits)

lemma landed_simps [simp]:
  "landed (set_thread t x s) = landed s" "landed (s\<lparr>cl_files := fs\<rparr>) = landed s"
  "landed (s\<lparr>cl_calls := cl_calls s @ [(i, Landed j)]\<rparr>) = (comment i, j) # landed s"
  "landed (s\<lparr>cl_calls := cl_calls s @ [(i, Dropped)]\<rparr>) = landed s"
  by (simp_all add: landed_def)

lemma outcome_names: "ACCEPTED \<noteq> DEFINITELY_NOT_INVOKED" "ACCEPTED \<noteq> DEFINITELY_REJECTED"
  by (simp_all add: ACCEPTED_def DEFINITELY_NOT_INVOKED_def DEFINITELY_REJECTED_def lit_def)

text \<open>A call that is answered at once.\<close>

lemma cluster_call:
  assumes "cl_threads s t = Some (Running (Invoke q k))"
    and "(so_status out = ACCEPTED) = (so_job_id out \<noteq> None)"
  shows "\<exists>x. (cluster_step en h p)\<^sup>*\<^sup>* s (set_thread t (Some (Running (k (Inr out)))) (s\<lparr>cl_calls := cl_calls s @ [(sr_identity q, x)]\<rparr>))
    \<and> x = (case so_job_id out of None \<Rightarrow> Dropped | Some j \<Rightarrow> Landed j)"
proof -
  let ?x = "case so_job_id out of None \<Rightarrow> Dropped | Some j \<Rightarrow> Landed j" and ?n = "length (cl_calls s)"
  let ?s1 = "set_thread t (Some (Waiting ?n k)) (s\<lparr>cl_calls := cl_calls s @ [(sr_identity q, InFlight)]\<rparr>)"
  let ?s2 = "set_thread t (Some (Waiting ?n k)) (s\<lparr>cl_calls := cl_calls s @ [(sr_identity q, ?x)]\<rparr>)"
  have "cluster_step en h p s ?s1" by (rule cluster_step.invoke [OF assms(1)])
  moreover have "cluster_step en h p ?s1 ?s2"
  proof -
    have n: "?n < length (cl_calls ?s1)" "cl_calls ?s1 ! ?n = (sr_identity q, InFlight)" by simp_all
    have "?s2 = ?s1\<lparr>cl_calls := (cl_calls ?s1)[?n := (sr_identity q, ?x)]\<rparr>" by (simp add: set_thread_def)
    then show ?thesis
      by (cases "so_job_id out") (simp_all only: option.case cluster_step.land [OF n] cluster_step.drop [OF n])
  qed
  moreover have "cluster_step en h p ?s2 (set_thread t (Some (Running (k (Inr out)))) ?s2)"
  proof (rule cluster_step.reply)
    show "cl_threads ?s2 t = Some (Waiting ?n k)" by simp
    show "truthful (snd (cl_calls ?s2 ! ?n)) (Inr out)"
      using assms(2) by (auto simp: truthful_def refusal_def accepted_job_def outcome_names [symmetric] split: option.split)
  qed
  moreover have "set_thread t (Some (Running (k (Inr out)))) ?s2
      = set_thread t (Some (Running (k (Inr out)))) (s\<lparr>cl_calls := cl_calls s @ [(sr_identity q, ?x)]\<rparr>)"
    by (simp add: set_thread_def)
  ultimately show ?thesis by (metis (no_types, lifting) rtranclp.simps)
qed

lemma write_answer: "write_immutable_text q t w = (r, w') \<Longrightarrow> publish_answer (wd_files w) q t r (wd_files w') \<and> wd_jobs w' = wd_jobs w"
  by (auto simp: write_immutable_text_def publish_answer_def split: if_splits option.splits)

lemma cas_answer: "compare_and_swap_text q x y w = (r, w') \<Longrightarrow> swap_answer (wd_files w) q x y r (wd_files w') \<and> wd_jobs w' = wd_jobs w"
  by (auto simp: compare_and_swap_text_def swap_answer_def split: if_splits)

lemma claim_frame:
  "acquire_claim b c w = (r, w') \<Longrightarrow> wd_files w' = wd_files w \<and> wd_jobs w' = wd_jobs w"
  "release_claim c w = (r', w') \<Longrightarrow> wd_files w' = wd_files w \<and> wd_jobs w' = wd_jobs w"
  "matching_claims dg c w = (r'', w') \<Longrightarrow> wd_files w' = wd_files w \<and> wd_jobs w' = wd_jobs w"
  by (auto simp: acquire_claim_def release_claim_def matching_claims_def Let_def split: if_splits sum.splits)

lemma run_free:
  assumes "cl_threads s t = Some (Running m)" "free_answer m m'" "same_world s w"
    and "\<And>s'. cl_threads s' t = Some (Running m') \<Longrightarrow> same_world s' w \<Longrightarrow> \<exists>s''. (cluster_step en h p)\<^sup>*\<^sup>* s' s'' \<and> P s''"
  shows "\<exists>s''. (cluster_step en h p)\<^sup>*\<^sup>* s s'' \<and> P s''"
proof -
  let ?s = "set_thread t (Some (Running m')) s"
  have "cl_threads ?s t = Some (Running m')" "same_world ?s w" using assms(3) by (simp_all add: same_world_def)
  from assms(4) [OF this] show ?thesis using cluster_step.free [OF assms(1,2)] converse_rtranclp_into_rtranclp by metis
qed

text \<open>Every run of one coordinator is a run of the cluster.\<close>

lemma run_cluster:
  assumes "clear_backend b"
  shows "run dg b m w = (r, w') \<Longrightarrow> cl_threads s t = Some (Running m) \<Longrightarrow> same_world s w \<Longrightarrow>
    \<exists>s'. (cluster_step en h p)\<^sup>*\<^sup>* s s' \<and> cl_threads s' t = Some (Running (Done r)) \<and> same_world s' w'"
proof (induction m arbitrary: w s)
  case (Done x)
  then show ?case by auto
next
  case (Look k)
  let ?s = "set_thread t (Some (Running (k (Inr (wd_files w))))) s"
  have "cluster_step en h p s ?s"
    by (rule cluster_step.read [OF Look.prems(2)]) (use Look.prems(3) in \<open>auto simp: same_world_def\<close>)
  moreover have "same_world ?s w" using Look.prems(3) by (simp add: same_world_def)
  ultimately show ?case
    using Look.IH [of "k (Inr (wd_files w))" w ?s] Look.prems(1) by (auto intro: converse_rtranclp_into_rtranclp)
next
  case (Observe k)
  show ?case by (rule run_free [where m' = "k (Inr (bk_observe b))", OF Observe.prems(2) free_answer.intros(1) Observe.prems(3)], rule Observe.IH [OF rangeI]) (use Observe.prems(1) in simp_all)
next
  case (States j k)
  show ?case by (rule run_free [where m' = "k (Inr (bk_states b j))", OF States.prems(2) free_answer.intros(2) States.prems(3)], rule States.IH [OF rangeI]) (use States.prems(1) in simp_all)
next
  case (Publish q tx k)
  obtain y w1 where y: "write_immutable_text q tx w = (y, w1)" by fastforce
  let ?s = "set_thread t (Some (Running (k y))) (s\<lparr>cl_files := wd_files w1\<rparr>)"
  have "cluster_step en h p s ?s"
    by (rule cluster_step.publish [OF Publish.prems(2)]) (use Publish.prems(3) write_answer [OF y] in \<open>simp add: same_world_def\<close>)
  moreover have "same_world ?s w1" using Publish.prems(3) write_answer [OF y] by (simp add: same_world_def)
  ultimately show ?case using Publish.IH [of "k y" w1 ?s] Publish.prems(1) y by (auto intro: converse_rtranclp_into_rtranclp)
next
  case (Swap q x1 x2 k)
  obtain y w1 where y: "compare_and_swap_text q x1 x2 w = (y, w1)" by fastforce
  let ?s = "set_thread t (Some (Running (k y))) (s\<lparr>cl_files := wd_files w1\<rparr>)"
  have "cluster_step en h p s ?s"
    by (rule cluster_step.swap [OF Swap.prems(2)]) (use Swap.prems(3) cas_answer [OF y] in \<open>simp add: same_world_def\<close>)
  moreover have "same_world ?s w1" using Swap.prems(3) cas_answer [OF y] by (simp add: same_world_def)
  ultimately show ?case using Swap.IH [of "k y" w1 ?s] Swap.prems(1) y by (auto intro: converse_rtranclp_into_rtranclp)
next
  case (Find c k)
  let ?s = "set_thread t (Some (Running (k (Inr (listed_jobs c w))))) s"
  have "cluster_step en h p s ?s"
    by (rule cluster_step.find [OF Find.prems(2)])
      (use Find.prems(3) landed_shown [of c _ s] in \<open>auto simp: same_world_def listed_jobs_def\<close>)
  moreover have "same_world ?s w" using Find.prems(3) by (simp add: same_world_def)
  ultimately show ?case using Find.IH [of "k (Inr (listed_jobs c w))" w ?s] Find.prems(1) by (auto intro: converse_rtranclp_into_rtranclp)
next
  case (Prepare q k)
  show ?case by (rule run_free [where m' = "k (Inr (bk_prepare b q))", OF Prepare.prems(2) free_answer.intros(3) Prepare.prems(3)], rule Prepare.IH [OF rangeI]) (use Prepare.prems(1) in simp_all)
next
  case (Invoke q k)
  define out where "out = bk_invoke b q (map snd (wd_jobs w))"
  define w1 where "w1 = snd (submit_job b q w)"
  have out: "submit_job b q w = (Inr out, w1)" by (simp add: w1_def submit_job_def Let_def out_def)
  have "(so_status out = ACCEPTED) = (so_job_id out \<noteq> None)" using assms by (auto simp: clear_backend_def out_def)
  note call = cluster_call [OF Invoke.prems(2) this]
  define x where "x = (case so_job_id out of None \<Rightarrow> Dropped | Some j \<Rightarrow> Landed j)"
  let ?s = "set_thread t (Some (Running (k (Inr out)))) (s\<lparr>cl_calls := cl_calls s @ [(sr_identity q, x)]\<rparr>)"
  have steps: "(cluster_step en h p)\<^sup>*\<^sup>* s ?s" using call by (auto simp: x_def)
  have "same_world ?s w1"
    using Invoke.prems(3) by (simp add: same_world_def x_def w1_def submit_job_def Let_def out_def [symmetric] split: option.split)
  then show ?case using Invoke.IH [of "k (Inr out)" w1 ?s] Invoke.prems(1) out steps by (auto intro: rtranclp_trans)
next
  case (Acquire c k)
  obtain y w1 where y: "acquire_claim b c w = (y, w1)" by fastforce
  have sw: "same_world s w1" using Acquire.prems(3) claim_frame(1) [OF y] by (simp add: same_world_def)
  show ?case by (rule run_free [where m' = "k y", OF Acquire.prems(2) free_answer.intros(4) sw], rule Acquire.IH [OF rangeI]) (use Acquire.prems(1) y in simp_all)
next
  case (Release c k)
  obtain y w1 where y: "release_claim c w = (y, w1)" by fastforce
  have sw: "same_world s w1" using Release.prems(3) claim_frame(2) [OF y] by (simp add: same_world_def)
  show ?case by (rule run_free [where m' = "k y", OF Release.prems(2) free_answer.intros(5) sw], rule Release.IH [OF rangeI]) (use Release.prems(1) y in simp_all)
next
  case (Matching c k)
  obtain y w1 where y: "matching_claims dg c w = (y, w1)" by fastforce
  have sw: "same_world s w1" using Matching.prems(3) claim_frame(3) [OF y] by (simp add: same_world_def)
  show ?case by (rule run_free [where m' = "k y", OF Matching.prems(2) free_answer.intros(6) sw], rule Matching.IH [OF rangeI]) (use Matching.prems(1) y in simp_all)
next
  case (ValidatePlan k)
  show ?case by (rule run_free [where m' = "k (Inr (bk_validate b))", OF ValidatePlan.prems(2) free_answer.intros(7) ValidatePlan.prems(3)], rule ValidatePlan.IH [OF rangeI]) (use ValidatePlan.prems(1) in simp_all)
next
  case (Synchronize u k)
  show ?case by (rule run_free [where m' = "k (Inr (bk_synchronize b u))", OF Synchronize.prems(2) free_answer.intros(8) Synchronize.prems(3)], rule Synchronize.IH [OF rangeI]) (use Synchronize.prems(1) in simp_all)
qed

end
