(* ===== verification/Engine_Depth.thy ===== *)
theory Engine_Depth
  imports Engine_Submit Evidence_Facts
begin

text \<open>
  The recursion between submission and follow-ups ends: a follow-up goes to a stage that depends on the retried stage, so the
  depth of the calls is bounded by the number of stages, and \<open>submit_depth\<close> never runs out of depth.
\<close>

lemma each_cong: "(\<And>x. x \<in> set xs \<Longrightarrow> f x = g x) \<Longrightarrow> each f xs = each g xs"
  by (induction xs) auto

lemma bind_Done_cong: "(\<And>x. r = Inr x \<Longrightarrow> f x = g x) \<Longrightarrow> bindp (Done r) f = bindp (Done r) g"
  by (cases r) auto

section \<open>Only dependent stages are submitted\<close>

lemma followup_cong:
  assumes "retried \<in> set (st_depends_on s) \<Longrightarrow> submit (st_stage_id s) = submit' (st_stage_id s)"
  shows "ensure_followup en h p submit retried r s = ensure_followup en h p submit' retried r s"
proof (cases "retried \<in> set (st_depends_on s)")
  case True
  note same = assms [OF True]
  have followup: "submit_dependency_followup p submit (st_stage_id s) = submit_dependency_followup p submit' (st_stage_id s)"
    unfolding submit_dependency_followup_def same by (rule refl)
  have "submit_covering en h p submit s = submit_covering en h p submit' s"
    by (intro ext) (unfold submit_covering_def followup, rule refl)
  then have "next_generation en h p submit s = next_generation en h p submit' s"
    by (intro ext) (unfold next_generation_def followup, simp only:)
  moreover have "authorize_generation en h p submit retried r s = authorize_generation en h p submit' retried r s"
    by (intro ext) (unfold authorize_generation_def followup, rule refl)
  ultimately show ?thesis by (simp only: ensure_followup_def)
qed (simp add: ensure_followup_def)

lemma followups_cong:
  assumes "\<And>s. s \<in> set (pl_stages p) \<Longrightarrow> retried \<in> set (st_depends_on s) \<Longrightarrow> submit (st_stage_id s) = submit' (st_stage_id s)"
  shows "ensure_reconciler_followups en h p submit retried = ensure_reconciler_followups en h p submit' retried"
proof
  fix r
  have "each (ensure_followup en h p submit retried r) (pl_stages p) = each (ensure_followup en h p submit' retried r) (pl_stages p)"
    by (intro each_cong followup_cong assms)
  then show "ensure_reconciler_followups en h p submit retried r = ensure_reconciler_followups en h p submit' retried r"
    by (simp add: ensure_reconciler_followups_def)
qed

text \<open>A submission uses the follow-ups of its own stage only.\<close>

lemma submit_with_cong:
  assumes "f x = g x"
  shows "submit_stage_with en h p f x n ts = submit_stage_with en h p g x n ts"
proof -
  have id: "st_stage_id s = x" if "stage_by_id p x = Inr s" for s
    using that by (auto simp: stage_by_id_def find_Some_iff split: option.splits)
  have replay: "replay_submission en h p f s i selected r claim = replay_submission en h p g s i selected r claim"
    if "st_stage_id s = x" for s i selected r claim
    unfolding replay_submission_def that assms by (rule refl)
  have "record_submission en h p f s i selected deps claim owner = record_submission en h p g s i selected deps claim owner"
    if "st_stage_id s = x" for s i selected deps claim owner
    unfolding record_submission_def converge_submission_def that assms by (rule refl)
  then have new: "submit_new en h p f s i selected deps claim = submit_new en h p g s i selected deps claim"
    if "st_stage_id s = x" for s i selected deps claim
    by (simp only: submit_new_def that)
  have "submit_stage_claimed en h p f x n ts = submit_stage_claimed en h p g x n ts"
  proof
    fix claim
    show "submit_stage_claimed en h p f x n ts claim = submit_stage_claimed en h p g x n ts claim"
    proof (cases "stage_by_id p x")
      case (Inr s)
      show ?thesis unfolding submit_stage_claimed_def Inr bindp.simps sum.case replay [OF id [OF Inr]] new [OF id [OF Inr]] by (rule refl)
    qed (simp add: submit_stage_claimed_def)
  qed
  then show ?thesis by (simp add: submit_stage_with_def)
qed

section \<open>Depth\<close>

definition above :: "execution_plan \<Rightarrow> ustr \<Rightarrow> ustr set" where
  "above p i = {d. (d, i) \<in> (dep_edges p)\<^sup>+}"

lemma above_dependent:
  assumes "plan_ok p" "plan_sound p" and "s \<in> set (pl_stages p)" and "i \<in> set (st_depends_on s)"
  shows "card (above p (st_stage_id s)) < card (above p i)"
proof -
  have d: "distinct (stage_ids (pl_stages p))" using assms(1) by (simp add: plan_ok_def graph_ok_def)
  have edge: "(st_stage_id s, i) \<in> dep_edges p"
    using assms(3,4) by_id_get [OF d] by (auto simp: dep_edges_def edges_def deps_of_def)
  have dom: "Domain (dep_edges p) \<subseteq> set (stage_ids (pl_stages p))"
    using by_id_dkeys [OF d] dget_None_iff [of "by_id (pl_stages p)"]
    by (auto simp: dep_edges_def edges_def deps_of_def split: option.splits)
  have fin: "finite (above p j)" for j
    by (rule finite_subset [of _ "set (stage_ids (pl_stages p))"]) (use dom in \<open>auto simp: above_def dest!: tranclD\<close>)
  have "st_stage_id s \<notin> above p (st_stage_id s)" using plan_graph(3) [OF assms(1,2)] by (simp add: above_def acyclic_def)
  moreover have "insert (st_stage_id s) (above p (st_stage_id s)) \<subseteq> above p i"
    using edge by (auto simp: above_def intro: trancl_into_trancl)
  ultimately have "above p (st_stage_id s) \<subset> above p i" by blast
  then show ?thesis by (rule psubset_card_mono [OF fin])
qed

lemma above_stages:
  assumes "plan_ok p" "plan_sound p" and "s \<in> set (pl_stages p)"
  shows "card (above p (st_stage_id s)) < length (pl_stages p)"
proof -
  have d: "distinct (stage_ids (pl_stages p))" using assms(1) by (simp add: plan_ok_def graph_ok_def)
  have dom: "Domain (dep_edges p) \<subseteq> set (stage_ids (pl_stages p))"
    using by_id_dkeys [OF d] dget_None_iff [of "by_id (pl_stages p)"]
    by (auto simp: dep_edges_def edges_def deps_of_def split: option.splits)
  have "st_stage_id s \<notin> above p (st_stage_id s)" using plan_graph(3) [OF assms(1,2)] by (simp add: above_def acyclic_def)
  moreover have "above p (st_stage_id s) \<subseteq> set (stage_ids (pl_stages p))" using dom by (auto simp: above_def dest!: tranclD)
  moreover have "st_stage_id s \<in> set (stage_ids (pl_stages p))" using assms(3) by (simp add: stage_ids_def)
  ultimately have "card (above p (st_stage_id s)) < card (set (stage_ids (pl_stages p)))" by (metis List.finite_set psubsetI psubset_card_mono)
  then show ?thesis using distinct_card [OF d] by (simp add: stage_ids_def)
qed

lemma submit_unknown: "stage_by_id p x = Inl e \<Longrightarrow> submit_depth en h p (Suc k) x n ts = Done (Inl e)"
  by (simp add: submit_stage_with_def)

lemma depth_step:
  assumes "plan_ok p" "plan_sound p"
  shows "s \<in> set (pl_stages p) \<Longrightarrow> card (above p (st_stage_id s)) < k \<Longrightarrow>
    submit_depth en h p (Suc k) (st_stage_id s) = submit_depth en h p k (st_stage_id s)"
proof (induction k arbitrary: s)
  case (Suc k)
  have "submit_depth en h p (Suc k) (st_stage_id t) = submit_depth en h p k (st_stage_id t)"
    if "t \<in> set (pl_stages p)" "st_stage_id s \<in> set (st_depends_on t)" for t
    using Suc.IH [OF that(1)] above_dependent [OF assms that] Suc.prems(2) by (simp del: submit_depth.simps)
  then have "ensure_reconciler_followups en h p (\<lambda>d m. submit_depth en h p (Suc k) d m None) (st_stage_id s)
      = ensure_reconciler_followups en h p (\<lambda>d m. submit_depth en h p k d m None) (st_stage_id s)"
    by (intro followups_cong) (simp del: submit_depth.simps)
  from submit_with_cong [of "ensure_reconciler_followups en h p (\<lambda>d m. submit_depth en h p (Suc k) d m None)" "st_stage_id s"
      "ensure_reconciler_followups en h p (\<lambda>d m. submit_depth en h p k d m None)", OF this]
  show ?case unfolding fun_eq_iff submit_depth.simps(2) [of _ _ _ "Suc k"] submit_depth.simps(2) [of _ _ _ k] by blast
qed simp

lemma depth_enough:
  assumes "plan_ok p" "plan_sound p"
  shows "submit_depth en h p (length (pl_stages p) + k) x n ts = submit_depth en h p (length (pl_stages p)) x n ts"
proof (cases "stage_by_id p x")
  case (Inl e)
  have "pl_stages p \<noteq> []" using assms(1) by (simp add: plan_ok_def graph_ok_def)
  then obtain m where "length (pl_stages p) = Suc m" by (cases "pl_stages p") auto
  then show ?thesis using submit_unknown [OF Inl] by (simp del: submit_depth.simps)
next
  case (Inr s)
  then have s: "s \<in> set (pl_stages p)" "st_stage_id s = x" by (auto simp: stage_by_id_def find_Some_iff split: option.splits)
  have "submit_depth en h p (length (pl_stages p) + k) (st_stage_id s) = submit_depth en h p (length (pl_stages p)) (st_stage_id s)"
  proof (induction k)
    case (Suc k)
    then show ?case using depth_step [OF assms s(1), of "length (pl_stages p) + k"] above_stages [OF assms s(1)] by (simp del: submit_depth.simps)
  qed simp
  then show ?thesis using s(2) by simp
qed

end
