(* ===== verification/Evidence_Properties.thy ===== *)
theory Evidence_Properties
  imports Evidence_Facts Plan_Samples
begin

text \<open>
  Properties of the engine's evidence files and of their readers.
\<close>

section \<open>A sample store\<close>

text \<open>The first stage of the sample plan after one successful attempt.\<close>

definition first_identity :: submission_identity where
  "first_identity = \<lparr>si_plan_sha256 = hex64, si_stage_id = lit ''a'', si_attempt = 1\<rparr>"

definition first_record :: submission_record where
  "first_record = \<lparr>sb_identity = first_identity, sb_job_id = lit ''12'', sb_task_ids = [lit ''a''], sb_task_indices = [],
     sb_recovered = True, sb_dependency_mode = lit ''afterok'', sb_dependency_job_ids = []\<rparr>"

definition first_verdict :: task_attempt_receipt where
  "first_verdict = \<lparr>ta_identity = first_identity, ta_task_id = lit ''a'', ta_array_index = None, ta_job_id = lit ''12'',
     ta_slurm_state = lit ''COMPLETED'', ta_exit_code = Some 0,
     ta_receipt_observations = [\<lparr>ob_path = rc_path (sample_receipt ''a''), ob_exists = True, ob_sha256 = Some hex64,
       ob_trustworthy = True, ob_error = None\<rparr>],
     ta_successful = True, ta_retryable = False\<rparr>"

definition first_receipt :: reconciliation_receipt where
  "first_receipt = \<lparr>rr_plan_sha256 = hex64, rr_stage_id = lit ''a'', rr_attempt = 1, rr_decision = RECONCILE_COMPLETE,
     rr_successful = [lit ''a''], rr_retry = [], rr_failed = [], rr_active = [], rr_schema_version = 1\<rparr>"

abbreviation stage_a :: stage_spec where
  "stage_a \<equiv> sample_stage ''a'' []"

text \<open>A store given by the facts it records.\<close>

definition files_of :: "execution_plan \<Rightarrow> (engine_file \<times> ustr) list \<Rightarrow> files" where
  "files_of p xs q = map_of (map (\<lambda>(f, t). (file_path p f, t)) xs) q"

lemma files_of_get:
  assumes "plan_ok p" "plan_sound p" and "file_ok sha f" and "\<forall>(g, t) \<in> set xs. file_ok sha g"
  shows "files_of p xs (file_path p f) = map_of xs f"
  using assms(4) by (induction xs) (auto simp: files_of_def file_path_inj [OF assms(1,2,3)])

lemma first_canonical:
  "identity_ok first_identity" "submission.canonical first_record" "attempt.canonical first_verdict"
  "reconciliation.canonical hex64 stage_a 1 first_receipt"
proof -
  show i: "identity_ok first_identity" by (simp add: identity_ok_def first_identity_def)
  have dig: "isdigit (lit ''12'')" by (simp add: isdigit_def is_digit_def is_nd_small lit_def)
  show "submission.canonical first_record"
    by (simp add: submission.canonical_def record_post_init_def first_record_def i dig check_tasks_def DEPENDENCY_MODES_def)
  show "attempt.canonical first_verdict"
    by (simp add: attempt.canonical_def attempt_post_init_def first_verdict_def attempt_sound_def i dig trusted_def
        observation_post_init_def sample_receipt_def) (simp add: lit_def rel_of_def)
  show "reconciliation.canonical hex64 stage_a 1 first_receipt"
    by (simp add: reconciliation.canonical_def reconciliation_ok_def first_receipt_def reconciliation_sound_def id_list_ok_def
        sample_stage_def validate_stage_coverage_def stage_task_ids_def STAGE_RECEIPTS_SENTINEL_def)
qed

definition plain_library :: library where
  "plain_library = \<lparr>lb_sha = \<lambda>_. hex64, lb_float = \<lambda>_. NaN, lb_upper = \<lambda>c. [c]\<rparr>"

lemma stage_a_in: "stage_a \<in> set (pl_stages sample_plan)"
  by (simp add: sample_plan_def sample_stages_def)

lemma first_files:
  obtains t1 t2 t3 where
    "canonical_json (record_to_dict first_record) = Inr t1" "canonical_json (attempt_to_dict first_verdict) = Inr t2"
    "canonical_json (reconciliation_to_dict first_receipt) = Inr t3"
    "\<And>l. \<exists>d. strict_json_object fl t1 l = Inr d \<and> record_from_dict (JObj d) = Inr first_record"
    "\<And>l. \<exists>d. strict_json_object fl t2 l = Inr d \<and> attempt_from_dict (JObj d) = Inr first_verdict"
    "\<And>l. \<exists>d. strict_json_object fl t3 l = Inr d \<and> reconciliation_from_dict hex64 stage_a 1 (JObj d) = Inr first_receipt"
proof -
  obtain t1 t2 t3 where t: "canonical_json (record_to_dict first_record) = Inr t1" "canonical_json (attempt_to_dict first_verdict) = Inr t2"
    "canonical_json (reconciliation_to_dict first_receipt) = Inr t3"
    using submission_file.file_roundtrip [OF first_canonical(2)] attempt_file.file_roundtrip [OF first_canonical(3)]
      reconciliation_file.file_roundtrip [OF first_canonical(4)] by blast
  show thesis
    using submission_file.file_roundtrip [OF first_canonical(2), of fl] attempt_file.file_roundtrip [OF first_canonical(3), of fl]
      reconciliation_file.file_roundtrip [OF first_canonical(4), of fl] t by (intro that [OF t]) auto
qed

definition first_store :: files where
  "first_store = files_of sample_plan
     (case (canonical_json (record_to_dict first_record), canonical_json (attempt_to_dict first_verdict),
            canonical_json (reconciliation_to_dict first_receipt)) of
        (Inr t1, Inr t2, Inr t3) \<Rightarrow>
          [(Submission first_identity, t1), (Attempt first_identity (lit ''a''), t2), (Reconciliation (lit ''a'') 1, t3)]
      | _ \<Rightarrow> [])"

lemma sample_valid: "plan_ok sample_plan" "plan_sound sample_plan"
  using sample_plan_canonical by (simp_all add: plan.canonical_def plan_post_init_iff)

lemma bound_a: "attempt_bound sample_plan stage_a = Inr 3"
proof -
  have "stage_by_id sample_plan (lit ''a'') = Inr stage_a"
    by (simp add: stage_by_id_def sample_plan_def sample_stages_def sample_stage_def)
  then show ?thesis
    by (simp add: attempt_bound_def signed_attempt_bound_def sample_bounds sample_plan_def sample_stage_def)
qed

lemma tasks_a: "\<exists>t. select_tasks stage_a None = Inr [t] \<and> select_tasks stage_a (Some [lit ''a'']) = Inr [t] \<and> pt_task_id t = lit ''a''
    \<and> pt_array_index t = None \<and> pt_expected_receipts t = [sample_receipt ''a'']"
  by (simp add: select_tasks_def available_tasks_def sample_stage_def planned_task_post_init_def task_at_def)

lemma attempts_three: "[1..3] = [1, 2, 3 :: int]"
  by (simp add: upto.simps)

lemma first_store_get:
  obtains t1 t2 t3 where
    "\<And>f. file_ok hex64 f \<Longrightarrow> first_store (file_path sample_plan f) =
       map_of [(Submission first_identity, t1), (Attempt first_identity (lit ''a''), t2), (Reconciliation (lit ''a'') 1, t3)] f"
    "\<And>l. \<exists>d. strict_json_object (\<lambda>_. NaN) t1 l = Inr d \<and> record_from_dict (JObj d) = Inr first_record"
    "\<And>l. \<exists>d. strict_json_object (\<lambda>_. NaN) t2 l = Inr d \<and> attempt_from_dict (JObj d) = Inr first_verdict"
    "\<And>l. \<exists>d. strict_json_object (\<lambda>_. NaN) t3 l = Inr d \<and> reconciliation_from_dict hex64 stage_a 1 (JObj d) = Inr first_receipt"
proof -
  obtain t1 t2 t3 where t:
    "canonical_json (record_to_dict first_record) = Inr t1" "canonical_json (attempt_to_dict first_verdict) = Inr t2"
    "canonical_json (reconciliation_to_dict first_receipt) = Inr t3"
    "\<And>l. \<exists>d. strict_json_object (\<lambda>_. NaN) t1 l = Inr d \<and> record_from_dict (JObj d) = Inr first_record"
    "\<And>l. \<exists>d. strict_json_object (\<lambda>_. NaN) t2 l = Inr d \<and> attempt_from_dict (JObj d) = Inr first_verdict"
    "\<And>l. \<exists>d. strict_json_object (\<lambda>_. NaN) t3 l = Inr d \<and> reconciliation_from_dict hex64 stage_a 1 (JObj d) = Inr first_receipt"
    using first_files [of "\<lambda>_. NaN"] by metis
  have "first_store (file_path sample_plan f) =
      map_of [(Submission first_identity, t1), (Attempt first_identity (lit ''a''), t2), (Reconciliation (lit ''a'') 1, t3)] f"
    if "file_ok hex64 f" for f
    unfolding first_store_def t using that first_canonical(1)
    by (simp add: files_of_get [OF sample_valid, of hex64] first_identity_def)
  with t(4-6) show thesis by (intro that)
qed

lemma first_store_reads:
  "read_plan_submission_records plain_library first_store hex64 sample_plan stage_a None = Inr [first_record]"
  "read_plan_submission_records plain_library first_store hex64 sample_plan stage_a (Some 1) = Inr [first_record]"
proof -
  let ?R = "read_plan_submission_records plain_library first_store hex64 sample_plan"
  obtain t1 t2 t3 where fs: "\<And>f. file_ok hex64 f \<Longrightarrow> first_store (file_path sample_plan f) =
       map_of [(Submission first_identity, t1), (Attempt first_identity (lit ''a''), t2), (Reconciliation (lit ''a'') 1, t3)] f"
    and t: "\<And>l. \<exists>d. strict_json_object (\<lambda>_. NaN) t1 l = Inr d \<and> record_from_dict (JObj d) = Inr first_record"
    by (rule first_store_get) (rule that)
  have ident: "make_identity hex64 stage_a k = Inr \<lparr>si_plan_sha256 = hex64, si_stage_id = lit ''a'', si_attempt = k\<rparr>"
    if "1 \<le> k" "k \<le> 3" for k using that by (simp add: make_identity_iff identity_ok_def sample_stage_def)
  have later: "read_attempt_record plain_library first_store ?R hex64 sample_plan stage_a k = Inr []" if "k = 2 \<or> k = 3" for k
  proof -
    have "first_store (file_path sample_plan (Submission \<lparr>si_plan_sha256 = hex64, si_stage_id = lit ''a'', si_attempt = k\<rparr>)) = None"
      using that by (subst fs) (auto simp: identity_ok_def first_identity_def)
    then show ?thesis using that ident [of k] by (auto simp: read_attempt_record_def)
  qed
  obtain ts where ts: "select_tasks stage_a None = Inr [ts]" "select_tasks stage_a (Some [lit ''a'']) = Inr [ts]"
    "pt_task_id ts = lit ''a''" "pt_array_index ts = None" using tasks_a by blast
  have i: "file_ok hex64 (Intent first_identity)" "file_ok hex64 (Submission first_identity)"
    using first_canonical(1) by (simp_all add: first_identity_def)
  have st: "first_store (submission_intent_path sample_plan first_identity) = None"
    "first_store (submission_record_path sample_plan first_identity) = Some t1"
    using fs [OF i(1)] fs [OF i(2)] by simp_all
  have id: "make_identity hex64 stage_a 1 = Inr first_identity" using ident [of 1] by (simp add: first_identity_def)
  have ct: "committed_attempt_contract plain_library first_store ?R hex64 sample_plan stage_a 1 = Inr ([lit ''a''], None)"
    using ts(1,3) by (simp add: committed_attempt_contract_def intent_contract_def id st)
  have rd: "read_submission_record plain_library first_store (submission_record_path sample_plan first_identity)
      (Some first_identity) (Some [lit ''a'']) (Some []) (Some (st_dependency_mode stage_a)) None = Inr (Some first_record)"
    unfolding read_submission_record_iff using st(2) t [of "''submission record''"]
    by (auto simp: plain_library_def first_record_def sample_stage_def)
  have dp: "validate_record_dependencies ?R sample_plan stage_a first_record None = Inr ()"
    by (simp add: validate_record_dependencies_def first_record_def sample_stage_def)
  have one: "read_attempt_record plain_library first_store ?R hex64 sample_plan stage_a 1 = Inr [first_record]"
    using ts(2-4) by (simp add: read_attempt_record_def id ct st(2) rd dp)
  have step: "?R stage_a u = records_step plain_library first_store hex64 sample_plan ?R stage_a u" if "u = None \<or> u = Some 1" for u
    using records_unfold(2) [OF sample_valid stage_a_in, of u 1] that by auto
  show "?R stage_a None = Inr [first_record]"
    using step [of None] by (simp add: records_step_def bound_a one later concatR_def attempts_three)
  show "?R stage_a (Some 1) = Inr [first_record]"
    using step [of "Some 1"] by (simp add: records_step_def bound_a one concatR_def)
qed

section \<open>Files\<close>

text \<open>C24. Evidence files read back as what was written: for every submission record, rejection, task verdict
  and reconciliation receipt that its constructor accepts, with an accepted identity, the canonical text exists, and
  the strict reader decodes that text to the same record.
\<close>

theorem evidence_files_roundtrip:
  assumes "record_post_init r = Inr r" "identity_post_init (sb_identity r) = Inr (sb_identity r)"
    and "rejection_post_init x = Inr x" "identity_post_init (rj_identity x) = Inr (rj_identity x)"
    and "attempt_post_init a = Inr a" "identity_post_init (ta_identity a) = Inr (ta_identity a)"
      "\<forall>b \<in> set (ta_receipt_observations a). observation_post_init b = Inr b"
    and "reconciliation_post_init q = Inr q" "reconciliation_sound h s n q"
  shows "(\<exists>t. canonical_json (record_to_dict r) = Inr t \<and> bind (strict_json_object fl t l) (\<lambda>d. record_from_dict (JObj d)) = Inr r)
    \<and> (\<exists>t. canonical_json (rejection_to_dict x) = Inr t \<and> bind (strict_json_object fl t l) (\<lambda>d. rejection_from_dict (JObj d)) = Inr x)
    \<and> (\<exists>t. canonical_json (attempt_to_dict a) = Inr t \<and> bind (strict_json_object fl t l) (\<lambda>d. attempt_from_dict (JObj d)) = Inr a)
    \<and> (\<exists>t. canonical_json (reconciliation_to_dict q) = Inr t
        \<and> bind (strict_json_object fl t l) (\<lambda>d. reconciliation_from_dict h s n (JObj d)) = Inr q)"
proof -
  have "submission.canonical r" using assms(1,2) by (simp add: submission.canonical_def)
  moreover have "rejection.canonical x" using assms(3,4) by (simp add: rejection.canonical_def)
  moreover have "list_all ob_trustworthy (ta_receipt_observations a)" using assms(5) by (auto simp: attempt_post_init_def)
  then have "attempt.canonical a"
    using assms(5-7) by (auto simp: attempt.canonical_def attempt_sound_def trusted_def list_all_iff)
  moreover have "reconciliation.canonical h s n q" using assms(8,9) by (simp add: reconciliation.canonical_def)
  ultimately show ?thesis
    by (intro conjI submission_file.file_roundtrip rejection_file.file_roundtrip attempt_file.file_roundtrip
        reconciliation_file.file_roundtrip)
qed

definition first_rejection :: rejection_record where
  "first_rejection = \<lparr>rj_identity = first_identity, rj_task_ids = [lit ''a''], rj_task_indices = [], rj_returncode = 1,
     rj_stdout = [], rj_stderr = [10, 34]\<rparr>"

theorem evidence_files_roundtrip_witness:
  "\<exists>t. canonical_json (rejection_to_dict first_rejection) = Inr t
     \<and> bind (strict_json_object (\<lambda>_. NaN) t ''f'') (\<lambda>d. rejection_from_dict (JObj d)) = Inr first_rejection"
proof -
  have x: "rejection_post_init first_rejection = Inr first_rejection" "identity_ok (rj_identity first_rejection)"
    using first_canonical(1) by (simp_all add: rejection_post_init_def first_rejection_def check_tasks_def)
  have "\<forall>b \<in> set (ta_receipt_observations first_verdict). observation_post_init b = Inr b"
    using first_canonical(3) by (simp add: attempt.canonical_def attempt_sound_def trusted_def)
  then show ?thesis
    using evidence_files_roundtrip [of first_record first_rejection first_verdict first_receipt hex64 stage_a 1 "\<lambda>_. NaN" "''f''"]
      x first_canonical by (simp add: submission.canonical_def attempt.canonical_def attempt_sound_def reconciliation.canonical_def)
qed

section \<open>Readers\<close>

text \<open>The mutually recursive readers end on every decoded plan: beyond the number of unfoldings the model uses,
  the result depends neither on that number nor on what an exhausted recursion would answer, and the reader
  satisfies the recursion equation of the program.
\<close>

theorem evidence_readers_end:
  assumes "plan_from_dict v = Inr p" and "s \<in> set (pl_stages p)" and "evidence_fuel p \<le> n"
  shows "records_from lb fs h p base n s None = read_plan_submission_records lb fs h p s None
    \<and> read_plan_submission_records lb fs h p s None = records_step lb fs h p (read_plan_submission_records lb fs h p) s None"
proof -
  have ok: "plan_ok p" "plan_sound p"
    using plan.decoded_canonical [OF assms(1)] by (simp_all add: plan.canonical_def plan_post_init_iff)
  show ?thesis using records_unfold [OF ok assms(2), of None] assms(3) by blast
qed

theorem evidence_readers_end_witness:
  "records_from plain_library (\<lambda>_. None) hex64 sample_plan (\<lambda>_ _. Inr [first_record]) (evidence_fuel sample_plan + 7) stage_a None
     = read_plan_submission_records plain_library (\<lambda>_. None) hex64 sample_plan stage_a None"
  using evidence_readers_end [OF plan.roundtrip [OF sample_plan_canonical] stage_a_in, of "evidence_fuel sample_plan + 7"] by simp

text \<open>C25. Submission records are authenticated against the plan. Whatever the store holds, the records the
  reader returns for a stage of a decoded plan have strictly increasing attempts within the signed bound, carry the
  digest of the plan and the stage, run only tasks of the stage, and name for every signed dependency a job that is
  itself in the records of that dependency.
\<close>

theorem records_authenticated:
  assumes "plan_from_dict v = Inr p" and "s \<in> set (pl_stages p)"
    and "read_plan_submission_records lb fs h p s None = Inr rs"
  shows "\<exists>b. attempt_bound p s = Inr b \<and> sorted_wrt (<) (map (\<lambda>r. si_attempt (sb_identity r)) rs)
    \<and> (\<forall>r \<in> set rs. 1 \<le> si_attempt (sb_identity r) \<and> si_attempt (sb_identity r) \<le> b
        \<and> si_plan_sha256 (sb_identity r) = h \<and> si_stage_id (sb_identity r) = st_stage_id s
        \<and> set (sb_task_ids r) \<subseteq> stage_task_ids s \<and> length (sb_dependency_job_ids r) = length (st_depends_on s)
        \<and> (\<forall>(d, j) \<in> set (zip (st_depends_on s) (sb_dependency_job_ids r)).
             \<exists>ds qs. stage_at (by_id (pl_stages p)) d = Inr ds \<and> read_plan_submission_records lb fs h p ds None = Inr qs
               \<and> j \<in> sb_job_id ` set qs))"
proof -
  have ok: "plan_ok p" "plan_sound p"
    using plan.decoded_canonical [OF assms(1)] by (simp_all add: plan.canonical_def plan_post_init_iff)
  let ?R = "read_plan_submission_records lb fs h p"
  obtain b where b: "attempt_bound p s = Inr b" "1 \<le> b" using plan_graph(1) [OF ok assms(2)] by blast
  have step: "records_step lb fs h p ?R s None = Inr rs" using records_unfold(2) [OF ok assms(2), of None] assms(3) by simp
  note inv = records_step_inv [OF step b(1)]
  have can: "stage.canonical s" using ok(2) assms(2) by (simp add: plan_sound_def)
  note tasks = planned_task_ids(1) [OF can]
  have "set (sb_task_ids r) \<subseteq> stage_task_ids s \<and> length (sb_dependency_job_ids r) = length (st_depends_on s)
      \<and> si_plan_sha256 (sb_identity r) = h \<and> si_stage_id (sb_identity r) = st_stage_id s
      \<and> (\<forall>(d, j) \<in> set (zip (st_depends_on s) (sb_dependency_job_ids r)).
             \<exists>ds qs. stage_at (by_id (pl_stages p)) d = Inr ds \<and> ?R ds None = Inr qs \<and> j \<in> sb_job_id ` set qs)"
    if r: "r \<in> set rs" for r
  proof -
    obtain ids f ts where a: "select_tasks s (Some ids) = Inr ts" "sb_task_ids r = map pt_task_id ts"
      "validate_record_dependencies ?R p s r f = Inr ()" "si_plan_sha256 (sb_identity r) = h" "si_stage_id (sb_identity r) = st_stage_id s"
      using inv(1) r unfolding authenticated_def by blast
    have "set (sb_task_ids r) \<subseteq> stage_task_ids s"
      unfolding a(2) set_map tasks [symmetric] using select_tasks_result(3) [OF can a(1)] by (rule image_mono)
    with a(3-5) show ?thesis unfolding validate_record_dependencies_def by fastforce
  qed
  with inv b show ?thesis by (auto simp: last_attempt_def)
qed

theorem records_authenticated_witness:
  "\<exists>rs. read_plan_submission_records plain_library first_store hex64 sample_plan stage_a None = Inr rs \<and> rs = [first_record]
     \<and> set (sb_task_ids first_record) \<subseteq> stage_task_ids stage_a"
  using records_authenticated [OF plan.roundtrip [OF sample_plan_canonical] stage_a_in first_store_reads(1)] first_store_reads(1)
  by auto

text \<open>C3. A completion cannot be fabricated. When the latest receipt of a stage says \<open>COMPLETED\<close>, then every task of the
  stage has, among the authenticated submission records up to the attempt of the receipt, one whose job has an attempt
  file with a completed zero-exit state and matching observations of exactly the signed receipts.
\<close>

theorem completion_is_proved:
  assumes "plan_from_dict v = Inr p" and "s \<in> set (pl_stages p)"
    and "latest_reconciliation_receipt lb fs (read_plan_submission_records lb fs h p) h p s = Inr (Some r)"
    and "rr_decision r = RECONCILE_COMPLETE"
  shows "\<forall>t \<in> set (stage_planned s). \<exists>q. proved_success lb fs p t q \<and> pt_task_id t \<in> set (sb_task_ids q)
    \<and> authenticated lb fs (read_plan_submission_records lb fs h p) h p s q \<and> si_attempt (sb_identity q) \<le> rr_attempt r"
proof -
  have ok: "plan_ok p" "plan_sound p"
    using plan.decoded_canonical [OF assms(1)] by (simp_all add: plan.canonical_def plan_post_init_iff)
  let ?R = "read_plan_submission_records lb fs h p"
  obtain n where n: "1 \<le> n" "read_reconciliation_receipt lb fs ?R h p s n = Inr (Some r)"
    using assms(3) by (auto simp: latest_reconciliation_receipt_def dest!: latest_receipt_source)
  have "rr_attempt r = n" using n(2) by (auto simp: read_reconciliation_receipt_def split: option.splits dest: receipt_attempt)
  moreover have can: "stage.canonical s" using ok(2) assms(2) by (simp add: plan_sound_def)
  from completed_receipt_inv [OF can n(2) assms(4)] obtain rs where rs: "?R s (Some n) = Inr rs"
    "\<forall>t \<in> set (stage_planned s). \<exists>q \<in> set rs. pt_task_id t \<in> set (sb_task_ids q) \<and> proved_success lb fs p t q" by blast
  obtain b where b: "attempt_bound p s = Inr b" using plan_graph(1) [OF ok assms(2)] by blast
  have "records_step lb fs h p ?R s (Some n) = Inr rs" using records_unfold(2) [OF ok assms(2), of "Some n" n] n(1) rs(1) by simp
  from records_step_inv(1) [OF this b] have "\<forall>q \<in> set rs. si_attempt (sb_identity q) \<le> n \<and> authenticated lb fs ?R h p s q"
    using n(1) by (auto simp: last_attempt_def)
  ultimately show ?thesis using rs(2) by metis
qed

lemma first_store_completed:
  "latest_reconciliation_receipt plain_library first_store (read_plan_submission_records plain_library first_store hex64 sample_plan)
     hex64 sample_plan stage_a = Inr (Some first_receipt)"
proof -
  let ?R = "read_plan_submission_records plain_library first_store hex64 sample_plan"
  obtain t1 t2 t3 where fs: "\<And>f. file_ok hex64 f \<Longrightarrow> first_store (file_path sample_plan f) =
       map_of [(Submission first_identity, t1), (Attempt first_identity (lit ''a''), t2), (Reconciliation (lit ''a'') 1, t3)] f"
    and t2: "\<And>l. \<exists>d. strict_json_object (\<lambda>_. NaN) t2 l = Inr d \<and> attempt_from_dict (JObj d) = Inr first_verdict"
    and t3: "\<And>l. \<exists>d. strict_json_object (\<lambda>_. NaN) t3 l = Inr d \<and> reconciliation_from_dict hex64 stage_a 1 (JObj d) = Inr first_receipt"
    by (rule first_store_get) (rule that)
  have a: "st_stage_id stage_a = lit ''a''" by (simp add: sample_stage_def)
  have none: "first_store (reconciliation_path sample_plan (lit ''a'') k) = None"
    "first_store (reconciler_followup_path sample_plan (lit ''a'') k) = None" if "k = 2 \<or> k = 3" for k
    using fs [of "Reconciliation (lit ''a'') k"] fs [of "Followup (lit ''a'') k"] that by auto
  have here: "first_store (reconciliation_path sample_plan (lit ''a'') 1) = Some t3"
    "first_store (task_attempt_path sample_plan first_identity (lit ''a'')) = Some t2"
    using fs [of "Reconciliation (lit ''a'') 1"] fs [of "Attempt first_identity (lit ''a'')"] first_canonical(1)
    by (simp_all add: first_identity_def)
  obtain ts where ts: "select_tasks stage_a None = Inr [ts]" "pt_task_id ts = lit ''a''" "pt_array_index ts = None"
    "pt_expected_receipts ts = [sample_receipt ''a'']" using tasks_a by blast
  have verdict: "authenticated_task_verdict (lb_upper plain_library) stage_a ts first_verdict = Inr (True, False)"
    unfolding verdict_iff by (simp add: ts first_verdict_def all_match_def receipt_matches_def sample_receipt_def SUCCESS_SLURM_STATES_def)
      (simp add: lit_def upper_def strip_def strip_by_def is_space_def before_first_def)
  obtain d where d: "strict_json_object (\<lambda>_. NaN) t2 ''task-attempt evidence'' = Inr d" "attempt_from_dict (JObj d) = Inr first_verdict"
    using t2 by blast
  have fields: "ta_identity first_verdict = first_identity" "ta_task_id first_verdict = lit ''a''" "ta_array_index first_verdict = None"
    "ta_job_id first_verdict = lit ''12''" "ta_successful first_verdict" "sb_identity first_record = first_identity"
    "sb_job_id first_record = lit ''12''" "sb_task_ids first_record = [lit ''a'']"
    by (simp_all add: first_verdict_def first_record_def)
  have ev: "attempt_evidence plain_library first_store sample_plan stage_a ts first_record = Inr [(first_verdict, True, False)]"
    using here(2) d verdict by (simp add: attempt_evidence_def fields ts) (auto simp: plain_library_def fields)
  have "validate_task_evidence plain_library first_store ?R sample_plan stage_a first_receipt = Inr ()"
    by (simp add: validate_task_evidence_def ts first_store_reads(2) first_receipt_def receipt_categories_def check_category_def
        task_at_def ev concatR_def fields reconcile_names)
  then have "read_reconciliation_receipt plain_library first_store ?R hex64 sample_plan stage_a 1 = Inr (Some first_receipt)"
    using t3 [of "''reconciliation receipt''"] here(1)
    by (auto simp: read_reconciliation_receipt_def a plain_library_def rewrap_def)
  moreover have "rev [2..3] = [3, 2 :: int]" "rev [1..3] = [3, 2, 1 :: int]" by (simp_all add: upto.simps)
  ultimately show ?thesis
    by (simp add: latest_reconciliation_receipt_def latest_followup_attempt_def bound_a followup_exists_def a none
        read_reconciliation_receipt_def)
qed

theorem completion_is_proved_witness:
  "\<exists>t q. pt_task_id t = lit ''a'' \<and> proved_success plain_library first_store sample_plan t q"
proof -
  obtain t where t: "select_tasks stage_a None = Inr [t]" "pt_task_id t = lit ''a''" using tasks_a by blast
  have "t \<in> set (stage_planned stage_a)" using select_tasks_result(3) [OF sample_stage_ok(1) t(1)] by simp
  then show ?thesis
    using bspec [OF completion_is_proved [OF plan.roundtrip [OF sample_plan_canonical] stage_a_in first_store_completed], of t] t(2)
    by (simp add: first_receipt_def) blast
qed

end
