(* ===== verification/Reconcile_Properties.thy ===== *)
theory Reconcile_Properties
  imports Reconcile_Facts Evidence_Properties
begin

text \<open>
  Properties of the reconciliation of a stage.
\<close>

section \<open>A sample reconciliation\<close>

text \<open>The first stage of the sample plan, whose receipt is still in place.\<close>

definition present :: "receipt_spec \<Rightarrow> receipt_observation" where
  "present spec = \<lparr>ob_path = rc_path spec, ob_exists = True, ob_sha256 = Some hex64, ob_trustworthy = True, ob_error = None\<rparr>"

definition world_of :: "files \<Rightarrow> world" where
  "world_of fs = \<lparr>wd_files = fs, wd_transition = False, wd_claims = [], wd_jobs = []\<rparr>"

definition sample_engine :: engine where
  "sample_engine = \<lparr>en_lib = plain_library, en_order = sorted_list_of_set, en_registry = False\<rparr>"

text \<open>A backend whose scheduler reports the given states and refuses nothing.\<close>

definition sample_backend :: "slurm_task_state list \<Rightarrow> backend" where
  "sample_backend states = \<lparr>bk_observe = present, bk_states = (\<lambda>_. states), bk_prepare = (\<lambda>_. None),
     bk_invoke = (\<lambda>_ _. \<lparr>so_status = ACCEPTED, so_job_id = Some (lit ''1''), so_returncode = Some 0, so_stdout = lit ''1'', so_stderr = []\<rparr>),
     bk_claim = (\<lambda>_ _. lit ''claim''), bk_validate = True, bk_synchronize = (\<lambda>_. True)\<rparr>"

lemma sample_fields [simp]: "en_lib sample_engine = plain_library" "bk_observe (sample_backend xs) = present" "bk_states (sample_backend xs) = (\<lambda>_. xs)"
  by (simp_all add: sample_engine_def sample_backend_def)

section \<open>Properties\<close>

text \<open>C4. A terminal decision is durable and readable: when the reconciliation of a stage of a decoded plan ends with
  anything but \<open>WAIT\<close>, the receipt file of its attempt holds a text that the strict reader decodes to the receipt
  of exactly this decision, and the receipt classifies every task of the stage exactly once; \<open>COMPLETED\<close> means
  that the receipts of all tasks and of the stage were observed to match.
\<close>

theorem decision_is_readable:
  assumes "plan_from_dict v = Inr p" and "s \<in> set (pl_stages p)"
    and "run dg b (reconcile_stage_evidence en h p s records) w = (Inr (recs, d, n, nx), w')" and "sd_decision d \<noteq> RECONCILE_WAIT"
  shows "(\<exists>t. wd_files w' (reconciliation_path p (st_stage_id s) n) = Some t
      \<and> bind (strict_json_object fl t l) (\<lambda>obj. reconciliation_from_dict h s n (JObj obj)) = Inr (decision_receipt h s n d))
    \<and> set (sd_successful d) \<union> set (sd_retryable d) \<union> (set (sd_failed d) - {STAGE_RECEIPTS_SENTINEL}) = stage_task_ids s
    \<and> (sd_decision d = RECONCILE_COMPLETE \<longrightarrow> set (sd_successful d) = stage_task_ids s
      \<and> current_task_receipts_status (bk_observe b) s = Inr (Some True) \<and> stage_receipts_valid (bk_observe b) s = Some True)"
proof -
  have can: "stage.canonical s" using plan.decoded_canonical [OF assms(1)] assms(2)
    by (simp add: plan.canonical_def plan_post_init_iff plan_sound_def)
  then have sid: "ident_ok (st_stage_id s)" using stage_canonical_parts(1) [OF can] by (simp add: stage_ok_def)
  obtain start ts vs w1 x tr sr where
    "latest_followup_attempt (en_lib en) (wd_files w) (read_plan_submission_records (en_lib en) (wd_files w) h p) h p s = Inr start"
    "generation_records records start = Inr recs"
    and r: "select_tasks s None = Inr ts"
    "mapM (reconcile_one dg b (en_lib en) p s recs) (sort_key pt_task_id ts) w = (Inr vs, w1)"
    "d = reconcile_decision vs x tr sr"
    "tr = Some True \<Longrightarrow> sr = Some True \<Longrightarrow> current_task_receipts_status (bk_observe b) s = Inr (Some True) \<and> stage_receipts_valid (bk_observe b) s = Some True"
    and receipt: "sd_decision d \<noteq> RECONCILE_WAIT \<Longrightarrow> reconciliation_ok (decision_receipt h s n d)
       \<and> (\<exists>t. canonical_json (reconciliation_to_dict (decision_receipt h s n d)) = Inr t
            \<and> wd_files w' (reconciliation_path p (st_stage_id s) n) = Some t)"
    by (rule reconcile_stage_inv [OF assms(3)]) (rule that)
  note ok = conjunct1 [OF receipt [OF assms(4)]] and stored_text = conjunct2 [OF receipt [OF assms(4)]]
  note tasks = reconcile_stage_tasks [OF can r(1,2)]
  have h: "SHA256_RE h" "1 \<le> n" using ok by (simp_all add: reconciliation_ok_def decision_receipt_def)
  have sound: "reconciliation_sound h s n (decision_receipt h s n d)"
    using decision_receipt_accepted(2) [OF h(1) sid h(2) tasks] assms(4) r(3) by simp
  then have "reconciliation.canonical h s n (decision_receipt h s n d)" using ok by (simp add: reconciliation.canonical_def)
  from reconciliation_file.file_roundtrip [OF this] stored_text
  have read: "\<exists>t. wd_files w' (reconciliation_path p (st_stage_id s) n) = Some t
      \<and> bind (strict_json_object fl t l) (\<lambda>obj. reconciliation_from_dict h s n (JObj obj)) = Inr (decision_receipt h s n d)"
    by (metis sum.inject(2))
  have cover: "set (sd_successful d) \<union> set (sd_retryable d) \<union> (set (sd_failed d) - {STAGE_RECEIPTS_SENTINEL}) = stage_task_ids s"
    using sound by (simp add: reconciliation_sound_def validate_stage_coverage_def decision_receipt_def Let_def)
  have "set (sd_successful d) = stage_task_ids s" if "sd_decision d = RECONCILE_COMPLETE"
    using sound that by (simp add: reconciliation_sound_def validate_stage_coverage_def decision_receipt_def Let_def)
  moreover have "tr = Some True \<and> sr = Some True" if "sd_decision d = RECONCILE_COMPLETE"
    using reconcile_decision_shapes(4) [OF assms(4) r(3) that] .
  ultimately show ?thesis using read cover r(4) by blast
qed

text \<open>The attempt files of the authenticated records of a task are different files.\<close>

lemma record_files:
  assumes "plan_ok p" "plan_sound p" and "s \<in> set (pl_stages p)" and "read_plan_submission_records lb fs h p s None = Inr rs"
    and "ident_ok i"
  shows "\<forall>r \<in> set rs. identity_ok (sb_identity r)" and "distinct (map (\<lambda>r. task_attempt_path p (sb_identity r) i) rs)"
proof -
  let ?R = "read_plan_submission_records lb fs h p"
  obtain b where b: "attempt_bound p s = Inr b" using plan_graph(1) [OF assms(1-3)] by blast
  have step: "records_step lb fs h p ?R s None = Inr rs" using records_unfold(2) [OF assms(1-3), of None] assms(4) by simp
  note inv = records_step_inv [OF step b]
  have ids: "\<forall>r \<in> set rs. identity_ok (sb_identity r)" and sha: "\<forall>r \<in> set rs. si_plan_sha256 (sb_identity r) = h"
    using records_identity [OF assms(1-4)] by blast+
  have "inj_on (\<lambda>r. task_attempt_path p (sb_identity r) i) (set rs)"
  proof (rule inj_onI)
    fix q r assume "q \<in> set rs" "r \<in> set rs" and eq: "task_attempt_path p (sb_identity q) i = task_attempt_path p (sb_identity r) i"
    with ids sha assms(5) have "sb_identity q = sb_identity r"
      using file_path_inj [OF assms(1,2), of h "Attempt (sb_identity q) i" "Attempt (sb_identity r) i"] by simp
    moreover have "inj_on (\<lambda>r. si_attempt (sb_identity r)) (set rs)"
      using inv(2) by (simp add: strict_sorted_iff distinct_map)
    ultimately show "q = r" using \<open>q \<in> set rs\<close> \<open>r \<in> set rs\<close> by (simp add: inj_on_def)
  qed
  moreover have "distinct rs" using inv(2) by (simp add: strict_sorted_iff distinct_map)
  ultimately show "\<forall>r \<in> set rs. identity_ok (sb_identity r)" "distinct (map (\<lambda>r. task_attempt_path p (sb_identity r) i) rs)"
    using ids by (simp_all add: distinct_map)
qed

text \<open>C26. A verdict that reconciliation writes is evidence: for the authenticated records of a stage and a backend that
  observes the signed receipts, every attempt file that was missing and that the pass over a task created is accepted by the evidence
  reader, with the verdict it was written with.
\<close>

theorem written_verdicts_are_evidence:
  assumes "plan_from_dict u = Inr p" and "s \<in> set (pl_stages p)"
    and "read_plan_submission_records lb fs h p s None = Inr rs" and "t \<in> set (stage_planned s)"
    and "observes (bk_observe b) (pt_expected_receipts t)"
    and "run dg b (reconcile_task lb states p s t FAILED (filter (\<lambda>r. pt_task_id t \<in> set (sb_task_ids r)) rs)) w = (Inr v, w')"
    and "r \<in> set rs" and "pt_task_id t \<in> set (sb_task_ids r)"
    and "wd_files w (task_attempt_path p (sb_identity r) (pt_task_id t)) = None"
    and "wd_files w' (task_attempt_path p (sb_identity r) (pt_task_id t)) \<noteq> None"
  shows "\<exists>item. attempt_evidence lb (wd_files w') p s t r = Inr [(item, ta_successful item, ta_retryable item)]"
proof -
  have ok: "plan_ok p" "plan_sound p"
    using plan.decoded_canonical [OF assms(1)] by (simp_all add: plan.canonical_def plan_post_init_iff)
  then have can: "stage.canonical s" using assms(2) by (simp add: plan_sound_def)
  have i: "ident_ok (pt_task_id t)" using planned_task_ids [OF can] assms(4) by blast
  note files = record_files [OF ok assms(2,3) i]
  show ?thesis
    by (rule reconcile_task_writes [OF assms(5) _ _ assms(6) _ assms(9,10)])
      (use files assms(7,8) in \<open>auto simp: distinct_map_filter\<close>)
qed

lemma decision_lists:
  fixes vs x tr sr
  defines "d \<equiv> reconcile_decision vs x tr sr"
  shows "set (sd_successful d) = {i. (i, SUCCESS) \<in> set vs}" and "set (sd_retryable d) \<subseteq> {i. (i, RETRY) \<in> set vs}"
    and "set (sd_failed d) \<subseteq> {i. (i, RETRY) \<in> set vs \<or> (i, FAILED) \<in> set vs} \<union> {STAGE_RECEIPTS_SENTINEL}"
proof -
  have pick: "set (map fst (filter (\<lambda>(_, v'). v' = v) vs)) = {i. (i, v) \<in> set vs}" for v by force
  define R F where "R = map fst (filter (\<lambda>(_, v'). v' = RETRY) vs)" and "F = map fst (filter (\<lambda>(_, v'). v' = FAILED) vs)"
  note shape = d_def reconcile_decision_def Let_def R_def [symmetric] F_def [symmetric]
  show "set (sd_successful d) = {i. (i, SUCCESS) \<in> set vs}"
    unfolding shape pick [symmetric] by (simp split: option.split bool.split)
  have "set (sd_retryable d) \<subseteq> set R \<and> set (sd_failed d) \<subseteq> set F \<union> set R \<union> {STAGE_RECEIPTS_SENTINEL}"
    unfolding shape by (simp split: option.split bool.split) blast
  then show "set (sd_retryable d) \<subseteq> {i. (i, RETRY) \<in> set vs}"
    "set (sd_failed d) \<subseteq> {i. (i, RETRY) \<in> set vs \<or> (i, FAILED) \<in> set vs} \<union> {STAGE_RECEIPTS_SENTINEL}"
    using pick [of RETRY] pick [of FAILED] unfolding R_def F_def by blast+
qed

text \<open>C2. Success is final: a task whose attempt file in the current generation records an authentic success is
  successful in every later reconciliation of the stage, whatever the scheduler and the output files show, and is
  never selected for a retry.
\<close>

theorem success_is_final:
  assumes "plan_from_dict u = Inr p" and "s \<in> set (pl_stages p)"
    and "run dg b (reconcile_stage_evidence en h p s records) w = (Inr (recs, d, n, nx), w')" and "r \<in> set recs"
    and "t \<in> set (stage_planned s)" and "pt_task_id t \<in> set (sb_task_ids r)"
    and "wd_files w (task_attempt_path p (sb_identity r) (pt_task_id t)) = Some tx" and "existing_verdict (en_lib en) s t r tx = Inr (True, retry)"
  shows "pt_task_id t \<in> set (sd_successful d) \<and> pt_task_id t \<notin> set (sd_retryable d) \<and> pt_task_id t \<notin> set (sd_failed d)"
proof -
  have can: "stage.canonical s" using plan.decoded_canonical [OF assms(1)] assms(2)
    by (simp add: plan.canonical_def plan_post_init_iff plan_sound_def)
  obtain start ts vs w1 x tr sr where
    "latest_followup_attempt (en_lib en) (wd_files w) (read_plan_submission_records (en_lib en) (wd_files w) h p) h p s = Inr start"
    "generation_records records start = Inr recs"
    and r: "select_tasks s None = Inr ts" "mapM (reconcile_one dg b (en_lib en) p s recs) (sort_key pt_task_id ts) w = (Inr vs, w1)"
    "d = reconcile_decision vs x tr sr"
    by (rule reconcile_stage_inv [OF assms(3)]) (rule that)
  note tasks = reconcile_stage_tasks [OF can r(1,2)] and sel = select_tasks_result [OF can r(1)]
  have "t \<in> set ts"
  proof -
    obtain t' where "t' \<in> set ts" "pt_task_id t' = pt_task_id t" using imageI [OF assms(5), of pt_task_id] unfolding sel(5) [unfolded option.case, symmetric] by auto
    then show ?thesis using sel(3) assms(5) stage_planned_facts(2) [OF can] by (auto simp: distinct_map dest: inj_onD)
  qed
  have grow: "grows (reconcile_one dg b (en_lib en) p s recs t)" for t by auto
  obtain w2 v w3 where run: "reconcile_one dg b (en_lib en) p s recs t w2 = (Inr v, w3)" "v \<in> set vs" "extends (wd_files w) (wd_files w2)"
    using mapM_run [OF r(2) _ grow, of t] \<open>t \<in> set ts\<close> unfolding set_sort by blast
  from run(1,3) assms(4,6-8) have "v = (pt_task_id t, SUCCESS)"
    by (auto simp: andthen_eq_Inr extends_def intro!: reconcile_task_success)
  with run(2) have succ: "(pt_task_id t, SUCCESS) \<in> set vs" by simp
  then have only: "(pt_task_id t, v) \<in> set vs \<Longrightarrow> v = SUCCESS" for v
    using eq_key_imp_eq_value [OF tasks(1)] by metis
  have ident: "ident_ok (pt_task_id t)" using planned_task_ids(2) [OF can] assms(5) unfolding planned_task_ids(1) [OF can, symmetric] by simp
  have "pt_task_id t \<noteq> STAGE_RECEIPTS_SENTINEL" using ident sentinel_not_ident by metis
  moreover have "(pt_task_id t, RETRY) \<notin> set vs" "(pt_task_id t, FAILED) \<notin> set vs" using only by blast+
  ultimately show ?thesis
    using succ decision_lists [of vs x tr sr, folded r(3)] by (auto simp: subset_iff)
qed

section \<open>Witnesses\<close>

lemma first_task:
  obtains t where "select_tasks stage_a None = Inr [t]" "t \<in> set (stage_planned stage_a)" "pt_task_id t = lit ''a''" "pt_array_index t = None"
    "pt_expected_receipts t = [sample_receipt ''a'']"
proof -
  obtain t where t: "select_tasks stage_a None = Inr [t]" "pt_task_id t = lit ''a''" "pt_array_index t = None"
    "pt_expected_receipts t = [sample_receipt ''a'']" using tasks_a by blast
  moreover have "t \<in> set (stage_planned stage_a)" using select_tasks_result(3) [OF sample_stage_ok(1) t(1)] by simp
  ultimately show thesis by (intro that)
qed

lemma first_attempt_text:
  obtains tx where "first_store (task_attempt_path sample_plan first_identity (lit ''a'')) = Some tx"
    "\<And>t. pt_task_id t = lit ''a'' \<Longrightarrow> pt_array_index t = None \<Longrightarrow> pt_expected_receipts t = [sample_receipt ''a''] \<Longrightarrow>
       existing_verdict plain_library stage_a t first_record tx = Inr (True, False)"
proof -
  obtain t2 where fs: "first_store (task_attempt_path sample_plan first_identity (lit ''a'')) = Some t2"
    and t2: "\<exists>d. strict_json_object (\<lambda>_. NaN) t2 ''task-attempt receipt'' = Inr d \<and> attempt_from_dict (JObj d) = Inr first_verdict"
  proof (rule first_store_get, goal_cases)
    case (1 t1 t2 t3)
    show ?thesis using 1(2) [of "Attempt first_identity (lit ''a'')"] 1(4) first_canonical(1) by (intro 1(1)) (simp_all add: first_identity_def)
  qed
  have verdict: "authenticated_task_verdict (lb_upper plain_library) stage_a t first_verdict = Inr (True, False)"
    if "pt_expected_receipts t = [sample_receipt ''a'']" "pt_array_index t = None" for t
    unfolding verdict_iff
    by (simp add: that first_verdict_def all_match_def receipt_matches_def sample_receipt_def SUCCESS_SLURM_STATES_def)
      (simp add: lit_def upper_def strip_def strip_by_def is_space_def before_first_def)
  obtain d where d: "strict_json_object (\<lambda>_. NaN) t2 ''task-attempt receipt'' = Inr d" "attempt_from_dict (JObj d) = Inr first_verdict"
    using t2 by blast
  have "existing_verdict plain_library stage_a t first_record t2 = Inr (True, False)"
    if "pt_task_id t = lit ''a''" "pt_array_index t = None" "pt_expected_receipts t = [sample_receipt ''a'']" for t
  proof -
    have "ta_identity first_verdict = sb_identity first_record" "ta_task_id first_verdict = pt_task_id t" "ta_job_id first_verdict = sb_job_id first_record"
      using that by (simp_all add: first_verdict_def first_record_def)
    then show ?thesis using d verdict [OF that(3,2)] unfolding existing_verdict_def by (simp add: plain_library_def rewrap_def)
  qed
  with fs show thesis by (rule that)
qed

lemma first_no_followup:
  "latest_followup_attempt plain_library first_store recs hex64 sample_plan stage_a = Inr None"
proof -
  have "first_store (reconciler_followup_path sample_plan (lit ''a'') k) = None" if "k = 2 \<or> k = 3" for k
  proof (rule first_store_get, goal_cases)
    case (1 t1 t2 t3)
    show ?case using 1(1) [of "Followup (lit ''a'') k"] that by auto
  qed
  moreover have "rev [2..3] = [3, 2 :: int]" by (simp add: upto.simps)
  ultimately show ?thesis by (simp add: latest_followup_attempt_def bound_a followup_exists_def) (simp add: sample_stage_def)
qed

lemma first_receipt_text:
  obtains t where "canonical_json (reconciliation_to_dict first_receipt) = Inr t"
    "first_store (reconciliation_path sample_plan (lit ''a'') 1) = Some t"
proof -
  obtain t1 t2 t3 where t: "canonical_json (record_to_dict first_record) = Inr t1" "canonical_json (attempt_to_dict first_verdict) = Inr t2"
    "canonical_json (reconciliation_to_dict first_receipt) = Inr t3" by (rule first_files) (rule that)
  have "first_store (file_path sample_plan (Reconciliation (lit ''a'') 1)) = Some t3"
    unfolding first_store_def t using first_canonical(1)
    by (simp add: files_of_get [OF sample_valid, of hex64] first_identity_def del: file_path.simps)
  then show thesis using t(3) by (intro that) simp_all
qed

lemma mapM_single: "f x w = (Inr y, w') \<Longrightarrow> mapM f [x] w = (Inr [y], w')"
  by simp

lemma reconcile_stage_compute:
  assumes "latest_followup_attempt (en_lib en) (wd_files w) (read_plan_submission_records (en_lib en) (wd_files w) h p) h p s = Inr start"
    and "generation_records all start = Inr recs" "select_tasks s None = Inr ts"
    and "mapM (reconcile_one dg b (en_lib en) p s recs) (sort_key pt_task_id ts) w = (Inr vs, w1)"
    and "next_unrejected_attempt (en_lib en) (wd_files w1) (read_plan_submission_records (en_lib en) (wd_files w1) h p) h p s
           (Max (attempt_of ` set recs)) (sort (map fst (filter (\<lambda>(_, v). v = RETRY) vs))) = Inr (nx, [])"
    and "n = Max (attempt_of ` set recs)" and "run dg b (decide_stage p s vs nx) w1 = (Inr d, w1)" "sd_decision d \<noteq> RECONCILE_WAIT"
    and "reconciliation_ok (decision_receipt h s n d)" "canonical_json (reconciliation_to_dict (decision_receipt h s n d)) = Inr t"
    and "write_immutable_text (reconciliation_path p (st_stage_id s) n) t w1 = (Inr y, w')"
  shows "run dg b (reconcile_stage_evidence en h p s all) w = (Inr (recs, d, n, nx), w')"
  unfolding reconcile_stage_evidence_def run_simps Let_def run_states submission_records_def using assms by simp

definition complete_decision :: stage_decision where
  "complete_decision = \<lparr>sd_decision = RECONCILE_COMPLETE, sd_successful = [lit ''a''], sd_retryable = [], sd_failed = [], sd_active = []\<rparr>"

lemma first_reconciliation:
  "run dg (sample_backend []) (reconcile_stage_evidence sample_engine hex64 sample_plan stage_a [first_record]) (world_of first_store)
     = (Inr ([first_record], complete_decision, 1, 2), world_of first_store)"
proof -
  obtain tx where tx: "first_store (task_attempt_path sample_plan first_identity (lit ''a'')) = Some tx"
    "\<And>t. pt_task_id t = lit ''a'' \<Longrightarrow> pt_array_index t = None \<Longrightarrow> pt_expected_receipts t = [sample_receipt ''a''] \<Longrightarrow>
       existing_verdict plain_library stage_a t first_record tx = Inr (True, False)" by (rule first_attempt_text) (rule that)
  obtain t where t: "select_tasks stage_a None = Inr [t]" "pt_task_id t = lit ''a''" "pt_array_index t = None"
    "pt_expected_receipts t = [sample_receipt ''a'']" by (rule first_task) (rule that)
  obtain t3 where t3: "canonical_json (reconciliation_to_dict first_receipt) = Inr t3"
    "first_store (reconciliation_path sample_plan (lit ''a'') 1) = Some t3" by (rule first_receipt_text) (rule that)
  have fields: "sb_identity first_record = first_identity" "sb_task_ids first_record = [lit ''a'']" "si_attempt first_identity = 1"
    "st_stage_id stage_a = lit ''a''" "wd_files (world_of first_store) = first_store" "\<not> wd_transition (world_of first_store)"
    "st_expected_receipts stage_a = [sample_receipt ''a'']"
    by (simp_all add: first_record_def first_identity_def sample_stage_def world_of_def)
  have one: "reconcile_one dg (sample_backend []) plain_library sample_plan stage_a [first_record] t (world_of first_store)
      = (Inr (lit ''a'', SUCCESS), world_of first_store)"
    using tx by (simp add: fields t)
  have status: "current_task_receipts_status present stage_a = Inr (Some True)" "stage_receipts_valid present stage_a = Some True"
    by (simp_all add: current_task_receipts_status_def stage_receipts_valid_def t fields all_match_def receipt_matches_def present_def
        sample_receipt_def)
  have d: "reconcile_decision [(lit ''a'', SUCCESS)] x (Some True) (Some True) = complete_decision" for x
    by (simp add: reconcile_decision_def complete_decision_def)
  have r: "decision_receipt hex64 stage_a 1 complete_decision = first_receipt"
    by (simp add: decision_receipt_def complete_decision_def first_receipt_def fields)
  have ok: "reconciliation_ok first_receipt" using first_canonical(4) by (simp add: reconciliation.canonical_def)
  have run: "mapM (reconcile_one dg (sample_backend []) plain_library sample_plan stage_a [first_record]) (sort_key pt_task_id [t])
      (world_of first_store) = (Inr [(lit ''a'', SUCCESS)], world_of first_store)"
    unfolding sort_key_simps insort_key.simps by (rule mapM_single [where f = "reconcile_one _ _ _ _ _ _", OF one])
  have run': "mapM (reconcile_one dg (sample_backend []) (en_lib sample_engine) sample_plan stage_a [first_record]) (sort_key pt_task_id [t])
      (world_of first_store) = (Inr [(lit ''a'', SUCCESS)], world_of first_store)"
    unfolding sample_fields by (rule run)
  have decide: "run dg (sample_backend []) (decide_stage sample_plan stage_a [(lit ''a'', SUCCESS)] 2) w = (Inr complete_decision, w)" for w
    unfolding decide_stage_def run_simps by (simp add: status d)
  show ?thesis
    by (rule reconcile_stage_compute [where start = None and y = False and vs = "[(lit ''a'', SUCCESS)]", OF _ _ t(1) run' _ _ decide])
      (simp_all add: first_no_followup fields generation_records_def next_unrejected_attempt_def bound_a status r ok t3
        write_immutable_text_def, simp_all add: complete_decision_def reconcile_names)
qed

theorem decision_is_readable_witness:
  "set (sd_successful complete_decision) = stage_task_ids stage_a \<and> stage_receipts_valid present stage_a = Some True"
  using decision_is_readable [OF plan.roundtrip [OF sample_plan_canonical] stage_a_in first_reconciliation]
  by (simp add: complete_decision_def reconcile_names)

theorem success_is_final_witness:
  "lit ''a'' \<in> set (sd_successful complete_decision) \<and> lit ''a'' \<notin> set (sd_retryable complete_decision)"
proof -
  obtain tx where tx: "first_store (task_attempt_path sample_plan first_identity (lit ''a'')) = Some tx"
    "\<And>t. pt_task_id t = lit ''a'' \<Longrightarrow> pt_array_index t = None \<Longrightarrow> pt_expected_receipts t = [sample_receipt ''a''] \<Longrightarrow>
       existing_verdict plain_library stage_a t first_record tx = Inr (True, False)" by (rule first_attempt_text) (rule that)
  obtain t where t: "t \<in> set (stage_planned stage_a)" "pt_task_id t = lit ''a''" "pt_array_index t = None"
    "pt_expected_receipts t = [sample_receipt ''a'']" by (rule first_task) (rule that)
  show ?thesis
    using success_is_final [OF plan.roundtrip [OF sample_plan_canonical] stage_a_in first_reconciliation _ t(1), of first_record tx False]
      tx(1) tx(2) [OF t(2-4)] t(2) first_no_followup by (simp add: world_of_def first_record_def)
qed

definition completed_state :: slurm_task_state where
  "completed_state = \<lparr>sl_array_index = None, sl_state = lit ''COMPLETED'', sl_exit_code = Some 0\<rparr>"

theorem written_verdicts_are_evidence_witness:
  "\<exists>t v w'. run Inr (sample_backend []) (reconcile_task plain_library (\<lambda>_. [completed_state]) sample_plan stage_a t FAILED [first_record])
        (world_of (\<lambda>_. None))
      = (Inr v, w') \<and> v = SUCCESS
    \<and> (\<exists>item. attempt_evidence plain_library (wd_files w') sample_plan stage_a t first_record = Inr [(item, ta_successful item, ta_retryable item)])"
proof -
  obtain t where t: "t \<in> set (stage_planned stage_a)" "pt_task_id t = lit ''a''" "pt_array_index t = None"
    "pt_expected_receipts t = [sample_receipt ''a'']" by (rule first_task) (rule that)
  obtain tx where tx: "canonical_json (attempt_to_dict first_verdict) = Inr tx" by (rule first_files) (rule that)
  let ?path = "task_attempt_path sample_plan first_identity (lit ''a'')" and ?w = "world_of (\<lambda>_. None)"
  have fields: "sb_identity first_record = first_identity" "ta_identity first_verdict = first_identity" "ta_task_id first_verdict = lit ''a''"
    "ta_successful first_verdict" "sb_task_ids first_record = [lit ''a'']" "wd_files ?w = (\<lambda>_. None)" "\<not> wd_transition ?w"
    "sl_exit_code completed_state = Some 0" "\<And>x. ob_trustworthy (present x)"
    by (simp_all add: completed_state_def present_def first_record_def first_verdict_def world_of_def)
  have state: "task_state up t [completed_state] = Inr (Some completed_state)" for up
    by (simp add: task_state_def t(3) completed_state_def)
  have norm: "normalized_state up completed_state = Inr (lit ''COMPLETED'')" for up
    by (simp add: normalized_state_def completed_state_def lit_def split_ws_def is_space_def rstrip_char_def upper_def)
  have make: "make_verdict stage_a t first_record (lit ''COMPLETED'') (Some 0) [present (sample_receipt ''a'')] = Inr first_verdict"
    using first_canonical(3) by (simp add: make_verdict_def attempt.canonical_def t first_record_def first_verdict_def present_def
      all_match_def receipt_matches_def sample_receipt_def SUCCESS_SLURM_STATES_def)
  have terminal: "lit ''COMPLETED'' \<in> lit ` set TERMINAL_SLURM_STATES" by (simp add: TERMINAL_SLURM_STATES_def)
  have run: "run Inr (sample_backend []) (reconcile_task plain_library (\<lambda>_. [completed_state]) sample_plan stage_a t FAILED [first_record]) ?w
      = (Inr SUCCESS, ?w\<lparr>wd_files := [?path \<mapsto> tx]\<rparr>)"
    by (simp add: fields t(2,4) state norm make tx write_immutable_text_def terminal)
  have "rc_path (sample_receipt ''a'') \<noteq> []" by (simp add: sample_receipt_def rel_of_def lit_def)
  then have obs: "observes (bk_observe (sample_backend [])) (pt_expected_receipts t)"
    by (simp add: observes_def t present_def observation_post_init_def)
  have "\<exists>item. attempt_evidence plain_library (wd_files (?w\<lparr>wd_files := [?path \<mapsto> tx]\<rparr>)) sample_plan stage_a t first_record
      = Inr [(item, ta_successful item, ta_retryable item)]"
    by (rule written_verdicts_are_evidence [OF plan.roundtrip [OF sample_plan_canonical] stage_a_in first_store_reads(1) t(1) obs,
          of Inr "\<lambda>_. [completed_state]" ?w SUCCESS])
      (use run in \<open>simp_all add: fields t(2) del: run_reconcile_task\<close>)
  with run show ?thesis by blast
qed

end
