(* ===== verification/Engine_Properties.thy ===== *)
theory Engine_Properties
  imports Engine_Runs Engine_Depth Reconcile_Properties
begin

text \<open>
  Properties of the execution engine: submission, reconciliation and registry repair by any number of coordinators.
\<close>

section \<open>Exactly-once submission\<close>

text \<open>C1. At most one job: while any number of coordinators submit, retry, reconcile, follow up and repair the same run of a
  decoded plan, stop at any point, lose answers and race for the same attempt, the scheduler never holds two jobs of one attempt of one
  stage. A submission record names exactly the one job of its attempt, and an attempt with a rejection has no job.
\<close>

theorem at_most_one_job:
  assumes "plan_from_dict v = Inr p" and "cluster_start p h s0" and "(cluster_step en h p)\<^sup>*\<^sup>* s0 s" and "own_identity h i"
  shows "length (jobs_of s i) \<le> 1
    \<and> (\<forall>tx. cl_files s (submission_record_path p i) = Some tx \<longrightarrow>
        (\<exists>r. canonical_json (record_to_dict r) = Inr tx \<and> sb_identity r = i \<and> jobs_of s i = [sb_job_id r]))
    \<and> (cl_files s (submission_rejection_path p i) \<noteq> None \<longrightarrow> jobs_of s i = [])"
proof -
  have "valid_plan p"
    using plan.decoded_canonical [OF assms(1)] by (simp add: plan.canonical_def plan_post_init_iff valid_plan_def)
  from inv_reachable [OF this assms(2,3)] obtain G where inv: "cluster_inv p h G s" by blast
  have "\<exists>r. canonical_json (record_to_dict r) = Inr tx \<and> sb_identity r = i \<and> jobs_of s i = [sb_job_id r]"
    if "cl_files s (submission_record_path p i) = Some tx" for tx
    by (rule inv_record [OF inv assms(4) that]) blast
  then show ?thesis using inv_one_job [OF inv assms(4)] inv_rejected [OF inv assms(4)] by blast
qed

text \<open>Two coordinators that start the same attempt.\<close>

definition idle_cluster :: cluster where
  "idle_cluster = \<lparr>cl_files = \<lambda>_. None, cl_calls = [], cl_threads = \<lambda>_. None\<rparr>"

abbreviation submit_a :: "unit prog" where
  "submit_a \<equiv> bindp (submit_stage sample_engine hex64 sample_plan (lit ''a'') 1 None) (\<lambda>_. give ())"

theorem at_most_one_job_witness:
  "length (jobs_of (set_thread 1 (Some (Running submit_a)) (set_thread 0 (Some (Running submit_a)) idle_cluster)) first_identity) \<le> 1"
proof -
  let ?s = "set_thread 0 (Some (Running submit_a)) idle_cluster"
  have op: "engine_operation sample_engine hex64 sample_plan submit_a" by (rule engine_operation.intros(1))
  have "cluster_step sample_engine hex64 sample_plan idle_cluster ?s"
    by (rule cluster_step.spawn [OF _ op]) (simp add: idle_cluster_def)
  moreover have "cluster_step sample_engine hex64 sample_plan ?s (set_thread 1 (Some (Running submit_a)) ?s)"
    by (rule cluster_step.spawn [OF _ op]) (simp add: idle_cluster_def)
  ultimately have "(cluster_step sample_engine hex64 sample_plan)\<^sup>*\<^sup>* idle_cluster (set_thread 1 (Some (Running submit_a)) ?s)"
    by (meson rtranclp.rtrancl_refl rtranclp.rtrancl_into_rtrancl)
  moreover have "cluster_start sample_plan hex64 idle_cluster" by (simp add: cluster_start_def idle_cluster_def)
  moreover have "own_identity hex64 first_identity" using first_canonical(1) by (simp add: own_identity_def first_identity_def)
  ultimately show ?thesis using at_most_one_job [OF plan.roundtrip [OF sample_plan_canonical]] by blast
qed

section \<open>Recursion between submission and follow-ups\<close>

text \<open>C28. The mutual recursion of submission and follow-up allocation ends: on a decoded plan the calls never nest deeper than the
  number of stages, so a deeper bound changes nothing, whatever the stage, attempt and requested tasks, known or not.\<close>

theorem submission_recursion_ends:
  assumes "plan_from_dict v = Inr p"
  shows "submit_depth en h p (length (pl_stages p) + k) stage_id n task_ids = submit_stage en h p stage_id n task_ids"
proof -
  have "plan_ok p" "plan_sound p"
    using plan.decoded_canonical [OF assms] by (simp_all add: plan.canonical_def plan_post_init_iff)
  then show ?thesis unfolding submit_stage_def by (rule depth_enough)
qed

theorem submission_recursion_ends_witness:
  "submit_depth sample_engine hex64 sample_plan (length (pl_stages sample_plan) + 40) (lit ''a'') 2 None
    = submit_stage sample_engine hex64 sample_plan (lit ''a'') 2 None"
  using submission_recursion_ends [OF plan.roundtrip [OF sample_plan_canonical]] .

end
