(* ===== verification/Py_Lines.thy ===== *)
theory Py_Lines
  imports Py_Text
begin

text \<open>
  Line-oriented text operations of Python strings.
\<close>

text \<open>\<open>a or b\<close> for strings.\<close>

definition or_text :: "ustr \<Rightarrow> ustr \<Rightarrow> ustr" where
  "or_text a b = (if a \<noteq> [] then a else b)"

text \<open>\<open>str.splitlines\<close>: \<open>acc\<close> is the current line in reverse.\<close>

definition is_line_break :: "nat \<Rightarrow> bool" where
  "is_line_break c \<longleftrightarrow> c \<in> {10, 11, 12, 13, 28, 29, 30, 133, 8232, 8233}"

fun lines_from :: "ustr \<Rightarrow> ustr \<Rightarrow> ustr list" where
  "lines_from acc [] = (if acc = [] then [] else [rev acc])"
| "lines_from acc (c # s) =
     (if c = 13 \<and> s \<noteq> [] \<and> hd s = 10 then rev acc # lines_from [] (tl s)
      else if is_line_break c then rev acc # lines_from [] s
      else lines_from (c # acc) s)"

definition splitlines :: "ustr \<Rightarrow> ustr list" where
  "splitlines s = lines_from [] s"

text \<open>\<open>s.split(c, n)\<close>.\<close>

fun split_max :: "nat \<Rightarrow> nat \<Rightarrow> ustr \<Rightarrow> ustr list" where
  "split_max c 0 s = [s]"
| "split_max c (Suc n) s =
     (if c \<in> set s then takeWhile (\<lambda>x. x \<noteq> c) s # split_max c n (tl (dropWhile (\<lambda>x. x \<noteq> c) s)) else [s])"

section \<open>Lines\<close>

lemma lines_from_append: "lines_from acc (t @ 10 # u) = lines_from acc (t @ [10]) @ lines_from [] u"
proof (induction acc t rule: lines_from.induct)
  case (1 acc)
  then show ?case by (simp add: is_line_break_def)
next
  case (2 acc c s)
  then show ?case by (cases s) (auto simp: is_line_break_def)
qed

lemma lines_from_line: "list_all (\<lambda>c. \<not> is_line_break c) s \<Longrightarrow> lines_from acc (s @ [10]) = [rev acc @ s]"
  by (induction s arbitrary: acc) (auto simp: is_line_break_def)

text \<open>A line appended to a text that is empty or ends with a newline.\<close>

lemma splitlines_append:
  assumes "t = [] \<or> last t = 10" and "list_all (\<lambda>c. \<not> is_line_break c) s"
  shows "splitlines (t @ s @ [10]) = splitlines t @ [s]"
proof (cases "t = []")
  case False
  then obtain u where t: "t = u @ [10]" using assms(1) by (metis append_butlast_last_id)
  then have "lines_from [] (t @ s @ [10]) = lines_from [] (u @ [10]) @ lines_from [] (s @ [10])"
    using lines_from_append [of "[]" u "s @ [10]"] by simp
  then show ?thesis using t lines_from_line [OF assms(2), of "[]"] by (simp add: splitlines_def)
qed (use lines_from_line [OF assms(2), of "[]"] in \<open>simp add: splitlines_def\<close>)

end
