(* ===== verification/Exec_Backend.thy ===== *)
theory Exec_Backend
  imports Exec_World Registry_Outbox Py_Lines
begin

text \<open>
  The answers of the cluster in \<open>runorg/execution_backend.py\<close>: what \<open>O2ExecutionBackend\<close> concludes from the output of the
  commands it runs over \<open>connection.run\<close>. The commands themselves, the connection and the programs they start on the
  cluster are not part of the model; a result of a command is a value of \<open>command_result\<close>.
\<close>

section \<open>Results of commands\<close>

record command_result =
  cr_returncode :: int
  cr_stdout :: ustr
  cr_stderr :: ustr

definition cr_ok :: "command_result \<Rightarrow> bool" where
  "cr_ok r \<longleftrightarrow> cr_returncode r = 0"

section \<open>Jobs by comment\<close>

record slurm_job =
  sj_job_id :: ustr
  sj_comment :: ustr
  sj_state :: ustr

definition QUERY_STATUS :: ustr where
  "QUERY_STATUS = lit ''__O2MCP_QUERY_STATUS__|''"

definition job_line :: "ustr \<Rightarrow> (ustr, slurm_job) dict \<Rightarrow> ustr \<Rightarrow> (ustr, slurm_job) dict" where
  "job_line c jobs l =
     (case split_max 124 2 (strip l) of
        [raw, recorded, state] \<Rightarrow>
          (let job = before_first 46 (before_first 95 raw) in
           if recorded \<noteq> c \<or> \<not> isdigit job then jobs
           else dset job \<lparr>sj_job_id = job, sj_comment = c, sj_state = state\<rparr> jobs)
      | _ \<Rightarrow> jobs)"

definition sort_jobs :: "slurm_job list \<Rightarrow> slurm_job list res" where
  "sort_jobs jobs =
     bind (mapR (\<lambda>j. bind (int_of_digits (sj_job_id j)) (\<lambda>k. Inr (k, j))) jobs) (\<lambda>keyed.
     Inr (map snd (sort_key fst keyed)))"

definition find_jobs :: "ustr \<Rightarrow> command_result \<Rightarrow> slurm_job list res" where
  "find_jobs c r =
     bind (ensure (cr_ok r) (RuntimeError ''Slurm identity query failed'')) (\<lambda>_.
     let lines = splitlines (cr_stdout r);
         status_lines = filter (\<lambda>l. startswith l QUERY_STATUS) lines in
     bind (ensure (length status_lines = 1) (RuntimeError ''Slurm identity query did not return its completion sentinel'')) (\<lambda>_.
     let status_parts = split_on 124 (hd status_lines) in
     bind (ensure (length status_parts = 3 \<and> tl status_parts = [lit ''0'', lit ''0''])
             (RuntimeError ''Slurm identity query was incomplete'')) (\<lambda>_.
     sort_jobs (map snd (foldl (job_line c) [] (filter (\<lambda>l. \<not> startswith l QUERY_STATUS) lines))))))"

section \<open>Submission\<close>

text \<open>\<open>prepare_submission\<close>: \<open>written\<close> is the publication of the dispatcher, an exception with its text or a result.\<close>

definition prepare_submission :: "ustr + bool \<Rightarrow> command_result \<Rightarrow> submit_outcome option res" where
  "prepare_submission written mkdir =
     (let failed = (\<lambda>e. bind (outcome_post_init \<lparr>so_status = DEFINITELY_NOT_INVOKED, so_job_id = None, so_returncode = None,
                              so_stdout = [], so_stderr = e\<rparr>) (\<lambda>out. Inr (Some out)))
      in case written of
           Inl e \<Rightarrow> failed e
         | Inr _ \<Rightarrow> if cr_ok mkdir then Inr None else failed (or_text (cr_stderr mkdir) (lit ''could not create log directory'')))"

text \<open>\<open>re.search\<close> for the line of \<open>sbatch\<close>.\<close>

definition SUBMITTED :: ustr where
  "SUBMITTED = lit ''Submitted batch job ''"

fun submitted_job :: "ustr \<Rightarrow> ustr option" where
  "submitted_job [] = None"
| "submitted_job (c # s) =
     (let digits = takeWhile is_nd (drop (length SUBMITTED) (c # s)) in
      if startswith (c # s) SUBMITTED \<and> digits \<noteq> [] then Some digits else submitted_job s)"

text \<open>The response of the \<open>sbatch\<close> wrapper: invoked, return code, standard output and standard error.\<close>

definition wrapper_response :: "(ustr \<Rightarrow> pyfloat) \<Rightarrow> ustr \<Rightarrow> (bool \<times> json \<times> ustr \<times> ustr) res" where
  "wrapper_response fl t =
     bind (strict_json_object fl t ''sbatch wrapper response'') (\<lambda>d.
     bind (ensure (dkeys d = lit ` {''invoked'', ''returncode'', ''stderr'', ''stdout''}) (ValueError ''unexpected fields'')) (\<lambda>_.
     bind (ensure (is_bool (jget d ''invoked'') \<and> is_str (jget d ''stdout'') \<and> is_str (jget d ''stderr''))
             (ValueError ''invalid response types'')) (\<lambda>_.
     Inr (jget d ''invoked'' = JBool True, jget d ''returncode'', str_of (jget d ''stdout''), str_of (jget d ''stderr'')))))"

definition outcome :: "ustr \<Rightarrow> ustr option \<Rightarrow> int option \<Rightarrow> ustr \<Rightarrow> ustr \<Rightarrow> submit_outcome res" where
  "outcome status job rc out err = outcome_post_init
     \<lparr>so_status = status, so_job_id = job, so_returncode = rc, so_stdout = out, so_stderr = err\<rparr>"

definition classify_response :: "bool \<times> json \<times> ustr \<times> ustr \<Rightarrow> submit_outcome res" where
  "classify_response x =
     (case x of (invoked, returncode, out, err) \<Rightarrow>
        if \<not> invoked then
          (if returncode \<noteq> JNull then outcome INVOKED_OUTCOME_UNKNOWN None None out err
           else outcome DEFINITELY_NOT_INVOKED None None out err)
        else case returncode of
          JInt n \<Rightarrow>
            if n \<noteq> 0 then outcome DEFINITELY_REJECTED None (Some n) out err
            else
              (case (case submitted_job out of None \<Rightarrow> submitted_job err | Some j \<Rightarrow> Some j) of
                 None \<Rightarrow> outcome INVOKED_OUTCOME_UNKNOWN None (Some 0) out err
               | Some j \<Rightarrow> outcome ACCEPTED (Some j) (Some 0) out err)
        | _ \<Rightarrow> outcome INVOKED_OUTCOME_UNKNOWN None None out err)"

text \<open>\<open>invoke_submission\<close>: the answer is an exception with its text, or the result of the wrapper.\<close>

definition invoke_submission :: "(ustr \<Rightarrow> pyfloat) \<Rightarrow> ustr + command_result \<Rightarrow> submit_outcome res" where
  "invoke_submission fl answer =
     (case answer of
        Inl e \<Rightarrow> outcome INVOKED_OUTCOME_UNKNOWN None None [] e
      | Inr r \<Rightarrow>
          if \<not> cr_ok r \<and> strip (cr_stdout r) = [] then outcome INVOKED_OUTCOME_UNKNOWN None None (cr_stdout r) (cr_stderr r)
          else case wrapper_response fl (cr_stdout r) of
            Inl (ValueError _) \<Rightarrow> outcome INVOKED_OUTCOME_UNKNOWN None None (cr_stdout r) (cr_stderr r)
          | Inl e \<Rightarrow> Inl e
          | Inr x \<Rightarrow> classify_response x)"

section \<open>Accounting\<close>

text \<open>One line of \<open>sacct\<close>: job steps and foreign jobs are skipped.\<close>

definition state_line :: "ustr \<Rightarrow> ustr \<Rightarrow> slurm_task_state list res" where
  "state_line job_id l =
     (case split_max 124 2 (strip l) of
        [raw, state, code] \<Rightarrow>
          if 46 \<in> set raw then Inr []
          else
            let first_exit = before_first 58 code;
                finish = (\<lambda>index.
                  bind (if isdigit first_exit then bind (int_of_digits first_exit) (\<lambda>k. Inr (Some (int k))) else Inr None) (\<lambda>exit_code.
                  Inr [\<lparr>sl_array_index = index, sl_state = state, sl_exit_code = exit_code\<rparr>])) in
            if 95 \<in> set raw then
              let index_text = tl (dropWhile (\<lambda>x. x \<noteq> 95) raw) in
              if before_first 95 raw \<noteq> job_id \<or> \<not> isdigit index_text then Inr []
              else bind (int_of_digits index_text) (\<lambda>k. finish (Some (int k)))
            else if raw \<noteq> job_id then Inr []
            else finish None
      | _ \<Rightarrow> Inr [])"

definition task_states :: "ustr \<Rightarrow> command_result \<Rightarrow> slurm_task_state list res" where
  "task_states job_id r =
     bind (ensure (cr_ok r) (RuntimeError ''Slurm accounting query failed'')) (\<lambda>_.
     bind (mapR (state_line job_id) (splitlines (cr_stdout r))) (\<lambda>xs. Inr (concat xs)))"

section \<open>Receipts\<close>

definition untrusted :: "ustr \<Rightarrow> ustr \<Rightarrow> receipt_observation res" where
  "untrusted path e = observation_post_init
     \<lparr>ob_path = path, ob_exists = False, ob_sha256 = None, ob_trustworthy = False, ob_error = Some e\<rparr>"

definition receipt_response :: "(ustr \<Rightarrow> pyfloat) \<Rightarrow> ustr \<Rightarrow> ustr \<Rightarrow> receipt_observation res" where
  "receipt_response fl path t =
     bind (strict_json_object fl t ''receipt observation'') (\<lambda>d.
     bind (ensure (dkeys d = lit ` {''exists'', ''sha256''}) (ValueError ''unexpected receipt observation fields'')) (\<lambda>_.
     let sha = jget d ''sha256'' in
     bind (ensure (is_bool (jget d ''exists'') \<and> (sha = JNull \<or> is_str sha)) (ValueError ''invalid receipt observation types'')) (\<lambda>_.
     observation_post_init
       \<lparr>ob_path = path, ob_exists = (jget d ''exists'' = JBool True), ob_sha256 = (if sha = JNull then None else Some (str_of sha)),
        ob_trustworthy = True, ob_error = None\<rparr>)))"

text \<open>\<open>describe\<close> is the text of an exception.\<close>

definition observe_receipt :: "(ustr \<Rightarrow> pyfloat) \<Rightarrow> (pyerr \<Rightarrow> ustr) \<Rightarrow> receipt_spec \<Rightarrow> command_result \<Rightarrow> receipt_observation res" where
  "observe_receipt fl describe spec r =
     (if \<not> cr_ok r
      then untrusted (rc_path spec) (or_text (strip (cr_stderr r)) (or_text (strip (cr_stdout r)) (lit ''receipt observation command failed'')))
      else case receipt_response fl (rc_path spec) (cr_stdout r) of
        Inl (ValueError m) \<Rightarrow> untrusted (rc_path spec) (lit ''invalid receipt observation response: '' @ describe (ValueError m))
      | x \<Rightarrow> x)"

section \<open>Files and claims\<close>

text \<open>The state in a response must be hashable to be looked up in a set.\<close>

definition response_state :: "(ustr \<Rightarrow> pyfloat) \<Rightarrow> string \<Rightarrow> string set \<Rightarrow> ustr \<Rightarrow> json res" where
  "response_state fl label states t =
     bind (strict_json_object fl t label) (\<lambda>d.
     let state = jget_or d ''state'' JNull in
     bind (ensure (\<not> (is_list state \<or> is_dict state)) (TypeError ''unhashable type'')) (\<lambda>_.
     bind (ensure (state \<in> (JStr \<circ> lit) ` states) (RuntimeError ''invalid result'')) (\<lambda>_.
     Inr state)))"

definition write_immutable_answer :: "(ustr \<Rightarrow> pyfloat) \<Rightarrow> command_result \<Rightarrow> bool res" where
  "write_immutable_answer fl r =
     bind (ensure (cr_ok r) (RuntimeError (if cr_returncode r = 42 then ''immutable receipt already exists with different bytes''
                                           else ''write failed''))) (\<lambda>_.
     bind (response_state fl ''immutable write response'' {''CREATED'', ''EXISTING''} (cr_stdout r)) (\<lambda>state.
     Inr (state = JStr (lit ''CREATED''))))"

definition compare_and_swap_answer :: "(ustr \<Rightarrow> pyfloat) \<Rightarrow> command_result \<Rightarrow> bool res" where
  "compare_and_swap_answer fl r =
     bind (ensure (cr_ok r) (RuntimeError ''mutable CAS failed'')) (\<lambda>_.
     bind (response_state fl ''mutable CAS response'' {''CONFLICT'', ''SWAPPED''} (cr_stdout r)) (\<lambda>state.
     Inr (state = JStr (lit ''SWAPPED''))))"

text \<open>\<open>new_claim_id\<close> with the random token as a parameter.\<close>

definition new_claim_id :: "library \<Rightarrow> ustr \<Rightarrow> ustr \<Rightarrow> ustr res" where
  "new_claim_id lb token operation = bind (encode_utf8 operation) (\<lambda>b. Inr (lb_sha lb b @ [45] @ token))"

definition acquire_lifecycle_claim :: "ustr \<Rightarrow> command_result \<Rightarrow> ustr option res" where
  "acquire_lifecycle_claim claim r =
     bind (ensure (cr_ok r) (RuntimeError ''lifecycle claim failed'')) (\<lambda>_.
     let state = strip (cr_stdout r) in
     bind (ensure (state \<in> {lit ''ACQUIRED'', lit ''TRANSITION''}) (RuntimeError ''invalid lifecycle claim response'')) (\<lambda>_.
     Inr (if state = lit ''ACQUIRED'' then Some claim else None)))"

definition release_lifecycle_claim :: "command_result \<Rightarrow> unit res" where
  "release_lifecycle_claim r =
     ensure (cr_ok r \<and> strip (cr_stdout r) = lit ''RELEASED'') (RuntimeError ''lifecycle claim release failed'')"

end
