(* ===== verification/Backend_Properties.thy ===== *)
theory Backend_Properties
  imports Exec_Backend Plan_Samples
begin

text \<open>
  Properties of the answers of the cluster.
\<close>

section \<open>Queries by comment\<close>

text \<open>The job that a line of the query shows for a comment.\<close>

definition shows_job :: "ustr \<Rightarrow> ustr \<Rightarrow> ustr \<Rightarrow> bool" where
  "shows_job c l job \<longleftrightarrow> isdigit job \<and> (\<exists>raw state. split_max 124 2 (strip l) = [raw, c, state] \<and> job = before_first 46 (before_first 95 raw))"

lemma job_line_keys: "dkeys (job_line c jobs l) = dkeys jobs \<union> {job. shows_job c l job}"
  unfolding job_line_def shows_job_def by (auto simp: Let_def split: list.splits)

lemma dset_subset: "x \<in> set (dset k v d) \<Longrightarrow> x = (k, v) \<or> x \<in> set d"
  unfolding dset_def by (induction d) (auto split: if_splits)

lemma job_line_named: "(\<forall>(k, j) \<in> set jobs. sj_job_id j = k) \<Longrightarrow> \<forall>(k, j) \<in> set (job_line c jobs l). sj_job_id j = k"
  unfolding job_line_def by (auto simp: Let_def split: list.splits dest!: dset_subset)

lemma foldl_job_lines:
  assumes "\<forall>(k, j) \<in> set jobs. sj_job_id j = k"
  shows "sj_job_id ` snd ` set (foldl (job_line c) jobs ls) = dkeys jobs \<union> {job. \<exists>l \<in> set ls. shows_job c l job}"
  using assms
proof (induction ls arbitrary: jobs)
  case Nil
  then show ?case by (force simp: dkeys_def image_iff)
next
  case (Cons l ls)
  then show ?case using job_line_named [OF Cons.prems, of c l] by (auto simp: job_line_keys)
qed

lemma sort_jobs_set:
  assumes "sort_jobs jobs = Inr js"
  shows "set js = set jobs"
proof -
  obtain keyed where keyed: "mapR (\<lambda>j. bind (int_of_digits (sj_job_id j)) (\<lambda>k. Inr (k, j))) jobs = Inr keyed" "js = map snd (sort_key fst keyed)"
    using assms by (auto simp: sort_jobs_def)
  have "map snd keyed = jobs"
    using keyed(1) by (induction jobs arbitrary: keyed) auto
  then have "snd ` set keyed = set jobs" by (metis set_map)
  then show ?thesis using keyed(2) by simp
qed

lemma find_jobs_shown:
  assumes "find_jobs c r = Inr js"
  shows "sj_job_id ` set js = {job. \<exists>l \<in> set (splitlines (cr_stdout r)). \<not> startswith l QUERY_STATUS \<and> shows_job c l job}"
proof -
  obtain ls where ls: "ls = filter (\<lambda>l. \<not> startswith l QUERY_STATUS) (splitlines (cr_stdout r))"
    and "sort_jobs (map snd (foldl (job_line c) [] ls)) = Inr js"
    using assms by (auto simp: find_jobs_def Let_def)
  then have "sj_job_id ` set js = sj_job_id ` snd ` set (foldl (job_line c) [] ls)" using sort_jobs_set by simp
  then show ?thesis using foldl_job_lines [of "[]" c ls] by (auto simp: ls)
qed

section \<open>Outcomes of a call\<close>

lemma submitted_digits: "submitted_job s = Some j \<Longrightarrow> isdigit j"
  by (induction s rule: submitted_job.induct)
    (auto simp: Let_def isdigit_def is_digit_def list_all_iff split: if_splits dest: set_takeWhileD)

lemmas status_names = ACCEPTED_def DEFINITELY_NOT_INVOKED_def DEFINITELY_REJECTED_def INVOKED_OUTCOME_UNKNOWN_def

lemma outcome_values:
  "outcome INVOKED_OUTCOME_UNKNOWN None rc a e = Inr \<lparr>so_status = INVOKED_OUTCOME_UNKNOWN, so_job_id = None, so_returncode = rc, so_stdout = a, so_stderr = e\<rparr>"
  "outcome DEFINITELY_NOT_INVOKED None None a e = Inr \<lparr>so_status = DEFINITELY_NOT_INVOKED, so_job_id = None, so_returncode = None, so_stdout = a, so_stderr = e\<rparr>"
  "n \<noteq> 0 \<Longrightarrow> outcome DEFINITELY_REJECTED None (Some n) a e
     = Inr \<lparr>so_status = DEFINITELY_REJECTED, so_job_id = None, so_returncode = Some n, so_stdout = a, so_stderr = e\<rparr>"
  "isdigit j \<Longrightarrow> outcome ACCEPTED (Some j) rc a e = Inr \<lparr>so_status = ACCEPTED, so_job_id = Some j, so_returncode = rc, so_stdout = a, so_stderr = e\<rparr>"
  by (simp_all add: outcome_def outcome_post_init_def status_names)

lemma outcome_kept: "outcome st j rc a e = Inr out \<Longrightarrow> outcome_post_init out = Inr out"
  by (auto simp: outcome_def outcome_post_init_def)

lemma wrapper_error: "wrapper_response fl t = Inl e \<Longrightarrow> \<exists>m. e = ValueError m"
  by (auto simp: wrapper_response_def strict_json_object_def strict_json_value_def bind_eq_Inl split: sum.splits json.splits)

lemma classify_total: "\<exists>out. classify_response x = Inr out"
proof (cases x)
  case (fields invoked rc a e)
  then show ?thesis
    unfolding classify_response_def
    by (cases rc) (auto simp: outcome_values split: option.split dest: submitted_digits)
qed

lemma invoke_total: "\<exists>out. invoke_submission fl answer = Inr out"
proof -
  have "\<exists>out. (case wrapper_response fl t of Inl (ValueError _) \<Rightarrow> outcome INVOKED_OUTCOME_UNKNOWN None None a e
      | Inl e \<Rightarrow> Inl e | Inr x \<Rightarrow> classify_response x) = Inr out" for t a e
    using wrapper_error [of fl t] classify_total by (cases "wrapper_response fl t") (auto simp: outcome_values)
  then show ?thesis by (auto simp: invoke_submission_def outcome_values split: sum.split)
qed

lemma invoke_cases:
  assumes "invoke_submission fl answer = Inr out"
  shows "so_status out = INVOKED_OUTCOME_UNKNOWN \<or> (\<exists>r x. answer = Inr r \<and> wrapper_response fl (cr_stdout r) = Inr x \<and> classify_response x = Inr out)"
proof (cases answer)
  case (Inr r)
  then show ?thesis
    using assms wrapper_error [of fl "cr_stdout r"]
    by (cases "wrapper_response fl (cr_stdout r)") (auto simp: invoke_submission_def outcome_values split: if_splits)
qed (use assms in \<open>auto simp: invoke_submission_def outcome_values\<close>)

lemma classify_status:
  assumes "classify_response (invoked, rc, a, e) = Inr out"
  shows "so_status out = ACCEPTED \<Longrightarrow> invoked \<and> rc = JInt 0 \<and> (so_job_id out = submitted_job a \<or> so_job_id out = submitted_job e)"
    and "so_status out = DEFINITELY_REJECTED \<Longrightarrow> invoked \<and> (\<exists>n. rc = JInt n \<and> n \<noteq> 0)"
    and "so_status out = DEFINITELY_NOT_INVOKED \<Longrightarrow> \<not> invoked \<and> rc = JNull"
    and "outcome_post_init out = Inr out"
proof -
  have kept: "outcome st j rc' a' e' = Inr out \<Longrightarrow> so_status out = st \<and> so_job_id out = j \<and> outcome_post_init out = Inr out" for st j rc' a' e'
    by (auto simp: outcome_def outcome_post_init_def)
  show "so_status out = ACCEPTED \<Longrightarrow> invoked \<and> rc = JInt 0 \<and> (so_job_id out = submitted_job a \<or> so_job_id out = submitted_job e)"
    "so_status out = DEFINITELY_REJECTED \<Longrightarrow> invoked \<and> (\<exists>n. rc = JInt n \<and> n \<noteq> 0)"
    "so_status out = DEFINITELY_NOT_INVOKED \<Longrightarrow> \<not> invoked \<and> rc = JNull" "outcome_post_init out = Inr out"
    using assms unfolding classify_response_def
    by (cases rc; auto simp: status_names dest!: kept split: if_splits option.splits)+
qed

section \<open>Observations\<close>

lemma strip_text: "strip (strip s) = [] \<longleftrightarrow> strip s = []"
proof -
  have id: "strip_by P t = [] \<longleftrightarrow> list_all P t" for P and t :: "'a list"
    by (induction t) (auto simp: strip_by_def list_all_iff dropWhile_eq_Nil_conv)
  have "list_all is_space (strip s) \<Longrightarrow> strip s = []"
  proof (rule ccontr)
    assume all: "list_all is_space (strip s)" and ne: "strip s \<noteq> []"
    have "\<not> is_space (last (strip s))"
      using ne hd_dropWhile [of is_space "rev (dropWhile is_space s)"] by (simp add: strip_def strip_by_def last_rev)
    then show False using all ne by (simp add: list_all_iff)
  qed
  moreover have "strip (strip s) = [] \<longleftrightarrow> list_all is_space (strip s)" by (simp add: strip_def id)
  ultimately show ?thesis by auto
qed

lemma untrusted_total: "p \<noteq> [] \<Longrightarrow> strip e \<noteq> [] \<Longrightarrow> untrusted p e
    = Inr \<lparr>ob_path = p, ob_exists = False, ob_sha256 = None, ob_trustworthy = False, ob_error = Some e\<rparr>"
  by (simp add: untrusted_def observation_post_init_def optR_def)

lemma strip_message: "strip (lit ''invalid receipt observation response: '' @ s) \<noteq> []"
  by (simp add: strip_def strip_by_def lit_def is_space_def dropWhile_eq_Nil_conv)

lemma receipt_response_error: "receipt_response fl p t = Inl e \<Longrightarrow> \<exists>m. e = ValueError m"
  by (auto simp: receipt_response_def strict_json_object_def strict_json_value_def observation_post_init_def bind_eq_Inl Let_def
      optR_def validate_sha256_def split: sum.splits json.splits option.splits if_splits)

lemma observe_total:
  assumes "rc_path spec \<noteq> []"
  shows "\<exists>ob. observe_receipt fl describe spec r = Inr ob \<and> observation_post_init ob = Inr ob \<and> ob_path ob = rc_path spec
    \<and> (ob_trustworthy ob \<longrightarrow> cr_ok r)"
proof (cases "cr_ok r")
  case False
  have "strip (or_text (strip (cr_stderr r)) (or_text (strip (cr_stdout r)) (lit ''receipt observation command failed''))) \<noteq> []"
    by (simp add: or_text_def strip_text) (simp add: strip_def strip_by_def lit_def is_space_def)
  then show ?thesis using False untrusted_total [OF assms] assms by (simp add: observe_receipt_def observation_post_init_def optR_def)
next
  case True
  have un: "\<exists>ob. untrusted (rc_path spec) (lit ''invalid receipt observation response: '' @ s) = Inr ob \<and> observation_post_init ob = Inr ob
      \<and> ob_path ob = rc_path spec" for s
    using untrusted_total [OF assms strip_message] assms strip_message by (simp add: observation_post_init_def optR_def)
  show ?thesis
  proof (cases "receipt_response fl (rc_path spec) (cr_stdout r)")
    case (Inl e)
    then show ?thesis using True un receipt_response_error [OF Inl] by (auto simp: observe_receipt_def)
  next
    case (Inr ob)
    then have "observation_post_init ob = Inr ob \<and> ob_path ob = rc_path spec"
      by (auto simp: receipt_response_def Let_def observation_post_init_def)
    then show ?thesis using True Inr by (simp add: observe_receipt_def)
  qed
qed

section \<open>Properties\<close>

text \<open>C27. The backend never reads more out of an answer of the cluster than it says. Every answer to an \<open>sbatch\<close> call gives an
  accepted outcome: \<open>ACCEPTED\<close> only for a wrapper that reports the call, return code zero and the printed job,
  \<open>DEFINITELY_REJECTED\<close> only for a reported call with a non-zero return code, \<open>DEFINITELY_NOT_INVOKED\<close> only for a wrapper that
  reports no call. A query by comment finds exactly the jobs whose lines carry the comment, and every observation of a receipt with a path is a
  value the engine accepts, trustworthy only if the probe ended normally.
\<close>

theorem answers_are_conservative:
  assumes "rc_path spec \<noteq> []"
  shows "(\<exists>out. invoke_submission fl answer = Inr out \<and> outcome_post_init out = Inr out
      \<and> (so_status out = ACCEPTED \<longrightarrow> (\<exists>r a e. answer = Inr r \<and> wrapper_response fl (cr_stdout r) = Inr (True, JInt 0, a, e)
            \<and> (so_job_id out = submitted_job a \<or> so_job_id out = submitted_job e)))
      \<and> (so_status out = DEFINITELY_REJECTED \<longrightarrow>
            (\<exists>r n a e. answer = Inr r \<and> wrapper_response fl (cr_stdout r) = Inr (True, JInt n, a, e) \<and> n \<noteq> 0))
      \<and> (so_status out = DEFINITELY_NOT_INVOKED \<longrightarrow> (\<exists>r a e. answer = Inr r \<and> wrapper_response fl (cr_stdout r) = Inr (False, JNull, a, e))))
    \<and> (find_jobs c query = Inr js \<longrightarrow>
        sj_job_id ` set js = {job. \<exists>l \<in> set (splitlines (cr_stdout query)). \<not> startswith l QUERY_STATUS \<and> shows_job c l job})
    \<and> (\<exists>ob. observe_receipt fl describe spec probe = Inr ob \<and> observation_post_init ob = Inr ob \<and> ob_path ob = rc_path spec
        \<and> (ob_trustworthy ob \<longrightarrow> cr_ok probe))"
proof -
  obtain out where out: "invoke_submission fl answer = Inr out" using invoke_total by blast
  have "outcome_post_init out = Inr out
      \<and> (so_status out = ACCEPTED \<longrightarrow> (\<exists>r a e. answer = Inr r \<and> wrapper_response fl (cr_stdout r) = Inr (True, JInt 0, a, e)
            \<and> (so_job_id out = submitted_job a \<or> so_job_id out = submitted_job e)))
      \<and> (so_status out = DEFINITELY_REJECTED \<longrightarrow>
            (\<exists>r n a e. answer = Inr r \<and> wrapper_response fl (cr_stdout r) = Inr (True, JInt n, a, e) \<and> n \<noteq> 0))
      \<and> (so_status out = DEFINITELY_NOT_INVOKED \<longrightarrow> (\<exists>r a e. answer = Inr r \<and> wrapper_response fl (cr_stdout r) = Inr (False, JNull, a, e)))"
    using invoke_cases [OF out]
  proof (elim disjE exE conjE)
    assume unknown: "so_status out = INVOKED_OUTCOME_UNKNOWN"
    have "outcome_post_init out = Inr out"
      using out by (auto simp: invoke_submission_def classify_response_def split: sum.splits pyerr.splits if_splits json.splits option.splits
          dest!: outcome_kept)
    with unknown show ?thesis by (simp add: status_names)
  next
    fix r x assume r: "answer = Inr r" "wrapper_response fl (cr_stdout r) = Inr x" "classify_response x = Inr out"
    obtain invoked rc a e where x: "x = (invoked, rc, a, e)" by (cases x) auto
    from classify_status [OF r(3) [unfolded x]] show ?thesis using r(1,2) x by (auto split: bool.splits)
  qed
  then show ?thesis using out find_jobs_shown [of c query js] observe_total [OF assms, of fl describe probe] by blast
qed

definition sample_query :: command_result where
  "sample_query = \<lparr>cr_returncode = 0, cr_stdout = lit ''12_3|me|RUNNING'' @ [10] @ lit ''13|you|RUNNING'' @ [10] @ QUERY_STATUS @ lit ''0|0'' @ [10], cr_stderr = []\<rparr>"

theorem answers_are_conservative_witness:
  "find_jobs (lit ''me'') sample_query = Inr [\<lparr>sj_job_id = lit ''12'', sj_comment = lit ''me'', sj_state = lit ''RUNNING''\<rparr>]
    \<and> (\<exists>l. l \<in> set (splitlines (cr_stdout sample_query)) \<and> shows_job (lit ''me'') l (lit ''12''))"
proof -
  have lines: "splitlines (cr_stdout sample_query) = [lit ''12_3|me|RUNNING'', lit ''13|you|RUNNING'', QUERY_STATUS @ lit ''0|0'']"
    by (simp add: sample_query_def splitlines_def QUERY_STATUS_def lit_def is_line_break_def)
  have two: "split_max c 2 t = split_max c (Suc (Suc 0)) t" for c t by (simp only: numeral_2_eq_2)
  have parts: "split_max 124 2 (strip (lit ''12_3|me|RUNNING'')) = [lit ''12_3'', lit ''me'', lit ''RUNNING'']"
    "split_max 124 2 (strip (lit ''13|you|RUNNING'')) = [lit ''13'', lit ''you'', lit ''RUNNING'']"
    unfolding two by (simp_all add: lit_def strip_def strip_by_def is_space_def)
  have none: "job_line (lit ''me'') jobs (lit ''13|you|RUNNING'') = jobs" for jobs by (simp add: job_line_def parts)
  have job: "before_first 46 (before_first 95 (lit ''12_3'')) = lit ''12''" by (simp add: before_first_def lit_def)
  have digits: "isdigit (lit ''12'')" "int_of_digits (lit ''12'') = Inr 12"
    by (simp_all add: isdigit_def is_digit_def is_nd_small lit_def int_of_digits_def nat_of_digits_def nd_value_ascii)
  have one: "job_line (lit ''me'') [] (lit ''12_3|me|RUNNING'')
      = [(lit ''12'', \<lparr>sj_job_id = lit ''12'', sj_comment = lit ''me'', sj_state = lit ''RUNNING''\<rparr>)]"
    by (simp add: job_line_def parts job digits dset_def Let_def)
  have marks: "\<not> startswith (lit ''12_3|me|RUNNING'') QUERY_STATUS" "\<not> startswith (lit ''13|you|RUNNING'') QUERY_STATUS"
    "startswith (QUERY_STATUS @ lit ''0|0'') QUERY_STATUS" "split_on 124 (QUERY_STATUS @ lit ''0|0'') = [lit ''__O2MCP_QUERY_STATUS__'', lit ''0'', lit ''0'']"
    by (simp_all add: startswith_def QUERY_STATUS_def lit_def)
  have found: "find_jobs (lit ''me'') sample_query = Inr [\<lparr>sj_job_id = lit ''12'', sj_comment = lit ''me'', sj_state = lit ''RUNNING''\<rparr>]"
    unfolding find_jobs_def Let_def lines
    by (simp add: cr_ok_def marks none one sort_jobs_def digits) (simp add: sample_query_def)
  have "rc_path (sample_receipt ''a'') \<noteq> []" by (simp add: sample_receipt_def rel_of_def lit_def)
  note shown = answers_are_conservative [OF this, THEN conjunct2, THEN conjunct1, THEN mp, OF found]
  have "lit ''12'' \<in> sj_job_id ` set [\<lparr>sj_job_id = lit ''12'', sj_comment = lit ''me'', sj_state = lit ''RUNNING''\<rparr>]" by simp
  then show ?thesis using found unfolding shown by blast
qed

end
