(* ===== verification/Run_Manifest.thy ===== *)
theory Run_Manifest
  imports Run_Ids Json_Ascii Py_Lines Plan_Resources
begin

text \<open>
  The canonical record of a run, \<open>RunManifest\<close> of \<open>runorg/runs.py\<close> with its \<open>run.json\<close> text, the append-only registry of
  runs, and the rules that classify a run for promotion or archiving.
\<close>

section \<open>Manifest\<close>

record run_manifest =
  rm_run_id :: ustr
  rm_campaign :: ustr
  rm_pipeline :: ustr
  rm_created_utc :: ustr
  rm_status :: ustr
  rm_variant :: ustr
  rm_datasets :: "ustr list"
  rm_experiment_ids :: "ustr list"
  rm_slurm_job_ids :: "ustr list"
  rm_source_view :: jdict
  rm_storage_roots :: "ustr list"
  rm_result :: jdict
  rm_retention :: ustr
  rm_size_bytes :: "int option"
  rm_provenance :: jdict
  rm_tombstone :: "jdict option"
  rm_schema_version :: int
  rm_extra :: jdict

definition VALID_STATUSES :: "ustr list" where
  "VALID_STATUSES = map lit [''active'', ''kept'', ''archived'', ''purged'']"

text \<open>\<open>validate\<close>: the problems it reports, in order.\<close>

definition manifest_validate :: "bool \<Rightarrow> run_manifest \<Rightarrow> string list" where
  "manifest_validate for_register m =
     (if run_id_parts for_register (rm_run_id m) = None then [''run_id does not match RUN_<UTCtimestamp>Z_<slug>''] else [])
     @ (if rm_status m \<notin> set VALID_STATUSES then [''status not in VALID_STATUSES''] else [])
     @ (if for_register then
          (if rm_campaign m = [] then [''campaign is required''] else [])
          @ (if rm_pipeline m = [] then [''pipeline is required''] else [])
          @ (if rm_datasets m = [] then [''at least one dataset is required''] else [])
        else [])"

definition KNOWN_FIELDS :: "string list" where
  "KNOWN_FIELDS = [''run_id'', ''campaign'', ''pipeline'', ''created_utc'', ''status'', ''variant'', ''datasets'', ''experiment_ids'',
     ''slurm_job_ids'', ''source_view'', ''storage_roots'', ''result'', ''retention'', ''size_bytes'', ''provenance'', ''tombstone'',
     ''schema_version'']"

definition is_extra :: "ustr \<Rightarrow> bool" where
  "is_extra k \<longleftrightarrow> k \<notin> lit ` set KNOWN_FIELDS \<and> k \<noteq> lit ''extra''"

definition known_fields :: "run_manifest \<Rightarrow> jdict" where
  "known_fields m =
     [(lit ''run_id'', JStr (rm_run_id m)), (lit ''campaign'', JStr (rm_campaign m)), (lit ''pipeline'', JStr (rm_pipeline m)),
      (lit ''created_utc'', JStr (rm_created_utc m)), (lit ''status'', JStr (rm_status m)), (lit ''variant'', JStr (rm_variant m)),
      (lit ''datasets'', jstrs (rm_datasets m)), (lit ''experiment_ids'', jstrs (rm_experiment_ids m)),
      (lit ''slurm_job_ids'', jstrs (rm_slurm_job_ids m)), (lit ''source_view'', JObj (rm_source_view m)),
      (lit ''storage_roots'', jstrs (rm_storage_roots m)), (lit ''result'', JObj (rm_result m)), (lit ''retention'', JStr (rm_retention m)),
      (lit ''size_bytes'', case rm_size_bytes m of None \<Rightarrow> JNull | Some n \<Rightarrow> JInt n), (lit ''provenance'', JObj (rm_provenance m)),
      (lit ''tombstone'', case rm_tombstone m of None \<Rightarrow> JNull | Some d \<Rightarrow> JObj d), (lit ''schema_version'', JInt (rm_schema_version m))]"

text \<open>\<open>dict.update\<close>.\<close>

definition dupdate :: "('k, 'v) dict \<Rightarrow> ('k, 'v) dict \<Rightarrow> ('k, 'v) dict" where
  "dupdate d e = foldl (\<lambda>d (k, v). dset k v d) d e"

definition manifest_to_dict :: "run_manifest \<Rightarrow> jdict res" where
  "manifest_to_dict m =
     bind (ensure (dkeys (rm_extra m) \<inter> dkeys (known_fields m) = {}) (ValueError ''manifest extra fields conflict with known fields'')) (\<lambda>_.
     Inr (dupdate (known_fields m) (rm_extra m)))"

definition manifest_to_json :: "run_manifest \<Rightarrow> ustr res" where
  "manifest_to_json m = bind (manifest_to_dict m) (\<lambda>d. dumps_ascii (JObj d))"

text \<open>The type test of a field that is present.\<close>

definition field_is :: "(json \<Rightarrow> bool) \<Rightarrow> jdict \<Rightarrow> string \<Rightarrow> bool" where
  "field_is ok d k \<longleftrightarrow> lit k \<notin> dkeys d \<or> ok (jget d k)"

definition is_str_array :: "json \<Rightarrow> bool" where
  "is_str_array v \<longleftrightarrow> is_list v \<and> list_all is_str (list_of v)"

definition manifest_from_dict :: "json \<Rightarrow> run_manifest res" where
  "manifest_from_dict data =
     (case data of JObj d \<Rightarrow>
        bind (ensure (list_all (field_is is_str d) [''run_id'', ''campaign'', ''pipeline'', ''created_utc'', ''status'', ''variant'', ''retention''])
                (ValueError ''run manifest field must be a string'')) (\<lambda>_.
        bind (ensure (list_all (field_is is_str_array d) [''datasets'', ''experiment_ids'', ''slurm_job_ids'', ''storage_roots''])
                (ValueError ''run manifest field must be an array of strings'')) (\<lambda>_.
        bind (ensure (list_all (field_is is_dict d) [''source_view'', ''result'', ''provenance''])
                (ValueError ''run manifest field must be an object'')) (\<lambda>_.
        bind (ensure (field_is (\<lambda>v. v = JNull \<or> is_int v) d ''size_bytes'') (ValueError ''run manifest size_bytes must be an integer or null'')) (\<lambda>_.
        bind (ensure (field_is is_int d ''schema_version'') (ValueError ''run manifest schema_version must be an integer'')) (\<lambda>_.
        bind (ensure (field_is (\<lambda>v. v = JNull \<or> is_dict v) d ''tombstone'') (ValueError ''run manifest tombstone must be an object or null'')) (\<lambda>_.
        bind (ensure (lit ` {''run_id'', ''campaign'', ''pipeline'', ''created_utc''} \<subseteq> dkeys d) (TypeError ''missing required arguments'')) (\<lambda>_.
        let strings = (\<lambda>k. map str_of (list_of (jget_or d k (JArr [])))) in
        Inr \<lparr>rm_run_id = str_of (jget d ''run_id''), rm_campaign = str_of (jget d ''campaign''), rm_pipeline = str_of (jget d ''pipeline''),
             rm_created_utc = str_of (jget d ''created_utc''), rm_status = str_of (jget_or d ''status'' (JStr (lit ''active''))),
             rm_variant = str_of (jget_or d ''variant'' (JStr [])), rm_datasets = strings ''datasets'',
             rm_experiment_ids = strings ''experiment_ids'', rm_slurm_job_ids = strings ''slurm_job_ids'',
             rm_source_view = dict_of (jget_or d ''source_view'' (JObj [])), rm_storage_roots = strings ''storage_roots'',
             rm_result = dict_of (jget_or d ''result'' (JObj [])), rm_retention = str_of (jget_or d ''retention'' (JStr (lit ''auto''))),
             rm_size_bytes = (case jget d ''size_bytes'' of JInt n \<Rightarrow> Some n | _ \<Rightarrow> None),
             rm_provenance = dict_of (jget_or d ''provenance'' (JObj [])),
             rm_tombstone = (case jget d ''tombstone'' of JObj t \<Rightarrow> Some t | _ \<Rightarrow> None),
             rm_schema_version = int_of (jget_or d ''schema_version'' (JInt 1)),
             rm_extra = filter (\<lambda>(k, v). is_extra k) d\<rparr>)))))))
      | _ \<Rightarrow> Inl (ValueError ''run manifest must be a plain JSON object''))"

definition manifest_from_json :: "(ustr \<Rightarrow> pyfloat) \<Rightarrow> ustr \<Rightarrow> run_manifest res" where
  "manifest_from_json fl text = bind (strict_json_object fl text ''run manifest'') (\<lambda>d. manifest_from_dict (JObj d))"

definition with_status :: "run_manifest \<Rightarrow> ustr \<Rightarrow> run_manifest res" where
  "with_status m status =
     bind (manifest_to_dict m) (\<lambda>d. bind (manifest_from_dict (JObj d)) (\<lambda>clone. Inr (clone\<lparr>rm_status := status\<rparr>)))"

section \<open>Registry\<close>

definition registry_row :: "run_manifest \<Rightarrow> jdict" where
  "registry_row m =
     [(lit ''run_id'', JStr (rm_run_id m)), (lit ''campaign'', JStr (rm_campaign m)), (lit ''variant'', JStr (rm_variant m)),
      (lit ''pipeline'', JStr (rm_pipeline m)), (lit ''status'', JStr (rm_status m)), (lit ''created_utc'', JStr (rm_created_utc m)),
      (lit ''datasets'', jstrs (rm_datasets m)), (lit ''experiment_ids'', jstrs (rm_experiment_ids m)),
      (lit ''slurm_job_ids'', jstrs (rm_slurm_job_ids m)), (lit ''retention'', JStr (rm_retention m)),
      (lit ''size_bytes'', case rm_size_bytes m of None \<Rightarrow> JNull | Some n \<Rightarrow> JInt n), (lit ''result_status'', jget (rm_result m) ''status'')]"

definition registry_line :: "run_manifest \<Rightarrow> ustr res" where
  "registry_line m = dumps_line (JObj (registry_row m))"

text \<open>A JSON value as the key of a Python dict: numbers and booleans are equal by value, lists and objects have no hash.\<close>

definition hash_key :: "json \<Rightarrow> (rat + json) res" where
  "hash_key v = (if is_list v \<or> is_dict v then Inl (TypeError ''unhashable type'')
     else Inr (case num_of v of Some r \<Rightarrow> Inl r | None \<Rightarrow> Inr v))"

definition registry_step :: "(ustr \<Rightarrow> pyfloat) \<Rightarrow> ustr \<Rightarrow> (rat + json, jdict) dict \<Rightarrow> (rat + json, jdict) dict res" where
  "registry_step fl l rows =
     (let line = strip l in
      if line = [] then Inr rows
      else case strict_json_object fl line ''registry row'' of
        Inl (ValueError _) \<Rightarrow> Inr rows
      | Inl e \<Rightarrow> Inl e
      | Inr row \<Rightarrow>
          if truthy (jget row ''run_id'') then bind (hash_key (jget row ''run_id'')) (\<lambda>k. Inr (dset k row rows)) else Inr rows)"

definition parse_registry :: "(ustr \<Rightarrow> pyfloat) \<Rightarrow> ustr \<Rightarrow> jdict list res" where
  "parse_registry fl text = bind (foldR (registry_step fl) (splitlines text) []) (\<lambda>rows. Inr (map snd rows))"

section \<open>Classification\<close>

text \<open>The part of \<open>RunPolicy\<close> in \<open>runorg/policy.py\<close> the classification uses.\<close>

record run_policy =
  keep_markers :: "ustr list"
  sweep_markers :: "ustr list"
  heavy_view_suffixes :: "ustr list"
  heavy_slug_markers :: "ustr list"
  heavy_threshold_bytes :: int

definition contains :: "ustr \<Rightarrow> ustr \<Rightarrow> bool" where
  "contains s t \<longleftrightarrow> (\<exists>i \<in> {0..length s}. startswith (drop i s) t)"

text \<open>Retention with the reason, reduced to the rule that applied. \<open>lower\<close> and \<open>upper\<close> are the case conversions of Python strings.\<close>

datatype retention_reason = Keep_Marker ustr | Sweep_Marker ustr | Latest_Completed | No_Success | Default_Sweep

definition classify_run :: "(ustr \<Rightarrow> ustr) \<Rightarrow> (ustr \<Rightarrow> ustr) \<Rightarrow> ustr \<Rightarrow> run_policy \<Rightarrow> ustr option \<Rightarrow> bool \<Rightarrow> ustr \<times> retention_reason" where
  "classify_run lower upper run_id policy result_status is_latest =
     (let slug = lower (snd (parse_run_id run_id));
          status = upper (case result_status of None \<Rightarrow> [] | Some s \<Rightarrow> s) in
      case find (contains slug) (keep_markers policy) of
        Some marker \<Rightarrow> (lit ''keep'', Keep_Marker marker)
      | None \<Rightarrow>
          (case find (contains slug) (sweep_markers policy) of
             Some marker \<Rightarrow> (lit ''sweep'', Sweep_Marker marker)
           | None \<Rightarrow>
               if is_latest \<and> status = lit ''COMPLETED'' then (lit ''keep'', Latest_Completed)
               else if status \<in> lit ` {''FAILED'', ''CANCELLED'', ''TIMEOUT'', ''OUT_OF_MEMORY''} then (lit ''sweep'', No_Success)
               else (lit ''sweep'', Default_Sweep)))"

definition is_regenerable_intermediate :: "(ustr \<Rightarrow> ustr) \<Rightarrow> ustr \<Rightarrow> run_policy \<Rightarrow> int option \<Rightarrow> bool" where
  "is_regenerable_intermediate lower run_id policy size_bytes =
     (let slug = lower (snd (parse_run_id run_id)) in
      list_ex (\<lambda>suffix. endswith slug (95 # suffix)) (heavy_view_suffixes policy)
      \<or> list_ex (contains slug) (heavy_slug_markers policy)
      \<or> (case size_bytes of None \<Rightarrow> False | Some n \<Rightarrow> n > heavy_threshold_bytes policy))"

datatype migration = Promote | Archive

definition migration_target :: "(ustr \<Rightarrow> ustr) \<Rightarrow> (ustr \<Rightarrow> ustr) \<Rightarrow> ustr \<Rightarrow> run_policy \<Rightarrow> ustr option \<Rightarrow> bool \<Rightarrow> int option \<Rightarrow> migration" where
  "migration_target lower upper run_id policy result_status is_latest size_bytes =
     (if fst (classify_run lower upper run_id policy result_status is_latest) = lit ''keep''
         \<and> \<not> is_regenerable_intermediate lower run_id policy size_bytes
      then Promote else Archive)"

end
