(* ===== verification/Manifest_Facts.thy ===== *)
theory Manifest_Facts
  imports Run_Manifest Exec_Files
begin

text \<open>
  What the manifest operations preserve: decoding inverts encoding, also through the text of \<open>run.json\<close>, unknown fields included.
\<close>

section \<open>Objects\<close>

lemma dset_new: "k \<notin> dkeys d \<Longrightarrow> dset k v d = d @ [(k, v)]"
  by (induction d) (auto simp: dset_def dkeys_def)

lemma dupdate_disjoint: "dict_ok e \<Longrightarrow> dkeys e \<inter> dkeys d = {} \<Longrightarrow> dupdate d e = d @ e"
proof (induction e arbitrary: d)
  case Nil
  then show ?case by (simp add: dupdate_def)
next
  case (Cons p e)
  obtain k v where p: "p = (k, v)" by fastforce
  have "k \<notin> dkeys e" using Cons.prems(1) p by (auto simp: dict_ok_def dkeys_def)
  then have "dkeys e \<inter> dkeys (d @ [(k, v)]) = {}" using Cons.prems(2) p by (auto simp: dkeys_def)
  moreover have "dict_ok e" using Cons.prems(1) p by (simp add: dict_ok_def)
  moreover have "dset k v d = d @ [(k, v)]" using Cons.prems(2) p by (intro dset_new) auto
  ultimately show ?case using Cons.IH [of "d @ [(k, v)]"] p by (simp add: dupdate_def)
qed

lemma jget_append: "jget (d @ e) k = (if lit k \<in> dkeys d then jget d k else jget e k)"
  using dget_None_iff [of d "lit k"] by (auto simp: jget_def split: option.splits)

section \<open>Manifests\<close>

definition manifest_ok :: "run_manifest \<Rightarrow> bool" where
  "manifest_ok m \<longleftrightarrow> dict_ok (rm_extra m) \<and> (\<forall>k \<in> dkeys (rm_extra m). is_extra k)"

lemma known_keys: "dkeys (known_fields m) = lit ` set KNOWN_FIELDS"
  by (simp add: known_fields_def KNOWN_FIELDS_def)

lemma known_distinct: "dict_ok (known_fields m)"
  by (simp add: known_fields_def dict_ok_def)

lemma manifest_to_dict_ok: "manifest_ok m \<Longrightarrow> manifest_to_dict m = Inr (known_fields m @ rm_extra m)"
proof -
  assume m: "manifest_ok m"
  then have "dkeys (rm_extra m) \<inter> dkeys (known_fields m) = {}" by (auto simp: manifest_ok_def known_keys is_extra_def)
  then show ?thesis using m by (simp add: manifest_to_dict_def dupdate_disjoint manifest_ok_def)
qed

lemma manifest_dict_ok: "manifest_ok m \<Longrightarrow> dict_ok (known_fields m @ rm_extra m)"
  using known_distinct [of m] known_keys [of m] by (fastforce simp: manifest_ok_def dict_ok_def dkeys_def is_extra_def)

text \<open>The manifest with the members of all its objects in the order of their names.\<close>

definition sorted_manifest :: "run_manifest \<Rightarrow> run_manifest" where
  "sorted_manifest m = m\<lparr>rm_source_view := stored (rm_source_view m), rm_result := stored (rm_result m),
     rm_provenance := stored (rm_provenance m), rm_tombstone := map_option stored (rm_tombstone m), rm_extra := stored (rm_extra m)\<rparr>"

lemma unknown_members: "manifest_ok m \<Longrightarrow> filter (\<lambda>(k, v). is_extra k) (known_fields m @ rm_extra m) = rm_extra m"
proof -
  assume "manifest_ok m"
  then have "filter (\<lambda>(k, v). is_extra k) (rm_extra m) = rm_extra m"
    by (intro filter_True) (auto simp: manifest_ok_def dkeys_def)
  moreover have "filter (\<lambda>(k, v). is_extra k) (known_fields m) = []"
    using known_keys [of m] by (force simp: filter_empty_conv dkeys_def is_extra_def)
  ultimately show ?thesis by simp
qed

text \<open>Decoding depends on the values of the known fields and on the members that are not known.\<close>

lemma manifest_from_values:
  assumes "dkeys d = lit ` set KNOWN_FIELDS \<union> dkeys (rm_extra m)"
    and "\<And>k. k \<in> set KNOWN_FIELDS \<Longrightarrow> jget d k = jget (known_fields m) k"
    and "filter (\<lambda>(k, v). is_extra k) d = rm_extra m"
  shows "manifest_from_dict (JObj d) = Inr m"
proof -
  have in_d: "lit k \<in> dkeys d" if "k \<in> set KNOWN_FIELDS" for k using assms(1) that by auto
  have field: "field_is ok d k = ok (jget (known_fields m) k)" "jget_or d k v0 = jget (known_fields m) k" if "k \<in> set KNOWN_FIELDS" for ok k v0
    using in_d [OF that] assms(2) [OF that] by (simp_all add: field_is_def jget_or_eq)
  have [simp]: "is_str_array (jstrs xs)" "map str_of (list_of (jstrs xs)) = xs" for xs
    by (simp_all add: is_str_array_def jstrs_def comp_def list_all_iff)
  note known = field assms(2)
  have names: "''run_id'' \<in> set KNOWN_FIELDS" "''campaign'' \<in> set KNOWN_FIELDS" "''pipeline'' \<in> set KNOWN_FIELDS" "''created_utc'' \<in> set KNOWN_FIELDS"
    "''status'' \<in> set KNOWN_FIELDS" "''variant'' \<in> set KNOWN_FIELDS" "''datasets'' \<in> set KNOWN_FIELDS" "''experiment_ids'' \<in> set KNOWN_FIELDS"
    "''slurm_job_ids'' \<in> set KNOWN_FIELDS" "''source_view'' \<in> set KNOWN_FIELDS" "''storage_roots'' \<in> set KNOWN_FIELDS" "''result'' \<in> set KNOWN_FIELDS"
    "''retention'' \<in> set KNOWN_FIELDS" "''size_bytes'' \<in> set KNOWN_FIELDS" "''provenance'' \<in> set KNOWN_FIELDS" "''tombstone'' \<in> set KNOWN_FIELDS"
    "''schema_version'' \<in> set KNOWN_FIELDS" by (simp_all add: KNOWN_FIELDS_def)
  have "lit ` {''run_id'', ''campaign'', ''pipeline'', ''created_utc''} \<subseteq> dkeys d" using names in_d by auto
  then show ?thesis
    unfolding manifest_from_dict_def json.case
    by (simp add: known [OF names(1)] known [OF names(2)] known [OF names(3)] known [OF names(4)] known [OF names(5)] known [OF names(6)]
        known [OF names(7)] known [OF names(8)] known [OF names(9)] known [OF names(10)] known [OF names(11)] known [OF names(12)]
        known [OF names(13)] known [OF names(14)] known [OF names(15)] known [OF names(16)] known [OF names(17)] assms(3))
      (simp add: known_fields_def split: option.splits)
qed

lemma manifest_roundtrip: "manifest_ok m \<Longrightarrow> manifest_from_dict (JObj (known_fields m @ rm_extra m)) = Inr m"
proof (rule manifest_from_values)
  assume m: "manifest_ok m"
  show "dkeys (known_fields m @ rm_extra m) = lit ` set KNOWN_FIELDS \<union> dkeys (rm_extra m)" by (simp add: known_keys)
  show "jget (known_fields m @ rm_extra m) k = jget (known_fields m) k" if "k \<in> set KNOWN_FIELDS" for k
    using that by (simp add: jget_append known_keys)
  show "filter (\<lambda>(k, v). is_extra k) (known_fields m @ rm_extra m) = rm_extra m" using m by (rule unknown_members)
qed

lemma manifest_stored: "manifest_ok m \<Longrightarrow> manifest_from_dict (JObj (stored (known_fields m @ rm_extra m))) = Inr (sorted_manifest m)"
proof (rule manifest_from_values)
  assume m: "manifest_ok m"
  show "dkeys (stored (known_fields m @ rm_extra m)) = lit ` set KNOWN_FIELDS \<union> dkeys (rm_extra (sorted_manifest m))"
    by (simp add: known_keys sorted_manifest_def)
  show "jget (stored (known_fields m @ rm_extra m)) k = jget (known_fields (sorted_manifest m)) k" if "k \<in> set KNOWN_FIELDS" for k
  proof -
    have "jget (stored (known_fields m @ rm_extra m)) k = sorted_members (jget (known_fields m) k)"
      using that by (simp add: stored_get [OF manifest_dict_ok [OF m]] jget_append known_keys)
    also have "\<dots> = jget (known_fields (sorted_manifest m)) k"
      using that by (auto simp: KNOWN_FIELDS_def known_fields_def sorted_manifest_def stored_def split: option.splits)
    finally show ?thesis .
  qed
  let ?P = "\<lambda>(k, v). is_extra k" and ?f = "\<lambda>(k, v). (k, sorted_members v)"
  have "filter ?P (map ?f (known_fields m @ rm_extra m)) = map ?f (filter ?P (known_fields m @ rm_extra m))"
    by (simp add: filter_map comp_def case_prod_unfold)
  then have "filter ?P (map ?f (known_fields m @ rm_extra m)) = map ?f (rm_extra m)" by (simp only: unknown_members [OF m])
  then show "filter ?P (stored (known_fields m @ rm_extra m)) = rm_extra (sorted_manifest m)"
    by (simp add: stored_def sorted_manifest_def filter_sort del: map_append filter_append)
qed

section \<open>Files\<close>

text \<open>What a decoded object gives.\<close>

lemma decoded_manifest_ok: "manifest_from_dict (JObj d) = Inr m \<Longrightarrow> dict_ok d \<Longrightarrow> manifest_ok m"
proof -
  assume a: "manifest_from_dict (JObj d) = Inr m" and d: "dict_ok d"
  have "rm_extra m = filter (\<lambda>(k, v). is_extra k) d" using a by (auto simp: manifest_from_dict_def Let_def)
  then show ?thesis using d by (auto simp: manifest_ok_def dict_ok_def dkeys_def distinct_map_filter)
qed

text \<open>A text without floats and lone surrogates.\<close>

definition writable :: "json \<Rightarrow> bool" where
  "writable v \<longleftrightarrow> loadable v \<and> spelled (list_all text_char) v"

lemma writable_values [simp]:
  "writable JNull" "writable (JBool b)" "writable (JInt i)" "writable (JStr s) \<longleftrightarrow> list_all text_char s"
  "writable (JArr xs) \<longleftrightarrow> (\<forall>x \<in> set xs. writable x)"
  "writable (JObj d) \<longleftrightarrow> dict_ok d \<and> (\<forall>(k, v) \<in> set d. list_all text_char k \<and> writable v)"
  by (auto simp: writable_def list_all_iff dict_ok_def)

lemma text_small: "c < 256 \<Longrightarrow> text_char c"
  by (simp add: text_char_def is_scalar_def)

lemma text_lit [simp]: "list_all text_char (lit k)"
proof -
  have "(of_char c :: nat) < 256" for c by simp
  then have "text_char (of_char c)" for c by (rule text_small)
  then show ?thesis by (simp add: lit_def list_all_iff)
qed

lemma writable_strs [simp]: "writable (jstrs xs) \<longleftrightarrow> (\<forall>x \<in> set xs. list_all text_char x)"
  by (auto simp: jstrs_def)

lemma writable_get:
  assumes "writable (JObj d)"
  shows "writable v0 \<Longrightarrow> writable (jget_or d k v0)" and "writable (jget d k)"
proof -
  have "(lit k, v) \<in> set d" if "dget d (lit k) = Some v" for v using that by (simp add: dget_def map_of_SomeD)
  then show "writable v0 \<Longrightarrow> writable (jget_or d k v0)" "writable (jget d k)"
    using assms by (auto simp: jget_or_def jget_def split: option.splits)
qed

lemma writable_parts:
  assumes "writable v"
  shows "list_all text_char (str_of v)" and "x \<in> set (map str_of (list_of v)) \<Longrightarrow> list_all text_char x" and "writable (JObj (dict_of v))"
proof -
  have str: "list_all text_char (str_of u)" if "writable u" for u using that by (cases u) auto
  then show "list_all text_char (str_of v)" "x \<in> set (map str_of (list_of v)) \<Longrightarrow> list_all text_char x"
    using assms by (cases v; auto)+
  show "writable (JObj (dict_of v))" using assms by (cases v) (auto simp: dict_ok_def)
qed

lemma decoded_writable:
  assumes "manifest_from_dict (JObj d) = Inr m" and "writable (JObj d)"
  shows "writable (JObj (known_fields m @ rm_extra m))"
proof -
  have ok: "dict_ok (known_fields m @ rm_extra m)" using assms by (intro manifest_dict_ok decoded_manifest_ok) auto
  have str: "list_all text_char (str_of (jget_or d k (JStr s)))" if "list_all text_char s" for k s
    using writable_parts(1) [OF writable_get(1) [OF assms(2)]] that by simp
  have strs: "x \<in> set (map str_of (list_of (jget_or d k (JArr [])))) \<Longrightarrow> list_all text_char x" for k x
    using writable_parts(2) [OF writable_get(1) [OF assms(2)], of "JArr []" x k] by simp
  have obj: "writable (JObj (dict_of (jget_or d k (JObj []))))" for k
    using writable_parts(3) [OF writable_get(1) [OF assms(2)], of "JObj []" k] by (simp add: dict_ok_def)
  have tomb: "writable (JObj t)" if "jget d k = JObj t" for k t using writable_get(2) [OF assms(2), of k] that by simp
  have m: "rm_extra m = filter (\<lambda>(k, v). is_extra k) d" "rm_run_id m = str_of (jget d ''run_id'')" "rm_campaign m = str_of (jget d ''campaign'')"
    "rm_pipeline m = str_of (jget d ''pipeline'')" "rm_created_utc m = str_of (jget d ''created_utc'')"
    "rm_status m = str_of (jget_or d ''status'' (JStr (lit ''active'')))" "rm_variant m = str_of (jget_or d ''variant'' (JStr []))"
    "rm_datasets m = map str_of (list_of (jget_or d ''datasets'' (JArr [])))"
    "rm_experiment_ids m = map str_of (list_of (jget_or d ''experiment_ids'' (JArr [])))"
    "rm_slurm_job_ids m = map str_of (list_of (jget_or d ''slurm_job_ids'' (JArr [])))"
    "rm_storage_roots m = map str_of (list_of (jget_or d ''storage_roots'' (JArr [])))"
    "rm_source_view m = dict_of (jget_or d ''source_view'' (JObj []))" "rm_result m = dict_of (jget_or d ''result'' (JObj []))"
    "rm_provenance m = dict_of (jget_or d ''provenance'' (JObj []))" "rm_retention m = str_of (jget_or d ''retention'' (JStr (lit ''auto'')))"
    "rm_tombstone m = (case jget d ''tombstone'' of JObj t \<Rightarrow> Some t | _ \<Rightarrow> None)"
    using assms(1) by (auto simp: manifest_from_dict_def Let_def)
  have get: "list_all text_char (str_of (jget d k))" for k using writable_parts(1) [OF writable_get(2) [OF assms(2)]] .
  have "\<forall>(k, v) \<in> set (rm_extra m). list_all text_char k \<and> writable v" using assms(2) m(1) by auto
  moreover have "\<forall>(k, v) \<in> set (known_fields m). list_all text_char k \<and> writable v"
    unfolding known_fields_def m using get str strs obj tomb
    by (simp del: writable_values(6) set_map split: option.splits json.splits)
  ultimately show ?thesis using ok by (auto simp: writable_values(6))
qed

lemma manifest_file:
  assumes "manifest_from_dict (JObj d) = Inr m" and "writable (JObj d)"
  shows "\<exists>t. manifest_to_json m = Inr t \<and> manifest_from_json fl t = Inr (sorted_manifest m)"
proof -
  have ok: "manifest_ok m" using assms by (intro decoded_manifest_ok) auto
  have "loadable (JObj (known_fields m @ rm_extra m))" "spelled (list_all text_char) (JObj (known_fields m @ rm_extra m))"
    using decoded_writable [OF assms] by (simp_all only: writable_def)
  from ascii_file [OF this] obtain t where t: "dumps_ascii (JObj (known_fields m @ rm_extra m)) = Inr t"
    "strict_json_object fl t ''run manifest'' = Inr (stored (known_fields m @ rm_extra m))" by blast
  then show ?thesis
    using manifest_stored [OF ok] by (simp add: manifest_to_json_def manifest_from_json_def manifest_to_dict_ok [OF ok])
qed

end
