(* ===== verification/Registry_Sync.thy ===== *)
theory Registry_Sync
  imports Run_Manifest Registry_Outbox Plan
begin

text \<open>
  Synchronization of the run registry, \<open>runorg/registry_sync.py\<close>: the monotonic merge of an execution update into the manifest
  of a run, and the transaction that publishes \<open>run.json\<close> and appends a registry row.
\<close>

section \<open>Merge\<close>

text \<open>\<open>_STAGE_STATUS_RANK.get(status, 0)\<close>; the table is the one of the outbox.\<close>

definition STAGE_STATUS_RANK :: "ustr \<Rightarrow> nat" where
  "STAGE_STATUS_RANK status =
     (case dget (map (\<lambda>(k, n). (lit k, n))
        [(''SUBMITTED'', 10), (''WAIT'', 20), (''RETRY_MISSING_ONLY'', 30), (''RETRYING'', 40), (''RETRY_SUBMITTED'', 50),
         (''COMPLETED'', 100), (''FAILED'', 110)]) status of
        None \<Rightarrow> 0 | Some n \<Rightarrow> n)"

text \<open>
  \<open>dict(value)\<close>: a copy of an object, or the object of a sequence of pairs. A pair may be an array of two, a string of two
  characters or an object of two members. Keys that are not strings do not occur in the model's objects.
\<close>

fun py_pair :: "json \<Rightarrow> (ustr \<times> json) res" where
  "py_pair (JArr [JStr k, v]) = Inr (k, v)"
| "py_pair (JArr [k, v]) = (if is_list k \<or> is_dict k then Inl (TypeError ''unhashable type'') else Inl (TypeError ''a key that is not a string is not modelled''))"
| "py_pair (JArr _) = Inl (ValueError ''dictionary update sequence element has wrong length'')"
| "py_pair (JStr [a, b]) = Inr ([a], JStr [b])"
| "py_pair (JStr _) = Inl (ValueError ''dictionary update sequence element has wrong length'')"
| "py_pair (JObj [(a, _), (b, _)]) = Inr (a, JStr b)"
| "py_pair (JObj _) = Inl (ValueError ''dictionary update sequence element has wrong length'')"
| "py_pair _ = Inl (TypeError ''cannot convert dictionary update sequence element to a sequence'')"

fun py_dict :: "json \<Rightarrow> jdict res" where
  "py_dict (JObj d) = Inr d"
| "py_dict (JArr xs) = bind (mapR py_pair xs) (\<lambda>ps. Inr (dupdate [] ps))"
| "py_dict (JStr s) = (if s = [] then Inr [] else Inl (ValueError ''dictionary update sequence element has wrong length''))"
| "py_dict _ = Inl (TypeError ''object is not iterable'')"

definition stage_entry :: "int \<Rightarrow> ustr \<Rightarrow> json" where
  "stage_entry n status = JObj [(lit ''attempt'', JInt n), (lit ''status'', JStr status)]"

text \<open>The merge of one stage: the new stage map, and whether the update was accepted.\<close>

definition merge_stage :: "jdict \<Rightarrow> registry_update \<Rightarrow> (jdict \<times> bool) res" where
  "merge_stage stages u =
     (let accepted = Inr (dset (ru_stage_id u) (stage_entry (ru_attempt u) (ru_stage_status u)) stages, True) in
      case dget stages (ru_stage_id u) of
        Some (JObj previous) \<Rightarrow>
          (case (jget previous ''attempt'', jget previous ''status'') of
             (JInt n, JStr status) \<Rightarrow>
               if n > ru_attempt u \<or> n = ru_attempt u \<and> STAGE_STATUS_RANK status > STAGE_STATUS_RANK (ru_stage_status u)
               then Inr (stages, False)
               else if n = ru_attempt u \<and> {status, ru_stage_status u} = lit ` {''COMPLETED'', ''FAILED''}
               then Inr (dset (ru_stage_id u) (stage_entry (ru_attempt u) (lit ''FAILED'')) stages, False)
               else accepted
           | _ \<Rightarrow> Inl (ValueError ''run.json execution stage state has invalid exact types''))
      | _ \<Rightarrow> accepted)"

definition stage_failed :: "json \<Rightarrow> bool" where
  "stage_failed entry \<longleftrightarrow> is_dict entry \<and> jget (dict_of entry) ''status'' = JStr (lit ''FAILED'')"

definition merge_state :: "jdict \<Rightarrow> bool \<Rightarrow> ustr \<Rightarrow> registry_update \<Rightarrow> ustr" where
  "merge_state stages accepted previous_state u =
     (let state = (if \<not> accepted \<and> previous_state \<noteq> [] then previous_state else ru_execution_status u) in
      if list_ex (\<lambda>(k, entry). stage_failed entry) stages \<or> state = lit ''FAILED'' then lit ''FAILED'' else state)"

text \<open>\<open>sha\<close> is SHA-256 and \<open>order\<close> the order in which Python iterates over a set.\<close>

definition merge_execution_manifest :: "(nat list \<Rightarrow> ustr) \<Rightarrow> (ustr set \<Rightarrow> ustr list) \<Rightarrow> run_manifest \<Rightarrow> execution_plan \<Rightarrow> registry_update
    \<Rightarrow> run_manifest res" where
  "merge_execution_manifest sha order manifest p u =
     bind (manifest_to_dict manifest) (\<lambda>d.
     bind (manifest_from_dict (JObj d)) (\<lambda>merged.
     bind (py_dict (jget_or (rm_provenance merged) ''execution'' (JObj []))) (\<lambda>previous.
     bind (plan_sha256 sha p) (\<lambda>digest.
     let previous_sha = jget previous ''plan_sha256'' in
     bind (ensure (\<not> (is_list previous_sha \<or> is_dict previous_sha)) (TypeError ''unhashable type'')) (\<lambda>_.
     bind (ensure (previous_sha = JNull \<or> previous_sha = JStr digest)
             (ValueError ''run.json is already bound to a different execution plan'')) (\<lambda>_.
     bind (py_dict (jget_or previous ''stages'' (JObj []))) (\<lambda>old_stages.
     bind (merge_stage old_stages u) (\<lambda>(stages, accepted).
     let previous_state = jget_or previous ''state'' (JStr []) in
     bind (ensure (is_str previous_state) (ValueError ''run.json execution state must be a string'')) (\<lambda>_.
     let state = merge_state stages accepted (str_of previous_state) u;
         execution = jset ''stages'' (JObj stages) (jset ''state'' (JStr state) (jset ''source_commit'' (JStr (pl_source_commit p))
           (jset ''source_bundle_sha256'' (JStr (pl_source_bundle_sha256 p)) (jset ''project'' (JStr (pl_project p))
           (jset ''plan_sha256'' (JStr digest) previous))))) in
     bind (sort_job_ids (order (set (rm_slurm_job_ids merged) \<union> set (ru_job_ids u)))) (\<lambda>jobs.
     Inr (merged\<lparr>rm_provenance := jset ''execution'' (JObj execution) (rm_provenance merged),
                 rm_slurm_job_ids := jobs, rm_result := jset ''status'' (JStr state) (rm_result merged)\<rparr>)))))))))))"

section \<open>Transaction\<close>

text \<open>The files of a run the transaction touches, and whether a lifecycle transition of the run is marked.\<close>

record run_files =
  rf_manifest :: ustr
  rf_registry :: ustr
  rf_transition :: bool

text \<open>
  \<open>_transaction_program\<close>, which holds both locks while it runs: exit code and files. \<open>expected\<close> is the digest of the manifest the
  merge was computed from.
\<close>

definition transaction_program :: "(nat list \<Rightarrow> ustr) \<Rightarrow> ustr \<Rightarrow> ustr \<Rightarrow> ustr \<Rightarrow> run_files \<Rightarrow> (int \<times> run_files) res" where
  "transaction_program sha expected manifest_text row rf =
     (if rf_transition rf then Inr (44, rf)
      else
        bind (encode_utf8 (rf_manifest rf)) (\<lambda>b.
        if sha b \<noteq> expected then Inr (43, rf)
        else Inr (0, rf\<lparr>rf_manifest := manifest_text, rf_registry := rf_registry rf @ row @ [10]\<rparr>)))"

datatype sync_result = Synced ustr json "ustr list" | Concurrent_Update | Transition_In_Progress | Transaction_Failed

definition transaction_result :: "run_manifest \<Rightarrow> int \<Rightarrow> sync_result" where
  "transaction_result merged returncode =
     (if returncode = 0 then Synced (rm_run_id merged) (jget (rm_result merged) ''status'') (rm_slurm_job_ids merged)
      else if returncode = 43 then Concurrent_Update
      else if returncode = 44 then Transition_In_Progress else Transaction_Failed)"

definition synchronize_execution_transaction :: "(nat list \<Rightarrow> ustr) \<Rightarrow> ustr \<Rightarrow> run_manifest \<Rightarrow> run_files \<Rightarrow> (sync_result \<times> run_files) res" where
  "synchronize_execution_transaction sha current_text merged rf =
     bind (encode_utf8 current_text) (\<lambda>b.
     bind (manifest_to_json merged) (\<lambda>text.
     bind (registry_line merged) (\<lambda>line.
     bind (transaction_program sha (sha b) text line rf) (\<lambda>(code, rf').
     Inr (transaction_result merged code, rf')))))"

end
