(* ===== verification/Sync_Facts.thy ===== *)
theory Sync_Facts
  imports Manifest_Facts Registry_Sync Run_Properties Plan_Samples "HOL-Library.Option_ord" "HOL-Library.Product_Lexorder"
begin

text \<open>
  The merge of an execution update into a manifest as a join: per stage the greatest progress, the union of the job ids, and the same
  manifest when an update is merged again.
\<close>

section \<open>Objects\<close>

lemma dset_same: "dget d k = Some v \<Longrightarrow> dset k v d = d"
  unfolding dget_def dset_def by (induction d) (auto split: if_splits)

lemma jset_same: "dget d (lit k) = Some v \<Longrightarrow> jset k v d = d"
  by (simp add: jset_def dset_same)

lemma dget_jset: "dget (jset k v d) (lit k') = (if k' = k then Some v else dget d (lit k'))"
  by (simp add: jset_def)

lemma dget_member: "dget d k = Some v \<Longrightarrow> (k, v) \<in> set d"
  by (simp add: dget_def map_of_SomeD)

section \<open>The stage map as a join\<close>

text \<open>The progress of a stage: attempt and rank of its status, ordered lexicographically; no entry is least.\<close>

fun entry_progress :: "json \<Rightarrow> (int \<times> nat) option" where
  "entry_progress (JObj e) =
     (case (jget e ''attempt'', jget e ''status'') of (JInt n, JStr s) \<Rightarrow> Some (n, STAGE_STATUS_RANK s) | _ \<Rightarrow> None)"
| "entry_progress _ = None"

definition update_progress :: "registry_update \<Rightarrow> (int \<times> nat) option" where
  "update_progress u = Some (ru_attempt u, STAGE_STATUS_RANK (ru_stage_status u))"

definition execution_of :: "run_manifest \<Rightarrow> jdict" where
  "execution_of m = (case py_dict (jget_or (rm_provenance m) ''execution'' (JObj [])) of Inr e \<Rightarrow> e | Inl _ \<Rightarrow> [])"

definition stages_of :: "run_manifest \<Rightarrow> jdict" where
  "stages_of m = (case py_dict (jget_or (execution_of m) ''stages'' (JObj [])) of Inr s \<Rightarrow> s | Inl _ \<Rightarrow> [])"

definition progress :: "run_manifest \<Rightarrow> ustr \<Rightarrow> (int \<times> nat) option" where
  "progress m x = (case dget (stages_of m) x of None \<Rightarrow> None | Some e \<Rightarrow> entry_progress e)"

lemma entry_progress_entry [simp]: "entry_progress (stage_entry n s) = Some (n, STAGE_STATUS_RANK s)"
  by (simp add: stage_entry_def)

text \<open>A merge keeps the old stage map or stores an entry of the update's attempt; the stored entry is the one of the update.\<close>

lemma merge_stage_cases:
  assumes "merge_stage stages u = Inr (stages', accepted)"
  shows "stages' = stages \<and> \<not> accepted \<and> update_progress u < (case dget stages (ru_stage_id u) of None \<Rightarrow> None | Some e \<Rightarrow> entry_progress e)
    \<or> stages' = dset (ru_stage_id u) (stage_entry (ru_attempt u) (ru_stage_status u)) stages
      \<and> (case dget stages (ru_stage_id u) of None \<Rightarrow> None | Some e \<Rightarrow> entry_progress e) \<le> update_progress u
      \<and> (accepted \<or> ru_stage_status u = lit ''FAILED'')"
proof (cases "\<exists>e. dget stages (ru_stage_id u) = Some (JObj e)")
  case True
  then obtain e where e: "dget stages (ru_stage_id u) = Some (JObj e)" by blast
  with assms obtain n s where ns: "jget e ''attempt'' = JInt n" "jget e ''status'' = JStr s"
    by (auto simp: merge_stage_def Let_def split: json.splits)
  have failed: "{s, ru_stage_status u} = lit ` {''COMPLETED'', ''FAILED''} \<Longrightarrow>
      \<not> STAGE_STATUS_RANK s > STAGE_STATUS_RANK (ru_stage_status u) \<Longrightarrow> ru_stage_status u = lit ''FAILED''"
    by (auto simp: doubleton_eq_iff STAGE_STATUS_RANK_def)
  show ?thesis
    using assms failed unfolding merge_stage_def e option.case json.case ns prod.case Let_def update_progress_def
    by (auto simp: ns split: if_splits)
next
  case False
  then have "merge_stage stages u = Inr (dset (ru_stage_id u) (stage_entry (ru_attempt u) (ru_stage_status u)) stages, True)"
    by (auto simp: merge_stage_def Let_def split: option.splits json.splits)
  moreover have "(case dget stages (ru_stage_id u) of None \<Rightarrow> None | Some e \<Rightarrow> entry_progress e) = None"
    using False by (auto split: option.splits) (metis entry_progress.simps json.exhaust)
  ultimately show ?thesis using assms by (simp add: less_eq_option_None)
qed

lemma merge_stage_join:
  assumes "merge_stage stages u = Inr (stages', accepted)"
  shows "(case dget stages' x of None \<Rightarrow> None | Some e \<Rightarrow> entry_progress e)
    = (if x = ru_stage_id u then max (case dget stages x of None \<Rightarrow> None | Some e \<Rightarrow> entry_progress e) (update_progress u)
       else (case dget stages x of None \<Rightarrow> None | Some e \<Rightarrow> entry_progress e))"
  using merge_stage_cases [OF assms] by (auto simp: max_def update_progress_def)

lemma merge_stage_again:
  assumes "merge_stage stages u = Inr (stages', accepted)"
  shows "\<exists>again. merge_stage stages' u = Inr (stages', again) \<and> (again \<longrightarrow> accepted \<or> ru_stage_status u = lit ''FAILED'')
    \<and> (\<not> again \<longrightarrow> \<not> accepted)
    \<and> (ru_stage_status u = lit ''FAILED'' \<and> again \<longrightarrow> list_ex (\<lambda>(k, entry). stage_failed entry) stages')"
proof (cases "stages' = stages \<and> \<not> accepted")
  case True
  then show ?thesis using assms by blast
next
  case False
  then have stored: "stages' = dset (ru_stage_id u) (stage_entry (ru_attempt u) (ru_stage_status u)) stages"
    "accepted \<or> ru_stage_status u = lit ''FAILED''" using merge_stage_cases [OF assms] by blast+
  then have get: "dget stages' (ru_stage_id u) = Some (stage_entry (ru_attempt u) (ru_stage_status u))" by simp
  have "{status, status} \<noteq> lit ` {''COMPLETED'', ''FAILED''}" for status by (auto simp: doubleton_eq_iff)
  then have "merge_stage stages' u = Inr (stages', True)"
    using get dset_same [OF get] by (simp add: merge_stage_def stage_entry_def)
  moreover have "list_ex (\<lambda>(k, entry). stage_failed entry) stages'" if "ru_stage_status u = lit ''FAILED''"
  proof -
    have "stage_failed (stage_entry (ru_attempt u) (ru_stage_status u))" using that by (simp add: stage_failed_def stage_entry_def)
    then show ?thesis using dget_member [OF get] by (auto simp: list_ex_iff)
  qed
  ultimately show ?thesis using stored(2) by blast
qed

section \<open>The merge\<close>

definition execution_values :: "ustr \<Rightarrow> execution_plan \<Rightarrow> ustr \<Rightarrow> jdict \<Rightarrow> jdict \<Rightarrow> jdict" where
  "execution_values digest p state stages previous =
     jset ''stages'' (JObj stages) (jset ''state'' (JStr state) (jset ''source_commit'' (JStr (pl_source_commit p))
       (jset ''source_bundle_sha256'' (JStr (pl_source_bundle_sha256 p)) (jset ''project'' (JStr (pl_project p))
       (jset ''plan_sha256'' (JStr digest) previous)))))"

definition merged :: "ustr \<Rightarrow> execution_plan \<Rightarrow> ustr \<Rightarrow> jdict \<Rightarrow> jdict \<Rightarrow> ustr list \<Rightarrow> run_manifest \<Rightarrow> run_manifest" where
  "merged digest p state stages previous jobs m =
     m\<lparr>rm_provenance := jset ''execution'' (JObj (execution_values digest p state stages previous)) (rm_provenance m),
       rm_slurm_job_ids := jobs, rm_result := jset ''status'' (JStr state) (rm_result m)\<rparr>"

text \<open>The merge on a manifest whose own encoding is lossless.\<close>

lemma merge_iff:
  assumes "manifest_ok m"
  shows "merge_execution_manifest sha order m p u = Inr m' \<longleftrightarrow>
    (\<exists>previous digest old_stages stages accepted jobs.
       py_dict (jget_or (rm_provenance m) ''execution'' (JObj [])) = Inr previous \<and> plan_sha256 sha p = Inr digest
       \<and> \<not> (is_list (jget previous ''plan_sha256'') \<or> is_dict (jget previous ''plan_sha256''))
       \<and> (jget previous ''plan_sha256'' = JNull \<or> jget previous ''plan_sha256'' = JStr digest)
       \<and> py_dict (jget_or previous ''stages'' (JObj [])) = Inr old_stages \<and> merge_stage old_stages u = Inr (stages, accepted)
       \<and> is_str (jget_or previous ''state'' (JStr []))
       \<and> sort_job_ids (order (set (rm_slurm_job_ids m) \<union> set (ru_job_ids u))) = Inr jobs
       \<and> m' = merged digest p (merge_state stages accepted (str_of (jget_or previous ''state'' (JStr []))) u) stages previous jobs m)"
proof -
  have same: "bind (manifest_to_dict m) (\<lambda>d. bind (manifest_from_dict (JObj d)) f) = f m" for f :: "run_manifest \<Rightarrow> run_manifest res"
    using manifest_to_dict_ok [OF assms] manifest_roundtrip [OF assms] by simp
  show ?thesis
    unfolding merge_execution_manifest_def same execution_values_def merged_def Let_def bind_eq_Inr ensure_eq_Inr split_paired_Ex prod.case by blast
qed

lemma merged_fields:
  "execution_of (merged digest p state stages previous jobs m) = execution_values digest p state stages previous"
  "stages_of (merged digest p state stages previous jobs m) = stages"
  "rm_slurm_job_ids (merged digest p state stages previous jobs m) = jobs"
  "rm_result (merged digest p state stages previous jobs m) = jset ''status'' (JStr state) (rm_result m)"
  "rm_extra (merged digest p state stages previous jobs m) = rm_extra m"
  by (simp_all add: merged_def execution_of_def stages_of_def execution_values_def)

lemma merged_ok: "manifest_ok m \<Longrightarrow> manifest_ok (merged digest p state stages previous jobs m)"
  by (simp add: manifest_ok_def merged_fields)

lemma merged_again:
  "merged digest p state stages (execution_values digest p state stages previous) jobs (merged digest p state stages previous jobs m)
    = merged digest p state stages previous jobs m"
proof -
  have "execution_values digest p state stages (execution_values digest p state stages previous) = execution_values digest p state stages previous"
    unfolding execution_values_def by (simp add: jset_same dget_jset)
  then show ?thesis by (simp add: merged_def jset_same dget_jset)
qed

lemma sort_job_ids_set: "sort_job_ids xs = Inr zs \<Longrightarrow> set zs = set xs"
  by (erule sort_job_ids_keys) simp

text \<open>What a merge gives, and that merging the same update again changes nothing.\<close>

lemma merge_result:
  assumes "merge_execution_manifest sha order m p u = Inr m'" and "manifest_ok m"
  obtains digest state stages accepted jobs where
    "m' = merged digest p state stages (execution_of m) jobs m" and "plan_sha256 sha p = Inr digest"
    and "merge_stage (stages_of m) u = Inr (stages, accepted)"
    and "state = merge_state stages accepted (str_of (jget_or (execution_of m) ''state'' (JStr []))) u"
    and "sort_job_ids (order (set (rm_slurm_job_ids m) \<union> set (ru_job_ids u))) = Inr jobs"
proof -
  from assms(1) [unfolded merge_iff [OF assms(2)]] obtain previous digest old stages accepted jobs where r:
    "py_dict (jget_or (rm_provenance m) ''execution'' (JObj [])) = Inr previous" "plan_sha256 sha p = Inr digest"
    "py_dict (jget_or previous ''stages'' (JObj [])) = Inr old" "merge_stage old u = Inr (stages, accepted)"
    "sort_job_ids (order (set (rm_slurm_job_ids m) \<union> set (ru_job_ids u))) = Inr jobs"
    "m' = merged digest p (merge_state stages accepted (str_of (jget_or previous ''state'' (JStr []))) u) stages previous jobs m" by blast
  then have "previous = execution_of m" "old = stages_of m" by (simp_all add: execution_of_def stages_of_def)
  with r that show thesis by blast
qed

lemma merge_state_again:
  assumes "merge_stage stages u = Inr (stages', accepted)" and "merge_stage stages' u = Inr (stages', again)"
    and "ru_execution_status u \<noteq> []"
  shows "merge_state stages' again (merge_state stages' accepted previous u) u = merge_state stages' accepted previous u"
proof -
  obtain again' where "merge_stage stages' u = Inr (stages', again')" "again' \<longrightarrow> accepted \<or> ru_stage_status u = lit ''FAILED''" "\<not> again' \<longrightarrow> \<not> accepted"
    "ru_stage_status u = lit ''FAILED'' \<and> again' \<longrightarrow> list_ex (\<lambda>(k, entry). stage_failed entry) stages'"
    using merge_stage_again [OF assms(1)] by blast
  then show ?thesis using assms(2,3) by (auto simp: merge_state_def Let_def)
qed

lemma merge_replay:
  assumes "merge_execution_manifest sha order m p u = Inr m'" and "manifest_ok m" and "ru_execution_status u \<noteq> []"
    and "\<And>S. finite S \<Longrightarrow> set (order S) = S"
  shows "merge_execution_manifest sha order m' p u = Inr m'"
proof -
  obtain digest state stages accepted jobs where r: "m' = merged digest p state stages (execution_of m) jobs m" "plan_sha256 sha p = Inr digest"
    "merge_stage (stages_of m) u = Inr (stages, accepted)"
    "state = merge_state stages accepted (str_of (jget_or (execution_of m) ''state'' (JStr []))) u"
    "sort_job_ids (order (set (rm_slurm_job_ids m) \<union> set (ru_job_ids u))) = Inr jobs"
    using merge_result [OF assms(1,2)] .
  obtain again where again: "merge_stage stages u = Inr (stages, again)" using merge_stage_again [OF r(3)] by blast
  have "set jobs = set (rm_slurm_job_ids m) \<union> set (ru_job_ids u)"
    using sort_job_ids_set [OF r(5)] assms(4) by simp
  then have jobs: "sort_job_ids (order (set (rm_slurm_job_ids m') \<union> set (ru_job_ids u))) = Inr jobs"
    using r(5) by (simp add: r(1) merged_fields Un_absorb2 Un_assoc)
  let ?e = "execution_values digest p state stages (execution_of m)"
  have get: "jget_or ?e ''stages'' (JObj []) = JObj stages" "jget ?e ''plan_sha256'' = JStr digest" "jget_or ?e ''state'' (JStr []) = JStr state"
    "jget_or (rm_provenance m') ''execution'' (JObj []) = JObj ?e" by (simp_all add: execution_values_def r(1) merged_def)
  have st: "merge_state stages again state u = state" using merge_state_again [OF r(3) again assms(3)] r(4) by simp
  have "m' = merged digest p (merge_state stages again (str_of (jget_or ?e ''state'' (JStr []))) u) stages ?e jobs m'"
    by (simp only: get(3) str_of.simps st r(1) merged_again)
  then show ?thesis
    unfolding merge_iff [OF merged_ok [OF assms(2), of digest p state stages "execution_of m" jobs, folded r(1)]]
    using r(2) again jobs get by fastforce
qed

lemma merge_joins:
  assumes "merge_execution_manifest sha order m p u = Inr m'" and "manifest_ok m" and "\<And>S. finite S \<Longrightarrow> set (order S) = S"
  shows "progress m' = (progress m)(ru_stage_id u := max (progress m (ru_stage_id u)) (update_progress u))"
    and "set (rm_slurm_job_ids m') = set (rm_slurm_job_ids m) \<union> set (ru_job_ids u)" and "manifest_ok m'"
proof -
  obtain digest state stages accepted jobs where r: "m' = merged digest p state stages (execution_of m) jobs m"
    "merge_stage (stages_of m) u = Inr (stages, accepted)"
    "sort_job_ids (order (set (rm_slurm_job_ids m) \<union> set (ru_job_ids u))) = Inr jobs"
    using merge_result [OF assms(1,2)] by metis
  show "progress m' = (progress m)(ru_stage_id u := max (progress m (ru_stage_id u)) (update_progress u))"
    using merge_stage_join [OF r(2)] by (auto simp: progress_def r(1) merged_fields fun_eq_iff)
  show "set (rm_slurm_job_ids m') = set (rm_slurm_job_ids m) \<union> set (ru_job_ids u)"
    using sort_job_ids_set [OF r(3)] assms(3) by (simp add: r(1) merged_fields)
  show "manifest_ok m'" using merged_ok [OF assms(2)] r(1) by simp
qed

text \<open>A run of updates.\<close>

definition merge_all :: "(nat list \<Rightarrow> ustr) \<Rightarrow> (ustr set \<Rightarrow> ustr list) \<Rightarrow> execution_plan \<Rightarrow> registry_update list \<Rightarrow> run_manifest \<Rightarrow> run_manifest res" where
  "merge_all sha order p us m = foldR (\<lambda>u m. merge_execution_manifest sha order m p u) us m"

definition updates_at :: "registry_update set \<Rightarrow> ustr \<Rightarrow> (int \<times> nat) option set" where
  "updates_at U x = update_progress ` {u \<in> U. ru_stage_id u = x}"

lemma merge_all_joins:
  assumes "merge_all sha order p us m = Inr m'" and "manifest_ok m" and "\<And>S. finite S \<Longrightarrow> set (order S) = S"
  shows "progress m' x = Max (insert (progress m x) (updates_at (set us) x))"
    and "set (rm_slurm_job_ids m') = set (rm_slurm_job_ids m) \<union> (\<Union>u \<in> set us. set (ru_job_ids u))" and "manifest_ok m'"
proof -
  have "progress m' x = Max (insert (progress m x) (updates_at (set us) x))
    \<and> set (rm_slurm_job_ids m') = set (rm_slurm_job_ids m) \<union> (\<Union>u \<in> set us. set (ru_job_ids u)) \<and> manifest_ok m'"
    using assms(1,2)
  proof (induction us arbitrary: m)
    case Nil
    then show ?case by (simp add: merge_all_def updates_at_def)
  next
    case (Cons u us)
    from Cons.prems(1) obtain m1 where m1: "merge_execution_manifest sha order m p u = Inr m1" "merge_all sha order p us m1 = Inr m'"
      by (auto simp: merge_all_def)
    note step = merge_joins [OF m1(1) Cons.prems(2) assms(3)]
    have fin: "finite (updates_at (set us) x)" by (simp add: updates_at_def)
    have "updates_at (set (u # us)) x = (if ru_stage_id u = x then insert (update_progress u) (updates_at (set us) x) else updates_at (set us) x)"
      by (auto simp: updates_at_def)
    moreover have "Max (insert (max a b) A) = Max (insert a (insert b A))" if "finite A" for a b and A :: "(int \<times> nat) option set"
      using that by (cases "A = {}") (simp_all add: max.assoc)
    ultimately show ?case using Cons.IH [OF m1(2) step(3)] step fin by auto
  qed
  then show "progress m' x = Max (insert (progress m x) (updates_at (set us) x))"
    "set (rm_slurm_job_ids m') = set (rm_slurm_job_ids m) \<union> (\<Union>u \<in> set us. set (ru_job_ids u))" "manifest_ok m'" by blast+
qed

end
