(* ===== verification/Registry_Facts.thy ===== *)
theory Registry_Facts
  imports Manifest_Facts
begin

text \<open>
  The registry of runs as an append-only file: a complete row that is appended replaces the row of its run and leaves the others.
\<close>

section \<open>Rows\<close>

text \<open>Every row of the parsed registry is stored under the key of its run id.\<close>

definition rows_keyed :: "(rat + json, jdict) dict \<Rightarrow> bool" where
  "rows_keyed rows \<longleftrightarrow> dict_ok rows \<and> (\<forall>(k, row) \<in> set rows. hash_key (jget row ''run_id'') = Inr k)"

lemma in_dset: "x \<in> set (dset k v d) \<Longrightarrow> x = (k, v) \<or> x \<in> set d"
  unfolding dset_def by (induction d) (auto split: if_splits)

lemma registry_step_keyed: "registry_step fl l rows = Inr rows' \<Longrightarrow> rows_keyed rows \<Longrightarrow> rows_keyed rows'"
  unfolding registry_step_def rows_keyed_def
  by (auto simp: Let_def split: if_splits sum.splits pyerr.splits dest!: in_dset)

lemma foldR_append: "foldR f (xs @ ys) s = bind (foldR f xs s) (foldR f ys)"
  by (induction xs arbitrary: s) (auto simp: bind_def split: sum.splits)

lemma foldR_keyed: "foldR (registry_step fl) ls rows = Inr rows' \<Longrightarrow> rows_keyed rows \<Longrightarrow> rows_keyed rows'"
  by (induction ls arbitrary: rows) (auto dest: registry_step_keyed)

lemma dset_others: "filter (\<lambda>(k', v). k' \<noteq> k) (dset k v d) = filter (\<lambda>(k', v). k' \<noteq> k) d"
  unfolding dset_def by (induction d) auto

lemma dset_own: "dict_ok d \<Longrightarrow> filter (\<lambda>(k', v). k' = k) (dset k v d) = [(k, v)]"
proof (induction d)
  case (Cons p d)
  then show ?case by (cases p) (force simp: dset_def dict_ok_def filter_empty_conv)
qed (simp add: dset_def)

section \<open>Appending\<close>

text \<open>The line of a row.\<close>

lemma row_line:
  assumes "registry_line m = Inr l" and "writable (JObj (registry_row m))"
  shows "\<exists>b. l = 123 # b @ [125]" and "list_all (\<lambda>c. \<not> is_line_break c) l" and "strip l = l"
    and "strict_json_object fl l label = Inr (stored (registry_row m))"
proof -
  have w: "loadable (JObj (registry_row m))" "spelled (list_all text_char) (JObj (registry_row m))"
    using assms(2) by (simp_all only: writable_def)
  show obj: "strict_json_object fl l label = Inr (stored (registry_row m))"
    using ascii_row [OF w, of fl label] assms(1) by (auto simp: registry_line_def)
  have "l = ascii_escape (render_line (sorted_members (JObj (registry_row m))))"
    using assms(1) by (simp add: registry_line_def dumps_line_def split: list.splits)
  then show b: "\<exists>b. l = 123 # b @ [125]" by simp
  have "printable l" using dumps_line_printable w(2) assms(1) by (simp add: registry_line_def)
  then show "list_all (\<lambda>c. \<not> is_line_break c) l" by (auto simp: printable_def list_all_iff is_line_break_def)
  show "strip l = l" using b by (auto simp: strip_def strip_by_def is_space_def)
qed

lemma parse_registry_append:
  assumes "parse_registry fl t = Inr rows" and "t = [] \<or> last t = 10" and "registry_line m = Inr l"
    and "writable (JObj (registry_row m))" and "rm_run_id m \<noteq> []"
  shows "\<exists>rows'. parse_registry fl (t @ l @ [10]) = Inr rows'
    \<and> filter (\<lambda>r. jget r ''run_id'' = JStr (rm_run_id m)) rows' = [stored (registry_row m)]
    \<and> filter (\<lambda>r. jget r ''run_id'' \<noteq> JStr (rm_run_id m)) rows' = filter (\<lambda>r. jget r ''run_id'' \<noteq> JStr (rm_run_id m)) rows"
proof -
  obtain d where d: "foldR (registry_step fl) (splitlines t) [] = Inr d" "rows = map snd d"
    using assms(1) by (auto simp: parse_registry_def)
  have keyed: "rows_keyed d" by (rule foldR_keyed [OF d(1)]) (simp add: rows_keyed_def dict_ok_def)
  let ?k = "Inr (JStr (rm_run_id m)) :: rat + json" and ?row = "stored (registry_row m)"
  have ok: "dict_ok (registry_row m)" by (simp add: registry_row_def dict_ok_def)
  have id: "jget ?row ''run_id'' = JStr (rm_run_id m)" by (simp add: stored_get [OF ok]) (simp add: registry_row_def)
  note line = row_line [OF assms(3,4)]
  have "registry_step fl l d = Inr (dset ?k ?row d)"
    using line(1,3) line(4) [of fl "''registry row''"] assms(5) by (auto simp: registry_step_def id hash_key_def)
  then have new: "parse_registry fl (t @ l @ [10]) = Inr (map snd (dset ?k ?row d))"
    using splitlines_append [OF assms(2) line(2)] by (simp add: parse_registry_def foldR_append d(1))
  have key: "hash_key (jget r ''run_id'') = Inr k \<Longrightarrow> jget r ''run_id'' = JStr (rm_run_id m) \<longleftrightarrow> k = ?k" for r k
    by (cases "jget r ''run_id''") (auto simp: hash_key_def split: option.splits)
  have keyed': "rows_keyed (dset ?k ?row d)"
    using keyed by (auto simp: rows_keyed_def id hash_key_def dest!: in_dset)
  have by_key: "filter (\<lambda>r. jget r ''run_id'' = JStr (rm_run_id m)) (map snd e) = map snd (filter (\<lambda>(k, v). k = ?k) e)"
    "filter (\<lambda>r. jget r ''run_id'' \<noteq> JStr (rm_run_id m)) (map snd e) = map snd (filter (\<lambda>(k, v). k \<noteq> ?k) e)" if "rows_keyed e" for e
    using that key by (auto simp: filter_map rows_keyed_def intro!: arg_cong [of _ _ "map snd"] filter_cong)
  have "filter (\<lambda>r. jget r ''run_id'' = JStr (rm_run_id m)) (map snd (dset ?k ?row d)) = [?row]"
    using by_key(1) [OF keyed'] dset_own [of d ?k ?row] keyed by (simp add: rows_keyed_def)
  moreover have "filter (\<lambda>r. jget r ''run_id'' \<noteq> JStr (rm_run_id m)) (map snd (dset ?k ?row d))
      = filter (\<lambda>r. jget r ''run_id'' \<noteq> JStr (rm_run_id m)) rows"
    using by_key(2) [OF keyed'] by_key(2) [OF keyed] by (simp only: dset_others d(2))
  ultimately show ?thesis using new by blast
qed

text \<open>A row that was torn after its first character swallows the row that is appended next.\<close>

lemma torn_row:
  assumes "t = [] \<or> last t = 10" and "registry_line m = Inr l" and "writable (JObj (registry_row m))"
  shows "parse_registry fl (t @ 123 # l @ [10]) = parse_registry fl t"
proof -
  note line = row_line [OF assms(2,3)]
  obtain b where b: "l = 123 # b @ [125]" using line(1) by blast
  have "list_all (\<lambda>c. \<not> is_line_break c) (123 # l)" using line(2) by (simp add: is_line_break_def)
  then have lines: "splitlines (t @ 123 # l @ [10]) = splitlines t @ [123 # l]" using splitlines_append [OF assms(1), of "123 # l"] by simp
  have "scan_once (strict fl) (123 # l) = Inl malformed" by (simp add: b scan_once.simps scan_members.simps)
  then have "loads (strict fl) (123 # l) = Inl malformed" by (simp add: loads_def)
  then have "\<exists>e. strict_json_object fl (123 # l) ''registry row'' = Inl (ValueError e)"
    by (simp add: strict_json_object_def strict_json_value_def)
  moreover have "strip (123 # l) = 123 # l" by (simp add: b strip_def strip_by_def is_space_def)
  ultimately have "registry_step fl (123 # l) d = Inr d" for d by (auto simp: registry_step_def)
  then show ?thesis by (simp add: parse_registry_def lines foldR_append bind_def split: sum.splits)
qed

end
