(* ===== verification/Sync_Properties.thy ===== *)
theory Sync_Properties
  imports Sync_Facts Registry_Facts Plan_Properties
begin

text \<open>
  Properties of the run manifest, of its merge with execution updates and of the registry.
\<close>

section \<open>The merge\<close>

text \<open>C29. A merge is a join: the progress of the updated stage, attempt first and then the rank of its status, becomes the greater of
  the recorded one and the update's, and no other stage moves; the job ids are united; every other member of the manifest is kept,
  unknown ones included; a run with a failed stage reads as failed; and merging the update again changes nothing.
\<close>

theorem merge_is_join:
  assumes "manifest_from_dict (JObj d) = Inr m" and "dict_ok d" and "update_post_init u\<^sub>0 = Inr u"
    and "\<And>S. finite S \<Longrightarrow> set (order S) = S" and "merge_execution_manifest sha order m p u = Inr m'"
  shows "progress m' = (progress m)(ru_stage_id u := max (progress m (ru_stage_id u)) (update_progress u))
    \<and> set (rm_slurm_job_ids m') = set (rm_slurm_job_ids m) \<union> set (ru_job_ids u)
    \<and> m'\<lparr>rm_provenance := rm_provenance m, rm_slurm_job_ids := rm_slurm_job_ids m, rm_result := rm_result m\<rparr> = m
    \<and> (\<forall>k. k = ''execution'' \<or> jget (rm_provenance m') k = jget (rm_provenance m) k)
    \<and> (list_ex (\<lambda>(k, entry). stage_failed entry) (stages_of m') \<longrightarrow> jget (rm_result m') ''status'' = JStr (lit ''FAILED''))
    \<and> merge_execution_manifest sha order m' p u = Inr m'"
proof -
  have ok: "manifest_ok m" using assms(1,2) by (rule decoded_manifest_ok)
  have "ru_execution_status u \<noteq> []" using assms(3) by (auto simp: update_post_init_def)
  note replay = merge_replay [OF assms(5) ok this assms(4)]
  obtain digest state stages accepted jobs where r: "m' = merged digest p state stages (execution_of m) jobs m"
    "state = merge_state stages accepted (str_of (jget_or (execution_of m) ''state'' (JStr []))) u"
    using merge_result [OF assms(5) ok] by metis
  have "jget (rm_result m') ''status'' = JStr (lit ''FAILED'')" if "list_ex (\<lambda>(k, entry). stage_failed entry) (stages_of m')"
    using that by (simp add: r merged_fields merge_state_def Let_def)
  then show ?thesis
    using merge_joins [OF assms(5) ok assms(4)] replay by (simp add: r(1) merged_def)
qed

definition sample_manifest :: "string \<Rightarrow> jdict \<Rightarrow> run_manifest" where
  "sample_manifest state stages =
     \<lparr>rm_run_id = sample_run_id, rm_campaign = lit ''camp'', rm_pipeline = lit ''pipe'', rm_created_utc = lit ''2024'',
      rm_status = lit ''active'', rm_variant = [], rm_datasets = [lit ''d1''], rm_experiment_ids = [], rm_slurm_job_ids = [],
      rm_source_view = [], rm_storage_roots = [], rm_result = [], rm_retention = lit ''auto'', rm_size_bytes = None,
      rm_provenance = [(lit ''execution'', JObj [(lit ''state'', JStr (lit state)), (lit ''stages'', JObj stages)])],
      rm_tombstone = None, rm_schema_version = 1, rm_extra = [(lit ''owner'', JStr (lit ''me''))]\<rparr>"

definition sample_update :: "string \<Rightarrow> string \<Rightarrow> string \<Rightarrow> registry_update" where
  "sample_update stage status state =
     \<lparr>ru_plan_sha256 = hex64, ru_stage_id = lit stage, ru_stage_status = lit status, ru_execution_status = lit state, ru_job_ids = [],
      ru_attempt = 1, ru_lifecycle_claim_ids = []\<rparr>"

lemma sample_manifest_ok: "manifest_ok (sample_manifest state stages)"
  by (simp add: manifest_ok_def sample_manifest_def dict_ok_def is_extra_def KNOWN_FIELDS_def)

definition sample_members :: "string \<Rightarrow> jdict \<Rightarrow> jdict" where
  "sample_members state stages = known_fields (sample_manifest state stages) @ rm_extra (sample_manifest state stages)"

lemma sample_decoded:
  "manifest_from_dict (JObj (sample_members state stages)) = Inr (sample_manifest state stages)" "dict_ok (sample_members state stages)"
  using manifest_roundtrip [OF sample_manifest_ok] manifest_dict_ok [OF sample_manifest_ok] by (simp_all add: sample_members_def)

lemma sample_update_valid:
  assumes "stage \<in> {''a'', ''b''}" "status \<in> {''SUBMITTED'', ''COMPLETED''}" "state \<in> {''SUBMITTED'', ''RUNNING''}"
  shows "update_post_init (sample_update stage status state) = Inr (sample_update stage status state)"
  using assms by (auto simp: update_post_init_def sample_update_def sorted_by_int_def)

lemma sample_merge:
  assumes "merge_stage stages (sample_update stage status new) = Inr (stages', accepted)"
  shows "merge_execution_manifest (\<lambda>_. hex64) sorted_list_of_set (sample_manifest state stages) sample_plan (sample_update stage status new)
    = Inr (merged hex64 sample_plan (merge_state stages' accepted (lit state) (sample_update stage status new)) stages'
        [(lit ''state'', JStr (lit state)), (lit ''stages'', JObj stages)] [] (sample_manifest state stages))"
  unfolding merge_iff [OF sample_manifest_ok]
  by (rule exI [of _ "[(lit ''state'', JStr (lit state)), (lit ''stages'', JObj stages)]"], rule exI [of _ hex64], rule exI [of _ stages],
      rule exI [of _ stages'], rule exI [of _ accepted], rule exI [of _ "[]"])
    (use sample_digest assms in \<open>simp add: sample_manifest_def sample_update_def sort_job_ids_def\<close>)

lemma sample_accepted:
  "merge_stage [] (sample_update stage status new) = Inr ([(lit stage, stage_entry 1 (lit status))], True)"
  by (simp add: merge_stage_def sample_update_def dset_def)

theorem merge_is_join_witness:
  "\<exists>m'. merge_execution_manifest (\<lambda>_. hex64) sorted_list_of_set (sample_manifest ''ACTIVE'' []) sample_plan (sample_update ''a'' ''SUBMITTED'' ''SUBMITTED'')
      = Inr m'
    \<and> progress m' (lit ''a'') = Some (1, 10) \<and> progress m' (lit ''b'') = None \<and> rm_extra m' = [(lit ''owner'', JStr (lit ''me''))]"
proof -
  let ?m = "sample_manifest ''ACTIVE'' []" and ?u = "sample_update ''a'' ''SUBMITTED'' ''SUBMITTED''"
  obtain m' where m': "merge_execution_manifest (\<lambda>_. hex64) sorted_list_of_set ?m sample_plan ?u = Inr m'" using sample_merge [OF sample_accepted] by blast
  have u: "update_post_init ?u = Inr ?u" by (rule sample_update_valid) simp_all
  have set: "set (sorted_list_of_set S) = S" if "finite S" for S :: "ustr set" using that by simp
  note join = merge_is_join [OF sample_decoded u set m']
  have "progress ?m = (\<lambda>_. None)" by (simp add: progress_def fun_eq_iff stages_of_def execution_of_def sample_manifest_def)
  then have "progress m' = (\<lambda>_. None)(lit ''a'' := max None (Some (1, 10)))"
    using join by (simp add: update_progress_def sample_update_def STAGE_STATUS_RANK_def)
  moreover have "rm_extra m' = rm_extra ?m" using arg_cong [OF join [THEN conjunct2, THEN conjunct2, THEN conjunct1], of rm_extra] by simp
  ultimately show ?thesis using m' by (auto simp: sample_manifest_def max_def)
qed

text \<open>C30. The registry converges: whatever the order and the repetition in which the callbacks of a run are merged, every stage ends at the
  greatest progress any of them reported, and the job ids are those of all of them.\<close>

theorem registry_converges:
  assumes "manifest_from_dict (JObj d) = Inr m" and "dict_ok d" and "\<And>S. finite S \<Longrightarrow> set (order S) = S" and "set us = set vs"
    and "merge_all sha order p us m = Inr m\<^sub>1" and "merge_all sha order p vs m = Inr m\<^sub>2"
  shows "progress m\<^sub>1 = progress m\<^sub>2 \<and> set (rm_slurm_job_ids m\<^sub>1) = set (rm_slurm_job_ids m\<^sub>2)
    \<and> (\<forall>x. progress m\<^sub>1 x = Max (insert (progress m x) (updates_at (set us) x)))"
proof -
  have ok: "manifest_ok m" using assms(1,2) by (rule decoded_manifest_ok)
  show ?thesis using merge_all_joins [OF assms(5) ok assms(3)] merge_all_joins [OF assms(6) ok assms(3)] assms(4) by auto
qed

theorem registry_converges_witness:
  "\<exists>m\<^sub>1 m\<^sub>2. merge_all (\<lambda>_. hex64) sorted_list_of_set sample_plan [sample_update ''a'' ''SUBMITTED'' ''SUBMITTED''] (sample_manifest ''ACTIVE'' []) = Inr m\<^sub>1
    \<and> merge_all (\<lambda>_. hex64) sorted_list_of_set sample_plan [sample_update ''a'' ''SUBMITTED'' ''SUBMITTED'', sample_update ''a'' ''SUBMITTED'' ''SUBMITTED'']
        (sample_manifest ''ACTIVE'' []) = Inr m\<^sub>2 \<and> progress m\<^sub>1 = progress m\<^sub>2"
proof -
  let ?m = "sample_manifest ''ACTIVE'' []" and ?u = "sample_update ''a'' ''SUBMITTED'' ''SUBMITTED''"
  obtain m' where m': "merge_execution_manifest (\<lambda>_. hex64) sorted_list_of_set ?m sample_plan ?u = Inr m'" using sample_merge [OF sample_accepted] by blast
  have set: "set (sorted_list_of_set S) = S" if "finite S" for S :: "ustr set" using that by simp
  have "merge_execution_manifest (\<lambda>_. hex64) sorted_list_of_set m' sample_plan ?u = Inr m'"
    by (rule merge_replay [OF m' sample_manifest_ok _ set]) (simp_all add: sample_update_def)
  with m' have runs: "merge_all (\<lambda>_. hex64) sorted_list_of_set sample_plan [?u] ?m = Inr m'"
    "merge_all (\<lambda>_. hex64) sorted_list_of_set sample_plan [?u, ?u] ?m = Inr m'" by (simp_all add: merge_all_def)
  have "set [?u] = set [?u, ?u]" by simp
  from registry_converges [OF sample_decoded set this runs] show ?thesis using runs by blast
qed

text \<open>C31. The terminal state of a run is not sticky: a callback that completes one stage late overwrites the state \<open>COMPLETED\<close> of the run
  with the older state it carries, because its own stage had not been recorded as completed yet.\<close>

theorem late_callback_reopens_run:
  assumes "manifest_from_dict (JObj d) = Inr m" and "dict_ok d" and "merge_execution_manifest sha order m p u = Inr m'"
    and "jget_or (execution_of m) ''state'' (JStr []) = JStr (lit ''COMPLETED'')" and "progress m (ru_stage_id u) < update_progress u"
    and "ru_execution_status u = lit ''RUNNING''" and "\<not> list_ex (\<lambda>(k, entry). stage_failed entry) (stages_of m')"
    and "ru_stage_status u \<noteq> lit ''FAILED''"
  shows "jget (execution_of m') ''state'' = JStr (lit ''RUNNING'') \<and> jget (rm_result m') ''status'' = JStr (lit ''RUNNING'')"
proof -
  have ok: "manifest_ok m" using assms(1,2) by (rule decoded_manifest_ok)
  obtain digest state stages accepted jobs where r: "m' = merged digest p state stages (execution_of m) jobs m"
    "merge_stage (stages_of m) u = Inr (stages, accepted)"
    "state = merge_state stages accepted (str_of (jget_or (execution_of m) ''state'' (JStr []))) u"
    using merge_result [OF assms(3) ok] by metis
  have "accepted" using merge_stage_cases [OF r(2)] assms(5,8) by (auto simp: progress_def)
  then have "state = lit ''RUNNING''" using assms(6,7) r by (simp add: merge_state_def merged_fields)
  then show ?thesis by (simp add: r(1) merged_fields) (simp add: execution_values_def)
qed

theorem late_callback_reopens_run_witness:
  "\<exists>m'. merge_execution_manifest (\<lambda>_. hex64) sorted_list_of_set (sample_manifest ''COMPLETED'' [(lit ''a'', stage_entry 1 (lit ''COMPLETED'')),
        (lit ''b'', stage_entry 1 (lit ''SUBMITTED''))]) sample_plan (sample_update ''b'' ''COMPLETED'' ''RUNNING'') = Inr m'
    \<and> stages_of m' = [(lit ''a'', stage_entry 1 (lit ''COMPLETED'')), (lit ''b'', stage_entry 1 (lit ''COMPLETED''))]
    \<and> jget (rm_result m') ''status'' = JStr (lit ''RUNNING'')"
proof -
  let ?old = "[(lit ''a'', stage_entry 1 (lit ''COMPLETED'')), (lit ''b'', stage_entry 1 (lit ''SUBMITTED''))]"
  let ?new = "[(lit ''a'', stage_entry 1 (lit ''COMPLETED'')), (lit ''b'', stage_entry 1 (lit ''COMPLETED''))]"
  let ?m = "sample_manifest ''COMPLETED'' ?old" and ?u = "sample_update ''b'' ''COMPLETED'' ''RUNNING''"
  have step: "merge_stage ?old ?u = Inr (?new, True)"
    by (simp add: merge_stage_def sample_update_def stage_entry_def STAGE_STATUS_RANK_def doubleton_eq_iff) (simp add: dset_def)
  obtain m' where m': "merge_execution_manifest (\<lambda>_. hex64) sorted_list_of_set ?m sample_plan ?u = Inr m'" and stages: "stages_of m' = ?new"
    using sample_merge [OF step] merged_fields(2) by metis
  have state: "jget_or (execution_of ?m) ''state'' (JStr []) = JStr (lit ''COMPLETED'')" by (simp add: execution_of_def sample_manifest_def)
  have "progress ?m (ru_stage_id ?u) < update_progress ?u"
    by (simp add: progress_def stages_of_def execution_of_def sample_manifest_def sample_update_def update_progress_def STAGE_STATUS_RANK_def)
  moreover have "\<not> list_ex (\<lambda>(k, entry). stage_failed entry) (stages_of m')" by (simp add: stages stage_failed_def stage_entry_def)
  ultimately show ?thesis
    using late_callback_reopens_run [OF sample_decoded m' state] m' stages by (simp add: sample_update_def)
qed

section \<open>Files\<close>

text \<open>C32. Rewriting \<open>run.json\<close> loses no member but one named \<open>extra\<close>: every manifest read from an object without floats and lone surrogates is written as a text
  that reads back as the same manifest, up to the order of members, and it holds every member of the object it does not know, save for \<open>extra\<close>.\<close>

theorem manifest_survives_rewrite:
  assumes "manifest_from_dict (JObj d) = Inr m" and "writable (JObj d)"
  shows "(\<exists>t. manifest_to_json m = Inr t \<and> manifest_from_json fl t = Inr (sorted_manifest m)) \<and> (\<forall>k. dget (rm_extra m) k = (if is_extra k then dget d k else None))"
proof -
  have "dget (filter (\<lambda>(k, v). is_extra k) e) k = (if is_extra k then dget e k else None)" for e :: jdict and k by (induction e) auto
  moreover have "rm_extra m = filter (\<lambda>(k, v). is_extra k) d" using assms(1) by (auto simp: manifest_from_dict_def Let_def)
  ultimately show ?thesis using manifest_file [OF assms] by simp
qed

lemma sample_writable: "writable (JObj (sample_members ''ACTIVE'' []))"
proof -
  have "dict_ok (sample_members ''ACTIVE'' [])" by (rule sample_decoded)
  moreover have "list_all text_char sample_run_id" by (simp add: sample_run_id_def)
  ultimately show ?thesis by (simp add: sample_members_def known_fields_def sample_manifest_def)
qed

theorem manifest_survives_rewrite_witness:
  "\<exists>t. manifest_to_json (sample_manifest ''ACTIVE'' []) = Inr t
    \<and> manifest_from_json (\<lambda>_. NaN) t = Inr (sorted_manifest (sample_manifest ''ACTIVE'' []))
    \<and> dget (rm_extra (sample_manifest ''ACTIVE'' [])) (lit ''owner'') = Some (JStr (lit ''me''))"
  using manifest_survives_rewrite [OF sample_decoded(1) sample_writable, of "\<lambda>_. NaN"] by (simp add: sample_manifest_def)

lemma row_writable: "writable (JObj (known_fields m @ rm_extra m)) \<Longrightarrow> writable (JObj (registry_row m))"
proof -
  assume w: "writable (JObj (known_fields m @ rm_extra m))"
  have "writable (jget (rm_result m) ''status'')" using w by (intro writable_get(2)) (simp add: known_fields_def)
  moreover have "dict_ok (registry_row m)" by (simp add: registry_row_def dict_ok_def)
  ultimately show ?thesis using w by (simp add: known_fields_def registry_row_def)
qed

text \<open>C33. Synchronization of a manifest as the reader gives it (\<open>manifest_ok\<close>), with a non-empty run id and without floats and lone
  surrogates, against a registry that can be parsed and is empty or ends with a newline: a transaction that returns either changed
  nothing, because the manifest is no longer the one it merged or a transition is marked, or \<open>run.json\<close> holds the merged manifest
  and the registry lists the row of the merged manifest as the only one of its run and every other run as before. The newline is
  needed: \<open>torn_row_hides_next\<close> below shows that a row behind a torn one is not listed.\<close>

theorem synchronized_run_is_listed:
  assumes "manifest_ok m" and "writable (JObj (known_fields m @ rm_extra m))" and "rm_run_id m \<noteq> []"
    and "parse_registry fl (rf_registry rf) = Inr rows" and "rf_registry rf = [] \<or> last (rf_registry rf) = 10"
    and "synchronize_execution_transaction sha current m rf = Inr (result, rf')"
  shows "rf' = rf \<and> (result = Transition_In_Progress \<and> rf_transition rf \<or> result = Concurrent_Update \<and> rf_manifest rf \<noteq> current)
    \<or> result = Synced (rm_run_id m) (jget (rm_result m) ''status'') (rm_slurm_job_ids m) \<and> \<not> rf_transition rf
      \<and> (\<exists>b c. encode_utf8 (rf_manifest rf) = Inr b \<and> encode_utf8 current = Inr c \<and> sha b = sha c)
      \<and> manifest_from_json fl (rf_manifest rf') = Inr (sorted_manifest m)
      \<and> (\<exists>rows'. parse_registry fl (rf_registry rf') = Inr rows'
          \<and> filter (\<lambda>r. jget r ''run_id'' = JStr (rm_run_id m)) rows' = [stored (registry_row m)]
          \<and> filter (\<lambda>r. jget r ''run_id'' \<noteq> JStr (rm_run_id m)) rows' = filter (\<lambda>r. jget r ''run_id'' \<noteq> JStr (rm_run_id m)) rows)"
proof -
  obtain c tx line code where s: "encode_utf8 current = Inr c" "manifest_to_json m = Inr tx" "registry_line m = Inr line"
    "transaction_program sha (sha c) tx line rf = Inr (code, rf')" "result = transaction_result m code"
    using assms(6) by (auto simp: synchronize_execution_transaction_def)
  have tx: "manifest_from_json fl tx = Inr (sorted_manifest m)"
    using manifest_file [OF manifest_roundtrip [OF assms(1)] assms(2), of fl] s(2) by simp
  note rows = parse_registry_append [OF assms(4,5) s(3) row_writable [OF assms(2)] assms(3)]
  show ?thesis
  proof (cases "rf_transition rf")
    case True
    then show ?thesis using s(4,5) by (simp add: transaction_program_def transaction_result_def)
  next
    case False
    then obtain b where b: "encode_utf8 (rf_manifest rf) = Inr b" using s(4) by (auto simp: transaction_program_def)
    show ?thesis
    proof (cases "sha b = sha c")
      case True
      then have "rf' = rf\<lparr>rf_manifest := tx, rf_registry := rf_registry rf @ line @ [10]\<rparr>" "code = 0"
        using s(4) b False by (simp_all add: transaction_program_def)
      then show ?thesis using True False b s(1,5) tx rows by (simp add: transaction_result_def)
    next
      case False
      then have "rf' = rf" "code = 43" "rf_manifest rf \<noteq> current" using s(1,4) b \<open>\<not> rf_transition rf\<close> by (auto simp: transaction_program_def)
      then show ?thesis using s(5) by (simp add: transaction_result_def)
    qed
  qed
qed

theorem synchronized_run_is_listed_witness:
  "\<exists>rf'. synchronize_execution_transaction (\<lambda>_. hex64) (lit ''old'') (sample_manifest ''ACTIVE'' [])
      \<lparr>rf_manifest = lit ''old'', rf_registry = [], rf_transition = False\<rparr>
      = Inr (Synced sample_run_id JNull [], rf')
    \<and> (\<exists>rows. parse_registry (\<lambda>_. NaN) (rf_registry rf') = Inr rows \<and> filter (\<lambda>r. jget r ''run_id'' = JStr sample_run_id) rows
          = [stored (registry_row (sample_manifest ''ACTIVE'' []))])"
proof -
  let ?m = "sample_manifest ''ACTIVE'' []" and ?rf = "\<lparr>rf_manifest = lit ''old'', rf_registry = [], rf_transition = False\<rparr>"
  have w: "writable (JObj (known_fields ?m @ rm_extra ?m))" using sample_writable by (simp only: sample_members_def)
  obtain tx where tx: "manifest_to_json ?m = Inr tx" using manifest_file [OF sample_decoded(1) sample_writable] by blast
  have "loadable (JObj (registry_row ?m))" "spelled (list_all text_char) (JObj (registry_row ?m))" using row_writable [OF w] by (simp_all only: writable_def)
  then obtain line where line: "registry_line ?m = Inr line" using ascii_row unfolding registry_line_def by blast
  have run: "rm_run_id ?m = sample_run_id" "jget (rm_result ?m) ''status'' = JNull" "rm_slurm_job_ids ?m = []" by (simp_all add: sample_manifest_def)
  have old: "\<exists>b. encode_utf8 (lit ''old'') = Inr b" by (simp add: encode_utf8_def)
  then have "synchronize_execution_transaction (\<lambda>_. hex64) (lit ''old'') ?m ?rf
      = Inr (Synced sample_run_id JNull [], ?rf\<lparr>rf_manifest := tx, rf_registry := line @ [10]\<rparr>)"
    by (auto simp: synchronize_execution_transaction_def transaction_program_def transaction_result_def tx line run)
  moreover have "parse_registry (\<lambda>_. NaN) (rf_registry ?rf) = Inr []" by (simp add: parse_registry_def splitlines_def)
  moreover have "rm_run_id ?m \<noteq> []" by (simp add: run sample_run_id_def)
  ultimately show ?thesis using synchronized_run_is_listed [OF sample_manifest_ok w, of "\<lambda>_. NaN" ?rf] by (fastforce simp: run)
qed

text \<open>A row that is torn after its first character, as a crash during an append may leave it, hides the row that is appended next.\<close>

theorem torn_row_hides_next:
  assumes "rf_registry rf = t @ [123]" and "t = [] \<or> last t = 10" and "manifest_ok m" and "writable (JObj (known_fields m @ rm_extra m))"
    and "synchronize_execution_transaction sha current m rf = Inr (result, rf')"
  shows "rf' = rf \<or> parse_registry fl (rf_registry rf') = parse_registry fl t"
  using assms(5) torn_row [OF assms(2) _ row_writable [OF assms(4)], of _ fl] assms(1)
  by (auto simp: synchronize_execution_transaction_def transaction_program_def split: if_splits)

end
