(* ===== verification/Broker_Frames.thy ===== *)
theory Broker_Frames
  imports Json_Ascii
begin

text \<open>
  The frames of \<open>broker_protocol.py\<close>: one JSON object behind a magic marker and a length, on byte streams whose reads and
  writes may be short. Bytes are naturals below 256. The text of a float, \<open>repr\<close>, and the value of a float literal are
  parameters.
\<close>

section \<open>Limits\<close>

definition PROTOCOL_VERSION :: int where "PROTOCOL_VERSION = 2"

definition FRAME_MAGIC :: "nat list" where "FRAME_MAGIC = lit ''O2B1''"

definition MAX_FRAME_BYTES :: nat where "MAX_FRAME_BYTES = 16 * 1024 * 1024"

definition MAX_COMMAND_BYTES :: nat where "MAX_COMMAND_BYTES = 64 * 1024"

definition MAX_REQUEST_ID_BYTES :: nat where "MAX_REQUEST_ID_BYTES = 128"

definition MAX_TIMEOUT_SECONDS :: int where "MAX_TIMEOUT_SECONDS = 7 * 24 * 60 * 60"

definition MAX_STDIN_BYTES :: nat where "MAX_STDIN_BYTES = 1 * 1024 * 1024"

definition MAX_OUTPUT_BYTES :: nat where "MAX_OUTPUT_BYTES = 1 * 1024 * 1024"

definition MAX_STARTUP_PREAMBLE_BYTES :: nat where "MAX_STARTUP_PREAMBLE_BYTES = 64 * 1024"

definition utf8_text_within_limit :: "json \<Rightarrow> nat \<Rightarrow> bool \<Rightarrow> bool" where
  "utf8_text_within_limit v max_bytes allow_empty =
     (if \<not> is_str v \<or> (str_of v = [] \<and> \<not> allow_empty) then False
      else case encode_utf8 (str_of v) of Inl _ \<Rightarrow> False | Inr b \<Rightarrow> length b \<le> max_bytes)"

definition command_within_exec_limit :: "json \<Rightarrow> bool" where
  "command_within_exec_limit v = utf8_text_within_limit v MAX_COMMAND_BYTES False"

section \<open>Decoding of UTF-8\<close>

text \<open>
  \<open>bytes.decode("utf-8")\<close>. A lead byte fixes the number of continuation bytes and the range of the first of them, which
  excludes overlong forms, surrogates and code points above the last one. What cannot be a character is cut into its
  longest valid beginnings, each of which is one error.
\<close>

definition lead :: "nat \<Rightarrow> (nat \<times> nat \<times> nat) option" where
  "lead b =
     (if 194 \<le> b \<and> b \<le> 223 then Some (1, 128, 191)
      else if b = 224 then Some (2, 160, 191) else if b = 237 then Some (2, 128, 159)
      else if 225 \<le> b \<and> b \<le> 239 then Some (2, 128, 191)
      else if b = 240 then Some (3, 144, 191) else if b = 244 then Some (3, 128, 143)
      else if 241 \<le> b \<and> b \<le> 243 then Some (3, 128, 191)
      else None)"

definition continuation :: "nat \<Rightarrow> bool" where
  "continuation b \<longleftrightarrow> 128 \<le> b \<and> b \<le> 191"

text \<open>The first unit of a non-empty text and its bytes; \<open>None\<close> is an error.\<close>

fun utf8_next :: "nat list \<Rightarrow> nat option \<times> nat" where
  "utf8_next [] = (None, 1)"
| "utf8_next (b # s) =
     (if b < 128 then (Some b, 1)
      else case lead b of
        None \<Rightarrow> (None, 1)
      | Some (n, lo, hi) \<Rightarrow>
          if s = [] \<or> hd s < lo \<or> hi < hd s then (None, 1)
          else let k = Suc (length (takeWhile continuation (take (n - 1) (tl s))))
            in if k < n then (None, Suc k) else (Some (fst (decode_one (b # s))), Suc n))"

lemma utf8_next_pos: "0 < snd (utf8_next s)"
  by (cases s) (auto simp: Let_def split: option.splits prod.splits)

function decode_units :: "nat list \<Rightarrow> nat option list" where
  "decode_units s = (if s = [] then [] else fst (utf8_next s) # decode_units (drop (snd (utf8_next s)) s))"
  by pat_completeness auto
termination by (relation "measure length") (simp_all add: utf8_next_pos)

declare decode_units.simps [simp del]

definition decode_utf8 :: "nat list \<Rightarrow> ustr res" where
  "decode_utf8 s =
     (if None \<in> set (decode_units s) then Inl (ValueError ''invalid utf-8'') else Inr (map the (decode_units s)))"

text \<open>\<open>errors="replace"\<close>.\<close>

definition decode_replace :: "nat list \<Rightarrow> ustr" where
  "decode_replace s = map (\<lambda>u. case u of None \<Rightarrow> 65533 | Some c \<Rightarrow> c) (decode_units s)"

section \<open>Streams\<close>

text \<open>A read returns at most as many bytes as asked for, and possibly fewer: the sizes at which the next reads stop are
  part of the stream. At the end of the data a read returns nothing.\<close>

record in_stream =
  in_data :: "nat list"
  in_chunks :: "nat list"

type_synonym 'a reader = "in_stream \<Rightarrow> 'a res \<times> in_stream"

definition stream_read :: "nat \<Rightarrow> in_stream \<Rightarrow> nat list \<times> in_stream" where
  "stream_read n st =
     (let k = (case in_chunks st of [] \<Rightarrow> n | c # _ \<Rightarrow> min n (Suc c))
      in (take k (in_data st), st\<lparr>in_data := drop k (in_data st), in_chunks := tl (in_chunks st)\<rparr>))"

definition rbind :: "'a reader \<Rightarrow> ('a \<Rightarrow> 'b reader) \<Rightarrow> 'b reader" where
  "rbind m f st = (case m st of (Inl e, st') \<Rightarrow> (Inl e, st') | (Inr x, st') \<Rightarrow> f x st')"

definition rlift :: "'a res \<Rightarrow> 'a reader" where
  "rlift r st = (r, st)"

text \<open>A write accepts some bytes, or stops; the acceptances of the next writes are part of the stream.\<close>

datatype acceptance = Takes nat | Stops

record out_stream =
  out_data :: "nat list"
  out_accepts :: "acceptance list"

definition stream_write :: "nat list \<Rightarrow> out_stream \<Rightarrow> nat \<times> out_stream" where
  "stream_write b st =
     (case out_accepts st of
        [] \<Rightarrow> (length b, st\<lparr>out_data := out_data st @ b\<rparr>)
      | Takes k # as \<Rightarrow>
          let n = min (Suc k) (length b) in (n, st\<lparr>out_data := out_data st @ take n b, out_accepts := as\<rparr>)
      | Stops # as \<Rightarrow> (0, st\<lparr>out_accepts := as\<rparr>))"

section \<open>Encoding\<close>

text \<open>\<open>json.dumps(payload, ensure_ascii=False, separators=(",", ":"))\<close>, with the members in their order.\<close>

fun frame_text :: "(pyfloat \<Rightarrow> ustr) \<Rightarrow> json \<Rightarrow> ustr" where
  "frame_text rp (JFloat f) = rp f"
| "frame_text rp (JArr xs) = [91] @ join [44] (map (frame_text rp) xs) @ [93]"
| "frame_text rp (JObj d) = [123] @ join [44] (map (\<lambda>(k, v). json_string k @ [58] @ frame_text rp v) d) @ [125]"
| "frame_text rp v = render v"

text \<open>\<open>struct.pack("!I", n)\<close> and \<open>struct.unpack\<close>.\<close>

definition pack_u32 :: "nat \<Rightarrow> nat list res" where
  "pack_u32 n =
     bind (ensure (n < 2 ^ 32) StructError) (\<lambda>_.
     Inr [n div 2 ^ 24, n div 2 ^ 16 mod 256, n div 2 ^ 8 mod 256, n mod 256])"

definition unpack_u32 :: "nat list \<Rightarrow> nat" where
  "unpack_u32 h = foldl (\<lambda>n b. n * 256 + b) 0 h"

definition encode_frame :: "(pyfloat \<Rightarrow> ustr) \<Rightarrow> nat \<Rightarrow> jdict \<Rightarrow> nat list res" where
  "encode_frame rp max_bytes payload =
     (case encode_utf8 (frame_text rp (JObj payload)) of
        Inl _ \<Rightarrow> Inl (BrokerProtocolError ''broker payload is not JSON serializable'')
      | Inr body \<Rightarrow>
          bind (ensure (body \<noteq> []) (BrokerProtocolError ''broker frames may not be empty'')) (\<lambda>_.
          bind (ensure (length body \<le> max_bytes) (BrokerProtocolError ''broker frame exceeds the maximum'')) (\<lambda>_.
          bind (pack_u32 (length body)) (\<lambda>h.
          Inr (FRAME_MAGIC @ h @ body)))))"

function write_all :: "nat list \<Rightarrow> out_stream \<Rightarrow> unit res \<times> out_stream" where
  "write_all b st =
     (if b = [] then (Inr (), st)
      else case stream_write b st of
        (n, st') \<Rightarrow>
          if n = 0 then (Inl (BrokerProtocolError ''broker stream stopped during a frame write''), st')
          else write_all (drop n b) st')"
  by pat_completeness auto
termination by (relation "measure (length \<circ> fst)") auto

declare write_all.simps [simp del]

definition write_frame :: "(pyfloat \<Rightarrow> ustr) \<Rightarrow> nat \<Rightarrow> jdict \<Rightarrow> out_stream \<Rightarrow> unit res \<times> out_stream" where
  "write_frame rp max_bytes payload st =
     (case encode_frame rp max_bytes payload of Inl e \<Rightarrow> (Inl e, st) | Inr frame \<Rightarrow> write_all frame st)"

section \<open>Decoding\<close>

function read_exact :: "nat \<Rightarrow> nat list reader" where
  "read_exact n st =
     (if n = 0 then (Inr [], st)
      else case stream_read n st of
        (chunk, st') \<Rightarrow>
          if chunk = [] then (Inl (BrokerProtocolError ''broker stream ended''), st')
          else case read_exact (n - length chunk) st' of
            (Inl e, st'') \<Rightarrow> (Inl e, st'') | (Inr r, st'') \<Rightarrow> (Inr (chunk @ r), st''))"
  by pat_completeness auto
termination by (relation "measure fst") auto

declare read_exact.simps [simp del]

text \<open>The search for the marker behind a startup banner, in a window of the last four bytes.\<close>

primrec find_magic :: "nat \<Rightarrow> nat list \<Rightarrow> unit reader" where
  "find_magic 0 window = rlift (Inl (BrokerProtocolError ''broker protocol marker not found within the startup bytes''))"
| "find_magic (Suc k) window =
     rbind (read_exact 1) (\<lambda>b.
     let window' = (if length FRAME_MAGIC < length (window @ b) then tl (window @ b) else window @ b) in
     if window' = FRAME_MAGIC then rlift (Inr ()) else find_magic k window')"

definition read_magic :: "bool \<Rightarrow> unit reader" where
  "read_magic resynchronize =
     (if \<not> resynchronize then
        rbind (read_exact (length FRAME_MAGIC)) (\<lambda>marker.
        rlift (ensure (marker = FRAME_MAGIC) (BrokerProtocolError ''broker frame has invalid magic marker'')))
      else find_magic (MAX_STARTUP_PREAMBLE_BYTES + length FRAME_MAGIC) [])"

definition frame_payload :: "(ustr \<Rightarrow> pyfloat) \<Rightarrow> nat list \<Rightarrow> jdict res" where
  "frame_payload fl raw =
     (case bind (decode_utf8 raw) (loads (plain_json fl)) of
        Inl _ \<Rightarrow> Inl (BrokerProtocolError ''broker frame is not valid UTF-8 JSON'')
      | Inr (JObj d) \<Rightarrow> Inr d
      | Inr _ \<Rightarrow> Inl (BrokerProtocolError ''broker frame payload must be a JSON object''))"

definition read_frame :: "(ustr \<Rightarrow> pyfloat) \<Rightarrow> nat \<Rightarrow> bool \<Rightarrow> jdict reader" where
  "read_frame fl max_bytes resynchronize =
     rbind (read_magic resynchronize) (\<lambda>_.
     rbind (read_exact 4) (\<lambda>header.
     let n = unpack_u32 header in
     rbind (rlift (ensure (n \<noteq> 0) (BrokerProtocolError ''broker frames may not be empty''))) (\<lambda>_.
     rbind (rlift (ensure (n \<le> max_bytes) (BrokerProtocolError ''broker frame declares too many bytes''))) (\<lambda>_.
     rbind (read_exact n) (\<lambda>raw.
     rlift (frame_payload fl raw))))))"

end
