(* ===== verification/Broker_Helper.thy ===== *)
theory Broker_Helper
  imports Broker_Frames
begin

text \<open>
  The program of the remote end, which \<open>remote_helper_source\<close> of \<open>broker_protocol.py\<close> returns: it reads request frames,
  checks them, runs the command and answers with one frame. What a command does is an input: how it ended and the chunks
  that were read from its outputs.
\<close>

section \<open>Frames\<close>

text \<open>The helper's own reader and writer: the same bytes, other exceptions.\<close>

definition helper_read_exact :: "nat \<Rightarrow> nat list reader" where
  "helper_read_exact n st = (case read_exact n st of (Inl _, st') \<Rightarrow> (Inl EOFError, st') | (Inr b, st') \<Rightarrow> (Inr b, st'))"

definition helper_payload :: "(ustr \<Rightarrow> pyfloat) \<Rightarrow> nat list \<Rightarrow> jdict res" where
  "helper_payload fl raw =
     bind (decode_utf8 raw) (\<lambda>t.
     bind (loads (plain_json fl) t) (\<lambda>v.
     case v of JObj d \<Rightarrow> Inr d | _ \<Rightarrow> Inl (ValueError ''frame payload must be an object'')))"

definition helper_read_frame :: "(ustr \<Rightarrow> pyfloat) \<Rightarrow> jdict reader" where
  "helper_read_frame fl =
     rbind (helper_read_exact 4) (\<lambda>marker.
     rbind (rlift (ensure (marker = FRAME_MAGIC) (ValueError ''invalid frame marker''))) (\<lambda>_.
     rbind (helper_read_exact 4) (\<lambda>header.
     let n = unpack_u32 header in
     rbind (rlift (ensure (\<not> (n \<le> 0 \<or> MAX_FRAME_BYTES < n)) (ValueError ''invalid frame length''))) (\<lambda>_.
     rbind (helper_read_exact n) (\<lambda>raw.
     rlift (helper_payload fl raw))))))"

definition helper_frame :: "(pyfloat \<Rightarrow> ustr) \<Rightarrow> jdict \<Rightarrow> nat list res" where
  "helper_frame rp payload =
     bind (encode_utf8 (frame_text rp (JObj payload))) (\<lambda>body.
     bind (ensure (\<not> (body = [] \<or> MAX_FRAME_BYTES < length body)) (ValueError ''response frame exceeds protocol limit'')) (\<lambda>_.
     bind (pack_u32 (length body)) (\<lambda>h.
     Inr (FRAME_MAGIC @ h @ body))))"

text \<open>A write that stops raises \<open>BrokenPipeError\<close>, which ends the helper as any other exception does.\<close>

definition helper_write_frame :: "(pyfloat \<Rightarrow> ustr) \<Rightarrow> jdict \<Rightarrow> out_stream \<Rightarrow> unit res \<times> out_stream" where
  "helper_write_frame rp payload st =
     (case helper_frame rp payload of Inl e \<Rightarrow> (Inl e, st) | Inr frame \<Rightarrow> write_all frame st)"

section \<open>Running a command\<close>

definition finite_positive_number :: "json \<Rightarrow> bool" where
  "finite_positive_number v \<longleftrightarrow>
     is_number v \<and> (case isfinite v of Inl _ \<Rightarrow> False | Inr b \<Rightarrow> b \<and> 0 < num_val v \<and> num_val v \<le> of_int MAX_TIMEOUT_SECONDS)"

text \<open>The loop of \<open>drain_bounded\<close>: the chunks of one output, the bytes kept so far and whether some were dropped.\<close>

fun drain_bounded :: "nat list list \<Rightarrow> nat list \<Rightarrow> bool \<Rightarrow> nat list \<times> bool" where
  "drain_bounded [] parts truncated = (parts, truncated)"
| "drain_bounded (chunk # chunks) parts truncated =
     (if chunk = [] then (parts, truncated)
      else
        let room = MAX_OUTPUT_BYTES - length parts;
            parts' = (if room \<noteq> 0 then parts @ take room chunk else parts) in
        drain_bounded chunks parts' (truncated \<or> room < length chunk))"

text \<open>How a command ended: \<open>Popen\<close> raised \<open>OSError\<close>, it exited, or its deadline passed. The chunks of an output are \<open>None\<close> when
  its drain did not finish.\<close>

datatype process_end = NotStarted ustr | Exited int | TimedOut

record process_run =
  pr_end :: process_end
  pr_stdout :: "nat list list option"
  pr_stderr :: "nat list list option"

record command_outcome =
  co_returncode :: int
  co_stdout :: ustr
  co_stderr :: ustr
  co_timed_out :: bool
  co_stdout_truncated :: bool
  co_stderr_truncated :: bool

definition captured :: "nat list list option \<Rightarrow> nat list \<times> bool" where
  "captured chunks = (case chunks of None \<Rightarrow> ([], False) | Some cs \<Rightarrow> drain_bounded cs [] False)"

definition run_bounded :: "process_run \<Rightarrow> command_outcome" where
  "run_bounded r =
     (case pr_end r of
        NotStarted message \<Rightarrow>
          \<lparr>co_returncode = 126, co_stdout = [], co_stderr = lit ''command could not be started inside persistent O2 broker: '' @ message,
           co_timed_out = False, co_stdout_truncated = False, co_stderr_truncated = False\<rparr>
      | ended \<Rightarrow>
          let timed_out = (ended = TimedOut);
              out = captured (pr_stdout r); err = captured (pr_stderr r);
              stderr = decode_replace (fst err);
              stderr' = (if timed_out
                then stderr @ (if stderr \<noteq> [] then [10] else []) @ lit ''command timed out inside persistent O2 broker'' else stderr) in
          \<lparr>co_returncode = (case ended of Exited n \<Rightarrow> n | _ \<Rightarrow> 124), co_stdout = decode_replace (fst out), co_stderr = stderr',
           co_timed_out = timed_out, co_stdout_truncated = snd out, co_stderr_truncated = snd err\<rparr>)"

section \<open>Requests\<close>

definition expected_keys :: "string set" where
  "expected_keys = {''type'', ''protocol'', ''id'', ''command'', ''timeout_seconds'', ''stdin''}"

definition error_frame :: "json \<Rightarrow> jdict" where
  "error_frame request_id =
     [(lit ''type'', JStr (lit ''error'')), (lit ''id'', request_id), (lit ''error'', JStr (lit ''invalid_request''))]"

definition result_frame :: "json \<Rightarrow> command_outcome \<Rightarrow> pyfloat \<Rightarrow> jdict" where
  "result_frame request_id c duration =
     [(lit ''type'', JStr (lit ''result'')), (lit ''id'', request_id), (lit ''returncode'', JInt (co_returncode c)),
      (lit ''stdout'', JStr (co_stdout c)), (lit ''stderr'', JStr (co_stderr c)), (lit ''timed_out'', JBool (co_timed_out c)),
      (lit ''duration_seconds'', JFloat duration), (lit ''stdout_truncated'', JBool (co_stdout_truncated c)),
      (lit ''stderr_truncated'', JBool (co_stderr_truncated c))]"

definition optional_stdin :: "json \<Rightarrow> bool" where
  "optional_stdin v \<longleftrightarrow> v = JNull \<or> utf8_text_within_limit v MAX_STDIN_BYTES True"

text \<open>Whether the helper executes a request, and its answer. \<open>perform\<close> maps command, standard input and timeout to what happened and
  the measured duration. \<open>Popen\<close> cannot pass a NUL character in an argument: it raises \<open>ValueError\<close>, which nothing handles.\<close>

definition helper_accepts :: "jdict \<Rightarrow> bool" where
  "helper_accepts request \<longleftrightarrow>
     dkeys request = lit ` expected_keys \<and> jget request ''type'' = JStr (lit ''exec'')
   \<and> utf8_text_within_limit (jget request ''id'') MAX_REQUEST_ID_BYTES False
   \<and> command_within_exec_limit (jget request ''command'')
   \<and> (jget request ''timeout_seconds'' = JNull \<or> finite_positive_number (jget request ''timeout_seconds''))
   \<and> optional_stdin (jget request ''stdin'')"

definition helper_response :: "(json \<Rightarrow> json \<Rightarrow> json \<Rightarrow> process_run \<times> pyfloat) \<Rightarrow> jdict \<Rightarrow> jdict res" where
  "helper_response perform request =
     (let request_id = jget request ''id'';
          valid_request_id = utf8_text_within_limit request_id MAX_REQUEST_ID_BYTES False in
      if dkeys request \<noteq> lit ` expected_keys \<or> jget request ''type'' \<noteq> JStr (lit ''exec'') \<or> \<not> valid_request_id
      then Inr (error_frame JNull)
      else
        let command = jget request ''command''; timeout = jget request ''timeout_seconds''; stdin = jget request ''stdin'';
            valid_timeout = (timeout = JNull \<or> finite_positive_number timeout);
            valid_command = command_within_exec_limit command;
            valid_stdin = optional_stdin stdin in
        if \<not> valid_command \<or> \<not> valid_timeout \<or> \<not> valid_stdin then Inr (error_frame request_id)
        else if 0 \<in> set (str_of command) then Inl (ValueError ''embedded null byte'')
        else case perform command stdin timeout of (r, duration) \<Rightarrow> Inr (result_frame request_id (run_bounded r) duration))"

text \<open>One iteration of the main loop. An \<open>EOFError\<close> of the read ends the loop, every other exception ends the helper.\<close>

definition helper_turn :: "(ustr \<Rightarrow> pyfloat) \<Rightarrow> (pyfloat \<Rightarrow> ustr) \<Rightarrow> (json \<Rightarrow> json \<Rightarrow> json \<Rightarrow> process_run \<times> pyfloat)
    \<Rightarrow> in_stream \<Rightarrow> out_stream \<Rightarrow> unit res \<times> in_stream \<times> out_stream" where
  "helper_turn fl rp perform si so =
     (case helper_read_frame fl si of
        (Inl e, si') \<Rightarrow> (Inl e, si', so)
      | (Inr request, si') \<Rightarrow>
          (case helper_response perform request of
             Inl e \<Rightarrow> (Inl e, si', so)
           | Inr response \<Rightarrow> (case helper_write_frame rp response so of (r, so') \<Rightarrow> (r, si', so'))))"

definition hello_frame :: jdict where
  "hello_frame = [(lit ''type'', JStr (lit ''hello'')), (lit ''protocol'', JInt PROTOCOL_VERSION)]"

end
