(* ===== verification/Broker_Daemon.thy ===== *)
theory Broker_Daemon
  imports Broker_Helper
begin

text \<open>
  The two local ends of the broker, \<open>broker.py\<close>: how the daemon serves one request (\<open>BrokerServer._handle_client\<close>) and what a
  caller concludes from the frames it gets back (\<open>BrokerClient.execute\<close>). Sockets, clocks, the receipt file and the threads that
  enforce deadlines are not part of the model: whether a write or a read succeeded is an input.
\<close>

section \<open>Timeouts\<close>

definition is_bounded_positive_timeout :: "json \<Rightarrow> bool" where
  "is_bounded_positive_timeout v \<longleftrightarrow>
     is_number v \<and> (case isfinite v of Inl _ \<Rightarrow> False | Inr b \<Rightarrow> b \<and> 0 < num_val v \<and> num_val v \<le> of_int MAX_TIMEOUT_SECONDS)"

definition MAX_COMMAND_TIMEOUT_SECONDS :: rat where "MAX_COMMAND_TIMEOUT_SECONDS = 300"

section \<open>The daemon\<close>

text \<open>What happens around one request: the frame that was read, whether the caller has gone, the policy gate, which writes to the caller
  succeed, whether the remote frame was written, the remote response, and the note on a shortened deadline. \<open>de_keys\<close> is
  the order in which the set of expected keys is iterated.\<close>

record daemon_env =
  de_request :: "jdict res"
  de_disconnected :: bool
  de_gate :: "unit res"
  de_ack_written :: bool
  de_remote_written :: "unit res"
  de_response :: "jdict res"
  de_reply_written :: bool
  de_note :: ustr
  de_keys :: "string list"
  de_pid :: int
  de_ssh_pid :: json
  de_commands :: int

datatype daemon_end = Goes_on | Transport_error | Crashes pyerr

text \<open>The frames the caller can read, the request that was given to the remote stream, whether the daemon stops, and how serving
  ended.\<close>

record handled =
  hd_local :: "jdict list"
  hd_forwarded :: "jdict option"
  hd_stop :: bool
  hd_end :: daemon_end

definition replies :: "bool \<Rightarrow> jdict \<Rightarrow> jdict list" where
  "replies written frame = (if written then [frame] else [])"

definition only_replies :: "jdict list \<Rightarrow> handled" where
  "only_replies fs = \<lparr>hd_local = fs, hd_forwarded = None, hd_stop = False, hd_end = Goes_on\<rparr>"

definition invalid_request_frame :: jdict where
  "invalid_request_frame = [(lit ''type'', JStr (lit ''error'')), (lit ''error'', JStr (lit ''invalid_request''))]"

definition policy_denied_frame :: "ustr \<Rightarrow> jdict" where
  "policy_denied_frame message =
     [(lit ''type'', JStr (lit ''error'')), (lit ''error'', JStr (lit ''policy_denied'')), (lit ''message'', JStr message)]"

definition dispatched_frame :: "json \<Rightarrow> jdict" where
  "dispatched_frame request_id = [(lit ''type'', JStr (lit ''dispatched'')), (lit ''id'', request_id)]"

definition pong_frame :: "daemon_env \<Rightarrow> jdict" where
  "pong_frame en =
     [(lit ''type'', JStr (lit ''pong'')), (lit ''protocol'', JInt PROTOCOL_VERSION), (lit ''pid'', JInt (de_pid en)),
      (lit ''ssh_pid'', de_ssh_pid en), (lit ''commands_completed'', JInt (de_commands en))]"

definition stopping_frame :: "daemon_env \<Rightarrow> jdict" where
  "stopping_frame en = [(lit ''type'', JStr (lit ''stopping'')), (lit ''pid'', JInt (de_pid en))]"

definition valid_request :: "jdict \<Rightarrow> bool" where
  "valid_request request \<longleftrightarrow>
     dkeys request = lit ` expected_keys \<and> num_of (jget request ''protocol'') = Some (of_int PROTOCOL_VERSION)
   \<and> utf8_text_within_limit (jget request ''id'') MAX_REQUEST_ID_BYTES False
   \<and> command_within_exec_limit (jget request ''command'')
   \<and> (jget request ''timeout_seconds'' = JNull \<or> is_bounded_positive_timeout (jget request ''timeout_seconds''))
   \<and> optional_stdin (jget request ''stdin'')"

text \<open>Whether the deadline is shortened to the ceiling, and the request that goes to the remote end.\<close>

definition clamped :: "jdict \<Rightarrow> bool" where
  "clamped request \<longleftrightarrow>
     jget request ''timeout_seconds'' = JNull \<or> MAX_COMMAND_TIMEOUT_SECONDS < num_val (jget request ''timeout_seconds'')"

definition remote_request :: "string list \<Rightarrow> jdict \<Rightarrow> jdict" where
  "remote_request keys request =
     (let copy = map (\<lambda>k. (lit k, jget request k)) keys in
      if clamped request then jset ''timeout_seconds'' (JFloat (Fin MAX_COMMAND_TIMEOUT_SECONDS)) copy else copy)"

definition noted :: "ustr \<Rightarrow> jdict \<Rightarrow> jdict" where
  "noted note response =
     (let existing = jget response ''stderr'' in
      jset ''stderr'' (JStr (if is_nonempty_str existing then str_of existing @ [10] @ note else note)) response)"

text \<open>The part of \<open>_handle_client\<close> behind the validation, from the policy mutex on. The exceptions of the gate are those of
  \<open>serialize_reuse_launch\<close>; a denial is answered, \<open>OSError\<close> and \<open>BrokerProtocolError\<close> end the transport, anything else leaves the
  handler. A partly written remote frame counts as forwarded.\<close>

definition is_policy_error :: "pyerr \<Rightarrow> bool" where
  "is_policy_error e = (case e of O2PolicyDeniedError _ \<Rightarrow> True | O2PolicyInvalidError _ \<Rightarrow> True | O2PolicyConflictError _ \<Rightarrow> True
     | O2LoginGrantError _ \<Rightarrow> True | _ \<Rightarrow> False)"

definition is_stream_error :: "pyerr \<Rightarrow> bool" where
  "is_stream_error e = (case e of OSError _ \<Rightarrow> True | BrokerProtocolError _ \<Rightarrow> True | _ \<Rightarrow> False)"

definition serve_exec :: "daemon_env \<Rightarrow> (pyerr \<Rightarrow> ustr) \<Rightarrow> jdict \<Rightarrow> handled" where
  "serve_exec en describe request =
     (case de_gate en of
        Inl e \<Rightarrow>
          if is_policy_error e then only_replies (replies (de_reply_written en) (policy_denied_frame (describe e)))
          else (only_replies [])\<lparr>hd_end := (if is_stream_error e then Transport_error else Crashes e)\<rparr>
      | Inr _ \<Rightarrow>
          if de_disconnected en then only_replies []
          else if \<not> de_ack_written en then only_replies []
          else
            let ack = dispatched_frame (jget request ''id'');
                sent = remote_request (de_keys en) request;
                broken = \<lparr>hd_local = [ack], hd_forwarded = Some sent, hd_stop = False, hd_end = Transport_error\<rparr> in
            case de_remote_written en of
              Inl _ \<Rightarrow> broken
            | Inr _ \<Rightarrow>
                (case de_response en of
                   Inl _ \<Rightarrow> broken
                 | Inr response \<Rightarrow>
                     if jget response ''id'' \<noteq> jget request ''id'' then broken
                     else
                       let answer = (if clamped request then noted (de_note en) response else response) in
                       \<lparr>hd_local = ack # replies (de_reply_written en) answer, hd_forwarded = Some sent, hd_stop = False,
                        hd_end = Goes_on\<rparr>))"

definition handle_client :: "daemon_env \<Rightarrow> (pyerr \<Rightarrow> ustr) \<Rightarrow> handled" where
  "handle_client en describe =
     (case de_request en of
        Inl _ \<Rightarrow> only_replies []
      | Inr request \<Rightarrow>
          let kind = jget request ''type'' in
          if kind = JStr (lit ''ping'') then only_replies (replies (de_reply_written en) (pong_frame en))
          else if kind = JStr (lit ''stop'') then
            (if truthy (jget request ''force'')
             then (only_replies (replies (de_reply_written en) (stopping_frame en)))\<lparr>hd_stop := True\<rparr>
             else if de_disconnected en then only_replies []
             else if \<not> de_reply_written en then only_replies []
             else (only_replies [stopping_frame en])\<lparr>hd_stop := True\<rparr>)
          else if kind \<noteq> JStr (lit ''exec'') then only_replies (replies (de_reply_written en) invalid_request_frame)
          else if \<not> valid_request request then only_replies (replies (de_reply_written en) invalid_request_frame)
          else serve_exec en describe request)"

section \<open>The caller\<close>

text \<open>What a caller sees when it writes or reads a frame: success, an error of the stream, or the end of its deadline.\<close>

datatype 'a seen = Seen 'a | Broken | Expired

record broker_execution_result =
  er_returncode :: int
  er_stdout :: ustr
  er_stderr :: ustr
  er_timed_out :: bool
  er_duration_seconds :: pyfloat
  er_stdout_truncated :: bool
  er_stderr_truncated :: bool

text \<open>How \<open>execute\<close> ends: a result, or one of its exceptions. \<open>Busy\<close> is \<open>O2BrokerBusyError\<close>, a kind of unknown outcome.\<close>

datatype conclusion =
    Completed broker_execution_result
  | Policy_denied
  | Refused
  | Unavailable
  | Busy
  | Unknown_outcome
  | Escapes pyerr

text \<open>\<open>int()\<close>, \<open>float()\<close> and \<open>str()\<close> on decoded values; on strings the conversions are parameters, as is the text of a value that is not
  a string.\<close>

record conversions =
  cv_int :: "ustr \<Rightarrow> int res"
  cv_float :: "ustr \<Rightarrow> pyfloat res"
  cv_str :: "json \<Rightarrow> ustr"

fun to_int :: "conversions \<Rightarrow> json \<Rightarrow> int res" where
  "to_int cv (JBool b) = Inr (if b then 1 else 0)"
| "to_int cv (JInt i) = Inr i"
| "to_int cv (JFloat (Fin r)) = Inr (if r < 0 then - \<lfloor>- r\<rfloor> else \<lfloor>r\<rfloor>)"
| "to_int cv (JFloat NaN) = Inl (ValueError ''cannot convert float NaN to integer'')"
| "to_int cv (JFloat f) = Inl OverflowError"
| "to_int cv (JStr s) = cv_int cv s"
| "to_int cv v = Inl (TypeError ''int() argument must be a string, a bytes-like object or a real number'')"

text \<open>The nearest float of an integer is outside the model; it exists below the float range.\<close>

fun to_float :: "conversions \<Rightarrow> json \<Rightarrow> pyfloat res" where
  "to_float cv (JBool b) = Inr (Fin (if b then 1 else 0))"
| "to_float cv (JInt i) = (if \<bar>i\<bar> < float_limit then Inr (Fin (of_int i)) else Inl OverflowError)"
| "to_float cv (JFloat f) = Inr f"
| "to_float cv (JStr s) = cv_float cv s"
| "to_float cv v = Inl (TypeError ''float() argument must be a string or a real number'')"

fun to_str :: "conversions \<Rightarrow> json \<Rightarrow> ustr" where
  "to_str cv (JStr s) = s"
| "to_str cv v = cv_str cv v"

definition execution_result :: "conversions \<Rightarrow> jdict \<Rightarrow> broker_execution_result res" where
  "execution_result cv response =
     bind (case dget response (lit ''returncode'') of None \<Rightarrow> Inl (KeyError ''returncode'') | Some v \<Rightarrow> to_int cv v) (\<lambda>returncode.
     bind (to_float cv (jget_or response ''duration_seconds'' (JFloat (Fin 0)))) (\<lambda>duration.
     Inr \<lparr>er_returncode = returncode, er_stdout = to_str cv (jget_or response ''stdout'' (JStr [])),
          er_stderr = to_str cv (jget_or response ''stderr'' (JStr [])),
          er_timed_out = truthy (jget_or response ''timed_out'' (JBool False)), er_duration_seconds = duration,
          er_stdout_truncated = truthy (jget_or response ''stdout_truncated'' (JBool False)),
          er_stderr_truncated = truthy (jget_or response ''stderr_truncated'' (JBool False))\<rparr>))"

text \<open>\<open>_undispatched_error\<close>: the receipt may name this request as the one that runs.\<close>

definition undispatched_error :: "json \<Rightarrow> ustr \<Rightarrow> conclusion" where
  "undispatched_error in_flight request_id =
     (if is_dict in_flight \<and> jget (dict_of in_flight) ''request_id'' = JStr request_id then Unknown_outcome else Busy)"

text \<open>\<open>execute\<close> from the connection on: the outcome of connecting, of writing the request, of reading the acknowledgement and of
  reading the result.\<close>

definition is_dispatched :: "ustr \<Rightarrow> jdict \<Rightarrow> bool" where
  "is_dispatched request_id response \<longleftrightarrow>
     dkeys response = lit ` {''type'', ''id''} \<and> jget response ''type'' = JStr (lit ''dispatched'') \<and> jget response ''id'' = JStr request_id"

definition conclude :: "conversions \<Rightarrow> ustr \<Rightarrow> jdict \<Rightarrow> conclusion" where
  "conclude cv request_id response =
     (if jget response ''type'' \<noteq> JStr (lit ''result'') \<or> jget response ''id'' \<noteq> JStr request_id then Unknown_outcome
      else case execution_result cv response of
        Inr r \<Rightarrow> Completed r
      | Inl e \<Rightarrow> (case e of KeyError _ \<Rightarrow> Unknown_outcome | TypeError _ \<Rightarrow> Unknown_outcome | ValueError _ \<Rightarrow> Unknown_outcome
                  | _ \<Rightarrow> Escapes e))"

definition execute :: "conversions \<Rightarrow> json \<Rightarrow> ustr \<Rightarrow> unit seen \<Rightarrow> unit seen \<Rightarrow> jdict seen \<Rightarrow> jdict seen \<Rightarrow> conclusion" where
  "execute cv in_flight request_id connects sent acknowledged received =
     (case connects of
        Expired \<Rightarrow> undispatched_error in_flight request_id
      | Broken \<Rightarrow> Unavailable
      | Seen _ \<Rightarrow>
     (case sent of
        Expired \<Rightarrow> undispatched_error in_flight request_id
      | Broken \<Rightarrow> Unavailable
      | Seen _ \<Rightarrow>
     (case acknowledged of
        Expired \<Rightarrow> undispatched_error in_flight request_id
      | Broken \<Rightarrow> Unavailable
      | Seen response \<Rightarrow>
          if jget response ''type'' = JStr (lit ''error'') then
            (if jget response ''error'' = JStr (lit ''policy_denied'') then Policy_denied else Refused)
          else if \<not> is_dispatched request_id response then Unknown_outcome
          else (case received of Seen result \<Rightarrow> conclude cv request_id result | _ \<Rightarrow> Unknown_outcome))))"

text \<open>The request a caller sends, and what \<open>execute\<close> refuses before it connects.\<close>

definition exec_request :: "ustr \<Rightarrow> ustr \<Rightarrow> json \<Rightarrow> ustr option \<Rightarrow> jdict" where
  "exec_request request_id command timeout input_text =
     [(lit ''type'', JStr (lit ''exec'')), (lit ''protocol'', JInt PROTOCOL_VERSION), (lit ''id'', JStr request_id),
      (lit ''command'', JStr command), (lit ''timeout_seconds'', timeout),
      (lit ''stdin'', case input_text of None \<Rightarrow> JNull | Some t \<Rightarrow> JStr t)]"

definition build_request :: "(pyfloat \<Rightarrow> ustr) \<Rightarrow> ustr \<Rightarrow> ustr \<Rightarrow> json \<Rightarrow> ustr option \<Rightarrow> (jdict \<times> nat list) res" where
  "build_request rp request_id command timeout input_text =
     bind (ensure (command \<noteq> []) (ValueError ''broker command must be a non-empty string'')) (\<lambda>_.
     bind (ensure (command_within_exec_limit (JStr command)) (ValueError ''broker command exceeds the maximum'')) (\<lambda>_.
     bind (ensure (timeout = JNull \<or> is_bounded_positive_timeout timeout) (ValueError ''broker timeout must be None or a finite positive number'')) (\<lambda>_.
     bind (ensure (timeout = JNull \<or> num_val timeout \<le> MAX_COMMAND_TIMEOUT_SECONDS) (ValueError ''broker command timeout exceeds the ceiling'')) (\<lambda>_.
     bind (ensure (case input_text of None \<Rightarrow> True | Some t \<Rightarrow> utf8_text_within_limit (JStr t) MAX_STDIN_BYTES True)
             (ValueError ''broker stdin must be valid UTF-8 within the limit'')) (\<lambda>_.
     let request = exec_request request_id command timeout input_text in
     case encode_frame rp MAX_FRAME_BYTES request of
       Inl (BrokerProtocolError _) \<Rightarrow> Inl (ValueError ''encoded broker request exceeds the frame contract'')
     | Inl e \<Rightarrow> Inl e
     | Inr frame \<Rightarrow> Inr (request, frame))))))"

end
