(* ===== verification/Frame_Facts.thy ===== *)
theory Frame_Facts
  imports Broker_Frames
begin

text \<open>
  What the frame codec guarantees: UTF-8 decoding inverts encoding, a read of an exact size does not depend on how the
  stream is cut, and a frame that is read back is the payload that was written.
\<close>

section \<open>UTF-8\<close>

lemma utf8_next_char:
  assumes "text_char c"
  shows "utf8_next (utf8_char c @ x) = (Some c, length (utf8_char c))"
proof -
  have c: "c < 1114112" "\<not> (55296 \<le> c \<and> c \<le> 57343)" using assms by (auto simp: text_char_def is_scalar_def)
  have d: "fst (decode_one (utf8_char c @ x)) = c" by (simp add: decode_utf8_char)
  consider "c < 128" | "128 \<le> c" "c < 2048" | "2048 \<le> c" "c < 65536" | "65536 \<le> c" by linarith
  then show ?thesis
  proof cases
    case 1
    then show ?thesis by (simp add: utf8_char_def)
  next
    case 2
    then have l: "lead (192 + c div 64) = Some (1, 128, 191)" by (auto simp: lead_def)
    have "\<not> 192 + c div 64 < 128" "128 + c mod 64 \<le> 191" by auto
    with 2 d l show ?thesis by (simp add: utf8_char_def)
  next
    case 3
    define m where "m = c div 64 mod 64"
    have m: "m < 64" by (simp add: m_def)
    have cd: "c div 64 = c div 4096 * 64 + m" using div_mod_64(2) [of c] by (simp add: m_def)
    have b: "c div 4096 < 16" using 3 by (simp add: div_less_iff_less_mult)
    have low: "c div 4096 = 0 \<Longrightarrow> 32 \<le> m" using cd 3 by (simp add: less_eq_div_iff_mult_less_eq)
    have "m < 32" if "c div 4096 = 13"
    proof -
      have "c div 64 < 896" using that cd m by linarith
      then have "c < 57344" by (simp add: div_less_iff_less_mult)
      moreover have "53248 \<le> c" using that div_mult_mod_eq [of c 4096] by linarith
      ultimately have "c < 55296" using c(2) by linarith
      then have "c div 64 < 864" by (simp add: div_less_iff_less_mult)
      then show ?thesis using that cd by linarith
    qed
    then have "\<exists>lo hi. lead (224 + c div 4096) = Some (2, lo, hi) \<and> lo \<le> 128 + m \<and> 128 + m \<le> hi"
      using b low m by (auto simp: lead_def)
    then obtain lo hi where l: "lead (224 + c div 4096) = Some (2, lo, hi)" "lo \<le> 128 + m" "128 + m \<le> hi" by blast
    have "continuation (128 + c mod 64)" by (simp add: continuation_def)
    then show ?thesis using 3 d l b by (simp add: utf8_char_def m_def [symmetric])
  next
    case 4
    define m where "m = c div 4096 mod 64"
    have m: "m < 64" by (simp add: m_def)
    have cd: "c div 4096 = c div 262144 * 64 + m" using div_mod_64(3) [of c] by (simp add: m_def)
    have b: "c div 262144 < 5" using c(1) by (simp add: div_less_iff_less_mult)
    have low: "c div 262144 = 0 \<Longrightarrow> 16 \<le> m" using cd 4 by (simp add: less_eq_div_iff_mult_less_eq)
    have "m < 16" if "c div 262144 = 4"
    proof -
      have "c div 4096 < 272" using c(1) by (simp add: div_less_iff_less_mult)
      then show ?thesis using that cd by linarith
    qed
    then have "\<exists>lo hi. lead (240 + c div 262144) = Some (3, lo, hi) \<and> lo \<le> 128 + m \<and> 128 + m \<le> hi"
      using b low m by (auto simp: lead_def)
    then obtain lo hi where l: "lead (240 + c div 262144) = Some (3, lo, hi)" "lo \<le> 128 + m" "128 + m \<le> hi" by blast
    have "continuation (128 + c mod 64)" "continuation (128 + c div 64 mod 64)" by (simp_all add: continuation_def)
    then show ?thesis using 4 d l b by (simp add: utf8_char_def m_def [symmetric])
  qed
qed

lemma decode_units_text: "list_all text_char s \<Longrightarrow> decode_units (concat (map utf8_char s)) = map Some s"
proof (induction s)
  case Nil
  then show ?case by (simp add: decode_units.simps)
next
  case (Cons c s)
  then show ?case using utf8_next_char [of c] by (simp add: decode_units.simps [of "utf8_char c @ _"])
qed

lemma decode_encoded: "list_all text_char s \<Longrightarrow> encode_utf8 s = Inr b \<Longrightarrow> decode_utf8 b = Inr s"
  using decode_units_text [of s] by (auto simp: encode_utf8_def decode_utf8_def comp_def split: if_splits)

lemma encode_text: "list_all text_char s \<Longrightarrow> encode_utf8 s = Inr (concat (map utf8_char s))"
  by (simp add: encode_utf8_def list_all_iff text_char_def)

section \<open>Reading\<close>

text \<open>A reader consumes \<open>data\<close> up to \<open>rest\<close> and returns \<open>x\<close>, however the stream is cut into chunks.\<close>

definition yields :: "'a reader \<Rightarrow> nat list \<Rightarrow> 'a \<Rightarrow> nat list \<Rightarrow> bool" where
  "yields m data x rest \<longleftrightarrow> (\<forall>st. in_data st = data \<longrightarrow> fst (m st) = Inr x \<and> in_data (snd (m st)) = rest)"

lemma yields_rbind: "yields m data x rest \<Longrightarrow> yields (f x) rest y rest' \<Longrightarrow> yields (rbind m f) data y rest'"
  by (auto simp: yields_def rbind_def split: prod.splits sum.splits)

lemma yields_rlift [simp]: "yields (rlift r) data x rest \<longleftrightarrow> r = Inr x \<and> rest = data"
  by (auto simp: yields_def rlift_def) (metis in_stream.select_convs(1))+

lemma read_chunk: "0 < n \<Longrightarrow> stream_read n st = (chunk, st') \<Longrightarrow>
    length chunk \<le> n \<and> in_data st = chunk @ in_data st' \<and> (chunk = [] \<longrightarrow> in_data st = [])"
  by (auto simp: stream_read_def Let_def split: list.splits)

lemma yields_exact: "yields (read_exact (length p)) (p @ rest) p rest"
proof -
  have "fst (read_exact n st) = Inr p \<and> in_data (snd (read_exact n st)) = rest"
    if "n = length p" "in_data st = p @ rest" for n p st
    using that
  proof (induction n st arbitrary: p rule: read_exact.induct)
    case (1 n st)
    show ?case
    proof (cases "n = 0")
      case True
      with 1 show ?thesis by (simp add: read_exact.simps [of 0 st])
    next
      case False
      obtain chunk st' where r: "stream_read n st = (chunk, st')" by fastforce
      with read_chunk [of n st chunk st'] False 1(2,3)
      have c: "length chunk \<le> n" "p @ rest = chunk @ in_data st'" "chunk \<noteq> []" by auto
      moreover have "\<exists>q. p = chunk @ q" using c(1,2) 1(2) by (auto simp: append_eq_append_conv2)
      ultimately obtain q where p: "p = chunk @ q" "in_data st' = q @ rest" by auto
      then have "fst (read_exact (n - length chunk) st') = Inr q \<and> in_data (snd (read_exact (n - length chunk) st')) = rest"
        using 1(1) [OF False r [symmetric] c(3), of q] 1(2) by simp
      then show ?thesis unfolding read_exact.simps [of n st] using p(1) r False c(3) by (auto split: prod.splits sum.splits)
    qed
  qed
  then show ?thesis by (simp add: yields_def)
qed

text \<open>A stream that ends too early is an error, and nothing is left.\<close>

lemma exact_fails: "length (in_data st) < n \<Longrightarrow> \<exists>st'. read_exact n st = (Inl (BrokerProtocolError ''broker stream ended''), st') \<and> in_data st' = []"
proof (induction n st rule: read_exact.induct)
  case (1 n st)
  obtain chunk st' where r: "stream_read n st = (chunk, st')" by fastforce
  with read_chunk [of n st chunk st'] 1(2) have c: "length chunk \<le> n" "in_data st = chunk @ in_data st'" "chunk = [] \<longrightarrow> in_data st = []" by auto
  show ?case
  proof (cases "chunk = []")
    case True
    with c r 1(2) show ?thesis by (auto simp: read_exact.simps [of n st])
  next
    case False
    then have "\<exists>st''. read_exact (n - length chunk) st' = (Inl (BrokerProtocolError ''broker stream ended''), st'') \<and> in_data st'' = []"
      using 1(1) [OF _ r [symmetric] False] 1(2) c by auto
    with False r 1(2) show ?thesis by (auto simp: read_exact.simps [of n st])
  qed
qed

lemma unpack_pack: "pack_u32 n = Inr h \<Longrightarrow> unpack_u32 h = n \<and> length h = 4"
proof -
  assume "pack_u32 n = Inr h"
  then have h: "h = [n div 2 ^ 24, n div 2 ^ 16 mod 256, n div 2 ^ 8 mod 256, n mod 256]" by (auto simp: pack_u32_def)
  have "n = ((n div 2 ^ 24 * 256 + n div 2 ^ 16 mod 256) * 256 + n div 2 ^ 8 mod 256) * 256 + n mod 256"
    using div_mult_mod_eq [of n 256] div_mult_mod_eq [of "n div 256" 256] div_mult_mod_eq [of "n div 65536" 256]
    by (simp add: div_mult2_eq [symmetric])
  with h show ?thesis by (simp add: unpack_u32_def)
qed

section \<open>Floats\<close>

text \<open>The text of a float literal: the number grammar reads all of it, with a fraction or an exponent.\<close>

definition float_literal :: "ustr \<Rightarrow> bool" where
  "float_literal t \<longleftrightarrow> scan_number (\<lambda>_. NaN) t = Inr (JFloat NaN, [])"

lemma digits_Nil [simp]: "digits [] = []"
  by (simp add: digits_def)

lemma digits_append: "ends z \<Longrightarrow> digits (s @ z) = digits s"
  by (induction s) (auto simp: digits_def ends_def takeWhile_eq_Nil_iff hd_conv_nth)

lemma digits_ends: "ends z \<Longrightarrow> digits z = []"
  using digits_append [of z "[]"] by (simp add: digits_def)

lemma number_parts_append:
  assumes "ends z"
  shows "integer_part (s @ z) = integer_part s" "fraction_part (s @ z) = fraction_part s" "exponent_part (s @ z) = exponent_part s"
proof -
  note d = digits_append [OF assms] digits_ends [OF assms]
  have z: "z = [] \<or> (\<exists>c r. z = c # r \<and> c \<in> {10, 44, 93, 125})" using assms by (cases z) (auto simp: ends_def)
  show "integer_part (s @ z) = integer_part s"
    using z d(1) [of s] d(2) by (cases s) (auto simp: integer_part_def)
  show "fraction_part (s @ z) = fraction_part s"
    using z d(1) by (cases s) (auto simp: fraction_part_def)
  show "exponent_part (s @ z) = exponent_part s"
  proof (cases s)
    case Nil
    then show ?thesis using z by (auto simp: exponent_part_def)
  next
    case (Cons c r)
    have "(case r @ z of [] \<Rightarrow> [] | d # q \<Rightarrow> if d = 43 \<or> d = 45 then [d] else []) = (case r of [] \<Rightarrow> [] | d # q \<Rightarrow> if d = 43 \<or> d = 45 then [d] else [])"
      using z by (cases r) auto
    moreover have "digits (drop (length (case r of [] \<Rightarrow> [] | d # q \<Rightarrow> if d = 43 \<or> d = 45 then [d] else [])) (r @ z))
        = digits (drop (length (case r of [] \<Rightarrow> [] | d # q \<Rightarrow> if d = 43 \<or> d = 45 then [d] else [])) r)"
      using d d(1) [of r] by (cases r) auto
    ultimately show ?thesis using Cons by (simp add: exponent_part_def Let_def)
  qed
qed

lemma digits_prefix_length: "length (digits s) \<le> length s" "take (length (digits s)) s = digits s"
  by (simp_all add: digits_def length_takeWhile_le takeWhile_eq_take [symmetric])

lemma number_parts_take:
  "take (length (integer_part s)) s = integer_part s" "take (length (fraction_part s)) s = fraction_part s"
  "take (length (exponent_part s)) s = exponent_part s"
  using digits_prefix_length(2)
  by (auto simp: integer_part_def fraction_part_def exponent_part_def Let_def split: list.splits if_splits)

lemma literal_parts:
  assumes "float_literal t"
  obtains g u v w where "g = (if take 1 t = [45] then [45] else [])" "t = g @ u" "u = integer_part u @ v" "v = fraction_part v @ w"
    "w = exponent_part w" "integer_part u \<noteq> []" "fraction_part v \<noteq> [] \<or> exponent_part w \<noteq> []"
proof -
  let ?g = "if take 1 t = [45] then [45] else []"
  define u where "u = drop (length ?g) t"
  define v where "v = drop (length (integer_part u)) u"
  define w where "w = drop (length (fraction_part v)) v"
  have "t = ?g @ u" by (cases t) (auto simp: u_def)
  moreover have "u = integer_part u @ v" "v = fraction_part v @ w"
    unfolding v_def w_def by (metis append_take_drop_id number_parts_take)+
  moreover have lit: "integer_part u \<noteq> []" "fraction_part v \<noteq> [] \<or> exponent_part w \<noteq> []" "drop (length (exponent_part w)) w = []"
    using assms by (auto simp: float_literal_def scan_number_def Let_def u_def v_def w_def split: if_splits)
  moreover have "w = exponent_part w" using lit(3) by (metis append_Nil2 append_take_drop_id number_parts_take(3))
  ultimately show thesis using that by blast
qed

lemma scan_float:
  assumes "float_literal t" and "ends z"
  shows "scan_number fl (t @ z) = Inr (JFloat (fl t), z)"
proof -
  obtain g u v w where g: "g = (if take 1 t = [45] then [45] else [])" and p: "t = g @ u" "u = integer_part u @ v" "v = fraction_part v @ w"
    "w = exponent_part w" "integer_part u \<noteq> []" "fraction_part v \<noteq> [] \<or> exponent_part w \<noteq> []"
    using literal_parts [OF assms(1)] .
  have "t \<noteq> []" using p(1,5) by (auto simp: integer_part_def)
  then have "take 1 (t @ z) = take 1 t" by (cases t) simp_all
  then have sg: "(if take 1 (t @ z) = [45] then [45] else []) = g" by (simp only: g)
  have u: "drop (length g) (t @ z) = u @ z" using p(1) by simp
  have d: "drop (length (integer_part u)) (u @ z) = v @ z" "drop (length (fraction_part v)) (v @ z) = w @ z"
    "drop (length (exponent_part w)) (w @ z) = z"
    using p by (metis append_assoc append_eq_conv_conj)+
  have "g @ integer_part u @ fraction_part v @ exponent_part w = t" using p by metis
  then show ?thesis
    unfolding scan_number_def Let_def sg u number_parts_append [OF assms(2)] d using p(5,6) by simp
qed

text \<open>The floats a writer with \<open>rp\<close> and a decoder with \<open>fl\<close> agree on.\<close>

definition agree :: "(pyfloat \<Rightarrow> ustr) \<Rightarrow> (ustr \<Rightarrow> pyfloat) \<Rightarrow> pyfloat \<Rightarrow> bool" where
  "agree rp fl f \<longleftrightarrow> float_literal (rp f) \<and> fl (rp f) = f"

lemma float_head: "float_literal t \<Longrightarrow> \<exists>c r. t = c # r \<and> (48 \<le> c \<and> c < 58 \<or> c = 45 \<and> r \<noteq> [] \<and> 48 \<le> hd r \<and> hd r < 58)"
proof -
  have ip: "integer_part s \<noteq> [] \<Longrightarrow> \<exists>c r. s = c # r \<and> 48 \<le> c \<and> c < 58" for s
    by (auto simp: integer_part_def digits_def split: list.splits if_splits)
  assume "float_literal t"
  then have "integer_part (drop (length (if take 1 t = [45] then [45] else [])) t) \<noteq> []"
    by (auto simp: float_literal_def scan_number_def Let_def split: if_splits)
  from ip [OF this] show ?thesis by (cases t) (auto split: if_splits)
qed

lemma scan_float_value: "agree rp fl f \<Longrightarrow> ends z \<Longrightarrow> scan_once (plain_json fl) (rp f @ z) = Inr (JFloat f, z)"
proof -
  assume a: "agree rp fl f" and z: "ends z"
  then have l: "float_literal (rp f)" and v: "fl (rp f) = f" by (simp_all add: agree_def)
  consider c r where "rp f = c # r" "48 \<le> c" "c < 58" | d r where "rp f = 45 # d # r" "48 \<le> d" "d < 58"
    using float_head [OF l] by (metis list.collapse)
  then have "scan_once (plain_json fl) (rp f @ z) = scan_number fl (rp f @ z)"
    by cases (simp_all add: scan_once.simps startswith_def lit_def plain_json_def)
  then show ?thesis using scan_float [OF l z, of fl] v by simp
qed

section \<open>Texts\<close>

interpretation frame: json_writer "plain_json fl" "agree rp fl" "list_all text_char" json_string "\<lambda>_. []" "\<lambda>_. []" "\<lambda>_. []" "[]"
    "\<lambda>_. frame_text rp" for fl rp
proof unfold_locales
  show "agree rp fl f \<Longrightarrow> solid (frame_text rp (JFloat f)) \<and>
      (ends z \<longrightarrow> scan_once (plain_json fl) (frame_text rp (JFloat f) @ z) = Inr (JFloat f, z))" for f z
    using scan_float_value [of rp fl f z] float_head [of "rp f"] by (auto simp: agree_def solid_def)
qed (simp_all add: spells_json_string decoder_objects)

text \<open>A payload that can cross the channel: no repeated names, Unicode scalar values, and floats both sides agree on.\<close>

definition portable :: "(pyfloat \<Rightarrow> ustr) \<Rightarrow> (ustr \<Rightarrow> pyfloat) \<Rightarrow> json \<Rightarrow> bool" where
  "portable rp fl v \<longleftrightarrow> unrepeated v \<and> spelled (list_all text_char) v \<and> list_all (agree rp fl) (floats v)"

lemma portable_writable: "portable rp fl v \<longleftrightarrow> frame.writable rp fl v"
  by (simp add: portable_def frame.writable_def)

lemma portable_simps: "portable rp fl (JFloat f) \<longleftrightarrow> agree rp fl f" "portable rp fl (JStr t) \<longleftrightarrow> list_all text_char t"
  "portable rp fl (JArr xs) \<longleftrightarrow> list_all (portable rp fl) xs"
  "portable rp fl (JObj d) \<longleftrightarrow> distinct (map fst d) \<and> list_all (\<lambda>(k, v). list_all text_char k \<and> portable rp fl v) d"
  by (auto simp: portable_def list_all_iff)

lemma portable_scalars [simp]: "portable rp fl JNull" "portable rp fl (JBool b)" "portable rp fl (JInt i)"
  by (simp_all add: portable_def)

lemma text_char_small [simp]: "c < 55296 \<Longrightarrow> text_char c"
  by (simp add: text_char_def is_scalar_def)

lemma number_ascii: "float_literal t \<Longrightarrow> list_all (\<lambda>c. c < 128) t"
proof -
  have small: "(45 :: nat) < 128" by simp
  have ds: "list_all (\<lambda>c. c < 128) (digits s)" for s
    by (induction s) (auto simp: digits_def)
  have parts: "list_all (\<lambda>c. c < 128) (integer_part s)" "list_all (\<lambda>c. c < 128) (fraction_part s)" "list_all (\<lambda>c. c < 128) (exponent_part s)" for s
    using ds by (auto simp: integer_part_def fraction_part_def exponent_part_def Let_def split: list.splits)
  assume "float_literal t"
  then obtain g u v w where "g = (if take 1 t = [45] then [45] else [])" "t = g @ u" "u = integer_part u @ v"
    "v = fraction_part v @ w" "w = exponent_part w"
    by (rule literal_parts)
  then show ?thesis using parts small by (metis list_all_append list.pred_inject)
qed

lemma number_chars: "float_literal t \<Longrightarrow> list_all text_char t"
  using number_ascii [of t] by (auto simp: list_all_iff)

lemma frame_chars: "portable rp fl v \<Longrightarrow> list_all text_char (frame_text rp v)"
proof (induction v rule: render_line.induct)
  case (1 xs)
  then have "x \<in> set xs \<Longrightarrow> portable rp fl x" for x by (simp add: portable_simps list_all_iff)
  with 1(1) have "list_all text_char (join [44] (map (frame_text rp) xs))"
    by (intro list_all_join) auto
  then show ?case by simp
next
  case (2 d)
  have "list_all text_char (json_string k @ [58] @ frame_text rp v)" if "(k, v) \<in> set d" for k v
  proof -
    have "list_all text_char k \<and> portable rp fl v" using 2(2) that by (auto simp: portable_simps list_all_iff [of _ d])
    moreover have "list_all text_char (json_string k)" using plain_string [of k] calculation by (simp add: list_all_iff plain_def)
    ultimately show ?thesis using 2(1) [OF that refl] by simp
  qed
  then have "list_all text_char (join [44] (map (\<lambda>(k, v). json_string k @ [58] @ frame_text rp v) d))"
    by (intro list_all_join) auto
  then show ?case by simp
next
  case "3_4"
  then show ?case by (simp add: portable_simps agree_def number_chars)
next
  case "3_3"
  show ?case using plain_digits by (auto simp: str_int_def list_all_iff plain_def)
next
  case "3_5"
  then show ?case using plain_string by (simp add: portable_simps list_all_iff plain_def)
qed (simp_all add: lit_def)

section \<open>Frames\<close>

definition body :: "(pyfloat \<Rightarrow> ustr) \<Rightarrow> jdict \<Rightarrow> nat list" where
  "body rp d = concat (map utf8_char (frame_text rp (JObj d)))"

lemma encode_portable:
  assumes "portable rp fl (JObj d)" and "encode_frame rp m d = Inr fr"
  shows "\<exists>h. fr = FRAME_MAGIC @ h @ body rp d \<and> pack_u32 (length (body rp d)) = Inr h \<and> body rp d \<noteq> [] \<and> length (body rp d) \<le> m"
  using assms(2) encode_text [OF frame_chars [OF assms(1)]] by (auto simp: encode_frame_def body_def)

lemma body_payload: "portable rp fl (JObj d) \<Longrightarrow> frame_payload fl (body rp d) = Inr d"
proof -
  assume p: "portable rp fl (JObj d)"
  have "decode_utf8 (body rp d) = Inr (frame_text rp (JObj d))"
    using decode_encoded [OF frame_chars [OF p] encode_text [OF frame_chars [OF p]]] by (simp only: body_def)
  moreover have "loads (plain_json fl) (frame_text rp (JObj d)) = Inr (JObj d)"
    using frame.loads_writable [of rp fl "JObj d" "[]"] p by (simp add: portable_writable)
  ultimately show ?thesis by (simp add: frame_payload_def)
qed

lemma frame_tail:
  assumes "portable rp fl (JObj d)" and "encode_frame rp m d = Inr (FRAME_MAGIC @ fr)" and "m \<le> M"
    and "yields (read_magic r) data () (fr @ rest)"
  shows "yields (read_frame fl M r) data d rest"
proof -
  obtain h where h: "fr = h @ body rp d" "pack_u32 (length (body rp d)) = Inr h" "body rp d \<noteq> []" "length (body rp d) \<le> m"
    using encode_portable [OF assms(1,2)] by auto
  have u: "unpack_u32 h = length (body rp d)" "length h = 4" using unpack_pack [OF h(2)] by simp_all
  have e: "yields (read_exact 4) (h @ body rp d @ rest) h (body rp d @ rest)" using yields_exact [of h] u(2) by metis
  have p: "yields (rlift (frame_payload fl (body rp d))) rest d rest" using body_payload [OF assms(1)] by simp
  have "yields (rbind (read_exact (length (body rp d))) (\<lambda>raw. rlift (frame_payload fl raw))) (body rp d @ rest) d rest"
    by (rule yields_rbind [OF yields_exact]) (rule p)
  then show ?thesis unfolding read_frame_def
    using h u assms(3,4) e
    by (intro yields_rbind [OF assms(4)] yields_rbind [of _ _ h "body rp d @ rest"]) (auto simp: Let_def intro!: yields_rbind [of "rlift _" _ "()"])
qed

lemma frame_read:
  assumes "portable rp fl (JObj d)" and "encode_frame rp m d = Inr fr" and "m \<le> M"
  shows "yields (read_frame fl M False) (fr @ rest) d rest"
proof -
  obtain q where q: "fr = FRAME_MAGIC @ q" using encode_portable [OF assms(1,2)] by auto
  have "yields (rbind (read_exact (length FRAME_MAGIC)) (\<lambda>marker. rlift (ensure (marker = FRAME_MAGIC)
      (BrokerProtocolError ''broker frame has invalid magic marker'')))) (FRAME_MAGIC @ q @ rest) () (q @ rest)"
    by (rule yields_rbind [OF yields_exact]) simp
  then have "yields (read_magic False) (fr @ rest) () (q @ rest)" by (simp add: read_magic_def q)
  then show ?thesis using frame_tail [OF assms(1) _ assms(3)] assms(2) q by blast
qed

text \<open>Behind a banner that does not contain the marker.\<close>

definition window :: "nat list \<Rightarrow> nat list" where
  "window c = drop (length c - length FRAME_MAGIC) c"

lemma window_step: "(if length FRAME_MAGIC < length (window c @ [x]) then tl (window c @ [x]) else window c @ [x]) = window (c @ [x])"
proof (cases "length FRAME_MAGIC \<le> length c")
  case True
  let ?n = "length c - length FRAME_MAGIC"
  have m: "length FRAME_MAGIC = 4" by (simp add: FRAME_MAGIC_def)
  with True have "length (drop ?n c) = 4" by simp
  then obtain a w where w: "drop ?n c = a # w" by (cases "drop ?n c") auto
  then have "drop (Suc ?n) c = w" by (metis drop_Suc list.sel(3) tl_drop)
  moreover have "Suc (length c) - 4 = Suc ?n" using True m by simp
  ultimately show ?thesis using True m w \<open>length (drop ?n c) = 4\<close> by (simp add: window_def)
qed (simp add: window_def)

lemma find_magic_banner:
  assumes "\<And>p q. b @ FRAME_MAGIC = p @ FRAME_MAGIC @ q \<Longrightarrow> q = []"
    and "c @ r = b @ FRAME_MAGIC" and "r \<noteq> []" and "length r \<le> k"
  shows "yields (find_magic k (window c)) (r @ rest) () rest"
  using assms(2-4)
proof (induction r arbitrary: c k)
  case (Cons x r)
  then obtain k' where k: "k = Suc k'" by (cases k) auto
  have one: "yields (read_exact 1) ((x # r) @ rest) [x] (r @ rest)" using yields_exact [of "[x]" "r @ rest"] by simp
  have "yields (if window (c @ [x]) = FRAME_MAGIC then rlift (Inr ()) else find_magic k' (window (c @ [x]))) (r @ rest) () rest"
  proof (cases "window (c @ [x]) = FRAME_MAGIC")
    case True
    then have "c @ [x] = take (length (c @ [x]) - length FRAME_MAGIC) (c @ [x]) @ FRAME_MAGIC" unfolding window_def by (metis append_take_drop_id)
    then have "b @ FRAME_MAGIC = take (length (c @ [x]) - length FRAME_MAGIC) (c @ [x]) @ FRAME_MAGIC @ r"
      using Cons.prems(1) by (metis append.assoc append_Cons append_Nil)
    from assms(1) [OF this] True show ?thesis by simp
  next
    case False
    have "r \<noteq> []"
    proof
      assume "r = []"
      then have "c @ [x] = b @ FRAME_MAGIC" using Cons.prems(1) by simp
      then show False using False by (simp add: window_def)
    qed
    then show ?thesis using Cons.IH [of "c @ [x]" k'] Cons.prems k False by simp
  qed
  then show ?case unfolding k find_magic.simps by (intro yields_rbind [OF one]) (simp only: window_step Let_def)
qed simp

lemma frame_read_banner:
  assumes "portable rp fl (JObj d)" and "encode_frame rp m d = Inr fr" and "m \<le> M"
    and "\<And>p q. b @ FRAME_MAGIC = p @ FRAME_MAGIC @ q \<Longrightarrow> q = []" and "length b \<le> MAX_STARTUP_PREAMBLE_BYTES"
  shows "yields (read_frame fl M True) (b @ fr @ rest) d rest"
proof -
  obtain q where q: "fr = FRAME_MAGIC @ q" using encode_portable [OF assms(1,2)] by auto
  have "yields (find_magic (MAX_STARTUP_PREAMBLE_BYTES + length FRAME_MAGIC) (window [])) ((b @ FRAME_MAGIC) @ q @ rest) () (q @ rest)"
    by (rule find_magic_banner [OF assms(4)]) (use assms(5) in \<open>auto simp: FRAME_MAGIC_def\<close>)
  then have "yields (read_magic True) (b @ fr @ rest) () (q @ rest)" by (simp add: read_magic_def q window_def)
  then show ?thesis using frame_tail [OF assms(1) _ assms(3)] assms(2) q by blast
qed

section \<open>A channel\<close>

text \<open>A write puts all of its bytes on the stream, or stops inside and says so.\<close>

lemma write_step: "b \<noteq> [] \<Longrightarrow> stream_write b st = (n, st') \<Longrightarrow> n \<le> length b \<and> out_data st' = out_data st @ take n b"
  by (auto simp: stream_write_def Let_def split: list.splits acceptance.splits)

lemma write_all_sound: "write_all b st = (r, st') \<Longrightarrow>
    (r = Inr () \<longrightarrow> out_data st' = out_data st @ b)
  \<and> (r \<noteq> Inr () \<longrightarrow> (\<exists>p q. b = p @ q \<and> q \<noteq> [] \<and> out_data st' = out_data st @ p))"
proof (induction b st rule: write_all.induct)
  case (1 b st)
  show ?case
  proof (cases "b = []")
    case True
    with 1 show ?thesis by (simp add: write_all.simps [of "[]"])
  next
    case False
    obtain n s1 where w: "stream_write b st = (n, s1)" by fastforce
    note s = write_step [OF False w]
    show ?thesis
    proof (cases "n = 0")
      case True
      with False w 1(2) s show ?thesis by (auto simp: write_all.simps [of b])
    next
      case n: False
      with False w 1(2) have "write_all (drop n b) s1 = (r, st')" by (simp add: write_all.simps [of b])
      note ih = 1(1) [OF False w [symmetric] n this]
      have "\<exists>p q. b = p @ q \<and> q \<noteq> [] \<and> out_data st' = out_data st @ p" if "r \<noteq> Inr ()"
      proof -
        from ih that obtain p q where "drop n b = p @ q" "q \<noteq> []" "out_data st' = out_data s1 @ p" by blast
        then have "b = (take n b @ p) @ q" "out_data st' = out_data st @ take n b @ p" using s by (simp_all, metis append_take_drop_id append.assoc)
        with \<open>q \<noteq> []\<close> show ?thesis by blast
      qed
      then show ?thesis using ih s by simp
    qed
  qed
qed

text \<open>A part of a frame that ends too early is an error.\<close>

definition cuts :: "'a reader \<Rightarrow> nat list \<Rightarrow> bool" where
  "cuts m data \<longleftrightarrow> (\<forall>st. in_data st = data \<longrightarrow> (\<exists>e. fst (m st) = Inl e))"

lemma cuts_exact: "length data < n \<Longrightarrow> cuts (read_exact n) data"
  using exact_fails by (fastforce simp: cuts_def)

lemma cuts_first: "cuts m data \<Longrightarrow> cuts (rbind m f) data"
  by (auto simp: cuts_def rbind_def split: prod.splits sum.splits)

lemma cuts_next: "yields m data x rest \<Longrightarrow> cuts (f x) rest \<Longrightarrow> cuts (rbind m f) data"
  by (auto simp: cuts_def yields_def rbind_def split: prod.splits sum.splits)

text \<open>The shorter of two beginnings of a list.\<close>

lemma append_split: "x @ y = u @ v \<Longrightarrow> length u \<le> length x \<Longrightarrow> \<exists>a. x = u @ a \<and> a @ y = v"
  by (auto simp: append_eq_append_conv2)

lemma frame_cut:
  assumes "portable rp fl (JObj d)" and "encode_frame rp m d = Inr (p @ q)" and "q \<noteq> []" and "m \<le> M"
  shows "cuts (read_frame fl M False) p"
proof -
  obtain h where h: "p @ q = FRAME_MAGIC @ h @ body rp d" "pack_u32 (length (body rp d)) = Inr h" "body rp d \<noteq> []" "length (body rp d) \<le> m"
    using encode_portable [OF assms(1,2)] by auto
  have u: "unpack_u32 h = length (body rp d)" "length h = 4" using unpack_pack [OF h(2)] by simp_all
  have marker: "yields (read_magic False) (FRAME_MAGIC @ rest) () rest" for rest
  proof -
    have "yields (rbind (read_exact (length FRAME_MAGIC)) (\<lambda>marker. rlift (ensure (marker = FRAME_MAGIC)
        (BrokerProtocolError ''broker frame has invalid magic marker'')))) (FRAME_MAGIC @ rest) () rest"
      by (rule yields_rbind [OF yields_exact]) simp
    then show ?thesis by (simp add: read_magic_def)
  qed
  consider "length p < length FRAME_MAGIC" | a where "p = FRAME_MAGIC @ a" "length a < 4"
    | a where "p = FRAME_MAGIC @ h @ a" "length a < length (body rp d)"
  proof (cases "length p < length FRAME_MAGIC")
    case False
    with append_split [OF h(1)] obtain a where a: "p = FRAME_MAGIC @ a" "a @ q = h @ body rp d" by auto
    show ?thesis
    proof (cases "length a < 4")
      case True
      with a(1) show ?thesis by (rule that(2))
    next
      case False
      with append_split [OF a(2)] u(2) obtain a' where "a = h @ a'" "a' @ q = body rp d" by auto
      moreover from this(2) have "length a' < length (body rp d)" using assms(3) by (metis length_append length_greater_0_conv less_add_same_cancel1)
      ultimately show ?thesis using that(3) a(1) by simp
    qed
  qed (rule that(1))
  then show ?thesis
  proof cases
    case 1
    then have "cuts (read_magic False) p" by (simp add: read_magic_def cuts_first cuts_exact)
    then show ?thesis by (simp add: read_frame_def cuts_first)
  next
    case 2
    then show ?thesis unfolding read_frame_def
      by (simp only:) (intro cuts_next [OF marker] cuts_first cuts_exact)
  next
    case 3
    have e: "yields (read_exact 4) (h @ a) h a" using yields_exact [of h] u(2) by metis
    have n: "yields (rlift (ensure b E)) data () data" if b for b E data using that by simp
    have "cuts (rbind (read_exact (length (body rp d))) (\<lambda>raw. rlift (frame_payload fl raw))) a"
      using 3(2) by (intro cuts_first cuts_exact)
    then have "cuts (let n = unpack_u32 h in
        rbind (rlift (ensure (n \<noteq> 0) (BrokerProtocolError ''broker frames may not be empty''))) (\<lambda>_.
        rbind (rlift (ensure (n \<le> M) (BrokerProtocolError ''broker frame declares too many bytes''))) (\<lambda>_.
        rbind (read_exact n) (\<lambda>raw. rlift (frame_payload fl raw))))) a"
      unfolding Let_def u(1) using h(3,4) assms(4) by (intro cuts_next [OF n] cuts_next [OF n]) auto
    then show ?thesis unfolding read_frame_def 3(1) by (intro cuts_next [OF marker] cuts_next [OF e])
  qed
qed

text \<open>A sender that writes payloads one after the other until a write fails, and a receiver that reads until a read fails.\<close>

fun send_frames :: "(pyfloat \<Rightarrow> ustr) \<Rightarrow> jdict list \<Rightarrow> out_stream \<Rightarrow> jdict list \<times> out_stream" where
  "send_frames rp [] st = ([], st)"
| "send_frames rp (d # ds) st =
     (case write_frame rp MAX_FRAME_BYTES d st of
        (Inl _, st') \<Rightarrow> ([], st')
      | (Inr _, st') \<Rightarrow> (case send_frames rp ds st' of (sent, st'') \<Rightarrow> (d # sent, st'')))"

fun receive_frames :: "(ustr \<Rightarrow> pyfloat) \<Rightarrow> nat \<Rightarrow> in_stream \<Rightarrow> jdict list" where
  "receive_frames fl 0 st = []"
| "receive_frames fl (Suc n) st =
     (case read_frame fl MAX_FRAME_BYTES False st of
        (Inl _, _) \<Rightarrow> []
      | (Inr d, st') \<Rightarrow> d # receive_frames fl n st')"

lemma cuts_empty: "cuts (read_frame fl M False) []"
  by (simp add: read_frame_def read_magic_def cuts_first cuts_exact FRAME_MAGIC_def)

lemma receive_cut: "cuts (read_frame fl MAX_FRAME_BYTES False) (in_data st) \<Longrightarrow> receive_frames fl n st = []"
  by (cases n) (auto simp: cuts_def split: prod.splits sum.splits)

lemma send_receive:
  assumes "list_all (\<lambda>d. portable rp fl (JObj d)) ds" and "send_frames rp ds st = (sent, st')"
  shows "\<exists>data. out_data st' = out_data st @ data \<and>
    (\<forall>n si. in_data si = data \<longrightarrow> length sent < n \<longrightarrow> receive_frames fl n si = sent)"
  using assms
proof (induction ds arbitrary: st sent)
  case Nil
  then show ?case using receive_cut [of fl] cuts_empty by (auto intro!: exI [of _ "[]"])
next
  case (Cons d ds)
  from Cons.prems(1) have p: "portable rp fl (JObj d)" by simp
  obtain r s1 where w: "write_frame rp MAX_FRAME_BYTES d st = (r, s1)" by fastforce
  show ?case
  proof (cases r)
    case (Inl e)
    with w Cons.prems(2) have "sent = []" "st' = s1" by simp_all
    show ?thesis
    proof (cases "encode_frame rp MAX_FRAME_BYTES d")
      case (Inl e')
      with w have "s1 = st" by (simp add: write_frame_def)
      with \<open>sent = []\<close> \<open>st' = s1\<close> receive_cut [of fl] cuts_empty show ?thesis by (auto intro!: exI [of _ "[]"])
    next
      case (Inr fr)
      with w \<open>r = Inl e\<close> have "write_all fr st = (Inl e, s1)" by (simp add: write_frame_def)
      from write_all_sound [OF this] obtain a q where "fr = a @ q" "q \<noteq> []" "out_data s1 = out_data st @ a" by auto
      then show ?thesis using frame_cut [OF p, of MAX_FRAME_BYTES a q] Inr receive_cut [of fl] \<open>sent = []\<close> \<open>st' = s1\<close> by auto
    qed
  next
    case (Inr u)
    obtain sent' where s: "send_frames rp ds s1 = (sent', st')" "sent = d # sent'" using Cons.prems(2) w Inr by (auto split: prod.splits)
    obtain fr where fr: "encode_frame rp MAX_FRAME_BYTES d = Inr fr" "write_all fr st = (Inr (), s1)"
      using w Inr by (auto simp: write_frame_def split: sum.splits)
    obtain data where d: "out_data st' = out_data s1 @ data"
      "\<And>n si. in_data si = data \<Longrightarrow> length sent' < n \<Longrightarrow> receive_frames fl n si = sent'"
      using Cons.IH [OF _ s(1)] Cons.prems(1) by auto
    have y: "yields (read_frame fl MAX_FRAME_BYTES False) (fr @ data) d data" by (rule frame_read [OF p fr(1)]) simp
    have "receive_frames fl n si = sent" if i: "in_data si = fr @ data" and l: "length sent < n" for n si
    proof -
      obtain k where k: "n = Suc k" using l by (cases n) auto
      obtain s2 where "read_frame fl MAX_FRAME_BYTES False si = (Inr d, s2)" "in_data s2 = data"
        using y i by (cases "read_frame fl MAX_FRAME_BYTES False si") (auto simp: yields_def)
      then show ?thesis using d(2) [of s2 k] l s(2) k by simp
    qed
    moreover have "out_data st' = out_data st @ fr @ data" using d(1) write_all_sound [OF fr(2)] by simp
    ultimately show ?thesis by blast
  qed
qed

end
