(* ===== verification/Helper_Facts.thy ===== *)
theory Helper_Facts
  imports Broker_Helper Frame_Facts
begin

text \<open>
  What the remote helper guarantees: an output is kept up to its bound and the cut is reported, every answer fits into a
  frame, and one exchange of frames carries a request and its answer over any two byte streams.
\<close>

section \<open>Outputs\<close>

lemma drain_keeps: "length parts \<le> MAX_OUTPUT_BYTES \<Longrightarrow>
    drain_bounded chunks parts t = (let b = parts @ concat (takeWhile (\<lambda>c. c \<noteq> []) chunks) in
      (take MAX_OUTPUT_BYTES b, t \<or> MAX_OUTPUT_BYTES < length b))"
proof (induction chunks parts t rule: drain_bounded.induct)
  case (2 chunk chunks parts t)
  show ?case
  proof (cases "chunk = []")
    case False
    let ?room = "MAX_OUTPUT_BYTES - length parts" and ?rest = "concat (takeWhile (\<lambda>c. c \<noteq> []) chunks)"
    have k: "(if ?room \<noteq> 0 then parts @ take ?room chunk else parts) = parts @ take ?room chunk" by simp
    have "length (parts @ take ?room chunk) \<le> MAX_OUTPUT_BYTES" using 2(2) by simp
    then have "drain_bounded (chunk # chunks) parts t = (take MAX_OUTPUT_BYTES ((parts @ take ?room chunk) @ ?rest),
        (t \<or> ?room < length chunk) \<or> MAX_OUTPUT_BYTES < length ((parts @ take ?room chunk) @ ?rest))"
      using 2(1) [OF False refl refl] False unfolding k drain_bounded.simps Let_def by simp
    then show ?thesis using 2(2) False by (auto simp: min_def not_less Let_def)
  qed (use 2(2) in simp)
qed simp

text \<open>What was read from an output: the chunks before the end of the stream, and nothing where the drain did not finish.\<close>

definition printed :: "nat list list option \<Rightarrow> nat list" where
  "printed chunks = (case chunks of None \<Rightarrow> [] | Some cs \<Rightarrow> concat (takeWhile (\<lambda>c. c \<noteq> []) cs))"

lemma captured_printed: "captured chunks = (take MAX_OUTPUT_BYTES (printed chunks), MAX_OUTPUT_BYTES < length (printed chunks))"
  using drain_keeps [of "[]"] by (simp add: captured_def printed_def Let_def split: option.splits)

lemma captured_bound: "length (fst (captured chunks)) \<le> MAX_OUTPUT_BYTES"
proof -
  have "length parts \<le> MAX_OUTPUT_BYTES \<Longrightarrow> length (fst (drain_bounded cs parts t)) \<le> MAX_OUTPUT_BYTES" for cs parts t
    by (induction cs parts t rule: drain_bounded.induct) (auto simp: Let_def)
  then show ?thesis by (simp add: captured_def split: option.splits)
qed

section \<open>Sizes\<close>

definition bytes :: "ustr \<Rightarrow> nat" where
  "bytes s = length (concat (map utf8_char s))"

lemma bytes_simps [simp]: "bytes [] = 0" "bytes (c # s) = length (utf8_char c) + bytes s" "bytes (s @ t) = bytes s + bytes t"
  by (simp_all add: bytes_def)

lemma bytes_ascii: "list_all (\<lambda>c. c < 128) s \<Longrightarrow> bytes s = length s"
  by (induction s) (simp_all add: utf8_char_def)

lemma bytes_lit_small: "list_all (\<lambda>c. c < 128) (lit s) \<Longrightarrow> bytes (lit s) = length s"
  using bytes_ascii [of "lit s"] by simp

lemma escape_bytes: "bytes (escape_char c) \<le> 6 * length (utf8_char c)"
proof (cases "c < 128")
  case True
  then have "list_all (\<lambda>c. c < 128) (escape_char c)" by (auto simp: escape_char_def hex_digit_def)
  moreover have "length (escape_char c) \<le> 6" by (simp add: escape_char_def)
  ultimately show ?thesis using bytes_ascii [of "escape_char c"] by (simp add: utf8_char_def)
qed (simp add: escape_char_def)

lemma string_bytes: "bytes (json_string s) \<le> 2 + 6 * bytes s"
proof -
  have "bytes (concat (map escape_char s)) \<le> 6 * bytes s"
    by (induction s) (use escape_bytes in \<open>auto simp: add_mono\<close>)
  moreover have "bytes (json_string s) = 2 + bytes (concat (map escape_char s))" by (simp add: json_string_def utf8_char_def)
  ultimately show ?thesis by simp
qed

lemma encoded_bytes: "encode_utf8 s = Inr b \<Longrightarrow> bytes s = length b"
  by (auto simp: encode_utf8_def bytes_def split: if_splits)

text \<open>A replaced decoding needs at most six bytes for every byte it came from, escapes included.\<close>

lemma lead_cases: "lead b = Some (n, lo, hi) \<Longrightarrow> 128 \<le> lo \<and> hi \<le> 191 \<and> 194 \<le> b \<and> b \<le> 244
    \<and> (n = 1 \<and> b < 224 \<or> n = 2 \<and> 224 \<le> b \<and> b < 240 \<and> (b = 237 \<longrightarrow> hi = 159) \<or> n = 3 \<and> 240 \<le> b \<and> (b = 244 \<longrightarrow> hi = 143))"
  by (auto simp: lead_def split: if_splits)

lemma utf8_char_length: "length (utf8_char c) \<le> 4" "c < 65536 \<Longrightarrow> length (utf8_char c) \<le> 3" "c < 2048 \<Longrightarrow> length (utf8_char c) \<le> 2"
  "c < 128 \<Longrightarrow> length (utf8_char c) \<le> 1"
  by (simp_all add: utf8_char_def)

text \<open>The parts of a unit that is a character.\<close>

lemma unit_parts:
  assumes "s \<noteq> []" and "utf8_next s = (u, k)"
  shows "k \<le> length s \<and> (case u of None \<Rightarrow> True | Some c \<Rightarrow> c < 128 \<and> k = 1 \<or>
    (\<exists>b x ys t n lo hi. s = b # x # ys @ t \<and> lead b = Some (n, lo, hi) \<and> Suc (length ys) = n \<and> lo \<le> x \<and> x \<le> hi
      \<and> list_all continuation ys \<and> c = fst (decode_one s) \<and> k = Suc n))"
proof -
  obtain b r where s: "s = b # r" using assms(1) by (cases s) auto
  show ?thesis
  proof (cases "b < 128 \<or> lead b = None")
    case True
    with assms(2) s show ?thesis by (auto split: if_splits)
  next
    case False
    then obtain n lo hi where l: "lead b = Some (n, lo, hi)" by auto
    note lc = lead_cases [OF l]
    show ?thesis
    proof (cases "r = [] \<or> hd r < lo \<or> hi < hd r")
      case True
      with assms(2) s l False show ?thesis by auto
    next
      case r: False
      then obtain x q where q: "r = x # q" "lo \<le> x" "x \<le> hi" by (cases r) auto
      let ?c = "takeWhile continuation (take (n - 1) q)"
      have len: "length ?c \<le> length q" "length ?c \<le> n - 1" using length_takeWhile_le [of continuation "take (n - 1) q"] by simp_all
      show ?thesis
      proof (cases "Suc (length ?c) < n")
        case True
        with assms(2) s l False r q len show ?thesis by (auto simp: Let_def)
      next
        case c: False
        then have u: "u = Some (fst (decode_one s))" "k = Suc n" using assms(2) s l False r q by (auto simp: Let_def)
        have "0 < n" using lc by auto
        then have n: "Suc (length ?c) = n" using c len(2) by linarith
        have "?c = take (length ?c) (take (n - 1) q)" by (rule takeWhile_eq_take)
        moreover have "length ?c = n - 1" using n by simp
        ultimately have full: "?c = take (n - 1) q" by simp
        have "list_all continuation ?c" by (auto simp: list_all_iff dest: set_takeWhileD)
        moreover have "s = b # x # ?c @ drop (n - 1) q" unfolding full s q(1) by simp
        moreover have "Suc n \<le> length s" using s q(1) n len(1) by simp
        ultimately show ?thesis using u q(2,3) l n by fastforce
      qed
    qed
  qed
qed

lemma pack_bound: "(a :: nat) \<le> 15 \<Longrightarrow> b \<le> 63 \<Longrightarrow> c \<le> 63 \<Longrightarrow> (a * 64 + b) * 64 + c < 65536"
  "(a :: nat) \<le> 3 \<or> a = 4 \<and> b \<le> 15 \<Longrightarrow> b \<le> 63 \<Longrightarrow> c \<le> 63 \<Longrightarrow> d \<le> 63 \<Longrightarrow> ((a * 64 + b) * 64 + c) * 64 + d < 1114112"
  "16 \<le> a * 64 + (b :: nat) \<Longrightarrow> 65536 \<le> ((a * 64 + b) * 64 + c) * 64 + d"
  by auto

text \<open>It is a Unicode scalar value, and its encoding is not longer than the bytes it came from.\<close>

lemma decoded_small:
  assumes "lead b = Some (n, lo, hi)" "Suc (length ys) = n" "lo \<le> x" "x \<le> hi" "list_all continuation ys"
  shows "length (utf8_char (fst (decode_one (b # x # ys @ t)))) \<le> Suc n \<and> text_char (fst (decode_one (b # x # ys @ t)))"
  using lead_cases [OF assms(1)]
proof (elim conjE disjE)
  assume b: "128 \<le> lo" "hi \<le> 191" "194 \<le> b" "n = 1" "b < 224"
  then have "ys = []" using assms(2) by simp
  then have "fst (decode_one (b # x # ys @ t)) < 2048" using b assms(3,4) by (simp add: decode_one_def)
  with utf8_char_length(3) [OF this] b(4) show ?thesis by simp
next
  assume b: "128 \<le> lo" "hi \<le> 191" "n = 2" "224 \<le> b" "b < 240" "b = 237 \<longrightarrow> hi = 159"
  then obtain y where y: "ys = [y]" "y \<le> 191" using assms(2,5) by (cases ys) (auto simp: continuation_def)
  then have c: "fst (decode_one (b # x # ys @ t)) = ((b - 224) * 64 + (x - 128)) * 64 + (y - 128)" using b by (simp add: decode_one_def)
  have m: "x - 128 \<le> 63" "y - 128 \<le> 63" "b = 237 \<Longrightarrow> x - 128 \<le> 31" using y b assms(4) by auto
  consider "b - 224 \<le> 12" | "b = 237" | "14 \<le> b - 224" "b - 224 \<le> 15" using b(4,5) by linarith
  then have "text_char (fst (decode_one (b # x # ys @ t)))"
    unfolding c using m by cases (auto simp: text_char_def is_scalar_def)
  moreover have "fst (decode_one (b # x # ys @ t)) < 65536"
  proof -
    have "b - 224 \<le> 15" using b(5) by linarith
    then show ?thesis unfolding c using m(1,2) by (rule pack_bound(1))
  qed
  ultimately show ?thesis using utf8_char_length(2) b(3) by fastforce
next
  assume b: "128 \<le> lo" "hi \<le> 191" "b \<le> 244" "n = 3" "240 \<le> b" "b = 244 \<longrightarrow> hi = 143"
  then obtain y z where y: "ys = [y, z]" "y \<le> 191" "z \<le> 191" using assms(2,5) by (cases ys; cases "tl ys") (auto simp: continuation_def)
  have "lo \<ge> 144 \<or> 240 < b" using assms(1) b(5) by (auto simp: lead_def split: if_splits)
  then have big: "16 \<le> (b - 240) * 64 + (x - 128)" using assms(3) b(5) by auto
  have c: "fst (decode_one (b # x # ys @ t)) = (((b - 240) * 64 + (x - 128)) * 64 + (y - 128)) * 64 + (z - 128)"
    using y b by (simp add: decode_one_def)
  have "b - 240 \<le> 3 \<or> b - 240 = 4 \<and> x - 128 \<le> 15" "x - 128 \<le> 63" "y - 128 \<le> 63" "z - 128 \<le> 63" using y b assms(4) by auto
  from pack_bound(2) [OF this] have "fst (decode_one (b # x # ys @ t)) < 1114112" unfolding c .
  moreover have "65536 \<le> fst (decode_one (b # x # ys @ t))" unfolding c using big by (rule pack_bound(3))
  ultimately show ?thesis using utf8_char_length(1) b(4) by (simp add: text_char_def is_scalar_def)
qed

lemma unit_char:
  assumes "s \<noteq> []" and "utf8_next s = (u, k)"
  shows "k \<le> length s \<and> (case u of None \<Rightarrow> True | Some c \<Rightarrow> length (utf8_char c) \<le> k \<and> text_char c)"
proof (cases u)
  case None
  then show ?thesis using unit_parts [OF assms] by simp
next
  case (Some c)
  then consider "c < 128" "k = 1" | b x ys t n lo hi where "s = b # x # ys @ t" "lead b = Some (n, lo, hi)" "Suc (length ys) = n"
      "lo \<le> x" "x \<le> hi" "list_all continuation ys" "c = fst (decode_one s)" "k = Suc n"
    using unit_parts [OF assms] by auto
  then have "length (utf8_char c) \<le> k \<and> text_char c"
  proof cases
    case 1
    then show ?thesis using utf8_char_length(4) by simp
  next
    case 2
    then show ?thesis using decoded_small [OF 2(2-6)] by simp
  qed
  with Some unit_parts [OF assms] show ?thesis by simp
qed

lemma replaced_bytes: "bytes (concat (map escape_char (decode_replace s))) \<le> 6 * length s"
proof (induction s rule: decode_units.induct)
  case (1 s)
  show ?case
  proof (cases "s = []")
    case True
    then show ?thesis by (simp add: decode_replace_def decode_units.simps)
  next
    case False
    obtain u k where n: "utf8_next s = (u, k)" by fastforce
    note ub = unit_char [OF False n]
    have k: "0 < k" using utf8_next_pos [of s] n by simp
    have d: "decode_replace s = (case u of None \<Rightarrow> 65533 | Some c \<Rightarrow> c) # decode_replace (drop k s)"
      using False n by (simp add: decode_replace_def decode_units.simps [of s])
    have "bytes (escape_char (case u of None \<Rightarrow> 65533 | Some c \<Rightarrow> c)) \<le> 6 * k"
    proof (cases u)
      case None
      have "bytes (escape_char 65533) = 3" by (simp add: escape_char_def utf8_char_def)
      then show ?thesis using None k by simp
    next
      case (Some c)
      then show ?thesis using escape_bytes [of c] ub by (simp add: order_trans [OF _ mult_le_mono2])
    qed
    moreover have "bytes (concat (map escape_char (decode_replace (drop k s)))) \<le> 6 * (length s - k)"
      using 1 [OF False] n by simp
    ultimately have "bytes (concat (map escape_char (decode_replace s))) \<le> 6 * k + 6 * (length s - k)"
      unfolding d by (simp add: add_mono)
    then show ?thesis using ub by (simp add: diff_mult_distrib2)
  qed
qed

lemma replaced_text: "list_all text_char (decode_replace s)"
proof (induction s rule: decode_units.induct)
  case (1 s)
  show ?case
  proof (cases "s = []")
    case False
    obtain u k where n: "utf8_next s = (u, k)" by fastforce
    have "decode_replace s = (case u of None \<Rightarrow> 65533 | Some c \<Rightarrow> c) # decode_replace (drop k s)"
      using False n by (simp add: decode_replace_def decode_units.simps [of s])
    moreover have "text_char (case u of None \<Rightarrow> 65533 | Some c \<Rightarrow> c)"
      using unit_char [OF False n] by (cases u) (simp_all add: text_char_def is_scalar_def)
    ultimately show ?thesis using 1 [OF False] n by simp
  qed (simp add: decode_replace_def decode_units.simps)
qed

section \<open>Answers\<close>

text \<open>What the operating system returns: an exit status of 32 bits, an error message that is not huge, and a duration whose text is
  a short float literal.\<close>

definition ordinary :: "(pyfloat \<Rightarrow> ustr) \<Rightarrow> process_run \<Rightarrow> pyfloat \<Rightarrow> bool" where
  "ordinary rp r duration \<longleftrightarrow>
     (case pr_end r of
        NotStarted message \<Rightarrow> list_all text_char message \<and> bytes message \<le> MAX_OUTPUT_BYTES
      | Exited n \<Rightarrow> \<bar>n\<bar> \<le> 2 ^ 31
      | TimedOut \<Rightarrow> True)
   \<and> float_literal (rp duration) \<and> length (rp duration) \<le> 64"

definition escaped :: "ustr \<Rightarrow> nat" where
  "escaped s = bytes (concat (map escape_char s))"

lemma escaped_simps [simp]: "escaped [] = 0" "escaped (s @ t) = escaped s + escaped t" "escaped (c # s) = bytes (escape_char c) + escaped s"
  by (simp_all add: escaped_def)

lemma escaped_bytes: "escaped s \<le> 6 * bytes s"
  by (induction s) (use escape_bytes in \<open>auto simp: add_mono\<close>)

lemma json_string_bytes: "bytes (json_string s) = 2 + escaped s"
  by (simp add: json_string_def escaped_def utf8_char_def)

lemma escaped_letters: "list_all (\<lambda>c. 32 \<le> c \<and> c < 128 \<and> c \<noteq> 34 \<and> c \<noteq> 92) s \<Longrightarrow> escaped s = length s"
  by (induction s) (auto simp: escape_char_def utf8_char_def)

lemma outcome_bounds:
  assumes "ordinary rp r duration"
  shows "escaped (co_stdout (run_bounded r)) \<le> 6 * MAX_OUTPUT_BYTES"
    and "escaped (co_stderr (run_bounded r)) \<le> 6 * MAX_OUTPUT_BYTES + 600"
    and "\<bar>co_returncode (run_bounded r)\<bar> \<le> 2 ^ 31"
    and "list_all text_char (co_stdout (run_bounded r))" "list_all text_char (co_stderr (run_bounded r))"
proof -
  have rep: "escaped (decode_replace b) \<le> 6 * length b" for b using replaced_bytes by (simp add: escaped_def)
  have cap: "escaped (decode_replace (fst (captured cs))) \<le> 6 * MAX_OUTPUT_BYTES" for cs
    using rep [of "fst (captured cs)"] captured_bound [of cs] by simp
  have n: "escaped (lit ''command timed out inside persistent O2 broker'') = 45"
    "escaped (lit ''command could not be started inside persistent O2 broker: '') = 58"
    by (simp_all add: lit_def escape_char_def utf8_char_def)
  have t: "list_all text_char (lit ''command timed out inside persistent O2 broker'')"
    "list_all text_char (lit ''command could not be started inside persistent O2 broker: '')"
    by (simp_all add: lit_def)
  show "escaped (co_stdout (run_bounded r)) \<le> 6 * MAX_OUTPUT_BYTES"
    using cap by (cases "pr_end r") (simp_all add: run_bounded_def Let_def)
  show "escaped (co_stderr (run_bounded r)) \<le> 6 * MAX_OUTPUT_BYTES + 600"
  proof (cases "pr_end r")
    case (NotStarted m)
    then have "bytes m \<le> MAX_OUTPUT_BYTES" using assms by (simp add: ordinary_def)
    then show ?thesis using NotStarted escaped_bytes [of m] n by (simp add: run_bounded_def)
  next
    case (Exited k)
    then show ?thesis using cap [of "pr_stderr r"] by (simp add: run_bounded_def Let_def)
  next
    case TimedOut
    have "bytes (escape_char 10) = 2" by (simp add: escape_char_def utf8_char_def)
    then show ?thesis using TimedOut cap [of "pr_stderr r"] n by (simp add: run_bounded_def Let_def)
  qed
  show "\<bar>co_returncode (run_bounded r)\<bar> \<le> 2 ^ 31"
    using assms by (cases "pr_end r") (simp_all add: run_bounded_def ordinary_def Let_def)
  show "list_all text_char (co_stdout (run_bounded r))"
    using replaced_text by (cases "pr_end r") (simp_all add: run_bounded_def Let_def)
  show "list_all text_char (co_stderr (run_bounded r))"
    using replaced_text t assms by (cases "pr_end r") (simp_all add: run_bounded_def ordinary_def Let_def)
qed

lemma str_int_bytes: "\<bar>i\<bar> \<le> 2 ^ 31 \<Longrightarrow> bytes (str_int i) \<le> 11"
proof -
  assume i: "\<bar>i\<bar> \<le> 2 ^ 31"
  have "list_all (\<lambda>c. c < 128) (str_int i)" using dec_digits_range by (fastforce simp: str_int_def list_all_iff)
  moreover have "nat \<bar>i\<bar> < 10 ^ 10" using i by (simp add: nat_less_iff)
  then have "length (dec_digits (nat \<bar>i\<bar>)) \<le> 10" by (rule length_dec_digits) simp
  then have "length (str_int i) \<le> 11" by (auto simp: str_int_def)
  ultimately show ?thesis using bytes_ascii by simp
qed

definition small_id :: "json \<Rightarrow> bool" where
  "small_id v \<longleftrightarrow> v = JNull \<or> (is_str v \<and> list_all text_char (str_of v) \<and> bytes (str_of v) \<le> MAX_REQUEST_ID_BYTES)"

lemma small_id_text: "small_id v \<Longrightarrow> portable rp fl v \<and> bytes (frame_text rp v) \<le> 1000"
proof -
  assume v: "small_id v"
  show ?thesis
  proof (cases "v = JNull")
    case True
    then show ?thesis by (simp add: lit_def utf8_char_def)
  next
    case False
    with v obtain s where s: "v = JStr s" "list_all text_char s" "bytes s \<le> MAX_REQUEST_ID_BYTES" by (cases v) (auto simp: small_id_def)
    then show ?thesis using escaped_bytes [of s] by (simp add: portable_simps json_string_bytes MAX_REQUEST_ID_BYTES_def)
  qed
qed

lemma result_frame_fits:
  assumes "ordinary rp r duration" and "small_id v" and "fl (rp duration) = duration"
  shows "portable rp fl (JObj (result_frame v (run_bounded r) duration)) \<and> length (body rp (result_frame v (run_bounded r) duration)) \<le> MAX_FRAME_BYTES"
proof -
  note b = outcome_bounds [OF assms(1)]
  have f: "bytes (rp duration) \<le> 64" "agree rp fl duration"
  proof -
    have "float_literal (rp duration)" "length (rp duration) \<le> 64" using assms(1) by (simp_all add: ordinary_def)
    moreover have "bytes s = length s" if "float_literal s" for s
      using number_ascii [OF that] bytes_ascii by simp
    ultimately show "bytes (rp duration) \<le> 64" "agree rp fl duration" using assms(3) by (simp_all add: agree_def)
  qed
  have keys: "escaped (lit ''type'') = 4" "escaped (lit ''id'') = 2" "escaped (lit ''returncode'') = 10" "escaped (lit ''stdout'') = 6"
    "escaped (lit ''stderr'') = 6" "escaped (lit ''timed_out'') = 9" "escaped (lit ''duration_seconds'') = 16"
    "escaped (lit ''stdout_truncated'') = 16" "escaped (lit ''stderr_truncated'') = 16" "escaped (lit ''result'') = 6"
    by (simp_all add: lit_def escape_char_def utf8_char_def)
  have punct: "bytes [44] = 1" "bytes [58] = 1" "bytes [91] = 1" "bytes [123] = 1" "bytes [125] = 1" "length (utf8_char 44) = 1"
    "length (utf8_char 58) = 1" "length (utf8_char 123) = 1" "length (utf8_char 125) = 1"
    by (simp_all add: utf8_char_def)
  have bools: "bytes (lit ''true'') = 4" "bytes (lit ''false'') = 5" by (simp_all add: lit_def utf8_char_def)
  have v: "portable rp fl v" "bytes (frame_text rp v) \<le> 1000" using small_id_text [OF assms(2)] by simp_all
  have "bytes (frame_text rp (JObj (result_frame v (run_bounded r) duration)))
      \<le> 300 + 1000 + 11 + escaped (co_stdout (run_bounded r)) + escaped (co_stderr (run_bounded r)) + 64"
    using v(2) str_int_bytes [OF b(3)] f(1)
    by (simp add: result_frame_def json_string_bytes keys punct bools)
  also have "\<dots> \<le> MAX_FRAME_BYTES" using b(1,2) by (simp add: MAX_FRAME_BYTES_def MAX_OUTPUT_BYTES_def)
  finally have "length (body rp (result_frame v (run_bounded r) duration)) \<le> MAX_FRAME_BYTES" by (simp only: body_def bytes_def)
  moreover have "portable rp fl (JObj (result_frame v (run_bounded r) duration))"
    using v(1) b(4,5) f(2) by (simp add: result_frame_def portable_simps) (simp add: lit_def)
  ultimately show ?thesis by simp
qed

end
