(* ===== verification/Broker_Properties.thy ===== *)
theory Broker_Properties
  imports Broker_Daemon Helper_Facts Policy_Properties "HOL-Library.Sublist"
begin

text \<open>
  Properties of the credential broker: its frames, the answers of the remote helper, the requests the daemon forwards and
  the conclusions a caller draws.
\<close>

section \<open>The remote end\<close>

lemma helper_exact: "yields (helper_read_exact (length p)) (p @ rest) p rest"
  using yields_exact [of p rest] by (auto simp: yields_def helper_read_exact_def split: prod.splits sum.splits)

lemma helper_frame_read:
  assumes "portable rp fl (JObj d)" and "encode_frame rp m d = Inr fr" and "m \<le> MAX_FRAME_BYTES"
  shows "yields (helper_read_frame fl) (fr @ rest) d rest"
proof -
  obtain h where h: "fr = FRAME_MAGIC @ h @ body rp d" "pack_u32 (length (body rp d)) = Inr h" "body rp d \<noteq> []" "length (body rp d) \<le> m"
    using encode_portable [OF assms(1,2)] by auto
  have u: "unpack_u32 h = length (body rp d)" "length h = 4" using unpack_pack [OF h(2)] by simp_all
  have m4: "yields (helper_read_exact 4) (FRAME_MAGIC @ x) FRAME_MAGIC x" for x
  proof -
    have "length FRAME_MAGIC = 4" by (simp add: FRAME_MAGIC_def)
    then show ?thesis using helper_exact [of FRAME_MAGIC x] by simp
  qed
  have h4: "yields (helper_read_exact 4) (h @ x) h x" for x using helper_exact [of h x] u(2) by simp
  have n: "yields (rlift (ensure b E)) data () data" if b for b E data using that by simp
  have p: "helper_payload fl (body rp d) = Inr d"
    using body_payload [OF assms(1)] by (auto simp: helper_payload_def frame_payload_def split: sum.splits json.splits)
  have "yields (let n = unpack_u32 h in
      rbind (rlift (ensure (\<not> (n \<le> 0 \<or> MAX_FRAME_BYTES < n)) (ValueError ''invalid frame length''))) (\<lambda>_.
      rbind (helper_read_exact n) (\<lambda>raw. rlift (helper_payload fl raw)))) (body rp d @ rest) d rest"
    unfolding Let_def u(1) by (intro yields_rbind [OF n] yields_rbind [OF helper_exact]) (use h(3,4) assms(3) p in auto)
  then show ?thesis unfolding helper_read_frame_def h(1)
    by (simp only: append_assoc) (intro yields_rbind [OF m4] yields_rbind [OF n] yields_rbind [OF h4], auto)
qed

lemma helper_frame_encode:
  assumes "portable rp fl (JObj d)" and "length (body rp d) \<le> MAX_FRAME_BYTES"
  shows "\<exists>fr. helper_frame rp d = Inr fr \<and> encode_frame rp MAX_FRAME_BYTES d = Inr fr"
proof -
  have e: "encode_utf8 (frame_text rp (JObj d)) = Inr (body rp d)"
    using encode_text [OF frame_chars [OF assms(1)]] by (simp only: body_def)
  have ne: "body rp d \<noteq> []" by (simp add: body_def)
  have "length (body rp d) < 2 ^ 32" using assms(2) by (simp add: MAX_FRAME_BYTES_def)
  then show ?thesis using e ne assms(2) by (simp add: helper_frame_def encode_frame_def pack_u32_def)
qed

lemma write_all_steady: "Stops \<notin> set (out_accepts st) \<Longrightarrow> fst (write_all b st) = Inr ()"
proof (induction b st rule: write_all.induct)
  case (1 b st)
  show ?case
  proof (cases "b = []")
    case False
    obtain n s1 where w: "stream_write b st = (n, s1)" by fastforce
    then have "n \<noteq> 0" "Stops \<notin> set (out_accepts s1)"
      using False 1(2) by (auto simp: stream_write_def Let_def split: list.splits acceptance.splits)
    then show ?thesis using 1(1) [OF False w [symmetric]] False w by (simp add: write_all.simps [of b])
  qed (simp add: write_all.simps)
qed

text \<open>What the helper answers to a request it accepts, and to any other.\<close>

lemma helper_response_accepted:
  "helper_accepts q \<Longrightarrow> perform (jget q ''command'') (jget q ''stdin'') (jget q ''timeout_seconds'') = (r, duration) \<Longrightarrow>
    helper_response perform q = (if 0 \<in> set (str_of (jget q ''command'')) then Inl (ValueError ''embedded null byte'')
      else Inr (result_frame (jget q ''id'') (run_bounded r) duration))"
  by (auto simp: helper_accepts_def helper_response_def Let_def)

lemma helper_response_rejected:
  "\<not> helper_accepts q \<Longrightarrow> helper_response perform q = Inr (error_frame JNull) \<or>
    utf8_text_within_limit (jget q ''id'') MAX_REQUEST_ID_BYTES False \<and> helper_response perform q = Inr (error_frame (jget q ''id''))"
  by (auto simp: helper_accepts_def helper_response_def Let_def)

lemma limit_bytes: "utf8_text_within_limit v n e \<Longrightarrow> is_str v \<and> list_all is_scalar (str_of v) \<and> bytes (str_of v) \<le> n"
  by (auto simp: utf8_text_within_limit_def encode_utf8_def bytes_def split: if_splits sum.splits)

lemma member_portable: "portable rp fl (JObj d) \<Longrightarrow> portable rp fl (jget d k)"
  by (cases "dget d (lit k)") (auto simp: jget_def portable_simps list_all_iff dget_def dest: map_of_SomeD)

lemma request_id_small:
  "portable rp fl (JObj q) \<Longrightarrow> utf8_text_within_limit (jget q ''id'') MAX_REQUEST_ID_BYTES False \<Longrightarrow> small_id (jget q ''id'')"
  using member_portable [of rp fl q "''id''"] limit_bytes [of "jget q ''id''" MAX_REQUEST_ID_BYTES False]
  by (cases "jget q ''id''") (auto simp: small_id_def portable_simps)

lemma error_frame_fits: "small_id v \<Longrightarrow> portable rp fl (JObj (error_frame v)) \<and> length (body rp (error_frame v)) \<le> MAX_FRAME_BYTES"
proof -
  assume "small_id v"
  from small_id_text [OF this, of rp fl] have v: "portable rp fl v" "bytes (frame_text rp v) \<le> 1000" by simp_all
  have "bytes (frame_text rp (JObj (error_frame v))) \<le> 1000 + bytes (frame_text rp v)"
    by (simp add: error_frame_def json_string_bytes) (simp add: lit_def escape_char_def utf8_char_def)
  then have "length (body rp (error_frame v)) \<le> MAX_FRAME_BYTES" using v(2) by (simp only: body_def bytes_def [symmetric] MAX_FRAME_BYTES_def)
  moreover have "portable rp fl (JObj (error_frame v))" using v(1) by (simp add: error_frame_def portable_simps) (simp add: lit_def)
  ultimately show ?thesis by simp
qed

lemma helper_response_fits:
  assumes "portable rp fl (JObj q)" and "perform (jget q ''command'') (jget q ''stdin'') (jget q ''timeout_seconds'') = (r, duration)"
    and "ordinary rp r duration" and "fl (rp duration) = duration" and "helper_response perform q = Inr a"
  shows "portable rp fl (JObj a) \<and> length (body rp a) \<le> MAX_FRAME_BYTES"
proof (cases "helper_accepts q")
  case True
  then have "small_id (jget q ''id'')" using request_id_small [OF assms(1)] by (simp add: helper_accepts_def)
  then show ?thesis using result_frame_fits [OF assms(3), of "jget q ''id''" fl] assms(4,5) helper_response_accepted [of q perform r duration] True assms(2)
    by (simp split: if_splits)
next
  case False
  have "small_id JNull" by (simp add: small_id_def)
  then show ?thesis using helper_response_rejected [OF False, of perform] error_frame_fits request_id_small [OF assms(1)] assms(5) by fastforce
qed

section \<open>Frames on a channel\<close>

text \<open>C34. The frames are unambiguous: whatever payloads the JSON text carries unchanged (\<open>portable\<close>) a sender writes one after the other, however short the single writes are and
  wherever one of them stops, and however the reader's end cuts the bytes into chunks, the reader gets exactly the payloads
  whose write returned, in their order, and then an error. A frame that was cut off is never taken for a payload, and a
  payload never for another.\<close>

theorem frames_survive_the_channel:
  assumes "list_all (\<lambda>d. portable rp fl (JObj d)) ds" and "send_frames rp ds \<lparr>out_data = [], out_accepts = as\<rparr> = (sent, st)"
    and "in_data si = out_data st"
  shows "prefix sent ds \<and> receive_frames fl (Suc (length ds)) si = sent"
proof -
  have p: "prefix sent ds" if "send_frames rp ds s0 = (sent, st)" for ds s0 sent
    using that by (induction ds arbitrary: s0 sent) (auto split: prod.splits sum.splits)
  have "length sent < Suc (length ds)" using prefix_length_le [OF p [OF assms(2)]] by simp
  moreover obtain data where "out_data st = data"
    "\<And>n si. in_data si = data \<Longrightarrow> length sent < n \<Longrightarrow> receive_frames fl n si = sent"
    using send_receive [OF assms(1,2)] by auto
  ultimately show ?thesis using p [OF assms(2)] assms(3) by blast
qed

text \<open>A float text both sides agree on, and two small payloads.\<close>

definition half :: pyfloat where "half = Fin (1 / 2)"

abbreviation half_text :: "pyfloat \<Rightarrow> ustr" where "half_text \<equiv> \<lambda>_. lit ''0.5''"

abbreviation half_value :: "ustr \<Rightarrow> pyfloat" where "half_value \<equiv> \<lambda>_. half"

lemma half_literal: "float_literal (lit ''0.5'')"
  by (simp add: float_literal_def scan_number_def Let_def integer_part_def fraction_part_def exponent_part_def digits_def lit_def)

definition ping_payload :: jdict where
  "ping_payload = [(lit ''type'', JStr (lit ''ping''))]"

lemma ping_portable: "portable rp fl (JObj ping_payload)"
  by (simp add: ping_payload_def portable_simps) (simp add: lit_def)

definition short_writes :: out_stream where
  "short_writes = \<lparr>out_data = [], out_accepts = [Takes 2, Takes 0]\<rparr>"

theorem frames_survive_the_channel_witness:
  "prefix (fst (send_frames half_text [ping_payload, ping_payload] short_writes)) [ping_payload, ping_payload]
   \<and> receive_frames half_value (Suc (length [ping_payload, ping_payload]))
      \<lparr>in_data = out_data (snd (send_frames half_text [ping_payload, ping_payload] short_writes)), in_chunks = [4, 0, 7]\<rparr>
    = fst (send_frames half_text [ping_payload, ping_payload] short_writes)"
  unfolding short_writes_def
  by (rule frames_survive_the_channel [OF _ surjective_pairing]) (simp_all add: ping_portable del: send_frames.simps)

section \<open>The helper\<close>

text \<open>C35. The helper outlives what commands print. For every request read from a frame (\<open>portable\<close>) and every run of the command
  with an exit status of 32 bits, an ordinary error message and a duration written as a short float (\<open>ordinary\<close>), an answer that the
  helper gives fits into one frame, so that its write never raises because of its size: the result of an accepted request, or an error.
  If the command was started, whether it then exited or ran into its deadline, each reported output is the decoding of the first
  \<open>MAX_OUTPUT_BYTES\<close> bytes read from it, with the note on the deadline behind the error output, and the cut is flagged exactly when
  bytes read were dropped. An output whose drain did not finish counts as nothing read: it is reported empty and not flagged,
  whatever the command printed.\<close>

definition noted_timeout :: "process_end \<Rightarrow> ustr \<Rightarrow> ustr" where
  "noted_timeout ended s =
     (if ended = TimedOut then s @ (if s \<noteq> [] then [10] else []) @ lit ''command timed out inside persistent O2 broker'' else s)"

theorem helper_answers_fit:
  assumes "portable rp fl (JObj q)" and "perform (jget q ''command'') (jget q ''stdin'') (jget q ''timeout_seconds'') = (r, duration)"
    and "ordinary rp r duration" and "fl (rp duration) = duration" and "helper_response perform q = Inr answer"
  shows "(\<exists>fr. helper_frame rp answer = Inr fr)
      \<and> (if helper_accepts q then answer = result_frame (jget q ''id'') (run_bounded r) duration
         else answer \<in> {error_frame JNull, error_frame (jget q ''id'')})
      \<and> (case pr_end r of
           NotStarted message \<Rightarrow> co_stdout (run_bounded r) = []
             \<and> \<not> co_stdout_truncated (run_bounded r) \<and> \<not> co_stderr_truncated (run_bounded r)
         | ended \<Rightarrow>
             co_stdout (run_bounded r) = decode_replace (take MAX_OUTPUT_BYTES (printed (pr_stdout r)))
           \<and> co_stderr (run_bounded r) = noted_timeout ended (decode_replace (take MAX_OUTPUT_BYTES (printed (pr_stderr r))))
           \<and> (co_stdout_truncated (run_bounded r) \<longleftrightarrow> MAX_OUTPUT_BYTES < length (printed (pr_stdout r)))
           \<and> (co_stderr_truncated (run_bounded r) \<longleftrightarrow> MAX_OUTPUT_BYTES < length (printed (pr_stderr r))))"
proof (intro conjI)
  have "portable rp fl (JObj answer) \<and> length (body rp answer) \<le> MAX_FRAME_BYTES"
    using assms(1-5) by (rule helper_response_fits)
  then show "\<exists>fr. helper_frame rp answer = Inr fr" using helper_frame_encode by blast
  show "if helper_accepts q then answer = result_frame (jget q ''id'') (run_bounded r) duration
      else answer \<in> {error_frame JNull, error_frame (jget q ''id'')}"
    using helper_response_accepted [of q perform r duration] helper_response_rejected [of q perform] assms(2,5)
    by (auto split: if_splits)
qed (simp add: run_bounded_def captured_printed noted_timeout_def Let_def split: process_end.splits)

definition sample_exec :: jdict where
  "sample_exec = exec_request (lit ''7'') (lit ''id'') JNull None"

definition sample_run :: process_run where
  "sample_run = \<lparr>pr_end = Exited 0, pr_stdout = Some [[104], [105, 10]], pr_stderr = Some []\<rparr>"

abbreviation sample_perform :: "json \<Rightarrow> json \<Rightarrow> json \<Rightarrow> process_run \<times> pyfloat" where
  "sample_perform \<equiv> \<lambda>_ _ _. (sample_run, half)"

lemma sample_exec_portable: "portable rp fl (JObj sample_exec)"
  by (simp add: sample_exec_def exec_request_def portable_simps) (simp add: lit_def)

lemma sample_ordinary: "ordinary half_text sample_run half"
  using half_literal by (simp add: ordinary_def sample_run_def)

lemma sample_exec_accepted: "helper_accepts sample_exec"
  by (simp add: helper_accepts_def sample_exec_def exec_request_def expected_keys_def utf8_text_within_limit_def command_within_exec_limit_def
      optional_stdin_def MAX_REQUEST_ID_BYTES_def MAX_COMMAND_BYTES_def insert_commute)
    (simp add: lit_def encode_utf8_def is_scalar_def utf8_char_def)

lemma sample_command: "0 \<notin> set (str_of (jget sample_exec ''command''))"
  by (simp add: sample_exec_def exec_request_def lit_def)

lemma sample_response: "helper_response sample_perform sample_exec = Inr (result_frame (jget sample_exec ''id'') (run_bounded sample_run) half)"
  using helper_response_accepted [of sample_exec sample_perform] sample_exec_accepted sample_command by simp

theorem helper_answers_fit_witness:
  "(\<exists>fr. helper_frame half_text (result_frame (jget sample_exec ''id'') (run_bounded sample_run) half) = Inr fr)
    \<and> co_stdout (run_bounded sample_run) = decode_replace (take MAX_OUTPUT_BYTES [104, 105, 10])
    \<and> (co_stdout_truncated (run_bounded sample_run) \<longleftrightarrow> MAX_OUTPUT_BYTES < length [104 :: nat, 105, 10])"
  using helper_answers_fit [OF sample_exec_portable [of half_text half_value] refl sample_ordinary refl sample_response]
  by (simp add: sample_run_def printed_def)

text \<open>C36. One exchange: the frame of an accepted request whose command has no NUL, on any stream that brings it whole and an output
  that does not stop, makes the helper run the command once
  and answer with one frame, and reading that frame gives the result of this request under the request's own id, with both streams left at the
  first byte behind the frames.\<close>

theorem exchange_roundtrip:
  assumes "portable rp fl (JObj q)" and "helper_accepts q" and "encode_frame rp MAX_FRAME_BYTES q = Inr fr" and "in_data si = fr @ rest"
    and "perform (jget q ''command'') (jget q ''stdin'') (jget q ''timeout_seconds'') = (r, duration)"
    and "ordinary rp r duration" and "fl (rp duration) = duration" and "Stops \<notin> set (out_accepts so)"
    and "0 \<notin> set (str_of (jget q ''command''))"
  shows "\<exists>si' so' data. helper_turn fl rp perform si so = (Inr (), si', so') \<and> in_data si' = rest \<and> out_data so' = out_data so @ data
    \<and> (\<forall>more. yields (read_frame fl MAX_FRAME_BYTES False) (data @ more) (result_frame (jget q ''id'') (run_bounded r) duration) more)"
proof -
  let ?a = "result_frame (jget q ''id'') (run_bounded r) duration"
  have a: "helper_response perform q = Inr ?a" using helper_response_accepted [of q perform r duration] assms(2,5,9) by simp
  have "portable rp fl (JObj ?a) \<and> length (body rp ?a) \<le> MAX_FRAME_BYTES"
    using helper_response_fits [where perform = perform and fl = fl and rp = rp and q = q and r = r and duration = duration] assms(1,5-7) a by metis
  then obtain ar where ar: "helper_frame rp ?a = Inr ar" "encode_frame rp MAX_FRAME_BYTES ?a = Inr ar" and p: "portable rp fl (JObj ?a)"
    using helper_frame_encode by blast
  obtain si' where si: "helper_read_frame fl si = (Inr q, si')" "in_data si' = rest"
    using helper_frame_read [OF assms(1,3) order_refl, of rest] assms(4) by (cases "helper_read_frame fl si") (auto simp: yields_def)
  obtain u so' where w: "write_all ar so = (u, so')" by fastforce
  then have u: "u = Inr ()" using write_all_steady [OF assms(8), of ar] by simp
  then have "out_data so' = out_data so @ ar" using write_all_sound [OF w] by simp
  moreover have "helper_turn fl rp perform si so = (Inr (), si', so')"
    using si(1) w u ar(1) a by (simp add: helper_turn_def helper_write_frame_def)
  moreover have "yields (read_frame fl MAX_FRAME_BYTES False) (ar @ more) ?a more" for more
    by (rule frame_read [OF p ar(2)]) simp
  ultimately show ?thesis using si(2) by blast
qed

definition sample_frame :: "nat list" where
  "sample_frame = (case encode_frame half_text MAX_FRAME_BYTES sample_exec of Inl _ \<Rightarrow> [] | Inr fr \<Rightarrow> fr)"

lemma sample_frame: "encode_frame half_text MAX_FRAME_BYTES sample_exec = Inr sample_frame"
proof -
  have "bytes (frame_text half_text (JObj sample_exec)) \<le> 200"
    by (simp add: sample_exec_def exec_request_def json_string_bytes)
      (simp add: lit_def escape_char_def utf8_char_def PROTOCOL_VERSION_def str_int_def dec_digits.simps)
  then have "length (body half_text sample_exec) \<le> MAX_FRAME_BYTES" by (simp add: body_def bytes_def MAX_FRAME_BYTES_def)
  from helper_frame_encode [OF sample_exec_portable this] show ?thesis by (auto simp: sample_frame_def)
qed

theorem exchange_roundtrip_witness:
  "\<exists>si' so' data. helper_turn half_value half_text sample_perform \<lparr>in_data = sample_frame @ [1], in_chunks = [0, 2]\<rparr> \<lparr>out_data = [], out_accepts = []\<rparr>
      = (Inr (), si', so') \<and> in_data si' = [1] \<and> out_data so' = [] @ data
    \<and> (\<forall>more. yields (read_frame half_value MAX_FRAME_BYTES False) (data @ more)
        (result_frame (jget sample_exec ''id'') (run_bounded sample_run) half) more)"
  using sample_command exchange_roundtrip [OF sample_exec_portable [of half_text half_value] sample_exec_accepted sample_frame _ refl sample_ordinary refl,
      of "\<lparr>in_data = sample_frame @ [1], in_chunks = [0, 2]\<rparr>" "[1]" "\<lparr>out_data = [], out_accepts = []\<rparr>"] by simp

section \<open>The daemon\<close>

lemma handle_forwards:
  assumes "hd_forwarded (handle_client en describe) = Some r"
  obtains q where "de_request en = Inr q" "valid_request q" "jget q ''type'' = JStr (lit ''exec'')" "de_gate en = Inr ()" "\<not> de_disconnected en"
    "de_ack_written en" "r = remote_request (de_keys en) q" "handle_client en describe = serve_exec en describe q"
proof -
  obtain q where q: "de_request en = Inr q" using assms by (cases "de_request en") (simp_all add: handle_client_def only_replies_def)
  have t: "jget q ''type'' = JStr (lit ''exec'')" "valid_request q"
    using assms q by (auto simp: handle_client_def only_replies_def Let_def split: if_splits)
  then have h: "handle_client en describe = serve_exec en describe q" using q by (simp add: handle_client_def)
  have "de_gate en = Inr () \<and> \<not> de_disconnected en \<and> de_ack_written en \<and> r = remote_request (de_keys en) q"
    using assms unfolding h serve_exec_def
    by (auto simp: only_replies_def Let_def split: sum.splits if_splits)
  then show thesis using that q t h by blast
qed

text \<open>The copy of a request that is forwarded.\<close>

lemma copied_get: "distinct ks \<Longrightarrow> k \<in> set ks \<Longrightarrow> jget (map (\<lambda>k. (lit k, jget q k)) ks) k = jget q k"
  by (induction ks) auto

lemma remote_request_get:
  assumes "distinct ks" "set ks = expected_keys" "k \<in> expected_keys"
  shows "jget (remote_request ks q) k
    = (if k = ''timeout_seconds'' \<and> clamped q then JFloat (Fin MAX_COMMAND_TIMEOUT_SECONDS) else jget q k)"
  using copied_get [of ks k q] assms by (simp add: remote_request_def Let_def)

lemma remote_request_keys: "set ks = expected_keys \<Longrightarrow> dkeys (remote_request ks q) = lit ` expected_keys"
proof -
  assume k: "set ks = expected_keys"
  have "dkeys (map (\<lambda>k. (lit k, jget q k)) ks) = lit ` expected_keys" using k by (auto simp: dkeys_def image_iff)
  moreover have "''timeout_seconds'' \<in> expected_keys" by (simp add: expected_keys_def)
  ultimately show ?thesis by (auto simp: remote_request_def Let_def jset_def)
qed

lemma remote_request_sound:
  assumes "valid_request q" and "jget q ''type'' = JStr (lit ''exec'')" and "distinct ks" and "set ks = expected_keys"
  shows "helper_accepts (remote_request ks q)"
    and "\<And>k. k \<in> {''id'', ''command'', ''stdin''} \<Longrightarrow> jget (remote_request ks q) k = jget q k"
    and "0 < num_val (jget (remote_request ks q) ''timeout_seconds'') \<and> num_val (jget (remote_request ks q) ''timeout_seconds'') \<le> MAX_COMMAND_TIMEOUT_SECONDS"
proof -
  let ?r = "remote_request ks q"
  note get = remote_request_get [OF assms(3,4)]
  have keys: "''type'' \<in> expected_keys" "''id'' \<in> expected_keys" "''command'' \<in> expected_keys" "''stdin'' \<in> expected_keys" "''timeout_seconds'' \<in> expected_keys"
    by (simp_all add: expected_keys_def)
  have ceiling: "finite_positive_number (JFloat (Fin MAX_COMMAND_TIMEOUT_SECONDS))"
    by (simp add: finite_positive_number_def MAX_COMMAND_TIMEOUT_SECONDS_def MAX_TIMEOUT_SECONDS_def)
  have timeout: "finite_positive_number (jget ?r ''timeout_seconds'')" "num_val (jget ?r ''timeout_seconds'') \<le> MAX_COMMAND_TIMEOUT_SECONDS"
    using assms(1) get [OF keys(5)] ceiling
    by (auto simp: valid_request_def clamped_def is_bounded_positive_timeout_def finite_positive_number_def)
  show "helper_accepts ?r"
    using assms(1,2) timeout get keys remote_request_keys [OF assms(4)] by (simp add: helper_accepts_def valid_request_def)
  show "jget ?r k = jget q k" if "k \<in> {''id'', ''command'', ''stdin''}" for k
    using that get keys by auto
  show "0 < num_val (jget ?r ''timeout_seconds'') \<and> num_val (jget ?r ''timeout_seconds'') \<le> MAX_COMMAND_TIMEOUT_SECONDS"
    using timeout by (auto simp: finite_positive_number_def split: sum.splits)
qed

text \<open>C37. The gates in front of the remote end: a request is forwarded only if it is a complete exec request of this protocol and the policy
  file holds, at that moment, a valid record in mode \<open>reuse_only\<close>; the remote helper accepts everything that is forwarded; and
  what is forwarded is the caller's command and standard input with a deadline of at most \<open>MAX_COMMAND_TIMEOUT_SECONDS\<close>. The gate is
  \<open>serialize_reuse_launch\<close> on the policy store.\<close>

theorem forwarding_is_gated:
  assumes "hd_forwarded (handle_client en describe) = Some r" and "distinct (de_keys en)" and "set (de_keys en) = expected_keys"
    and "de_gate en = fst (serialize_reuse_launch pr now st)"
  shows "(\<exists>s. doc st = Some s \<and> state_ok now s \<and> jget s ''mode'' = JStr (lit ''reuse_only''))
    \<and> helper_accepts r
    \<and> (\<exists>q. de_request en = Inr q \<and> jget r ''id'' = jget q ''id'' \<and> jget r ''command'' = jget q ''command'' \<and> jget r ''stdin'' = jget q ''stdin'')
    \<and> 0 < num_val (jget r ''timeout_seconds'') \<and> num_val (jget r ''timeout_seconds'') \<le> MAX_COMMAND_TIMEOUT_SECONDS"
proof -
  from assms(1) obtain q where q: "de_request en = Inr q" "valid_request q" "jget q ''type'' = JStr (lit ''exec'')" "de_gate en = Inr ()"
      "r = remote_request (de_keys en) q"
    by (rule handle_forwards)
  obtain st' where "serialize_reuse_launch pr now st = (Inr (), st')" using assms(4) q(4) by (cases "serialize_reuse_launch pr now st") simp
  then have "\<exists>s. doc st = Some s \<and> state_ok now s \<and> jget s ''mode'' = JStr (lit ''reuse_only'')"
    by (rule reuse_launch_cases) auto
  then show ?thesis using q(1,5) remote_request_sound [OF q(2,3) assms(2,3)] by (intro conjI) auto
qed

definition sample_env :: daemon_env where
  "sample_env = \<lparr>de_request = Inr sample_exec, de_disconnected = False, de_gate = Inr (), de_ack_written = True, de_remote_written = Inr (),
     de_response = Inr (result_frame (JStr (lit ''7'')) (run_bounded sample_run) half), de_reply_written = True, de_note = lit ''shortened'',
     de_keys = [''stdin'', ''type'', ''protocol'', ''id'', ''command'', ''timeout_seconds''], de_pid = 1, de_ssh_pid = JNull, de_commands = 0\<rparr>"

lemma reuse_launch_open:
  assumes "accessible pr st" and "doc st = Some s" and "state_ok now s" and "jget s ''mode'' = JStr (lit ''reuse_only'')"
  shows "fst (serialize_reuse_launch pr now st) = Inr ()"
proof -
  obtain st1 where st1: "s_file st1 = s_file st" "dir_ok pr st1"
    and lk: "\<And>body :: store \<Rightarrow> unit res \<times> store. locked pr body st = body st1"
    using accessible_locked [OF assms(1)] by metis
  have "read_valid_state pr now st1 = Inr s"
    using st1 assms(1-3) by (auto simp: read_valid_state_iff doc_def accessible_def split: option.splits prod.splits content.splits json.splits)
  then show ?thesis using assms(4) by (simp add: serialize_reuse_launch_def lk lift_def reuse_gate_def)
qed

lemma sample_gate: "fst (serialize_reuse_launch sample_proc 1000 sample_store) = Inr ()"
  using reuse_launch_open [OF sample_accessible sample_doc, of 1000] sample_wf [of 1000]
  by (simp add: wf_state_def) (simp add: sample_state_def)

lemma sample_exec_valid: "valid_request sample_exec"
  using sample_exec_accepted
  by (simp add: valid_request_def helper_accepts_def) (simp add: sample_exec_def exec_request_def PROTOCOL_VERSION_def)

lemma sample_handled:
  "handle_client sample_env describe = \<lparr>hd_local = [dispatched_frame (JStr (lit ''7'')),
      noted (lit ''shortened'') (result_frame (JStr (lit ''7'')) (run_bounded sample_run) half)],
    hd_forwarded = Some (remote_request (de_keys sample_env) sample_exec), hd_stop = False, hd_end = Goes_on\<rparr>"
proof -
  have r: "de_request sample_env = Inr sample_exec" by (simp add: sample_env_def)
  have t: "jget sample_exec ''type'' = JStr (lit ''exec'')" "jget sample_exec ''id'' = JStr (lit ''7'')" "clamped sample_exec"
    by (simp_all add: sample_exec_def exec_request_def clamped_def)
  have "jget (result_frame (JStr (lit ''7'')) (run_bounded sample_run) half) ''id'' = JStr (lit ''7'')" by (simp add: result_frame_def)
  then show ?thesis using r t sample_exec_valid by (simp add: handle_client_def serve_exec_def sample_env_def Let_def replies_def)
qed

theorem forwarding_is_gated_witness:
  "helper_accepts (remote_request (de_keys sample_env) sample_exec)
    \<and> num_val (jget (remote_request (de_keys sample_env) sample_exec) ''timeout_seconds'') \<le> MAX_COMMAND_TIMEOUT_SECONDS"
proof -
  have "hd_forwarded (handle_client sample_env (\<lambda>_. [])) = Some (remote_request (de_keys sample_env) sample_exec)"
    by (simp add: sample_handled)
  from forwarding_is_gated [OF this, of sample_proc 1000 sample_store] show ?thesis
    using sample_gate by (simp add: sample_env_def expected_keys_def insert_commute)
qed

section \<open>A command with a NUL\<close>

lemma build_request_cases:
  assumes "build_request rp request_id command timeout input_text = Inr (q, frame)"
  shows "q = exec_request request_id command timeout input_text" and "command_within_exec_limit (JStr command)"
    and "timeout = JNull \<or> is_bounded_positive_timeout timeout" and "optional_stdin (jget q ''stdin'')"
proof -
  show q: "q = exec_request request_id command timeout input_text" and "command_within_exec_limit (JStr command)"
      and "timeout = JNull \<or> is_bounded_positive_timeout timeout"
    using assms by (auto simp: build_request_def Let_def ensure_def split: if_splits sum.splits pyerr.splits)
  have "case input_text of None \<Rightarrow> True | Some t \<Rightarrow> utf8_text_within_limit (JStr t) MAX_STDIN_BYTES True"
    using assms by (auto simp: build_request_def Let_def ensure_def split: if_splits sum.splits pyerr.splits)
  then show "optional_stdin (jget q ''stdin'')" unfolding q by (simp add: exec_request_def optional_stdin_def split: option.splits)
qed

lemma build_request_valid:
  assumes "build_request rp request_id command timeout input_text = Inr (q, frame)"
    and "utf8_text_within_limit (JStr request_id) MAX_REQUEST_ID_BYTES False"
  shows "valid_request q \<and> jget q ''type'' = JStr (lit ''exec'') \<and> jget q ''command'' = JStr command"
proof -
  note b = build_request_cases [OF assms(1)]
  have "dkeys q = lit ` expected_keys" unfolding b(1) by (auto simp: exec_request_def dkeys_def expected_keys_def)
  moreover have "jget q ''protocol'' = JInt PROTOCOL_VERSION" "jget q ''id'' = JStr request_id" "jget q ''command'' = JStr command"
      "jget q ''timeout_seconds'' = timeout" "jget q ''type'' = JStr (lit ''exec'')"
    unfolding b(1) by (simp_all add: exec_request_def)
  ultimately show ?thesis using b(2-4) assms(2) by (simp add: valid_request_def)
qed

text \<open>C39. No layer stops a command that contains a NUL character: \<open>execute\<close> sends it, the daemon finds the request valid and
  forwards a frame the helper accepts, and there the exception of \<open>Popen\<close> ends the main loop before anything is
  answered: the one authenticated channel is gone.\<close>

theorem nul_command_ends_helper:
  assumes "build_request rp request_id command timeout input_text = Inr (q, frame)"
    and "utf8_text_within_limit (JStr request_id) MAX_REQUEST_ID_BYTES False" and "0 \<in> set command"
    and "distinct ks" and "set ks = expected_keys" and "portable rp fl (JObj (remote_request ks q))"
    and "encode_frame rp MAX_FRAME_BYTES (remote_request ks q) = Inr fr" and "in_data si = fr @ rest"
  shows "valid_request q \<and> (\<exists>si'. helper_turn fl rp perform si so = (Inl (ValueError ''embedded null byte''), si', so))"
proof -
  have v: "valid_request q" "jget q ''type'' = JStr (lit ''exec'')" "jget q ''command'' = JStr command"
    using build_request_valid [OF assms(1,2)] by simp_all
  let ?r = "remote_request ks q"
  have "helper_accepts ?r" "str_of (jget ?r ''command'') = command"
    using remote_request_sound(1) [OF v(1,2) assms(4,5)] remote_request_sound(2) [OF v(1,2) assms(4,5), of "''command''"] v(3) by simp_all
  then have "helper_response perform ?r = Inl (ValueError ''embedded null byte'')"
    using helper_response_accepted [of ?r perform] assms(3) by (cases "perform (jget ?r ''command'') (jget ?r ''stdin'') (jget ?r ''timeout_seconds'')") simp
  moreover obtain si' where "helper_read_frame fl si = (Inr ?r, si')"
    using helper_frame_read [OF assms(6,7) order_refl, of rest] assms(8) by (cases "helper_read_frame fl si") (auto simp: yields_def)
  ultimately show ?thesis using v(1) by (simp add: helper_turn_def)
qed

definition nul_request :: jdict where
  "nul_request = exec_request (lit ''7'') [105, 0] (JInt 5) None"

definition sample_keys :: "string list" where
  "sample_keys = [''stdin'', ''type'', ''protocol'', ''id'', ''command'', ''timeout_seconds'']"

definition nul_forwarded :: jdict where
  "nul_forwarded = remote_request sample_keys nul_request"

lemma nul_forwarded:
  "nul_forwarded = [(lit ''stdin'', JNull), (lit ''type'', JStr (lit ''exec'')), (lit ''protocol'', JInt PROTOCOL_VERSION),
     (lit ''id'', JStr (lit ''7'')), (lit ''command'', JStr [105, 0]), (lit ''timeout_seconds'', JInt 5)]"
  by (simp add: nul_forwarded_def remote_request_def sample_keys_def nul_request_def exec_request_def clamped_def MAX_COMMAND_TIMEOUT_SECONDS_def)

lemma nul_portable: "portable rp fl (JObj nul_request)" "portable rp fl (JObj nul_forwarded)"
  by (simp_all add: nul_request_def exec_request_def nul_forwarded portable_simps) (simp_all add: lit_def)

lemma nul_encoded:
  "\<exists>fr. encode_frame rp MAX_FRAME_BYTES nul_request = Inr fr" "\<exists>fr. encode_frame rp MAX_FRAME_BYTES nul_forwarded = Inr fr"
proof -
  have "bytes (frame_text rp (JObj nul_request)) \<le> 200" "bytes (frame_text rp (JObj nul_forwarded)) \<le> 200"
    by (simp_all add: nul_request_def exec_request_def nul_forwarded json_string_bytes)
      (simp_all add: lit_def escape_char_def utf8_char_def PROTOCOL_VERSION_def str_int_def dec_digits.simps)
  then have "length (body rp nul_request) \<le> MAX_FRAME_BYTES" "length (body rp nul_forwarded) \<le> MAX_FRAME_BYTES"
    by (simp_all add: body_def bytes_def MAX_FRAME_BYTES_def)
  then show "\<exists>fr. encode_frame rp MAX_FRAME_BYTES nul_request = Inr fr" "\<exists>fr. encode_frame rp MAX_FRAME_BYTES nul_forwarded = Inr fr"
    using helper_frame_encode nul_portable by blast+
qed

lemma nul_built: "\<exists>frame. build_request rp (lit ''7'') [105, 0] (JInt 5) None = Inr (nul_request, frame)"
proof -
  have "command_within_exec_limit (JStr [105, 0])"
    by (simp add: command_within_exec_limit_def utf8_text_within_limit_def MAX_COMMAND_BYTES_def encode_utf8_def is_scalar_def utf8_char_def)
  moreover have "is_bounded_positive_timeout (JInt 5)"
    by (simp add: is_bounded_positive_timeout_def MAX_TIMEOUT_SECONDS_def float_limit_def)
  ultimately show ?thesis
    using nul_encoded(1) [of rp] by (auto simp: build_request_def Let_def nul_request_def [symmetric] MAX_COMMAND_TIMEOUT_SECONDS_def)
qed

theorem nul_command_ends_helper_witness:
  "\<exists>fr si'. encode_frame half_text MAX_FRAME_BYTES nul_forwarded = Inr fr
    \<and> helper_turn half_value half_text sample_perform \<lparr>in_data = fr @ [1], in_chunks = [0, 2]\<rparr> \<lparr>out_data = [], out_accepts = []\<rparr>
      = (Inl (ValueError ''embedded null byte''), si', \<lparr>out_data = [], out_accepts = []\<rparr>)"
proof -
  obtain frame where b: "build_request half_text (lit ''7'') [105, 0] (JInt 5) None = Inr (nul_request, frame)" using nul_built by blast
  obtain fr where f: "encode_frame half_text MAX_FRAME_BYTES nul_forwarded = Inr fr" using nul_encoded(2) by blast
  have i: "utf8_text_within_limit (JStr (lit ''7'')) MAX_REQUEST_ID_BYTES False"
    by (simp add: utf8_text_within_limit_def MAX_REQUEST_ID_BYTES_def encode_utf8_def is_scalar_def utf8_char_def lit_def)
  have k: "distinct sample_keys" "set sample_keys = expected_keys" by (auto simp: sample_keys_def expected_keys_def)
  show ?thesis
    using nul_command_ends_helper [OF b i _ k nul_portable(2) [of half_text half_value, unfolded nul_forwarded_def] f [unfolded nul_forwarded_def],
        of "\<lparr>in_data = fr @ [1], in_chunks = [0, 2]\<rparr>" "[1]"] f by auto
qed

section \<open>What a caller concludes\<close>

text \<open>Reading one frame of those the daemon wrote: the next of them, or the deadline passes first; behind the last the stream ends.\<close>

fun sees :: "jdict list \<Rightarrow> jdict seen \<Rightarrow> jdict list \<Rightarrow> bool" where
  "sees [] x rest \<longleftrightarrow> x \<in> {Broken, Expired} \<and> rest = []"
| "sees (f # fs) x rest \<longleftrightarrow> (x = Seen f \<and> rest = fs) \<or> (x = Expired \<and> rest = f # fs)"

text \<open>One request over a local stream that loses nothing: a caller whose connection or whose write broke left the daemon without a request,
  a caller that wrote its request reads what the daemon wrote.\<close>

definition local_exchange :: "daemon_env \<Rightarrow> handled \<Rightarrow> unit seen \<Rightarrow> unit seen \<Rightarrow> jdict seen \<Rightarrow> jdict seen \<Rightarrow> bool" where
  "local_exchange en h connects sent acknowledged received \<longleftrightarrow>
     (connects = Broken \<or> sent = Broken \<longrightarrow> \<not> (\<exists>q. de_request en = Inr q))
   \<and> (\<exists>rest rest'. sees (hd_local h) acknowledged rest \<and> sees rest received rest')"

lemma nothing_forwarded:
  assumes "hd_forwarded (handle_client en describe) = None" and "\<And>q. de_request en = Inr q \<Longrightarrow> jget q ''type'' = JStr (lit ''exec'')"
  shows "\<forall>f \<in> set (hd_local (handle_client en describe)). jget f ''type'' = JStr (lit ''error'')"
proof (cases "de_request en")
  case (Inl e)
  then show ?thesis by (simp add: handle_client_def only_replies_def)
next
  case (Inr q)
  then have t: "jget q ''type'' = JStr (lit ''exec'')" by (rule assms(2))
  show ?thesis
  proof (cases "valid_request q")
    case False
    with t Inr show ?thesis by (simp add: handle_client_def only_replies_def replies_def invalid_request_frame_def)
  next
    case True
    with t Inr have h: "handle_client en describe = serve_exec en describe q" by (simp add: handle_client_def)
    show ?thesis using assms(1) unfolding h serve_exec_def
      by (auto simp: only_replies_def replies_def policy_denied_frame_def Let_def split: sum.splits if_splits)
  qed
qed

lemma ack_forwarded:
  assumes "handle_client en describe = serve_exec en describe q" and "de_gate en = Inr ()" and "\<not> de_disconnected en" and "de_ack_written en"
  shows "\<exists>tail. hd_local (handle_client en describe) = dispatched_frame (jget q ''id'') # tail
    \<and> (\<forall>f \<in> set tail. \<exists>response. de_response en = Inr response \<and> jget response ''id'' = jget q ''id''
        \<and> f = (if clamped q then noted (de_note en) response else response)) \<and> length tail \<le> 1"
  using assms by (auto simp: serve_exec_def Let_def replies_def split: sum.splits)

lemma execute_verdicts:
  "execute cv in_flight rid connects sent ack received \<in> {Policy_denied, Refused, Unavailable} \<Longrightarrow>
     connects = Broken \<or> sent = Broken \<or> ack = Broken \<or> (\<exists>f. ack = Seen f \<and> jget f ''type'' = JStr (lit ''error''))"
  "execute cv in_flight rid connects sent ack received = Completed r \<Longrightarrow>
     connects = Seen () \<and> sent = Seen () \<and> (\<exists>f g. ack = Seen f \<and> is_dispatched rid f \<and> received = Seen g
       \<and> execution_result cv g = Inr r)"
  by (auto simp: execute_def undispatched_error_def conclude_def split: seen.splits if_splits sum.splits pyerr.splits)

text \<open>C38. The caller's report can be trusted: on a local socket that loses nothing it was given (\<open>local_exchange\<close>), whatever else fails, in the daemon, at the policy gate, on the remote stream or in the
  time the caller waits, \<open>execute\<close> reports that nothing was run only if the daemon forwarded nothing, and returns a
  result only if the daemon forwarded this very request and the remote end answered under its id. Everything else is an
  unknown outcome.\<close>

theorem reports_are_honest:
  assumes "local_exchange en (handle_client en describe) connects sent acknowledged received"
    and "\<And>q. de_request en = Inr q \<Longrightarrow> jget q ''id'' = JStr request_id \<and> jget q ''type'' = JStr (lit ''exec'')"
  shows "(execute cv in_flight request_id connects sent acknowledged received \<in> {Policy_denied, Refused, Unavailable}
      \<longrightarrow> hd_forwarded (handle_client en describe) = None)
    \<and> (\<forall>r. execute cv in_flight request_id connects sent acknowledged received = Completed r \<longrightarrow>
        (\<exists>q response. de_request en = Inr q \<and> hd_forwarded (handle_client en describe) = Some (remote_request (de_keys en) q)
          \<and> de_response en = Inr response \<and> jget response ''id'' = JStr request_id
          \<and> execution_result cv (if clamped q then noted (de_note en) response else response) = Inr r))"
proof (cases "hd_forwarded (handle_client en describe)")
  case None
  have err: "\<forall>f \<in> set (hd_local (handle_client en describe)). jget f ''type'' = JStr (lit ''error'')"
    using nothing_forwarded [OF None] assms(2) by blast
  have "\<not> is_dispatched request_id f" if "acknowledged = Seen f" for f
  proof -
    have "f \<in> set (hd_local (handle_client en describe))"
      using assms(1) that by (cases "hd_local (handle_client en describe)") (auto simp: local_exchange_def)
    then show ?thesis using err by (auto simp: is_dispatched_def)
  qed
  then have "execute cv in_flight request_id connects sent acknowledged received \<noteq> Completed r" for r
    using execute_verdicts(2) by blast
  then show ?thesis using None by blast
next
  case (Some f)
  then obtain q where q: "de_request en = Inr q" "f = remote_request (de_keys en) q" "de_gate en = Inr ()" "\<not> de_disconnected en" "de_ack_written en"
      "handle_client en describe = serve_exec en describe q"
    by (rule handle_forwards) blast
  obtain tail where tail: "hd_local (handle_client en describe) = dispatched_frame (JStr request_id) # tail"
      "\<forall>f \<in> set tail. \<exists>response. de_response en = Inr response \<and> jget response ''id'' = JStr request_id
        \<and> f = (if clamped q then noted (de_note en) response else response)"
    using ack_forwarded [OF q(6,3-5)] assms(2) [OF q(1)] by auto
  have whole: "connects \<noteq> Broken" "sent \<noteq> Broken" using assms(1) q(1) by (auto simp: local_exchange_def)
  have a: "acknowledged = Expired \<or> acknowledged = Seen (dispatched_frame (JStr request_id)) \<and> (\<forall>g. received = Seen g \<longrightarrow> g \<in> set tail)"
    using assms(1) tail(1) by (cases tail) (auto simp: local_exchange_def)
  have "acknowledged \<noteq> Broken" using a by force
  moreover have "\<not> (\<exists>f. acknowledged = Seen f \<and> jget f ''type'' = JStr (lit ''error''))"
    using a by (elim disjE conjE) (simp_all add: dispatched_frame_def)
  ultimately have "\<not> (connects = Broken \<or> sent = Broken \<or> acknowledged = Broken
      \<or> (\<exists>f. acknowledged = Seen f \<and> jget f ''type'' = JStr (lit ''error'')))"
    using whole by simp
  then have "execute cv in_flight request_id connects sent acknowledged received \<notin> {Policy_denied, Refused, Unavailable}"
    by (rule contrapos_nn) (rule execute_verdicts(1))
  moreover have "\<exists>response. de_response en = Inr response \<and> jget response ''id'' = JStr request_id
      \<and> execution_result cv (if clamped q then noted (de_note en) response else response) = Inr r"
    if done': "execute cv in_flight request_id connects sent acknowledged received = Completed r" for r
  proof -
    from execute_verdicts(2) [OF done'] obtain g where g: "received = Seen g" "execution_result cv g = Inr r" "acknowledged \<noteq> Expired" by auto
    with a have "g \<in> set tail" by simp
    with tail(2) obtain response where "de_response en = Inr response" "jget response ''id'' = JStr request_id"
        "g = (if clamped q then noted (de_note en) response else response)"
      by blast
    with g(2) show ?thesis by (intro exI [of _ response]) simp
  qed
  ultimately show ?thesis using q(1,2) Some by blast
qed

lemma dget_jset_any: "dget (jset k v d) k' = (if k' = lit k then Some v else dget d k')"
  by (simp add: jset_def)

text \<open>Conversions that refuse every string.\<close>

definition sample_conversions :: conversions where
  "sample_conversions = \<lparr>cv_int = (\<lambda>_. Inl (ValueError ''invalid literal for int()'')),
     cv_float = (\<lambda>_. Inl (ValueError ''could not convert string to float'')), cv_str = (\<lambda>_. [])\<rparr>"

theorem reports_are_honest_witness:
  "\<exists>r. execute sample_conversions JNull (lit ''7'') (Seen ()) (Seen ()) (Seen (dispatched_frame (JStr (lit ''7''))))
      (Seen (noted (lit ''shortened'') (result_frame (JStr (lit ''7'')) (run_bounded sample_run) half))) = Completed r
    \<and> (\<exists>q. de_request sample_env = Inr q
        \<and> hd_forwarded (handle_client sample_env (\<lambda>_. [])) = Some (remote_request (de_keys sample_env) q))"
proof -
  let ?frame = "noted (lit ''shortened'') (result_frame (JStr (lit ''7'')) (run_bounded sample_run) half)"
  have e: "local_exchange sample_env (handle_client sample_env (\<lambda>_. [])) (Seen ()) (Seen ()) (Seen (dispatched_frame (JStr (lit ''7'')))) (Seen ?frame)"
    unfolding sample_handled local_exchange_def handled.simps by (intro conjI exI [of _ "[?frame]"] exI [of _ "[]"]) simp_all
  have i: "jget q ''id'' = JStr (lit ''7'') \<and> jget q ''type'' = JStr (lit ''exec'')" if "de_request sample_env = Inr q" for q
    using that by (auto simp: sample_env_def sample_exec_def exec_request_def)
  obtain r where "execute sample_conversions JNull (lit ''7'') (Seen ()) (Seen ()) (Seen (dispatched_frame (JStr (lit ''7'')))) (Seen ?frame) = Completed r"
    by (cases "co_stderr (run_bounded sample_run) = []")
      (simp_all add: execute_def conclude_def is_dispatched_def dispatched_frame_def dkeys_def noted_def execution_result_def
        result_frame_def Let_def dget_jset_any)
  then show ?thesis using reports_are_honest [OF e i, of sample_conversions JNull] by blast
qed

section \<open>A result that cannot be converted\<close>

text \<open>Text that is no number is a \<open>ValueError\<close> for \<open>int\<close> and \<open>float\<close>.\<close>

definition value_errors :: "conversions \<Rightarrow> bool" where
  "value_errors cv \<longleftrightarrow> (\<forall>s e. cv_int cv s = Inl e \<or> cv_float cv s = Inl e \<longrightarrow> (\<exists>m. e = ValueError m))"

lemma conversion_errors:
  assumes "value_errors cv"
  shows "to_int cv v = Inl e \<Longrightarrow> (\<exists>m. e = ValueError m \<or> e = TypeError m) \<or> e = OverflowError \<and> (v = JFloat PosInf \<or> v = JFloat NegInf)"
    and "to_float cv v = Inl e \<Longrightarrow> (\<exists>m. e = ValueError m \<or> e = TypeError m) \<or> e = OverflowError \<and> (\<exists>i. v = JInt i \<and> float_limit \<le> \<bar>i\<bar>)"
proof -
  show "to_int cv v = Inl e \<Longrightarrow> (\<exists>m. e = ValueError m \<or> e = TypeError m) \<or> e = OverflowError \<and> (v = JFloat PosInf \<or> v = JFloat NegInf)"
    using assms unfolding value_errors_def by (cases "(cv, v)" rule: to_int.cases) auto
  show "to_float cv v = Inl e \<Longrightarrow> (\<exists>m. e = ValueError m \<or> e = TypeError m) \<or> e = OverflowError \<and> (\<exists>i. v = JInt i \<and> float_limit \<le> \<bar>i\<bar>)"
    using assms unfolding value_errors_def by (cases "(cv, v)" rule: to_float.cases) (auto split: if_splits)
qed

text \<open>A result frame with an infinite return code, or with a whole number of seconds that no float can hold.\<close>

definition overflows :: "conversions \<Rightarrow> jdict \<Rightarrow> bool" where
  "overflows cv g \<longleftrightarrow> dget g (lit ''returncode'') \<in> {Some (JFloat PosInf), Some (JFloat NegInf)}
     \<or> (\<exists>v n i. dget g (lit ''returncode'') = Some v \<and> to_int cv v = Inr n
         \<and> jget_or g ''duration_seconds'' (JFloat (Fin 0)) = JInt i \<and> float_limit \<le> \<bar>i\<bar>)"

lemma execution_result_errors:
  assumes "value_errors cv"
  shows "overflows cv g \<Longrightarrow> execution_result cv g = Inl OverflowError"
    and "execution_result cv g = Inl e \<Longrightarrow> (\<exists>m. e = KeyError m \<or> e = ValueError m \<or> e = TypeError m) \<or> e = OverflowError \<and> overflows cv g"
proof -
  show "overflows cv g \<Longrightarrow> execution_result cv g = Inl OverflowError"
    by (auto simp: overflows_def execution_result_def)
  show "execution_result cv g = Inl e \<Longrightarrow> (\<exists>m. e = KeyError m \<or> e = ValueError m \<or> e = TypeError m) \<or> e = OverflowError \<and> overflows cv g"
  proof (cases "dget g (lit ''returncode'')")
    case None
    then show "execution_result cv g = Inl e \<Longrightarrow> ?thesis" by (auto simp: execution_result_def)
  next
    case (Some v)
    assume r: "execution_result cv g = Inl e"
    show ?thesis
    proof (cases "to_int cv v")
      case (Inl e')
      then show ?thesis using r Some conversion_errors(1) [OF assms Inl] by (auto simp: execution_result_def overflows_def)
    next
      case (Inr n)
      then have "to_float cv (jget_or g ''duration_seconds'' (JFloat (Fin 0))) = Inl e"
        using r Some by (cases "to_float cv (jget_or g ''duration_seconds'' (JFloat (Fin 0)))") (auto simp: execution_result_def)
      then show ?thesis using conversion_errors(2) [OF assms] Some Inr by (auto simp: overflows_def)
    qed
  qed
qed

text \<open>C40. The result of a dispatched command may leave \<open>execute\<close> as a bare \<open>OverflowError\<close> instead of an unknown outcome: exactly
  when the frame, which the JSON reader accepts, has an infinite return code or a duration beyond the float range. No other
  exception escapes, given that \<open>int\<close> and \<open>float\<close> of a text raise nothing but \<open>ValueError\<close>.\<close>

theorem overflow_escapes:
  assumes "value_errors cv"
  shows "execute cv in_flight request_id connects sent acknowledged received = Escapes e \<longleftrightarrow>
      e = OverflowError \<and> connects = Seen () \<and> sent = Seen () \<and> (\<exists>f g. acknowledged = Seen f \<and> is_dispatched request_id f
        \<and> received = Seen g \<and> jget g ''type'' = JStr (lit ''result'') \<and> jget g ''id'' = JStr request_id \<and> overflows cv g)"
proof -
  have "conclude cv request_id g = Escapes e \<longleftrightarrow>
      e = OverflowError \<and> jget g ''type'' = JStr (lit ''result'') \<and> jget g ''id'' = JStr request_id \<and> overflows cv g" for g
  proof (cases "execution_result cv g")
    case (Inl x)
    from execution_result_errors(2) [OF assms Inl] show ?thesis
    proof (elim disjE conjE exE)
      assume "x = OverflowError" "overflows cv g"
      then show ?thesis using Inl by (auto simp: conclude_def)
    qed (use Inl execution_result_errors(1) [OF assms, of g] in \<open>auto simp: conclude_def\<close>)
  next
    case (Inr r)
    then show ?thesis using execution_result_errors(1) [OF assms, of g] by (auto simp: conclude_def)
  qed
  then show ?thesis
    by (auto simp: execute_def undispatched_error_def is_dispatched_def split: seen.splits)
qed

definition infinite_result :: jdict where
  "infinite_result = [(lit ''type'', JStr (lit ''result'')), (lit ''id'', JStr (lit ''7'')), (lit ''returncode'', JFloat PosInf)]"

theorem overflow_escapes_witness:
  "execute sample_conversions JNull (lit ''7'') (Seen ()) (Seen ()) (Seen (dispatched_frame (JStr (lit ''7'')))) (Seen infinite_result)
    = Escapes OverflowError"
proof -
  have "value_errors sample_conversions" by (auto simp add: value_errors_def sample_conversions_def)
  from overflow_escapes [OF this] show ?thesis
    by (simp add: overflows_def infinite_result_def is_dispatched_def dispatched_frame_def dkeys_def)
qed

end
