(* ===== verification/Spec2Isabelle.thy ===== *)
theory Spec2Isabelle
  imports Policy_Properties Plan_Properties Run_Properties Exec_Properties Render_Properties Engine_Properties Backend_Properties Sync_Properties
    Broker_Properties
begin

text \<open>
  Verification of the control plane of the O2 MCP server (\<open>src/src/o2mcp\<close>).

  The program. A workstation process holds one authenticated channel to a Slurm cluster. Four parts of it make the
  decisions that must not go wrong, and these are what the development models:

  \<^item> the workstation policy (\<open>policy.py\<close>): one file, shared by all processes of the workstation, that says whether
    connections may be used and whether a login may be started;
  \<^item> the broker (\<open>broker.py\<close>, \<open>broker_protocol.py\<close>): a daemon that owns the channel, gives it to one command at a time, and
    talks frames to local callers and to a helper program at the remote end;
  \<^item> the execution engine (\<open>runorg/execution_*.py\<close>): signed execution plans are submitted stage by stage, at most once
    per attempt, reconciled against receipts, retried within signed bounds and followed up; everything it knows is in
    immutable files below the run directory;
  \<^item> the run registry (\<open>runorg/runs.py\<close>, \<open>runorg/registry_sync.py\<close>): the manifest \<open>run.json\<close> of a run and the
    append-only registry, updated from the engine's outbox.

  A plan (\<open>runorg/plans.py\<close> and its components) is built and signed first; its digest names every file and every
  Slurm comment of the engine. A submission publishes an intent, claims the run's lifecycle, publishes an invocation,
  calls \<open>sbatch\<close>, and publishes a record or a rejection. Reconciliation reads the records, asks the scheduler, observes
  receipts, publishes verdicts and a decision, authorizes retries and follow-ups, and appends an update to the outbox
  of the registry. The registry merges updates into the manifest.

  Python text and JSON.
  \<^item> \<open>Prelude\<close>: exceptions as values (\<open>pyerr\<close>), fallible results (\<open>'a res\<close>), loops, insertion-ordered dictionaries.
  \<^item> \<open>Py_Text\<close>, \<open>Py_Lines\<close>, \<open>Py_Path\<close>: strings as code points, lines, \<open>posixpath\<close>. \<open>Shell_Text\<close>: \<open>shlex.quote\<close> and the word
    a shell reads.
  \<^item> \<open>Json\<close>, \<open>Json_Text\<close>, \<open>Json_Parse\<close>, \<open>Json_Ascii\<close>: values and dynamic types, the four texts the package writes, UTF-8,
    and the decoder of \<open>runorg/strict_json.py\<close>. The locale \<open>json_writer\<close> states what the writers share and is
    interpreted by each of them: the decoder inverts every writer.

  Policy store (\<open>policy.py\<close>).
  \<^item> \<open>Policy\<close>: \<open>PolicyState\<close>, \<open>LoginGrant\<close>, validation. \<open>Policy_Store\<close>: mutex, reading, atomic replacement.
    \<open>Policy_Ops\<close>: every public operation of \<open>O2PolicyStore\<close>. Clock readings, \<open>uuid4\<close>, the process and failures of
    \<open>os.replace\<close> are inputs of a call.
  \<^item> \<open>Policy_Trace\<close>, \<open>Policy_Safety\<close>, \<open>Policy_Wf\<close>, \<open>Policy_Stop\<close>: runs of the store by any processes; the locale
    \<open>policy_invariant\<close> turns a fact kept by each mutation into one of every run, and is interpreted for the safety
    stop and for superseded approvals. \<open>Policy_Properties\<close> holds the properties: the stop holds once made; it can be made on
    every file whose values can be hashed and converted (\<open>plain_file\<close>), and cannot on one whose mode is an array.

  Broker.
  \<^item> \<open>Broker_Frames\<close>, \<open>Broker_Helper\<close> (\<open>broker_protocol.py\<close>): frames on byte streams that cut reads and writes anywhere, the
    program of the remote end. \<open>Frame_Facts\<close> interprets \<open>json_writer\<close> for the frame text and proves that frames survive any
    stream; \<open>Helper_Facts\<close> bounds the size of answers and says what of an output is reported.
  \<^item> \<open>Broker_Daemon\<close> (\<open>broker.py\<close>): \<open>BrokerServer._handle_client\<close> behind the policy gate of \<open>Policy_Ops\<close>, and
    \<open>BrokerClient.execute\<close>. Which connections, reads and writes succeed is an input, so every failure is covered.
    \<open>Broker_Properties\<close> composes the parts.

  Execution plans.
  \<^item> \<open>Plan_Values\<close>, \<open>Plan_Resources\<close> (\<open>runorg/plan_components.py\<close>), \<open>Plan_Stages\<close> (\<open>runorg/plan_stages.py\<close>), \<open>Plan_Graph\<close>,
    \<open>Plan\<close> (\<open>runorg/plans.py\<close>, \<open>runorg/prepared.py\<close>): constructors with their validation, \<open>to_dict\<close>, \<open>from_dict\<close>, the
    topological order, attempt bounds, seal and envelope.
  \<^item> The locale \<open>wire_value\<close> (constructor, encoder, decoder and their laws) has one interpretation per value class; it
    is extended by \<open>text_value\<close> (\<open>Plan_Encode\<close>: hashing never fails) and \<open>digest_value\<close> (\<open>Plan_Digest\<close>: equal canonical
    bytes come from equal values). \<open>Plan_Facts\<close>, \<open>Plan_Paths\<close>, \<open>Plan_Samples\<close>, \<open>Plan_Properties\<close>: facts, the directories
    the path tests confine, a concrete plan for the witnesses, the properties.

  Runs and registry.
  \<^item> \<open>Run_Ids\<close>, \<open>Run_Properties\<close>, \<open>Run_Manifest\<close> (\<open>runorg/runs.py\<close>, \<open>runorg/policy.py\<close>): identities, storage layout, the
    manifest and its texts, registry rows, classification. \<open>Registry_Outbox\<close> (\<open>runorg/registry_outbox.py\<close>): updates and
    their merge, a semilattice. \<open>Registry_Sync\<close> (\<open>runorg/registry_sync.py\<close>): the merge of an update into a manifest and
    the remote transaction.
  \<^item> \<open>Manifest_Facts\<close>, \<open>Sync_Facts\<close>, \<open>Registry_Facts\<close>, \<open>Sync_Properties\<close>: the merge refines a join of progress and job
    sets, so updates converge in any order; a rewrite keeps the manifest; the registry is an append-only file, which lists
    what was appended as long as it ends with a newline.

  Records of the engine.
  \<^item> \<open>Exec_Models\<close>, \<open>Exec_Records\<close> (\<open>runorg/execution_models.py\<close>), \<open>Exec_Paths\<close> (\<open>runorg/execution_paths.py\<close>),
    \<open>Exec_Render\<close> (\<open>runorg/execution_rendering.py\<close>), \<open>Reconciliation\<close> (\<open>runorg/execution_reconcile.py\<close>,
    \<open>runorg/reconciliation_receipts.py\<close>): identities, requests, dispatcher, durable records, retry policy.
    \<open>Exec_Properties\<close>, \<open>Render_Properties\<close>.
  \<^item> \<open>Exec_Files\<close> (the locale \<open>file_record\<close>: a record and its file), \<open>Exec_Evidence\<close> (\<open>runorg/execution_evidence.py\<close>):
    every reader of the durable evidence. The readers are mutually recursive; \<open>evidence_fuel\<close>, the sum of the attempt
    bounds of all stages plus one, unfolds them far enough (\<open>Evidence_Facts\<close>). \<open>Evidence_Properties\<close>.

  The engine.
  \<^item> \<open>Exec_World\<close> (\<open>runorg/execution_remote_fs.py\<close> as the coordinator sees it: create-once publication and
    compare-and-swap), \<open>Engine_Prog\<close>: a coordinator is a program of backend calls, so that others can act between any
    two of them.
  \<^item> \<open>Engine_Reads\<close>, \<open>Engine_Registry\<close>, \<open>Engine_Submit\<close>, \<open>Engine_Reconcile\<close> (\<open>runorg/execution_engine.py\<close>,
    \<open>runorg/execution_registry.py\<close>, \<open>runorg/execution_followups.py\<close>, \<open>runorg/execution_authorization.py\<close>): submission with
    replay and recovery, reconciliation, retries, follow-ups, outbox. Submission and follow-ups call each other; the
    recursion is bounded by the number of stages, which \<open>Engine_Depth\<close> proves to be enough. \<open>drain_outbox\<close> is bounded by
    a parameter that counts the compare-and-swap conflicts of other coordinators.
  \<^item> \<open>Reconcile_Facts\<close>, \<open>Reconcile_Properties\<close>: one reconciliation alone. \<open>Engine_Logic\<close>: what a coordinator may do around
    \<open>sbatch\<close>, by a weakest-precondition rule. \<open>Engine_Cluster\<close>: any number of coordinators, which may stop, lose answers and
    race (\<open>cluster_step\<close>), and the invariant behind exactly-once submission. \<open>Engine_Runs\<close>: a coordinator that runs alone
    is one behaviour of the cluster. \<open>Engine_Properties\<close>.
  \<^item> \<open>Exec_Backend\<close>, \<open>Backend_Properties\<close> (\<open>runorg/execution_backend.py\<close>): what the backend concludes from the output of
    the commands it runs.

  Assumptions. A reported outcome of \<open>sbatch\<close> is truthful: a refusal comes from a call that made no job, an accepted job
  is the one the call made; anything else may be lost (\<open>truthful\<close>). The scheduler lists only jobs it took. Create-once
  publication, compare-and-swap and the registry transaction are atomic, which is what the remote programs' locks
  and links are for; a crash between the replacement of a manifest and the append of its row is left out. A local socket delivers what was written to it, or the end of the stream, or nothing in time. SHA-256,
  the value and the text of floats, \<open>int\<close> and \<open>float\<close> of text, Unicode case tables and the iteration order of Python sets
  are parameters. The order is a function of the set, so two equal sets are iterated alike in one merge; CPython may do otherwise,
  which shows only in the order of job ids of the same numeric value (01 and 1).

  Not modelled: CPython's limits on digits and nesting, interpolated parts of exception messages,
  backends without claims or fencing; the file-system calls of remote programs (descriptors, symbolic links, fsync);
  the start-up, sockets, deadlines and status receipt of the broker daemon; the ssh connection (\<open>connection.py\<close>) and the MCP
  server (\<open>server.py\<close>), which are process control and formatting around the parts above; billing reports; configuration, workspace, transfer and
  queue tools, which build command lines; the shell scripts that move a run between storage tiers.
\<close>

end
